(* ===== verification/Prelude.thy ===== *)
theory Prelude
  imports Main "HOL-Library.Word"
begin

text \<open>
  The shared vocabulary of the development: the machine-integer types of the C code, the object
  representation of multi-byte integers on the little-endian hosts TunD is released for (x86-64
  and arm64), the byte-order conversions of the socket API, buffers as byte lists, and the generic
  lemmas on lists and words that the component theories use.

  A buffer argument \<open>(uint8_t *buf, int len)\<close> is the list of its \<open>len\<close> valid bytes.
\<close>

unbundle bit_operations_syntax

type_synonym u8 = "8 word"
type_synonym u16 = "16 word"
type_synonym u32 = "32 word"
type_synonym u64 = "64 word"
type_synonym bytes = "u8 list"

text \<open>
  \<open>frame\<close> collects the facts saying which parts of a state an operation leaves alone,
  \<open>len_simps\<close> the lengths of the byte lists the operations produce, and \<open>wf_intros\<close> the facts
  saying that an operation keeps a well-formedness invariant.
\<close>

named_theorems frame
named_theorems len_simps
named_theorems wf_intros

section \<open>Object representation and byte order\<close>

definition mem_of_u16 :: "u16 \<Rightarrow> bytes" where
  "mem_of_u16 x = [ucast x, ucast (drop_bit 8 x)]"

definition u16_of_mem :: "bytes \<Rightarrow> u16" where
  "u16_of_mem s = ucast (s ! 0) OR push_bit 8 (ucast (s ! 1))"

definition mem_of_u32 :: "u32 \<Rightarrow> bytes" where
  "mem_of_u32 x = [ucast x, ucast (drop_bit 8 x), ucast (drop_bit 16 x), ucast (drop_bit 24 x)]"

definition u32_of_mem :: "bytes \<Rightarrow> u32" where
  "u32_of_mem s = ucast (s ! 0) OR push_bit 8 (ucast (s ! 1)) OR
     push_bit 16 (ucast (s ! 2)) OR push_bit 24 (ucast (s ! 3))"

definition u64_of_mem :: "bytes \<Rightarrow> u64" where
  "u64_of_mem s = ucast (u32_of_mem s) OR push_bit 32 (ucast (u32_of_mem (drop 4 s)))"

definition htonl :: "u32 \<Rightarrow> u32" where
  "htonl x = u32_of_mem (rev (mem_of_u32 x))"

definition ntohl :: "u32 \<Rightarrow> u32" where
  "ntohl x = u32_of_mem (rev (mem_of_u32 x))"

definition htons :: "u16 \<Rightarrow> u16" where
  "htons x = u16_of_mem (rev (mem_of_u16 x))"

definition ntohs :: "u16 \<Rightarrow> u16" where
  "ntohs x = u16_of_mem (rev (mem_of_u16 x))"

text \<open>
  Bytes of a word in big-endian order, \<open>n\<close> of them: what the C code writes with a descending
  loop of masks and right shifts.
\<close>

fun be_bytes :: "nat \<Rightarrow> 'a::len word \<Rightarrow> bytes" where
  "be_bytes 0 x = []"
| "be_bytes (Suc n) x = be_bytes n (drop_bit 8 x) @ [ucast (x AND 0xFF)]"

fun be_word :: "'a::len word \<Rightarrow> bytes \<Rightarrow> 'a word" where
  "be_word acc [] = acc"
| "be_word acc (b # bs) = be_word (push_bit 8 acc OR ucast b) bs"

section \<open>Buffers\<close>

text \<open>\<open>memcpy(buf + off, src, n)\<close> for a range inside the buffer.\<close>

definition memcpy_at :: "nat \<Rightarrow> 'a list \<Rightarrow> 'a list \<Rightarrow> 'a list" where
  "memcpy_at off src buf = take off buf @ src @ drop (off + length src) buf"

text \<open>The bytes \<open>buf[off .. off + n)\<close>.\<close>

definition slice :: "nat \<Rightarrow> nat \<Rightarrow> 'a list \<Rightarrow> 'a list" where
  "slice off n buf = take n (drop off buf)"

section \<open>Searching a table\<close>

text \<open>
  The index a loop \<open>for (i = 0; i < N; i++) if (P(t[i])) return i; return -1;\<close> returns, \<open>None\<close>
  for \<open>-1\<close>.
\<close>

fun first_idx :: "('a \<Rightarrow> bool) \<Rightarrow> 'a list \<Rightarrow> nat option" where
  "first_idx P [] = None"
| "first_idx P (x # xs) = (if P x then Some 0 else map_option Suc (first_idx P xs))"

lemma first_idx_Some:
  "first_idx P xs = Some i \<Longrightarrow> i < length xs \<and> P (xs ! i) \<and> (\<forall>j < i. \<not> P (xs ! j))"
proof (induction xs arbitrary: i)
  case (Cons x xs)
  show ?case
  proof (cases "P x")
    case False
    with Cons.prems obtain k where k: "first_idx P xs = Some k" "i = Suc k" by auto
    with Cons.IH [OF k(1)] False show ?thesis by (auto simp: less_Suc_eq_0_disj nth_Cons')
  qed (use Cons.prems in auto)
qed simp

lemma first_idx_None [simp]: "first_idx P xs = None \<longleftrightarrow> (\<forall>x \<in> set xs. \<not> P x)"
  by (induction xs) auto

lemma first_idx_None_nth: "first_idx P xs = None \<Longrightarrow> i < length xs \<Longrightarrow> \<not> P (xs ! i)"
  by (simp add: first_idx_None)

lemma first_idx_SomeI:
  assumes "i < length xs" "P (xs ! i)"
  shows "\<exists>j. first_idx P xs = Some j"
proof (cases "first_idx P xs")
  case None
  from first_idx_None_nth [OF None assms(1)] assms(2) show ?thesis by simp
qed blast

lemma first_idx_unique:
  assumes "i < length xs" "P (xs ! i)"
    and "\<And>j. j < length xs \<Longrightarrow> P (xs ! j) \<Longrightarrow> j = i"
  shows "first_idx P xs = Some i"
proof -
  obtain j where j: "first_idx P xs = Some j"
    using first_idx_SomeI [of i xs P] assms(1,2) by blast
  with first_idx_Some [OF j] assms(3) show ?thesis by blast
qed

lemma first_idx_cong:
  "length xs = length ys \<Longrightarrow> (\<And>i. i < length xs \<Longrightarrow> P (xs ! i) = Q (ys ! i))
    \<Longrightarrow> first_idx P xs = first_idx Q ys"
proof (induction xs ys rule: list_induct2')
  case (4 x xs y ys)
  have "P x = Q y" using "4.prems"(2) [of 0] by simp
  moreover have "first_idx P xs = first_idx Q ys"
    using "4.prems"(1) "4.prems"(2) [of "Suc i" for i] by (intro "4.IH") auto
  ultimately show ?case by simp
qed auto

section \<open>Counting\<close>

definition count_if :: "('a \<Rightarrow> bool) \<Rightarrow> 'a list \<Rightarrow> nat" where
  "count_if P xs = length (filter P xs)"

lemma count_if_simps [simp]:
  "count_if P [] = 0"
  "count_if P (x # xs) = (if P x then Suc (count_if P xs) else count_if P xs)"
  "count_if P (xs @ ys) = count_if P xs + count_if P ys"
  by (simp_all add: count_if_def)

lemma count_if_le_length: "count_if P xs \<le> length xs"
  by (simp add: count_if_def)

lemma count_if_update:
  "i < length xs \<Longrightarrow>
   count_if P (xs[i := x]) + (if P (xs ! i) then 1 else 0) = count_if P xs + (if P x then 1 else 0)"
proof (induction xs arbitrary: i)
  case (Cons y ys)
  show ?case
  proof (cases i)
    case (Suc j)
    with Cons.prems have "j < length ys" by simp
    from Cons.IH [OF this] Suc show ?thesis by (auto split: if_splits)
  qed auto
qed simp

lemma count_if_pos: "i < length xs \<Longrightarrow> P (xs ! i) \<Longrightarrow> 0 < count_if P xs"
  by (auto simp: count_if_def length_greater_0_conv filter_empty_conv)

lemma count_if_update_same:
  "(i < length xs \<Longrightarrow> P x = P (xs ! i)) \<Longrightarrow> count_if P (xs[i := x]) = count_if P xs"
  using count_if_update [of i xs P x]
  by (cases "i < length xs") (auto simp: list_update_beyond split: if_splits)

lemma count_if_replicate [simp]: "count_if P (replicate n x) = (if P x then n else 0)"
  by (induction n) auto

section \<open>Lemmas on words and bytes\<close>

lemma length_mem_of [simp, len_simps]:
  "length (mem_of_u16 y) = 2" "length (mem_of_u32 x) = 4"
  by (simp_all add: mem_of_u16_def mem_of_u32_def)

lemma length4_conv: "length s = 4 \<longleftrightarrow> (\<exists>a b c d. s = [a, b, c, d])"
  by (auto simp: numeral_eq_Suc length_Suc_conv)

lemma length2_conv: "length s = 2 \<longleftrightarrow> (\<exists>a b. s = [a, b])"
  by (auto simp: numeral_eq_Suc length_Suc_conv)

lemma u32_of_mem_of_u32 [simp]: "u32_of_mem (mem_of_u32 x) = x"
proof (rule bit_word_eqI)
  fix n assume "n < LENGTH(32)"
  then consider "n < 8" | "8 \<le> n" "n < 16" | "16 \<le> n" "n < 24" | "24 \<le> n" "n < 32"
    by fastforce
  then show "bit (u32_of_mem (mem_of_u32 x)) n = bit x n"
    by cases (auto simp: u32_of_mem_def mem_of_u32_def bit_simps)
qed

lemma u16_of_mem_of_u16 [simp]: "u16_of_mem (mem_of_u16 x) = x"
proof (rule bit_word_eqI)
  fix n assume "n < LENGTH(16)"
  then consider "n < 8" | "8 \<le> n" "n < 16" by fastforce
  then show "bit (u16_of_mem (mem_of_u16 x)) n = bit x n"
    by cases (auto simp: u16_of_mem_def mem_of_u16_def bit_simps)
qed

lemma byte_of_or_shift:
  "n < 8 \<Longrightarrow> \<not> bit (b :: u8) (n + 8)" "n < 8 \<Longrightarrow> \<not> bit (b :: u8) (8 + n)"
  by (auto dest: bit_imp_le_length)

lemma mem_of_u32_of_mem:
  assumes "length s = 4"
  shows "mem_of_u32 (u32_of_mem s) = s"
proof -
  obtain a b c d where s: "s = [a, b, c, d]" using assms length4_conv by metis
  show ?thesis unfolding s mem_of_u32_def u32_of_mem_def
    by (simp, intro conjI; rule bit_word_eqI; simp add: bit_simps; auto dest: bit_imp_le_length)
qed

lemma mem_of_u16_of_mem:
  assumes "length s = 2"
  shows "mem_of_u16 (u16_of_mem s) = s"
proof -
  obtain a b where s: "s = [a, b]" using assms length2_conv by metis
  show ?thesis unfolding s mem_of_u16_def u16_of_mem_def
    by (simp, intro conjI; rule bit_word_eqI; simp add: bit_simps; auto dest: bit_imp_le_length)
qed

lemma mem_of_u32_inject [simp]: "mem_of_u32 x = mem_of_u32 y \<longleftrightarrow> x = y"
  by (metis u32_of_mem_of_u32)

lemma u32_of_mem_inject:
  "length s = 4 \<Longrightarrow> length t = 4 \<Longrightarrow> u32_of_mem s = u32_of_mem t \<longleftrightarrow> s = t"
  by (metis mem_of_u32_of_mem)

lemma ntohl_htonl [simp]: "ntohl (htonl x) = x"
  by (simp add: ntohl_def htonl_def mem_of_u32_of_mem)

lemma htonl_ntohl [simp]: "htonl (ntohl x) = x"
  by (simp add: ntohl_def htonl_def mem_of_u32_of_mem)

lemma ntohs_htons [simp]: "ntohs (htons x) = x"
  by (simp add: ntohs_def htons_def mem_of_u16_of_mem)

lemma htons_ntohs [simp]: "htons (ntohs x) = x"
  by (simp add: ntohs_def htons_def mem_of_u16_of_mem)

lemma htonl_eq_iff [simp]: "htonl x = htonl y \<longleftrightarrow> x = y"
  by (metis ntohl_htonl)

lemma ntohl_eq_iff [simp]: "ntohl x = ntohl y \<longleftrightarrow> x = y"
  by (metis htonl_ntohl)

lemma eq_htonl_iff: "x = htonl y \<longleftrightarrow> ntohl x = y"
  by (metis htonl_ntohl ntohl_htonl)

lemma length_be_bytes [simp, len_simps]: "length (be_bytes n x) = n"
  by (induction n arbitrary: x) auto

lemma be_word_append: "be_word acc (xs @ ys) = be_word (be_word acc xs) ys"
  by (induction xs arbitrary: acc) auto

lemma push_drop_byte: "push_bit 8 (drop_bit 8 x) OR (x AND 0xFF) = (x :: 'a::len word)"
proof -
  have "x AND 0xFF = take_bit 8 x"
    by (simp add: take_bit_eq_mask mask_numeral)
  then show ?thesis
    by (intro bit_word_eqI) (auto simp: bit_simps)
qed

lemma mask_eq_255: "(mask 8 :: 'a::len word) = 0xFF"
  by (simp add: mask_numeral)

lemma ucast_ucast_byte:
  "8 \<le> LENGTH('a) \<Longrightarrow> ucast (ucast (x AND 0xFF) :: u8) = (x AND 0xFF :: 'a::len word)"
  by (rule bit_word_eqI) (auto simp: bit_simps take_bit_eq_mask [symmetric] mask_eq_255 [symmetric])

lemma be_word_be_bytes_zero:
  assumes "8 \<le> LENGTH('a)" and "drop_bit (8 * n) x = (0 :: 'a::len word)"
  shows "be_word 0 (be_bytes n x) = x"
  using assms(2)
proof (induction n arbitrary: x)
  case (Suc n)
  then have "drop_bit (8 * n) (drop_bit 8 x) = 0" by (simp add: add.commute)
  then have "be_word 0 (be_bytes n (drop_bit 8 x)) = drop_bit 8 x" by (rule Suc.IH)
  then show ?case
    by (simp add: be_word_append ucast_ucast_byte [OF assms(1)] push_drop_byte)
qed simp

lemma be_word_be_bytes:
  assumes "LENGTH('a::len) = 8 * n" "0 < n"
  shows "be_word 0 (be_bytes n x) = (x :: 'a word)"
proof (rule be_word_be_bytes_zero)
  show "8 \<le> LENGTH('a)" using assms by simp
  show "drop_bit (8 * n) x = 0"
    by (rule bit_word_eqI) (auto simp: bit_simps assms(1) [symmetric] dest: bit_imp_le_length)
qed

lemma be64_roundtrip [simp]: "be_word 0 (be_bytes 8 (x :: u64)) = x"
  by (rule be_word_be_bytes) simp_all

lemma be_word_bound:
  "8 * length bs \<le> n \<Longrightarrow> \<not> bit (be_word 0 bs :: 'a::len word) n"
proof (induction bs arbitrary: n rule: rev_induct)
  case (snoc b bs)
  then have "8 \<le> n" "8 * length bs \<le> n - 8" by auto
  with snoc.IH [of "n - 8"] show ?case
    by (auto simp: be_word_append bit_simps dest: bit_imp_le_length)
qed simp

lemma be_bytes_be_word:
  "8 * length bs \<le> LENGTH('a) \<Longrightarrow> be_bytes (length bs) (be_word 0 bs :: 'a::len word) = bs"
proof (induction bs rule: rev_induct)
  case (snoc b bs)
  let ?w = "be_word 0 bs :: 'a word"
  have "drop_bit 8 (push_bit 8 ?w OR ucast b) = ?w"
  proof (rule bit_word_eqI)
    fix n assume "n < LENGTH('a)"
    show "bit (drop_bit 8 (push_bit 8 ?w OR ucast b)) n = bit ?w n"
      using be_word_bound [of bs n, where 'a = 'a] snoc.prems
      by (cases "8 * length bs \<le> n") (auto simp: bit_simps dest: bit_imp_le_length)
  qed
  moreover have "ucast ((push_bit 8 ?w OR ucast b) AND 0xFF) = b"
    using snoc.prems
    by (intro bit_word_eqI) (auto simp: bit_simps mask_eq_255 [symmetric] dest: bit_imp_le_length)
  ultimately show ?case using snoc by (simp add: be_word_append)
qed simp

lemma unat_drop_bit_div: "unat (drop_bit n w) = unat w div 2 ^ n"
  by (simp only: unat_drop_bit_eq drop_bit_nat_def)

lemma unat_take_bit_mod: "unat (take_bit n w) = unat w mod 2 ^ n"
  by (simp only: unsigned_take_bit_eq take_bit_nat_def)

section \<open>Lemmas on buffers\<close>

lemma length_memcpy_at [simp, len_simps]:
  "off + length src \<le> length buf \<Longrightarrow> length (memcpy_at off src buf) = length buf"
  by (simp add: memcpy_at_def)

lemma length_slice [simp, len_simps]: "off + n \<le> length buf \<Longrightarrow> length (slice off n buf) = n"
  by (simp add: slice_def)

lemma slice_memcpy_at_same [simp]:
  "off + length src \<le> length buf \<Longrightarrow> n = length src \<Longrightarrow> slice off n (memcpy_at off src buf) = src"
  by (simp add: slice_def memcpy_at_def)

lemma nth_memcpy_at:
  "off + length src \<le> length buf \<Longrightarrow> i < length buf \<Longrightarrow>
   memcpy_at off src buf ! i = (if off \<le> i \<and> i < off + length src then src ! (i - off) else buf ! i)"
  by (auto simp: memcpy_at_def nth_append)

lemma slice_conv_map: "off + n \<le> length buf \<Longrightarrow> slice off n buf = map (\<lambda>i. buf ! (off + i)) [0..<n]"
  by (rule nth_equalityI) (auto simp: slice_def)

lemma slice_append1 [simp]: "off + n \<le> length xs \<Longrightarrow> slice off n (xs @ ys) = slice off n xs"
  by (simp add: slice_def)

lemma slice_append2: "length xs \<le> off \<Longrightarrow> slice off n (xs @ ys) = slice (off - length xs) n ys"
  by (simp add: slice_def)

lemma slice_all [simp]: "slice 0 (length xs) xs = xs"
  by (simp add: slice_def)

lemma slice_take: "off + n \<le> k \<Longrightarrow> slice off n (take k xs) = slice off n xs"
  by (simp add: slice_def drop_take)

end
