(* ===== verification/C_Lib.thy ===== *)
theory C_Lib
  imports Prelude
begin

text \<open>
  What the sources use of the C standard library on strings: NUL-terminated character arrays as
  byte lists, the bounded copies \<open>strncpy\<close> and \<open>snprintf(dst, size, "%s", s)\<close>, and the integer
  conversions of the \<open>printf\<close> family that the program's messages use. A character array
  \<open>char a[N]\<close> is a byte list of length \<open>N\<close>; a formatted C string is the list of its bytes
  without the terminating NUL.
\<close>

text \<open>A string literal, as bytes.\<close>

definition lit :: "string \<Rightarrow> bytes" where
  "lit s = map of_char s"

definition c_str :: "bytes \<Rightarrow> bytes" where
  "c_str a = takeWhile (\<lambda>b. b \<noteq> 0) a"

definition c_strlen :: "bytes \<Rightarrow> nat" where
  "c_strlen a = length (c_str a)"

text \<open>Reading an array as a C string stays inside the array only if it holds a NUL.\<close>

definition terminated :: "bytes \<Rightarrow> bool" where
  "terminated a \<longleftrightarrow> 0 \<in> set a"

definition strncpy :: "bytes \<Rightarrow> bytes \<Rightarrow> nat \<Rightarrow> bytes" where
  "strncpy dst src n = take n (c_str src @ replicate n 0) @ drop n dst"

definition snprintf :: "bytes \<Rightarrow> nat \<Rightarrow> bytes \<Rightarrow> bytes" where
  "snprintf dst sz s =
     (if sz = 0 then dst
      else take (sz - 1) s @ [0] @ drop (min (sz - 1) (length s) + 1) dst)"

text \<open>\<open>char a[n] = "";\<close>\<close>

abbreviation zeros :: "nat \<Rightarrow> bytes" where
  "zeros n \<equiv> replicate n 0"

section \<open>Integer conversions\<close>

definition digit :: "nat \<Rightarrow> u8" where
  "digit d = of_nat (if d < 10 then 48 + d else 87 + d)"

definition digit_upper :: "nat \<Rightarrow> u8" where
  "digit_upper d = of_nat (if d < 10 then 48 + d else 55 + d)"

fun fmt_u :: "nat \<Rightarrow> bytes" where
  "fmt_u n = (if n < 10 then [digit n] else fmt_u (n div 10) @ [digit (n mod 10)])"

declare fmt_u.simps [simp del]

definition fmt_d :: "int \<Rightarrow> bytes" where
  "fmt_d i = (if i < 0 then lit ''-'' @ fmt_u (nat (- i)) else fmt_u (nat i))"

text \<open>Zero padding to a minimum width, \<open>%02d\<close> and \<open>%03d\<close>; the sign comes first.\<close>

definition zpad :: "nat \<Rightarrow> bytes \<Rightarrow> bytes" where
  "zpad w s = replicate (w - length s) (digit 0) @ s"

definition fmt_zd :: "nat \<Rightarrow> int \<Rightarrow> bytes" where
  "fmt_zd w i = (if i < 0 then lit ''-'' @ zpad (w - 1) (fmt_u (nat (- i))) else zpad w (fmt_u (nat i)))"

definition fmt_02X :: "u8 \<Rightarrow> bytes" where
  "fmt_02X b = [digit_upper (unat b div 16), digit_upper (unat b mod 16)]"

definition fmt_04x_byte :: "u8 \<Rightarrow> bytes" where
  "fmt_04x_byte b = lit ''00'' @ [digit (unat b div 16), digit (unat b mod 16)]"

text \<open>\<open>inet_ntop(AF_INET, ..)\<close>: the four bytes of the address in memory order, dotted.\<close>

definition inet_ntop :: "u32 \<Rightarrow> bytes" where
  "inet_ntop a =
     (let m = mem_of_u32 a in
      fmt_u (unat (m ! 0)) @ lit ''.'' @ fmt_u (unat (m ! 1)) @ lit ''.'' @
      fmt_u (unat (m ! 2)) @ lit ''.'' @ fmt_u (unat (m ! 3)))"

section \<open>Lemmas\<close>

lemma length_lit [simp, len_simps]: "length (lit s) = length s"
  by (simp add: lit_def)

lemma lit_Nil [simp]: "lit [] = []" and lit_Cons: "lit (c # s) = of_char c # lit s"
  by (simp_all add: lit_def)

lemma length_strncpy [simp, len_simps]: "n \<le> length dst \<Longrightarrow> length (strncpy dst src n) = length dst"
  by (simp add: strncpy_def)

lemma length_snprintf [simp, len_simps]:
  "0 < sz \<Longrightarrow> sz \<le> length dst \<Longrightarrow> length (snprintf dst sz s) = length dst"
  by (auto simp: snprintf_def min_def)

lemma c_str_no_nul [simp]: "0 \<notin> set (c_str a)"
  by (auto simp: c_str_def dest: set_takeWhileD)

lemma c_str_append_nul [simp]: "0 \<notin> set s \<Longrightarrow> c_str (s @ 0 # t) = s"
  unfolding c_str_def by (subst takeWhile_append2) auto

lemma c_str_idem: "0 \<notin> set s \<Longrightarrow> c_str s = s"
  unfolding c_str_def by (subst takeWhile_eq_all_conv) auto

lemma c_str_append_zeros [simp]: "0 \<notin> set s \<Longrightarrow> c_str (s @ zeros n) = s"
  by (cases n) (auto simp: c_str_idem)

lemma c_str_zeros [simp]: "c_str (zeros n) = []"
  by (cases n) (auto simp: c_str_def)

lemma c_str_pad: "c_str (a @ zeros n) = c_str a"
proof (induction a)
  case Nil
  then show ?case using c_str_zeros by (simp add: c_str_def)
qed (simp add: c_str_def)

lemma take_no_nul: "0 \<notin> set s \<Longrightarrow> 0 \<notin> set (take n s)"
  by (auto dest: in_set_takeD)

lemma c_str_snprintf:
  "0 < sz \<Longrightarrow> 0 \<notin> set s \<Longrightarrow> c_str (snprintf dst sz s) = take (sz - 1) s"
  by (simp add: snprintf_def take_no_nul)

lemma terminated_snprintf: "0 < sz \<Longrightarrow> terminated (snprintf dst sz s)"
  by (simp add: snprintf_def terminated_def)

lemma c_strlen_snprintf:
  "0 < sz \<Longrightarrow> 0 \<notin> set s \<Longrightarrow> c_strlen (snprintf dst sz s) \<le> sz - 1"
  by (simp add: c_strlen_def c_str_snprintf)

lemma terminated_c_strlen: "terminated a \<Longrightarrow> c_strlen a < length a"
proof -
  assume "terminated a"
  then obtain xs ys where "a = xs @ 0 # ys" "0 \<notin> set xs"
    unfolding terminated_def by (meson split_list_first)
  then show ?thesis by (simp add: c_strlen_def)
qed

lemma terminated_iff_strlen: "terminated a \<longleftrightarrow> c_strlen a < length a"
proof
  assume lt: "c_strlen a < length a"
  show "terminated a"
  proof (rule ccontr)
    assume "\<not> terminated a"
    then have "c_str a = a" by (simp add: terminated_def c_str_idem)
    with lt show False by (simp add: c_strlen_def)
  qed
qed (rule terminated_c_strlen)

lemma strncpy_zeros:
  assumes "n < length dst" "drop n dst = zeros (length dst - n)"
  shows "c_str (strncpy dst src n) = take n (c_str src)"
proof -
  have "strncpy dst src n = take n (c_str src) @ zeros (n - length (c_str src)) @ zeros (length dst - n)"
    using assms by (simp add: strncpy_def)
  also have "\<dots> = take n (c_str src) @ zeros (n - length (c_str src) + (length dst - n))"
    by (simp add: replicate_add)
  finally show ?thesis by (simp add: take_no_nul)
qed

lemma strncpy_terminated:
  assumes "n < length dst" "drop n dst = zeros (length dst - n)"
  shows "terminated (strncpy dst src n)"
  using assms by (auto simp: strncpy_def terminated_def)

lemma c_str_nth_ne: "i < c_strlen a \<Longrightarrow> a ! i \<noteq> 0"
  unfolding c_strlen_def c_str_def by (metis (full_types) nth_mem set_takeWhileD takeWhile_nth)

text \<open>Array contents seen through the first NUL: the rest of the array is zero.\<close>

definition name_array :: "nat \<Rightarrow> bytes \<Rightarrow> bytes" where
  "name_array n s = s @ zeros (n - length s)"

lemma name_array_props:
  "length s < n \<Longrightarrow> length (name_array n s) = n"
  "length s < n \<Longrightarrow> 0 \<notin> set s \<Longrightarrow> c_str (name_array n s) = s"
  "length s < n \<Longrightarrow> terminated (name_array n s)"
  by (auto simp: name_array_def terminated_def)

lemma snprintf_zeros:
  assumes "0 < n" "length s < n" shows "snprintf (zeros n) n s = name_array n s"
proof -
  have "zeros (n - length s) = 0 # zeros (n - Suc (length s))"
    using assms by (cases "n - length s") (auto simp: Suc_diff_Suc)
  then show ?thesis
    using assms by (auto simp: snprintf_def name_array_def min_def)
qed

end
