(* ===== verification/Monocypher_Util.thy ===== *)
theory Monocypher_Util
  imports C_Lib
begin

text \<open>
  The utilities of the vendored Monocypher source (\<open>third_party/monocypher/monocypher.c\<close>) that
  the transport encryption rests on: little-endian loads and stores, rotations, alignment gaps
  and the constant-time comparison of 16-byte tags. Sizes and indices (\<open>size_t\<close>) are natural
  numbers; every one of them is below 2048 in TunD. \<open>crypto_wipe\<close> zeroes locals that are never
  read again and has no effect on the values modelled here.
\<close>

definition gap :: "nat \<Rightarrow> nat \<Rightarrow> nat" where
  "gap x pow_2 = unat ((NOT (of_nat x :: u64) + 1) AND (of_nat pow_2 - 1))"

definition load32_le :: "bytes \<Rightarrow> u32" where
  "load32_le s = push_bit 0 (ucast (s ! 0)) OR push_bit 8 (ucast (s ! 1)) OR
     push_bit 16 (ucast (s ! 2)) OR push_bit 24 (ucast (s ! 3))"

definition load64_le :: "bytes \<Rightarrow> u64" where
  "load64_le s = ucast (load32_le s) OR push_bit 32 (ucast (load32_le (drop 4 s)))"

definition store32_le :: "u32 \<Rightarrow> bytes" where
  "store32_le x = [ucast x, ucast (drop_bit 8 x), ucast (drop_bit 16 x), ucast (drop_bit 24 x)]"

definition store64_le :: "u64 \<Rightarrow> bytes" where
  "store64_le x = store32_le (ucast x) @ store32_le (ucast (drop_bit 32 x))"

definition load32_le_buf :: "bytes \<Rightarrow> nat \<Rightarrow> u32 list" where
  "load32_le_buf src sz = map (\<lambda>i. load32_le (drop (i * 4) src)) [0..<sz]"

definition load64_le_buf :: "bytes \<Rightarrow> nat \<Rightarrow> u64 list" where
  "load64_le_buf src sz = map (\<lambda>i. load64_le (drop (i * 8) src)) [0..<sz]"

definition store32_le_buf :: "u32 list \<Rightarrow> nat \<Rightarrow> bytes" where
  "store32_le_buf src sz = concat (map (\<lambda>i. store32_le (src ! i)) [0..<sz])"

definition store64_le_buf :: "u64 list \<Rightarrow> nat \<Rightarrow> bytes" where
  "store64_le_buf src sz = concat (map (\<lambda>i. store64_le (src ! i)) [0..<sz])"

definition rotr64 :: "u64 \<Rightarrow> nat \<Rightarrow> u64" where
  "rotr64 x n = drop_bit n x XOR push_bit (64 - n) x"

definition rotl32 :: "u32 \<Rightarrow> nat \<Rightarrow> u32" where
  "rotl32 x n = push_bit n x XOR drop_bit (32 - n) x"

definition neq0 :: "u64 \<Rightarrow> int" where
  "neq0 diff =
     (let half = drop_bit 32 diff OR ucast (ucast diff :: u32);
          eq0 = 1 AND drop_bit 32 (half - 1)
      in uint eq0 - 1)"

definition x16 :: "bytes \<Rightarrow> bytes \<Rightarrow> u64" where
  "x16 a b = (load64_le a XOR load64_le b) OR (load64_le (drop 8 a) XOR load64_le (drop 8 b))"

definition crypto_verify16 :: "bytes \<Rightarrow> bytes \<Rightarrow> int" where
  "crypto_verify16 a b = neq0 (x16 a b)"

section \<open>Loads and stores\<close>

lemma store32_le_mem: "store32_le x = mem_of_u32 x"
  by (simp add: store32_le_def mem_of_u32_def)

lemma load32_le_mem: "load32_le s = u32_of_mem s"
  by (simp add: load32_le_def u32_of_mem_def)

lemma length_store [simp, len_simps]:
  "length (store32_le x) = 4" "length (store64_le y) = 8"
  by (simp_all add: store32_le_def store64_le_def)

lemma load_store32 [simp]: "load32_le (store32_le x) = x"
  by (simp add: store32_le_mem load32_le_mem)

lemma load32_le_append [simp]: "length s = 4 \<Longrightarrow> load32_le (s @ t) = load32_le s"
  by (simp add: load32_le_def nth_append)

lemma load32_le_take [simp]: "4 \<le> n \<Longrightarrow> load32_le (take n s) = load32_le s"
  by (simp add: load32_le_def)

lemma store_load32: "length s = 4 \<Longrightarrow> store32_le (load32_le s) = s"
  by (simp add: store32_le_mem load32_le_mem mem_of_u32_of_mem)

lemma load32_le_inject:
  assumes "length s = 4" "length t = 4"
  shows "load32_le s = load32_le t \<longleftrightarrow> s = t"
  by (metis assms store_load32)

lemma length_load_buf [simp, len_simps]:
  "length (load32_le_buf s n) = n" "length (load64_le_buf s n) = n"
  by (simp_all add: load32_le_buf_def load64_le_buf_def)

lemma length_concat_const: "(\<And>x. x \<in> set xs \<Longrightarrow> length (f x) = k) \<Longrightarrow> length (concat (map f xs)) = k * length xs"
  by (induction xs) auto

lemma length_store_buf [simp, len_simps]:
  "length (store32_le_buf s n) = 4 * n" "length (store64_le_buf t n) = 8 * n"
  by (simp_all add: store32_le_buf_def store64_le_buf_def length_concat_const)

text \<open>Storing the exclusive or of two words is the bytewise exclusive or.\<close>

lemma store32_le_xor:
  "store32_le (x XOR y) = map2 (XOR) (store32_le x) (store32_le y)"
  unfolding store32_le_def
  by (simp, intro conjI; rule bit_word_eqI; simp add: bit_simps)

lemma store32_le_xor_load:
  "4 \<le> length s \<Longrightarrow> store32_le (x XOR load32_le s) = map2 (XOR) (store32_le x) (take 4 s)"
  by (metis length_take load32_le_take min.absorb2 order_refl store32_le_xor store_load32)

section \<open>Constant-time comparison\<close>

lemma load64_le_eq_iff:
  assumes "length s = 8" "length t = 8"
  shows "load64_le s = load64_le t \<longleftrightarrow> s = t"
proof
  assume eq: "load64_le s = load64_le t"
  have lo: "load32_le s = load32_le t"
  proof (rule bit_word_eqI)
    fix n assume "n < LENGTH(32)"
    with arg_cong [OF eq, of "\<lambda>w. bit w n"] show "bit (load32_le s) n = bit (load32_le t) n"
      by (simp add: load64_le_def bit_simps)
  qed
  have hi: "load32_le (drop 4 s) = load32_le (drop 4 t)"
  proof (rule bit_word_eqI)
    fix n assume n: "n < LENGTH(32)"
    have "\<not> bit (load32_le u) (n + 32)" for u
      by (auto dest: bit_imp_le_length)
    with n arg_cong [OF eq, of "\<lambda>w. bit w (n + 32)"]
    show "bit (load32_le (drop 4 s)) n = bit (load32_le (drop 4 t)) n"
      by (simp add: load64_le_def bit_simps)
  qed
  have "take 4 s = take 4 t"
    using lo assms load32_le_inject [of "take 4 s" "take 4 t"] by simp
  moreover have "drop 4 s = drop 4 t"
    using hi assms load32_le_inject [of "drop 4 s" "drop 4 t"] by simp
  ultimately show "s = t" by (metis append_take_drop_id)
qed simp

lemma neq0_cases: "neq0 d = (if d = 0 then 0 else -1)"
proof -
  define half where "half = drop_bit 32 d OR ucast (ucast d :: u32)"
  have half_lt: "unat half < 2 ^ 32"
  proof -
    have "half = take_bit 32 half"
      unfolding half_def
      by (rule bit_word_eqI) (auto simp: bit_simps dest: bit_imp_le_length)
    then show ?thesis by (metis take_bit_nat_less_exp unsigned_take_bit_eq)
  qed
  have half0: "half = 0 \<longleftrightarrow> d = 0"
  proof
    assume h: "half = 0"
    show "d = 0"
    proof (rule bit_word_eqI)
      fix n assume n: "n < LENGTH(64)"
      from arg_cong [OF h, of "\<lambda>w. bit w n"] arg_cong [OF h, of "\<lambda>w. bit w (n - 32)"] n
      show "bit d n = bit 0 n"
        by (cases "n < 32") (auto simp: half_def bit_simps)
    qed
  qed (simp add: half_def)
  have neq: "neq0 d = uint (1 AND drop_bit 32 (half - 1)) - 1"
    by (simp add: neq0_def half_def Let_def)
  show ?thesis
  proof (cases "half = 0")
    case True
    have "1 AND drop_bit 32 (half - 1) = 1" using True by (simp add: mask_numeral)
    with True half0 neq show ?thesis by simp
  next
    case False
    then have "unat (half - 1) < 2 ^ 32" using half_lt by (simp add: unat_minus_one)
    then have "drop_bit 32 (half - 1) = 0"
      by (simp only: word_unat_eq_iff unat_drop_bit_div) simp
    with False half0 neq show ?thesis by simp
  qed
qed

lemma word_xor_eq_0_iff: "x XOR y = (0 :: 'a::len word) \<longleftrightarrow> x = y"
proof
  assume eq: "x XOR y = 0"
  show "x = y"
  proof (rule bit_word_eqI)
    fix n assume "n < LENGTH('a)"
    with arg_cong [OF eq, of "\<lambda>w. bit w n"] show "bit x n = bit y n"
      by (simp add: bit_simps)
  qed
qed simp

lemma crypto_verify16_correct:
  assumes "length a = 16" "length b = 16"
  shows "crypto_verify16 a b = (if a = b then 0 else -1)"
proof -
  have "x16 a b = 0 \<longleftrightarrow> load64_le a = load64_le b \<and> load64_le (drop 8 a) = load64_le (drop 8 b)"
    by (simp add: x16_def or_eq_0_iff word_xor_eq_0_iff)
  also have "load64_le a = load64_le b \<longleftrightarrow> take 8 a = take 8 b"
  proof -
    have "load64_le s = load64_le (take 8 s)" for s :: bytes
      by (simp add: load64_le_def drop_take)
    with load64_le_eq_iff [of "take 8 a" "take 8 b"] assms show ?thesis by simp
  qed
  also have "load64_le (drop 8 a) = load64_le (drop 8 b) \<longleftrightarrow> drop 8 a = drop 8 b"
    using load64_le_eq_iff [of "drop 8 a" "drop 8 b"] assms by simp
  finally have "x16 a b = 0 \<longleftrightarrow> a = b" by (metis append_take_drop_id)
  then show ?thesis by (simp add: crypto_verify16_def neq0_cases)
qed

section \<open>Alignment gaps\<close>

lemma gap_pow2:
  assumes "k < 64"
  shows "int (gap x (2 ^ k)) = (- int x) mod 2 ^ k"
proof -
  have m: "(of_nat (2 ^ k) - 1 :: u64) = mask k" by (simp add: mask_eq_exp_minus_1)
  have neg: "NOT (of_nat x :: u64) + 1 = word_of_int (- int x)"
    by (simp only: minus_eq_not_plus_1 [symmetric]) simp
  have "int (gap x (2 ^ k)) = uint (take_bit k (word_of_int (- int x) :: u64))"
    unfolding gap_def m neg by (simp only: take_bit_eq_mask uint_nat)
  also have "\<dots> = take_bit k (take_bit 64 (- int x))"
    by (simp only: unsigned_take_bit_eq uint_word_of_int_eq) simp
  also have "\<dots> = (- int x) mod 2 ^ k"
    using assms
    by (simp only: take_bit_int_def mod_mod_cancel [OF le_imp_power_dvd [OF less_imp_le]])
  finally show ?thesis .
qed

lemma gap_pow2_aligns:
  assumes "k < 64"
  shows "(x + gap x (2 ^ k)) mod 2 ^ k = 0" and "gap x (2 ^ k) < 2 ^ k"
proof -
  have "(int x + (- int x) mod 2 ^ k) mod 2 ^ k = 0" by (simp add: mod_simps)
  then have "int ((x + gap x (2 ^ k)) mod 2 ^ k) = 0"
    using gap_pow2 [OF assms, of x] by (simp add: zmod_int)
  then show "(x + gap x (2 ^ k)) mod 2 ^ k = 0" by simp
  have "(- int x) mod 2 ^ k < 2 ^ k" by simp
  then have "int (gap x (2 ^ k)) < int (2 ^ k)" using gap_pow2 [OF assms, of x] by simp
  then show "gap x (2 ^ k) < 2 ^ k" by (simp only: of_nat_less_iff)
qed

end
