(* ===== verification/Poly1305.thy ===== *)
theory Poly1305
  imports Monocypher_Util
begin

text \<open>
  The Poly1305 authenticator of \<open>monocypher.c\<close>: 32-bit limbs with delayed carries, in the widths
  the C code uses (products of two \<open>u32\<close> stay 32 bits wide, products with a \<open>u64\<close> are 64 bits
  wide). A context is the record of its five fields. The second half shows that every
  split of a message into updates authenticates the same message; the theory \<open>Poly1305_Spec\<close> shows
  that the limbs compute the polynomial of RFC 8439 without ever overflowing.
\<close>

record poly1305_ctx =
  poly_c :: bytes
  poly_c_idx :: nat
  poly_r :: "u32 list"
  poly_pad :: "u32 list"
  poly_h :: "u32 list"

text \<open>One iteration of the loop in \<open>poly_blocks\<close>.\<close>

definition poly_block :: "u32 list \<Rightarrow> u32 list \<Rightarrow> bytes \<Rightarrow> u32 \<Rightarrow> u32 list" where
  "poly_block r h inp fin =
     (let r0 = r ! 0; r1 = r ! 1; r2 = r ! 2; r3 = r ! 3;
          rr0 = drop_bit 2 r0 * 5;
          rr1 = drop_bit 2 r1 + r1;
          rr2 = drop_bit 2 r2 + r2;
          rr3 = drop_bit 2 r3 + r3;
          rr4 = r0 AND 3;
          s0 = ucast (h ! 0) + ucast (load32_le inp) :: u64;
          s1 = ucast (h ! 1) + ucast (load32_le (drop 4 inp)) :: u64;
          s2 = ucast (h ! 2) + ucast (load32_le (drop 8 inp)) :: u64;
          s3 = ucast (h ! 3) + ucast (load32_le (drop 12 inp)) :: u64;
          s4 = h ! 4 + fin;
          x0 = s0 * ucast r0 + s1 * ucast rr3 + s2 * ucast rr2 + s3 * ucast rr1 + ucast (s4 * rr0);
          x1 = s0 * ucast r1 + s1 * ucast r0 + s2 * ucast rr3 + s3 * ucast rr2 + ucast (s4 * rr1);
          x2 = s0 * ucast r2 + s1 * ucast r1 + s2 * ucast r0 + s3 * ucast rr3 + ucast (s4 * rr2);
          x3 = s0 * ucast r3 + s1 * ucast r2 + s2 * ucast r1 + s3 * ucast r0 + ucast (s4 * rr3);
          x4 = s4 * rr4;
          u5 = ucast (drop_bit 32 x3) + x4 :: u32;
          u0 = ucast (drop_bit 2 u5 * 5) + (x0 AND 0xffffffff) :: u64;
          u1 = ucast (ucast (drop_bit 32 u0) :: u32) + (x1 AND 0xffffffff) + drop_bit 32 x0;
          u2 = ucast (ucast (drop_bit 32 u1) :: u32) + (x2 AND 0xffffffff) + drop_bit 32 x1;
          u3 = ucast (ucast (drop_bit 32 u2) :: u32) + (x3 AND 0xffffffff) + drop_bit 32 x2;
          u4 = ucast (drop_bit 32 u3) + (u5 AND 3) :: u32
      in [ucast (u0 AND 0xffffffff), ucast (u1 AND 0xffffffff),
          ucast (u2 AND 0xffffffff), ucast (u3 AND 0xffffffff), u4])"

fun poly_blocks_loop :: "u32 list \<Rightarrow> u32 list \<Rightarrow> bytes \<Rightarrow> nat \<Rightarrow> u32 \<Rightarrow> u32 list" where
  "poly_blocks_loop r h inp 0 fin = h"
| "poly_blocks_loop r h inp (Suc n) fin = poly_blocks_loop r (poly_block r h inp fin) (drop 16 inp) n fin"

definition poly_blocks :: "poly1305_ctx \<Rightarrow> bytes \<Rightarrow> nat \<Rightarrow> u32 \<Rightarrow> poly1305_ctx" where
  "poly_blocks ctx inp nb_blocks fin =
     ctx\<lparr>poly_h := poly_blocks_loop (poly_r ctx) (poly_h ctx) inp nb_blocks fin\<rparr>"

definition crypto_poly1305_init :: "bytes \<Rightarrow> poly1305_ctx" where
  "crypto_poly1305_init key =
     (let r = load32_le_buf key 4
      in \<lparr>poly_c = zeros 16, poly_c_idx = 0,
          poly_r = [r ! 0 AND 0x0fffffff, r ! 1 AND 0x0ffffffc, r ! 2 AND 0x0ffffffc, r ! 3 AND 0x0ffffffc],
          poly_pad = load32_le_buf (drop 16 key) 4,
          poly_h = replicate 5 0\<rparr>)"

definition crypto_poly1305_update :: "poly1305_ctx \<Rightarrow> bytes \<Rightarrow> nat \<Rightarrow> poly1305_ctx" where
  "crypto_poly1305_update ctx message message_size =
     (if message_size = 0 then ctx
      else
        let aligned = min (gap (poly_c_idx ctx) 16) message_size;
            ctx = ctx\<lparr>poly_c := memcpy_at (poly_c_idx ctx) (take aligned message) (poly_c ctx),
                      poly_c_idx := poly_c_idx ctx + aligned\<rparr>;
            message = drop aligned message;
            message_size = message_size - aligned;
            ctx = (if poly_c_idx ctx = 16
                   then (poly_blocks ctx (poly_c ctx) 1 1)\<lparr>poly_c_idx := 0\<rparr> else ctx);
            nb_blocks = message_size div 16;
            ctx = poly_blocks ctx message nb_blocks 1;
            message = drop (16 * nb_blocks) message;
            message_size = message_size mod 16
        in ctx\<lparr>poly_c := memcpy_at (poly_c_idx ctx) (take message_size message) (poly_c ctx),
               poly_c_idx := poly_c_idx ctx + message_size\<rparr>)"

fun poly_carry :: "u64 \<Rightarrow> u32 list \<Rightarrow> u64" where
  "poly_carry c [] = c"
| "poly_carry c (h # hs) = poly_carry (drop_bit 32 (c + ucast h)) hs"

fun poly_store_mac :: "u64 \<Rightarrow> (u32 \<times> u32) list \<Rightarrow> bytes" where
  "poly_store_mac c [] = []"
| "poly_store_mac c ((h, pad) # rest) =
     (let c = c + (ucast h + ucast pad)
      in store32_le (ucast c) @ poly_store_mac (drop_bit 32 c) rest)"

definition crypto_poly1305_final :: "poly1305_ctx \<Rightarrow> bytes" where
  "crypto_poly1305_final ctx =
     (let ctx = (if poly_c_idx ctx \<noteq> 0
                 then let c = take (poly_c_idx ctx) (poly_c ctx) @ zeros (16 - poly_c_idx ctx);
                          c = c[poly_c_idx ctx := 1]
                      in poly_blocks (ctx\<lparr>poly_c := c\<rparr>) c 1 0
                 else ctx);
          c = poly_carry 5 (take 4 (poly_h ctx));
          c = c + ucast (poly_h ctx ! 4);
          c = drop_bit 2 c * 5
      in poly_store_mac c (zip (take 4 (poly_h ctx)) (poly_pad ctx)))"

definition crypto_poly1305 :: "bytes \<Rightarrow> nat \<Rightarrow> bytes \<Rightarrow> bytes" where
  "crypto_poly1305 message message_size key =
     crypto_poly1305_final (crypto_poly1305_update (crypto_poly1305_init key) message message_size)"

section \<open>Streaming\<close>

text \<open>
  A context represents the bytes absorbed since its initialisation: the whole blocks are in the
  hash, the rest in the block buffer. Every split of a message into updates represents the same
  message.
\<close>

definition poly_repr :: "bytes \<Rightarrow> poly1305_ctx \<Rightarrow> bytes \<Rightarrow> bool" where
  "poly_repr key ctx m \<longleftrightarrow>
     poly_r ctx = poly_r (crypto_poly1305_init key) \<and>
     poly_pad ctx = poly_pad (crypto_poly1305_init key) \<and>
     poly_h ctx = poly_blocks_loop (poly_r ctx) (replicate 5 0) m (length m div 16) 1 \<and>
     poly_c_idx ctx = length m mod 16 \<and> length (poly_c ctx) = 16 \<and>
     take (poly_c_idx ctx) (poly_c ctx) = drop (16 * (length m div 16)) m"

lemma length_poly_block [simp, len_simps]: "length (poly_block r h inp fin) = 5"
  by (simp add: poly_block_def Let_def)

lemma length_poly_blocks_loop [simp, len_simps]:
  "length h = 5 \<Longrightarrow> length (poly_blocks_loop r h inp n fin) = 5"
  by (induction n arbitrary: h inp) auto

lemma length_poly_store_mac [simp, len_simps]: "length (poly_store_mac c hs) = 4 * length hs"
  by (induction c hs rule: poly_store_mac.induct) (auto simp: Let_def)

lemma poly_block_take:
  assumes "16 \<le> n"
  shows "poly_block r h (take n inp) fin = poly_block r h inp fin"
proof -
  have "load32_le (take n inp) = load32_le inp"
    "load32_le (drop 4 (take n inp)) = load32_le (drop 4 inp)"
    "load32_le (drop 8 (take n inp)) = load32_le (drop 8 inp)"
    "load32_le (drop 12 (take n inp)) = load32_le (drop 12 inp)"
    using assms by (simp_all add: drop_take)
  then show ?thesis unfolding poly_block_def by (simp only:)
qed

lemma poly_blocks_loop_take:
  "16 * n \<le> k \<Longrightarrow> poly_blocks_loop r h (take k inp) n fin = poly_blocks_loop r h inp n fin"
proof (induction n arbitrary: h inp k)
  case (Suc n)
  then show ?case by (simp add: poly_block_take drop_take)
qed simp

lemma poly_blocks_loop_prefix:
  "16 * n \<le> length a \<Longrightarrow> poly_blocks_loop r h (a @ b) n fin = poly_blocks_loop r h a n fin"
  using poly_blocks_loop_take [of n "length a" r h "a @ b" fin] by simp

lemma poly_blocks_loop_add:
  "poly_blocks_loop r h inp (n + k) fin =
   poly_blocks_loop r (poly_blocks_loop r h inp n fin) (drop (16 * n) inp) k fin"
  by (induction n arbitrary: h inp) (simp_all add: add.commute)

lemma div_mod_fit:
  "(l :: nat) mod 16 + a < 16 \<Longrightarrow> (l + a) div 16 = l div 16"
  "l mod 16 + a < 16 \<Longrightarrow> (l + a) mod 16 = l mod 16 + a"
  "l mod 16 + a = 16 \<Longrightarrow> l + a = 16 + 16 * (l div 16)"
proof -
  obtain q r where l: "l = 16 * q + r" "r < 16"
    by (metis mod_less_divisor mult_div_mod_eq zero_less_numeral)
  then show "l mod 16 + a < 16 \<Longrightarrow> (l + a) div 16 = l div 16"
    "l mod 16 + a < 16 \<Longrightarrow> (l + a) mod 16 = l mod 16 + a"
    "l mod 16 + a = 16 \<Longrightarrow> l + a = 16 + 16 * (l div 16)"
    by (simp_all add: add.assoc)
qed

lemma gap16: "i < 16 \<Longrightarrow> gap i 16 = (if i = 0 then 0 else 16 - i)"
proof -
  assume i: "i < 16"
  have "int (gap i 16) = (- int i) mod 16" using gap_pow2 [of 4 i] by simp
  also have "\<dots> = (if i = 0 then 0 else 16 - int i)"
    using i by (auto simp: zmod_zminus1_eq_if)
  finally show ?thesis using i by (auto simp: of_nat_diff split: if_splits)
qed

lemma poly_init_repr [wf_intros]: "poly_repr key (crypto_poly1305_init key) []"
  by (simp add: poly_repr_def crypto_poly1305_init_def Let_def)

text \<open>Absorbing \<open>n\<close> bytes when the block buffer is empty.\<close>

lemma poly_absorb_aligned:
  assumes repr: "poly_repr key ctx m" and idx: "poly_c_idx ctx = 0" and n: "n \<le> length msg"
    and ctx': "ctx' = poly_blocks ctx msg (n div 16) 1"
  shows "poly_repr key
    (ctx'\<lparr>poly_c := memcpy_at 0 (take (n mod 16) (drop (16 * (n div 16)) msg)) (poly_c ctx'),
          poly_c_idx := n mod 16\<rparr>) (m @ take n msg)"
proof -
  let ?q = "length m div 16" and ?k = "n div 16"
  have m16: "length m = 16 * ?q" using repr idx by (auto simp: poly_repr_def)
  have len: "length (m @ take n msg) = 16 * (?q + ?k) + n mod 16"
    using n m16 by simp
  then have dv: "length (m @ take n msg) div 16 = ?q + ?k" and md: "length (m @ take n msg) mod 16 = n mod 16"
    by simp_all
  have "poly_blocks_loop r h0 (m @ take n msg) (?q + ?k) 1 =
        poly_blocks_loop r (poly_blocks_loop r h0 m ?q 1) msg ?k 1" for r h0
  proof -
    have "poly_blocks_loop r h0 (m @ take n msg) ?q 1 = poly_blocks_loop r h0 m ?q 1"
      using m16 by (intro poly_blocks_loop_prefix) simp
    moreover have "drop (16 * ?q) (m @ take n msg) = take n msg" using m16 by simp
    moreover have "poly_blocks_loop r h (take n msg) ?k 1 = poly_blocks_loop r h msg ?k 1" for h
      by (intro poly_blocks_loop_take) simp
    ultimately show ?thesis by (simp only: poly_blocks_loop_add)
  qed
  moreover have "drop (16 * (?q + ?k)) (m @ take n msg) = take (n mod 16) (drop (16 * ?k) msg)"
  proof -
    have "drop (16 * (?q + ?k)) (m @ take n msg) = drop (16 * ?k) (take n msg)"
      using m16 by (simp add: distrib_left)
    also have "\<dots> = take (n - 16 * ?k) (drop (16 * ?k) msg)" by (simp add: drop_take)
    finally show ?thesis by (simp add: minus_mult_div_eq_mod)
  qed
  moreover have tl: "length (take (n mod 16) (drop (16 * ?k) msg)) = n mod 16"
    using n by (simp add: minus_mult_div_eq_mod [symmetric] min.absorb2 diff_le_mono)
  moreover have "length (memcpy_at 0 (take (n mod 16) (drop (16 * ?k) msg)) (poly_c ctx)) = 16"
    using repr tl by (subst length_memcpy_at) (simp_all add: poly_repr_def less_imp_le)
  moreover have "take (n mod 16) (memcpy_at 0 (take (n mod 16) (drop (16 * ?k) msg)) (poly_c ctx)) =
      take (n mod 16) (drop (16 * ?k) msg)"
    unfolding memcpy_at_def using tl by simp
  ultimately show ?thesis
    using repr unfolding poly_repr_def dv md ctx' poly_blocks_def by simp
qed

text \<open>Filling the block buffer up to at most its end.\<close>

lemma poly_absorb_partial:
  assumes repr: "poly_repr key ctx m" and fit: "poly_c_idx ctx + a < 16" and a: "a \<le> length msg"
  shows "poly_repr key (ctx\<lparr>poly_c := memcpy_at (poly_c_idx ctx) (take a msg) (poly_c ctx),
           poly_c_idx := poly_c_idx ctx + a\<rparr>) (m @ take a msg)"
proof -
  let ?q = "length m div 16" and ?i = "length m mod 16"
  have i: "poly_c_idx ctx = ?i" using repr by (simp add: poly_repr_def)
  have len: "length (m @ take a msg) = 16 * ?q + (?i + a)" using a by simp
  have dv: "length (m @ take a msg) div 16 = ?q" and md: "length (m @ take a msg) mod 16 = ?i + a"
    using div_mod_fit(1,2) [of "length m" a] fit a i by simp_all
  have "poly_blocks_loop r h0 (m @ take a msg) ?q 1 = poly_blocks_loop r h0 m ?q 1" for r h0
    by (intro poly_blocks_loop_prefix) simp
  moreover have "drop (16 * ?q) (m @ take a msg) = drop (16 * ?q) m @ take a msg" by simp
  moreover have "length (drop (16 * ?q) m) = ?i" by (simp add: minus_mult_div_eq_mod)
  ultimately show ?thesis
    using repr fit a unfolding poly_repr_def dv md i by (simp add: memcpy_at_def min_def)
qed

lemma poly_absorb_complete:
  assumes repr: "poly_repr key ctx m" and fit: "poly_c_idx ctx + a = 16" and a: "a \<le> length msg"
    and c: "c = memcpy_at (poly_c_idx ctx) (take a msg) (poly_c ctx)"
  shows "poly_repr key ((poly_blocks (ctx\<lparr>poly_c := c, poly_c_idx := 16\<rparr>) c 1 1)\<lparr>poly_c_idx := 0\<rparr>)
           (m @ take a msg)"
proof -
  let ?q = "length m div 16" and ?i = "length m mod 16"
  have i: "poly_c_idx ctx = ?i" using repr by (simp add: poly_repr_def)
  have len: "length (m @ take a msg) = 16 * Suc ?q"
    using div_mod_fit(3) [of "length m" a] a fit i by simp
  have dv: "length (m @ take a msg) div 16 = Suc ?q" and md: "length (m @ take a msg) mod 16 = 0"
    unfolding len by simp_all
  have c': "c = drop (16 * ?q) (m @ take a msg)"
    using repr fit a by (simp add: c poly_repr_def i memcpy_at_def min_def)
  have "poly_blocks_loop r h0 (m @ take a msg) (Suc ?q) 1 =
        poly_block r (poly_blocks_loop r h0 m ?q 1) c 1" for r h0
  proof -
    have "poly_blocks_loop r h0 (m @ take a msg) (?q + 1) 1 =
          poly_blocks_loop r (poly_blocks_loop r h0 (m @ take a msg) ?q 1) c 1 1"
      unfolding c' by (rule poly_blocks_loop_add)
    also have "poly_blocks_loop r h0 (m @ take a msg) ?q 1 = poly_blocks_loop r h0 m ?q 1"
      by (intro poly_blocks_loop_prefix) simp
    finally show ?thesis by simp
  qed
  moreover have "length c = 16" using len c' by simp
  ultimately show ?thesis
    using repr len by (simp add: poly_repr_def dv md poly_blocks_def)
qed

lemma poly_update_repr [wf_intros]:
  assumes repr: "poly_repr key ctx m" and n: "n \<le> length msg"
  shows "poly_repr key (crypto_poly1305_update ctx msg n) (m @ take n msg)"
proof -
  let ?i = "poly_c_idx ctx"
  have i: "?i < 16" and clen: "length (poly_c ctx) = 16" using repr by (auto simp: poly_repr_def)
  have noop: "ctx\<lparr>poly_c := memcpy_at j [] (poly_c ctx), poly_c_idx := poly_c_idx ctx\<rparr> = ctx" for j
    by (cases ctx) (simp add: memcpy_at_def)
  consider (none) "n = 0" | (aligned) "n \<noteq> 0" "?i = 0" | (partial) "n \<noteq> 0" "?i \<noteq> 0" "n < 16 - ?i"
    | (complete) "n \<noteq> 0" "?i \<noteq> 0" "16 - ?i \<le> n"
    by linarith
  then show ?thesis
  proof cases
    case none
    then show ?thesis using repr by (simp add: crypto_poly1305_update_def)
  next
    case aligned
    then have "min (gap ?i 16) n = 0" by (simp add: gap16)
    with aligned show ?thesis
      using poly_absorb_aligned [OF repr aligned(2) n refl]
      by (simp add: crypto_poly1305_update_def Let_def noop poly_blocks_def memcpy_at_def)
  next
    case partial
    then have a: "min (gap ?i 16) n = n" using i by (simp add: gap16)
    have nb: "poly_blocks c msg' 0 1 = c" for c msg' by (simp add: poly_blocks_def)
    have ne: "?i + n \<noteq> 16" using partial i by simp
    have same: "memcpy_at j [] c = c" for j c by (simp add: memcpy_at_def)
    have "crypto_poly1305_update ctx msg n =
        ctx\<lparr>poly_c := memcpy_at ?i (take n msg) (poly_c ctx), poly_c_idx := ?i + n\<rparr>"
      using partial(1) ne unfolding crypto_poly1305_update_def Let_def a by (simp add: nb same)
    with partial i show ?thesis using poly_absorb_partial [OF repr _ n] by simp
  next
    case complete
    let ?a = "16 - ?i"
    have a: "min (gap ?i 16) n = ?a" using complete i by (simp add: gap16)
    have full: "?i + ?a = 16" using i by simp
    have fits: "?a \<le> length msg" using complete n by simp
    let ?c = "memcpy_at ?i (take ?a msg) (poly_c ctx)"
    let ?ctx = "(poly_blocks (ctx\<lparr>poly_c := ?c, poly_c_idx := 16\<rparr>) ?c 1 1)\<lparr>poly_c_idx := 0\<rparr>"
    have r1: "poly_repr key ?ctx (m @ take ?a msg)"
      using poly_absorb_complete [OF repr full fits refl] .
    have tk: "(m @ take ?a msg) @ take (n - ?a) (drop ?a msg) = m @ take n msg"
      using complete by (simp add: take_add [symmetric])
    have r2: "crypto_poly1305_update ctx msg n =
      (let ctx' = poly_blocks ?ctx (drop ?a msg) ((n - ?a) div 16) 1 in
       ctx'\<lparr>poly_c := memcpy_at 0 (take ((n - ?a) mod 16) (drop (16 * ((n - ?a) div 16)) (drop ?a msg)))
               (poly_c ctx'), poly_c_idx := (n - ?a) mod 16\<rparr>)"
      using complete(1) unfolding crypto_poly1305_update_def Let_def a
      by (simp add: full poly_blocks_def)
    show ?thesis
      unfolding r2 Let_def tk [symmetric]
      using n by (intro poly_absorb_aligned [OF r1 _ _ refl]) simp_all
  qed
qed

lemma length_crypto_poly1305_final [simp, len_simps]:
  "poly_repr key ctx m \<Longrightarrow> length (crypto_poly1305_final ctx) = 16"
proof -
  assume r: "poly_repr key ctx m"
  then have "length (poly_h ctx) = 5" "length (poly_pad ctx) = 4"
    by (simp_all add: poly_repr_def crypto_poly1305_init_def Let_def)
  then show ?thesis by (auto simp: crypto_poly1305_final_def poly_blocks_def Let_def)
qed

text \<open>
  Two contexts that represent the same message authenticate it with the same tag: what is left of
  earlier blocks in the buffer behind the fill index is overwritten before it is read.
\<close>

lemma poly_repr_final:
  assumes "poly_repr key c1 m" "poly_repr key c2 m"
  shows "crypto_poly1305_final c1 = crypto_poly1305_final c2"
proof -
  have eqs: "poly_c_idx c1 = poly_c_idx c2" "poly_r c1 = poly_r c2" "poly_pad c1 = poly_pad c2"
    "poly_h c1 = poly_h c2"
    "take (poly_c_idx c2) (poly_c c1) = take (poly_c_idx c2) (poly_c c2)"
    using assms by (auto simp: poly_repr_def)
  then show ?thesis by (simp add: crypto_poly1305_final_def poly_blocks_def Let_def)
qed

end
