(* ===== verification/Poly1305_Spec.thy ===== *)
theory Poly1305_Spec
  imports Poly1305
begin

text \<open>
  Poly1305 as RFC 8439 defines it, with natural numbers, and the proof that the limb arithmetic of
  \<open>monocypher.c\<close> computes it: no product or sum of \<open>poly_blocks\<close> overflows its C type, each block
  multiplies and reduces modulo \<open>2^130 - 5\<close> up to a bounded excess, and \<open>crypto_poly1305_final\<close> removes
  the excess.
\<close>

section \<open>Reference\<close>

fun le_val :: "bytes \<Rightarrow> nat" where
  "le_val [] = 0"
| "le_val (b # bs) = unat b + 256 * le_val bs"

definition poly_p :: nat where
  "poly_p = 2 ^ 130 - 5"

text \<open>The bytes of \<open>r\<close> with the bits cleared that the RFC requires to be clear.\<close>

definition clamp :: "bytes \<Rightarrow> bytes" where
  "clamp k = k[3 := k ! 3 AND 15, 7 := k ! 7 AND 15, 11 := k ! 11 AND 15, 15 := k ! 15 AND 15,
               4 := k ! 4 AND 252, 8 := k ! 8 AND 252, 12 := k ! 12 AND 252]"

function poly_acc :: "nat \<Rightarrow> nat \<Rightarrow> bytes \<Rightarrow> nat" where
  "poly_acc r a m = (if m = [] then a else poly_acc r ((a + le_val (take 16 m @ [1])) * r mod poly_p) (drop 16 m))"
  by pat_completeness auto
termination by (relation "measure (\<lambda>(r, a, m). length m)") auto

declare poly_acc.simps [simp del]

definition poly1305_rfc :: "bytes \<Rightarrow> bytes \<Rightarrow> nat" where
  "poly1305_rfc key m = (poly_acc (le_val (clamp (take 16 key))) 0 m + le_val (slice 16 16 key)) mod 2 ^ 128"

section \<open>Numbers in limbs\<close>

fun limbs :: "u32 list \<Rightarrow> nat" where
  "limbs [] = 0"
| "limbs (x # xs) = unat x + 2 ^ 32 * limbs xs"

lemma le_val_append: "le_val (a @ b) = le_val a + 256 ^ length a * le_val b"
  by (induction a) (simp_all add: algebra_simps)

lemma le_val_bound: "le_val a < 256 ^ length a"
proof (induction a)
  case (Cons b bs)
  have "unat b < 256" using unsigned_less [of b] by simp
  then show ?case using Cons by simp
qed simp

lemma le_val_zeros [simp]: "le_val (zeros n) = 0"
  by (induction n) auto

section \<open>One block\<close>

text \<open>The identity behind the multiplication: \<open>rr\<close> folds the limbs above \<open>2^130\<close> back by a factor of 5.\<close>

lemma poly_product:
  fixes S0 S1 S2 S3 S4 Q0 e Q1 Q2 Q3 :: nat
  defines "R0 \<equiv> 4 * Q0 + e" and "R1 \<equiv> 4 * Q1" and "R2 \<equiv> 4 * Q2" and "R3 \<equiv> 4 * Q3"
  shows "(S0 + 2 ^ 32 * S1 + 2 ^ 64 * S2 + 2 ^ 96 * S3 + 2 ^ 128 * S4) * (R0 + 2 ^ 32 * R1 + 2 ^ 64 * R2 + 2 ^ 96 * R3) =
    (S0 * R0 + S1 * (5 * Q3) + S2 * (5 * Q2) + S3 * (5 * Q1) + S4 * (5 * Q0)) +
    2 ^ 32 * (S0 * R1 + S1 * R0 + S2 * (5 * Q3) + S3 * (5 * Q2) + S4 * (5 * Q1)) +
    2 ^ 64 * (S0 * R2 + S1 * R1 + S2 * R0 + S3 * (5 * Q3) + S4 * (5 * Q2)) +
    2 ^ 96 * (S0 * R3 + S1 * R2 + S2 * R1 + S3 * R0 + S4 * (5 * Q3)) + 2 ^ 128 * (S4 * e) +
    poly_p * (S1 * Q3 + S2 * Q2 + S3 * Q1 + S4 * Q0 + 2 ^ 32 * (S2 * Q3 + S3 * Q2 + S4 * Q1) +
      2 ^ 64 * (S3 * Q3 + S4 * Q2) + 2 ^ 96 * (S4 * Q3))"
  unfolding R0_def R1_def R2_def R3_def poly_p_def by (simp add: algebra_simps)

lemma poly_carries_linear:
  fixes X0 X1 X2 X3 X4 :: nat
  assumes "X0 = 2 ^ 32 * x0 + y0" "X1 = 2 ^ 32 * x1 + y1" "X2 = 2 ^ 32 * x2 + y2" "X3 = 2 ^ 32 * x3 + y3"
    "x3 + X4 = 4 * q + e" "5 * q + y0 = 2 ^ 32 * ca + h0" "ca + y1 + x0 = 2 ^ 32 * cb + h1"
    "cb + y2 + x1 = 2 ^ 32 * cc + h2" "cc + y3 + x2 = 2 ^ 32 * cd + h3"
  shows "X0 + 2 ^ 32 * X1 + 2 ^ 64 * X2 + 2 ^ 96 * X3 + 2 ^ 128 * X4 =
    (h0 + 2 ^ 32 * h1 + 2 ^ 64 * h2 + 2 ^ 96 * h3 + 2 ^ 128 * (cd + e)) + poly_p * q"
  using assms unfolding poly_p_def by simp

lemma poly_carries:
  fixes X0 X1 X2 X3 X4 :: nat
  assumes "u5 = X3 div 2 ^ 32 + X4" "u0 = 5 * (u5 div 4) + X0 mod 2 ^ 32"
    "u1 = u0 div 2 ^ 32 + X1 mod 2 ^ 32 + X0 div 2 ^ 32" "u2 = u1 div 2 ^ 32 + X2 mod 2 ^ 32 + X1 div 2 ^ 32"
    "u3 = u2 div 2 ^ 32 + X3 mod 2 ^ 32 + X2 div 2 ^ 32"
  shows "X0 + 2 ^ 32 * X1 + 2 ^ 64 * X2 + 2 ^ 96 * X3 + 2 ^ 128 * X4 =
    (u0 mod 2 ^ 32 + 2 ^ 32 * (u1 mod 2 ^ 32) + 2 ^ 64 * (u2 mod 2 ^ 32) + 2 ^ 96 * (u3 mod 2 ^ 32) +
     2 ^ 128 * (u3 div 2 ^ 32 + u5 mod 4)) + poly_p * (u5 div 4)"
  by (rule poly_carries_linear [OF mult_div_mod_eq [symmetric] mult_div_mod_eq [symmetric] mult_div_mod_eq [symmetric]
        mult_div_mod_eq [symmetric], where ca = "u0 div 2 ^ 32" and cb = "u1 div 2 ^ 32" and cc = "u2 div 2 ^ 32"])
      (simp_all only: mult_div_mod_eq flip: assms)

text \<open>The same computation on words: every intermediate value fits.\<close>

lemma unat32: "unat (x :: u32) < 2 ^ 32"
  using unsigned_less [of x] by simp

lemma unat_ucast64 [simp]: "unat (ucast (x :: u32) :: u64) = unat x"
  using unat32 [of x] by (simp add: unsigned_ucast_eq take_bit_nat_def)

lemma unat_ucast32: "unat (ucast (x :: u64) :: u32) = unat x mod 2 ^ 32"
  by (simp add: unsigned_ucast_eq take_bit_nat_def)

lemma unat_and32: "unat ((x :: u64) AND 0xffffffff) = unat x mod 2 ^ 32"
proof -
  have "(0xffffffff :: u64) = mask 32" by (simp add: mask_eq_exp_minus_1)
  then show ?thesis by (simp only: take_bit_eq_mask [symmetric] unat_take_bit_mod)
qed

lemma unat_and3: "unat ((x :: u32) AND 3) = unat x mod 4"
proof -
  have "(3 :: u32) = mask 2" by (simp add: mask_eq_exp_minus_1)
  then show ?thesis using unat_take_bit_mod [of 2 x] by (simp only: take_bit_eq_mask [symmetric]) simp
qed

lemma unat_mult32: "unat x * unat y < 2 ^ 32 \<Longrightarrow> unat (x * y :: u32) = unat x * unat y"
  by (simp add: unat_word_ariths)

lemma sum5_u64:
  fixes a0 a1 a2 a3 :: u64 and b0 b1 b2 b3 c :: u32
  assumes "unat a0 * unat b0 + unat a1 * unat b1 + unat a2 * unat b2 + unat a3 * unat b3 + unat c < 2 ^ 64"
  shows "unat (a0 * ucast b0 + a1 * ucast b1 + a2 * ucast b2 + a3 * ucast b3 + ucast c) =
    unat a0 * unat b0 + unat a1 * unat b1 + unat a2 * unat b2 + unat a3 * unat b3 + unat c"
  using assms by (simp add: unat_word_ariths mod_simps)

lemma sum5_bound:
  fixes a0 a1 a2 a3 b0 b1 b2 b3 c :: nat
  assumes "a0 \<le> 2 ^ 33" "a1 \<le> 2 ^ 33" "a2 \<le> 2 ^ 33" "a3 \<le> 2 ^ 33" "b0 \<le> 5 * 2 ^ 26" "b1 \<le> 5 * 2 ^ 26" "b2 \<le> 5 * 2 ^ 26"
    "b3 \<le> 5 * 2 ^ 26" "c < 2 ^ 32"
  shows "a0 * b0 + a1 * b1 + a2 * b2 + a3 * b3 + c < 6 * 2 ^ 61"
  using assms(9) mult_le_mono [OF assms(1,5)] mult_le_mono [OF assms(2,6)] mult_le_mono [OF assms(3,7)] mult_le_mono [OF assms(4,8)]
  by simp

definition r_ok :: "u32 list \<Rightarrow> bool" where
  "r_ok r \<longleftrightarrow> length r = 4 \<and> (\<forall>i < 4. unat (r ! i) < 2 ^ 28) \<and> (\<forall>i \<in> {1, 2, 3}. unat (r ! i) mod 4 = 0)"

lemma rr_val: "unat (x :: u32) < 2 ^ 28 \<Longrightarrow> unat x mod 4 = 0 \<Longrightarrow> unat (drop_bit 2 x + x) = 5 * (unat x div 4)"
proof -
  assume a: "unat x < 2 ^ 28" "unat x mod 4 = 0"
  then have "unat x = 4 * (unat x div 4)" by (metis mult_div_mod_eq add.right_neutral)
  moreover have "unat (drop_bit 2 x + x) = unat x div 4 + unat x"
    using a by (simp add: unat_word_ariths unat_drop_bit_div)
  ultimately show ?thesis by linarith
qed

lemma carry_step:
  fixes x y u :: u64
  assumes "unat x < 6 * 2 ^ 61" "unat u < 2 ^ 34"
  shows "unat (ucast (ucast (drop_bit 32 u) :: u32) + (y AND 0xffffffff) + drop_bit 32 x) =
      unat u div 2 ^ 32 + unat y mod 2 ^ 32 + unat x div 2 ^ 32"
    "unat u div 2 ^ 32 + unat y mod 2 ^ 32 + unat x div 2 ^ 32 < 2 ^ 33"
proof -
  have "unat x div 2 ^ 32 < 6 * 2 ^ 29" "unat u div 2 ^ 32 < 4" "unat y mod 2 ^ 32 < 2 ^ 32" using assms by simp_all
  then show "unat u div 2 ^ 32 + unat y mod 2 ^ 32 + unat x div 2 ^ 32 < 2 ^ 33"
    "unat (ucast (ucast (drop_bit 32 u) :: u32) + (y AND 0xffffffff) + drop_bit 32 x) =
      unat u div 2 ^ 32 + unat y mod 2 ^ 32 + unat x div 2 ^ 32"
    by (simp_all add: unat_word_ariths unat_ucast32 unat_and32 unat_drop_bit_div)
qed

lemma poly_carry_words:
  fixes x0 x1 x2 x3 :: u64 and x4 :: u32
  assumes "unat x0 < 6 * 2 ^ 61" "unat x1 < 6 * 2 ^ 61" "unat x2 < 6 * 2 ^ 61" "unat x3 < 6 * 2 ^ 61" "unat x4 \<le> 15"
  defines "u5 \<equiv> ucast (drop_bit 32 x3) + x4"
  defines "u0 \<equiv> ucast (drop_bit 2 u5 * 5) + (x0 AND 0xffffffff) :: u64"
  defines "u1 \<equiv> ucast (ucast (drop_bit 32 u0) :: u32) + (x1 AND 0xffffffff) + drop_bit 32 x0"
  defines "u2 \<equiv> ucast (ucast (drop_bit 32 u1) :: u32) + (x2 AND 0xffffffff) + drop_bit 32 x1"
  defines "u3 \<equiv> ucast (ucast (drop_bit 32 u2) :: u32) + (x3 AND 0xffffffff) + drop_bit 32 x2"
  shows "unat u5 = unat x3 div 2 ^ 32 + unat x4" "unat u0 = 5 * (unat u5 div 4) + unat x0 mod 2 ^ 32"
    "unat u1 = unat u0 div 2 ^ 32 + unat x1 mod 2 ^ 32 + unat x0 div 2 ^ 32"
    "unat u2 = unat u1 div 2 ^ 32 + unat x2 mod 2 ^ 32 + unat x1 div 2 ^ 32"
    "unat u3 = unat u2 div 2 ^ 32 + unat x3 mod 2 ^ 32 + unat x2 div 2 ^ 32"
    "unat (ucast (drop_bit 32 u3) + (u5 AND 3) :: u32) = unat u3 div 2 ^ 32 + unat u5 mod 4" "unat u3 div 2 ^ 32 \<le> 1"
proof -
  have "unat x3 div 2 ^ 32 < 6 * 2 ^ 29" using assms(4) by simp
  then show u5: "unat u5 = unat x3 div 2 ^ 32 + unat x4"
    using assms(5) by (simp add: u5_def unat_word_ariths unat_ucast32 unat_drop_bit_div)
  then have "5 * (unat u5 div 4) < 2 ^ 32" using assms(4,5) by simp
  then have m5: "unat (drop_bit 2 u5 * 5) = 5 * (unat u5 div 4)" by (simp add: unat_word_ariths unat_drop_bit_div)
  then have u0: "unat u0 = 5 * (unat u5 div 4) + unat x0 mod 2 ^ 32" "unat u0 < 2 ^ 33"
    using unat32 [of "drop_bit 2 u5 * 5"] by (simp_all add: u0_def unat_word_ariths unat_and32)
  note c1 = carry_step [OF assms(1), of u0 x1, folded u1_def]
  have u1: "unat u1 = unat u0 div 2 ^ 32 + unat x1 mod 2 ^ 32 + unat x0 div 2 ^ 32" "unat u1 < 2 ^ 33" using c1 u0(2) by simp_all
  note c2 = carry_step [OF assms(2), of u1 x2, folded u2_def]
  have u2: "unat u2 = unat u1 div 2 ^ 32 + unat x2 mod 2 ^ 32 + unat x1 div 2 ^ 32" "unat u2 < 2 ^ 33" using c2 u1(2) by simp_all
  note c3 = carry_step [OF assms(3), of u2 x3, folded u3_def]
  have u3: "unat u3 = unat u2 div 2 ^ 32 + unat x3 mod 2 ^ 32 + unat x2 div 2 ^ 32" "unat u3 < 2 ^ 33" using c3 u2(2) by simp_all
  show "unat u0 = 5 * (unat u5 div 4) + unat x0 mod 2 ^ 32" by (rule u0)
  show "unat u1 = unat u0 div 2 ^ 32 + unat x1 mod 2 ^ 32 + unat x0 div 2 ^ 32" by (rule u1)
  show "unat u2 = unat u1 div 2 ^ 32 + unat x2 mod 2 ^ 32 + unat x1 div 2 ^ 32" by (rule u2)
  show "unat u3 = unat u2 div 2 ^ 32 + unat x3 mod 2 ^ 32 + unat x2 div 2 ^ 32" by (rule u3)
  show l: "unat u3 div 2 ^ 32 \<le> 1" using u3(2) by simp
  show "unat (ucast (drop_bit 32 u3) + (u5 AND 3) :: u32) = unat u3 div 2 ^ 32 + unat u5 mod 4"
  proof -
    have "unat u3 div 2 ^ 32 + unat u5 mod 4 < 2 ^ 32" using l by simp
    then show ?thesis by (simp add: unat_word_ariths unat_ucast32 unat_and3 unat_drop_bit_div)
  qed
qed

text \<open>The sums of products, as words and as numbers.\<close>

lemma poly_sums:
  fixes inp :: bytes
  assumes "r_ok r" "unat (h ! 4) \<le> 4" "unat fin \<le> 1"
  defines "R i \<equiv> unat (r ! i)" and "Q i \<equiv> unat (r ! i) div 4" and "S i \<equiv> unat (h ! i) + unat (load32_le (drop (4 * i) inp))"
    and "S4 \<equiv> unat (h ! 4) + unat fin"
  defines "sw i \<equiv> (ucast (h ! i) + ucast (load32_le (drop (4 * i) inp)) :: u64)" and "rw i \<equiv> drop_bit 2 (r ! i) + r ! i"
    and "s4w \<equiv> h ! 4 + fin"
  defines "x0 \<equiv> sw 0 * ucast (r ! 0) + sw 1 * ucast (rw 3) + sw 2 * ucast (rw 2) + sw 3 * ucast (rw 1) + ucast (s4w * (drop_bit 2 (r ! 0) * 5))"
    and "x1 \<equiv> sw 0 * ucast (r ! 1) + sw 1 * ucast (r ! 0) + sw 2 * ucast (rw 3) + sw 3 * ucast (rw 2) + ucast (s4w * rw 1)"
    and "x2 \<equiv> sw 0 * ucast (r ! 2) + sw 1 * ucast (r ! 1) + sw 2 * ucast (r ! 0) + sw 3 * ucast (rw 3) + ucast (s4w * rw 2)"
    and "x3 \<equiv> sw 0 * ucast (r ! 3) + sw 1 * ucast (r ! 2) + sw 2 * ucast (r ! 1) + sw 3 * ucast (r ! 0) + ucast (s4w * rw 3)"
  shows "unat x0 = S 0 * R 0 + S 1 * (5 * Q 3) + S 2 * (5 * Q 2) + S 3 * (5 * Q 1) + S4 * (5 * Q 0)"
    "unat x1 = S 0 * R 1 + S 1 * R 0 + S 2 * (5 * Q 3) + S 3 * (5 * Q 2) + S4 * (5 * Q 1)"
    "unat x2 = S 0 * R 2 + S 1 * R 1 + S 2 * R 0 + S 3 * (5 * Q 3) + S4 * (5 * Q 2)"
    "unat x3 = S 0 * R 3 + S 1 * R 2 + S 2 * R 1 + S 3 * R 0 + S4 * (5 * Q 3)"
    "unat (s4w * (r ! 0 AND 3)) = S4 * (R 0 mod 4)" "unat (s4w * (r ! 0 AND 3)) \<le> 15"
    "unat x0 < 6 * 2 ^ 61" "unat x1 < 6 * 2 ^ 61" "unat x2 < 6 * 2 ^ 61" "unat x3 < 6 * 2 ^ 61"
proof -
  have r: "R 0 < 2 ^ 28" "R 1 < 2 ^ 28" "R 2 < 2 ^ 28" "R 3 < 2 ^ 28" "R 1 mod 4 = 0" "R 2 mod 4 = 0" "R 3 mod 4 = 0"
    using assms(1) by (auto simp: r_ok_def R_def)
  have s33: "S i \<le> 2 ^ 33" for i using unat32 [of "h ! i"] unat32 [of "load32_le (drop (4 * i) inp)"] by (simp add: S_def)
  have rr: "unat (rw i) = 5 * Q i" if "i = 1 \<or> i = 2 \<or> i = 3" for i
    using that r unfolding rw_def by (auto simp: R_def Q_def intro!: rr_val)
  have rr0: "unat (drop_bit 2 (r ! 0) * 5) = 5 * Q 0"
    using r(1) by (simp add: unat_word_ariths unat_drop_bit_div Q_def R_def)
  have b: "R i \<le> 5 * 2 ^ 26" "5 * Q i \<le> 5 * 2 ^ 26" if "i < 4" for i
    using that assms(1) by (auto simp: R_def Q_def r_ok_def)
  have s: "unat (sw i) = S i" for i
    using unat32 [of "h ! i"] unat32 [of "load32_le (drop (4 * i) inp)"] by (simp add: unat_word_ariths S_def sw_def)
  have s4: "unat s4w = S4" "S4 \<le> 5" using assms(2,3) by (simp_all add: unat_word_ariths S4_def s4w_def)
  have p: "unat (s4w * y) = S4 * unat y" "S4 * unat y < 2 ^ 32" if "unat y \<le> 5 * 2 ^ 26" for y
    using mult_le_mono [OF s4(2) that] by (simp_all add: unat_mult32 s4(1))
  have c: "S4 * (5 * Q i) < 2 ^ 32" if "i < 4" for i using mult_le_mono [OF s4(2) b(2) [OF that]] by simp
  note bnd = sum5_bound [OF s33 s33 s33 s33]
  have X: "S 0 * R 0 + S 1 * (5 * Q 3) + S 2 * (5 * Q 2) + S 3 * (5 * Q 1) + S4 * (5 * Q 0) < 6 * 2 ^ 61"
    "S 0 * R 1 + S 1 * R 0 + S 2 * (5 * Q 3) + S 3 * (5 * Q 2) + S4 * (5 * Q 1) < 6 * 2 ^ 61"
    "S 0 * R 2 + S 1 * R 1 + S 2 * R 0 + S 3 * (5 * Q 3) + S4 * (5 * Q 2) < 6 * 2 ^ 61"
    "S 0 * R 3 + S 1 * R 2 + S 2 * R 1 + S 3 * R 0 + S4 * (5 * Q 3) < 6 * 2 ^ 61"
    by (rule bnd; rule b c; simp)+
  show x: "unat x0 = S 0 * R 0 + S 1 * (5 * Q 3) + S 2 * (5 * Q 2) + S 3 * (5 * Q 1) + S4 * (5 * Q 0)"
    "unat x1 = S 0 * R 1 + S 1 * R 0 + S 2 * (5 * Q 3) + S 3 * (5 * Q 2) + S4 * (5 * Q 1)"
    "unat x2 = S 0 * R 2 + S 1 * R 1 + S 2 * R 0 + S 3 * (5 * Q 3) + S4 * (5 * Q 2)"
    "unat x3 = S 0 * R 3 + S 1 * R 2 + S 2 * R 1 + S 3 * R 0 + S4 * (5 * Q 3)"
    using X b(2) unfolding x0_def x1_def x2_def x3_def by (subst sum5_u64; simp add: s rr rr0 p R_def [symmetric])+
  show "unat x0 < 6 * 2 ^ 61" "unat x1 < 6 * 2 ^ 61" "unat x2 < 6 * 2 ^ 61" "unat x3 < 6 * 2 ^ 61" using X unfolding x .
  have le: "S4 * (R 0 mod 4) \<le> 5 * 3" using s4(2) by (intro mult_le_mono) simp_all
  then show x4: "unat (s4w * (r ! 0 AND 3)) = S4 * (R 0 mod 4)" by (subst unat_mult32) (simp_all add: s4(1) unat_and3 R_def)
  with le show "unat (s4w * (r ! 0 AND 3)) \<le> 15" by simp
qed

lemma poly_block_numbers:
  fixes inp :: bytes
  assumes "r_ok r" "unat (h ! 4) \<le> 4" "unat fin \<le> 1"
  defines "R i \<equiv> unat (r ! i)" and "S i \<equiv> unat (h ! i) + unat (load32_le (drop (4 * i) inp))" and "S4 \<equiv> unat (h ! 4) + unat fin"
  obtains a0 a1 a2 a3 a4 K where "map unat (poly_block r h inp fin) = [a0, a1, a2, a3, a4]" "a4 \<le> 4"
    "(S 0 + 2 ^ 32 * S 1 + 2 ^ 64 * S 2 + 2 ^ 96 * S 3 + 2 ^ 128 * S4) * (R 0 + 2 ^ 32 * R 1 + 2 ^ 64 * R 2 + 2 ^ 96 * R 3) =
     (a0 + 2 ^ 32 * a1 + 2 ^ 64 * a2 + 2 ^ 96 * a3 + 2 ^ 128 * a4) + poly_p * K"
proof -
  define Q where "Q i = unat (r ! i) div 4" for i
  define sw where "sw i = (ucast (h ! i) + ucast (load32_le (drop (4 * i) inp)) :: u64)" for i
  define rw where "rw i = drop_bit 2 (r ! i) + r ! i" for i
  define s4w where "s4w = h ! 4 + fin"
  define x0 where "x0 = sw 0 * ucast (r ! 0) + sw 1 * ucast (rw 3) + sw 2 * ucast (rw 2) + sw 3 * ucast (rw 1) + ucast (s4w * (drop_bit 2 (r ! 0) * 5))"
  define x1 where "x1 = sw 0 * ucast (r ! 1) + sw 1 * ucast (r ! 0) + sw 2 * ucast (rw 3) + sw 3 * ucast (rw 2) + ucast (s4w * rw 1)"
  define x2 where "x2 = sw 0 * ucast (r ! 2) + sw 1 * ucast (r ! 1) + sw 2 * ucast (r ! 0) + sw 3 * ucast (rw 3) + ucast (s4w * rw 2)"
  define x3 where "x3 = sw 0 * ucast (r ! 3) + sw 1 * ucast (r ! 2) + sw 2 * ucast (r ! 1) + sw 3 * ucast (r ! 0) + ucast (s4w * rw 3)"
  note x = poly_sums(1-4,7-10) [OF assms(1-3), where inp = inp, folded R_def Q_def S_def S4_def sw_def rw_def s4w_def,
      folded x0_def x1_def x2_def x3_def]
  note x4 = poly_sums(5,6) [OF assms(1-3), folded R_def S4_def s4w_def]
  define v5 where "v5 = ucast (drop_bit 32 x3) + s4w * (r ! 0 AND 3)"
  define v0 where "v0 = (ucast (drop_bit 2 v5 * 5) + (x0 AND 0xffffffff) :: u64)"
  define v1 where "v1 = ucast (ucast (drop_bit 32 v0) :: u32) + (x1 AND 0xffffffff) + drop_bit 32 x0"
  define v2 where "v2 = ucast (ucast (drop_bit 32 v1) :: u32) + (x2 AND 0xffffffff) + drop_bit 32 x1"
  define v3 where "v3 = ucast (ucast (drop_bit 32 v2) :: u32) + (x3 AND 0xffffffff) + drop_bit 32 x2"
  note u = poly_carry_words [OF x(5-8) x4(2), folded v5_def, folded v0_def, folded v1_def, folded v2_def, folded v3_def]
  have "poly_block r h inp fin = [ucast (v0 AND 0xffffffff), ucast (v1 AND 0xffffffff), ucast (v2 AND 0xffffffff),
      ucast (v3 AND 0xffffffff), ucast (drop_bit 32 v3) + (v5 AND 3)]"
    unfolding v0_def v1_def v2_def v3_def v5_def x0_def x1_def x2_def x3_def sw_def rw_def s4w_def poly_block_def Let_def by simp
  then have "map unat (poly_block r h inp fin) =
      [unat v0 mod 2 ^ 32, unat v1 mod 2 ^ 32, unat v2 mod 2 ^ 32, unat v3 mod 2 ^ 32, unat v3 div 2 ^ 32 + unat v5 mod 4]"
    using u(6) by (simp add: unat_ucast32 unat_and32)
  moreover have "unat v3 div 2 ^ 32 + unat v5 mod 4 \<le> 4" using u(7) by simp
  moreover note poly_carries [OF u(1-5)]
  moreover have "\<exists>K. (S 0 + 2 ^ 32 * S 1 + 2 ^ 64 * S 2 + 2 ^ 96 * S 3 + 2 ^ 128 * S4) * (R 0 + 2 ^ 32 * R 1 + 2 ^ 64 * R 2 + 2 ^ 96 * R 3) =
      unat x0 + 2 ^ 32 * unat x1 + 2 ^ 64 * unat x2 + 2 ^ 96 * unat x3 + 2 ^ 128 * unat (s4w * (r ! 0 AND 3)) + poly_p * K"
  proof -
    have "R 1 mod 4 = 0" "R 2 mod 4 = 0" "R 3 mod 4 = 0" using assms(1) by (auto simp: r_ok_def R_def)
    then have "4 * Q 0 + R 0 mod 4 = R 0" "4 * Q 1 = R 1" "4 * Q 2 = R 2" "4 * Q 3 = R 3" unfolding Q_def R_def by presburger+
    then show ?thesis
      using poly_product [of "S 0" "S 1" "S 2" "S 3" S4 "Q 0" "R 0 mod 4" "Q 1" "Q 2" "Q 3"] unfolding x(1-4) x4(1) by (metis (no_types))
  qed
  ultimately show ?thesis using that by (metis (no_types, lifting) add.assoc distrib_left)
qed

lemma limbs_nth: "limbs xs = limbs (map ((!) xs) [0..<length xs])"
  by (simp add: map_nth)

lemma upt_limbs: "[0..<4] = [0, 1, 2, 3]" "[0..<5] = [0, 1, 2, 3, 4]"
  by code_simp+

lemma limbs5: "length h = 5 \<Longrightarrow>
    limbs h = unat (h ! 0) + 2 ^ 32 * unat (h ! 1) + 2 ^ 64 * unat (h ! 2) + 2 ^ 96 * unat (h ! 3) + 2 ^ 128 * unat (h ! 4)"
  by (subst limbs_nth) (simp add: upt_limbs)

lemma limbs4: "length r = 4 \<Longrightarrow> limbs r = unat (r ! 0) + 2 ^ 32 * unat (r ! 1) + 2 ^ 64 * unat (r ! 2) + 2 ^ 96 * unat (r ! 3)"
  by (subst limbs_nth) (simp add: upt_limbs)

lemma poly_block_spec:
  assumes "r_ok r" "length h = 5" "unat (h ! 4) \<le> 4" "unat fin \<le> 1"
  shows "limbs (poly_block r h inp fin) mod poly_p =
      (limbs h + limbs (load32_le_buf inp 4) + 2 ^ 128 * unat fin) * limbs r mod poly_p"
    "unat (poly_block r h inp fin ! 4) \<le> 4"
proof -
  let ?B = "poly_block r h inp fin"
  obtain a0 a1 a2 a3 a4 K where N: "map unat ?B = [a0, a1, a2, a3, a4]" "a4 \<le> 4" and
    eq: "(unat (h ! 0) + unat (load32_le (drop (4 * 0) inp)) + 2 ^ 32 * (unat (h ! 1) + unat (load32_le (drop (4 * 1) inp))) +
       2 ^ 64 * (unat (h ! 2) + unat (load32_le (drop (4 * 2) inp))) + 2 ^ 96 * (unat (h ! 3) + unat (load32_le (drop (4 * 3) inp))) +
       2 ^ 128 * (unat (h ! 4) + unat fin)) * (unat (r ! 0) + 2 ^ 32 * unat (r ! 1) + 2 ^ 64 * unat (r ! 2) + 2 ^ 96 * unat (r ! 3)) =
     (a0 + 2 ^ 32 * a1 + 2 ^ 64 * a2 + 2 ^ 96 * a3 + 2 ^ 128 * a4) + poly_p * K"
    by (rule poly_block_numbers [OF assms(1,3,4), of inp])
  obtain b0 b1 b2 b3 b4 where B: "?B = [b0, b1, b2, b3, b4]" using N(1) by (auto simp: map_eq_Cons_conv)
  show "unat (?B ! 4) \<le> 4" using N unfolding B by simp
  have "limbs ?B = a0 + 2 ^ 32 * a1 + 2 ^ 64 * a2 + 2 ^ 96 * a3 + 2 ^ 128 * a4" using N(1) unfolding B by simp
  moreover have "limbs (load32_le_buf inp 4) = unat (load32_le (drop (4 * 0) inp)) + 2 ^ 32 * unat (load32_le (drop (4 * 1) inp)) +
      2 ^ 64 * unat (load32_le (drop (4 * 2) inp)) + 2 ^ 96 * unat (load32_le (drop (4 * 3) inp))"
    by (subst limbs4) (simp_all add: load32_le_buf_def)
  moreover have "length r = 4" using assms(1) by (simp add: r_ok_def)
  ultimately have "(limbs h + limbs (load32_le_buf inp 4) + 2 ^ 128 * unat fin) * limbs r = limbs ?B + poly_p * K"
    using eq unfolding limbs5 [OF assms(2)] by (simp add: limbs4 add_ac distrib_left)
  then show "limbs ?B mod poly_p = (limbs h + limbs (load32_le_buf inp 4) + 2 ^ 128 * unat fin) * limbs r mod poly_p" by simp
qed

section \<open>Messages\<close>

lemma le_val_store32 [simp]: "le_val (store32_le x) = unat x"
proof -
  define a b c where "a = unat x div 256" and "b = a div 256" and "c = b div 256"
  have d: "unat x div 65536 = b" "unat x div 16777216 = c"
    unfolding a_def b_def c_def by (simp_all add: div_mult2_eq [symmetric])
  have "c < 256" using unat32 [of x] unfolding d(2) [symmetric] by simp
  then have "le_val (store32_le x) = unat x mod 256 + 256 * (a mod 256 + 256 * (b mod 256 + 256 * c))"
    by (simp add: store32_le_def unsigned_ucast_eq take_bit_nat_def unat_drop_bit_div d a_def)
  also have "256 * c = b - b mod 256" unfolding c_def by (simp add: minus_mod_eq_mult_div)
  finally have "le_val (store32_le x) = unat x mod 256 + 256 * (a mod 256 + 256 * b)" by simp
  also have "256 * b = a - a mod 256" unfolding b_def by (simp add: minus_mod_eq_mult_div)
  finally have "le_val (store32_le x) = unat x mod 256 + 256 * a" by simp
  then show ?thesis unfolding a_def by simp
qed

lemma unat_load32: "4 \<le> length s \<Longrightarrow> unat (load32_le s) = le_val (take 4 s)"
  using store_load32 [of "take 4 s"] le_val_store32 [of "load32_le (take 4 s)"] by simp

lemma limbs_load: "16 \<le> length s \<Longrightarrow> limbs (load32_le_buf s 4) = le_val (take 16 s)"
proof -
  assume l: "16 \<le> length s"
  have t: "take 16 s = take 4 s @ take 4 (drop 4 s) @ take 4 (drop 8 s) @ take 4 (drop 12 s)"
    using take_add [of 4 12 s] take_add [of 4 8 "drop 4 s"] take_add [of 4 4 "drop 8 s"] by simp
  show ?thesis
    unfolding t using l by (subst limbs4) (simp_all add: load32_le_buf_def unat_load32 le_val_append)
qed

section \<open>The key\<close>

lemma clamp_masks: "(15 :: u8) = mask 4" "(252 :: u8) = mask 8 AND NOT (mask 2)" "(0x0fffffff :: u32) = mask 28"
  "(0x0ffffffc :: u32) = mask 28 AND NOT (mask 2)"
  by (simp_all add: mask_eq_exp_minus_1)

lemma clamp_limb0:
  "ucast (a :: u8) OR push_bit 8 (ucast (b :: u8)) OR push_bit 16 (ucast (c :: u8)) OR push_bit 24 (ucast ((d :: u8) AND 15)) =
     (ucast a OR push_bit 8 (ucast b) OR push_bit 16 (ucast c) OR push_bit 24 (ucast d)) AND (0x0fffffff :: u32)"
  unfolding clamp_masks by (rule bit_word_eqI) (auto simp: bit_simps dest: bit_imp_le_length)

lemma clamp_limb:
  "ucast ((a :: u8) AND 252) OR push_bit 8 (ucast (b :: u8)) OR push_bit 16 (ucast (c :: u8)) OR push_bit 24 (ucast ((d :: u8) AND 15)) =
     (ucast a OR push_bit 8 (ucast b) OR push_bit 16 (ucast c) OR push_bit 24 (ucast d)) AND (0x0ffffffc :: u32)"
  unfolding clamp_masks by (rule bit_word_eqI) (auto simp: bit_simps dest: bit_imp_le_length)

lemma clamp_load:
  assumes "16 \<le> length key"
  shows "load32_le_buf (clamp (take 16 key)) 4 = poly_r (crypto_poly1305_init key)"
proof -
  have "load32_le (drop 0 (clamp (take 16 key))) = load32_le (drop 0 key) AND 0x0fffffff"
    unfolding load32_le_def using assms by (simp add: clamp_def clamp_limb0 [simplified])
  moreover have "load32_le (drop i (clamp (take 16 key))) = load32_le (drop i key) AND 0x0ffffffc" if "i = 4 \<or> i = 8 \<or> i = 12" for i
    unfolding load32_le_def using assms that by (auto simp: clamp_def clamp_limb [simplified])
  ultimately show ?thesis by (simp add: load32_le_buf_def upt_limbs crypto_poly1305_init_def Let_def)
qed

lemma init_r_ok: "r_ok (poly_r (crypto_poly1305_init key))"
proof -
  have a: "unat (x AND 0x0fffffff :: u32) < 2 ^ 28" for x
    unfolding clamp_masks(3) take_bit_eq_mask [symmetric] by (simp add: unat_take_bit_mod)
  have "(x AND 0x0ffffffc :: u32) = (x AND 0x0ffffffc) AND 0x0fffffff" for x by (simp add: and.assoc)
  then have b: "unat (x AND 0x0ffffffc :: u32) < 2 ^ 28" for x by (metis a)
  have "take_bit 2 (x AND 0x0ffffffc :: u32) = 0" for x
    unfolding clamp_masks(4) by (rule bit_word_eqI) (auto simp: bit_simps)
  then have c: "unat (x AND 0x0ffffffc :: u32) mod 4 = 0" for x
    using unat_take_bit_mod [of 2 "x AND 0x0ffffffc :: u32"] by simp
  have "i < 4 \<longleftrightarrow> i = 0 \<or> i = 1 \<or> i = 2 \<or> i = 3" for i :: nat by linarith
  then show ?thesis using a b c by (auto simp: r_ok_def crypto_poly1305_init_def Let_def)
qed

lemma init_r_val: "16 \<le> length key \<Longrightarrow> limbs (poly_r (crypto_poly1305_init key)) = le_val (clamp (take 16 key))"
  using limbs_load [of "clamp (take 16 key)"] clamp_load [of key] by (simp add: clamp_def)

section \<open>The accumulator\<close>

lemma poly_acc_block:
  assumes "r_ok r" "length h = 5" "unat (h ! 4) \<le> 4" "16 \<le> length m"
  shows "poly_acc (limbs r) (limbs h mod poly_p) m = poly_acc (limbs r) (limbs (poly_block r h m 1) mod poly_p) (drop 16 m)"
proof -
  have v: "le_val (take 16 m @ [1]) = limbs (load32_le_buf m 4) + 2 ^ 128 * unat (1 :: u32)"
    using limbs_load [OF assms(4)] assms(4) by (simp add: le_val_append)
  have "(limbs h mod poly_p + le_val (take 16 m @ [1])) * limbs r mod poly_p = limbs (poly_block r h m 1) mod poly_p"
  proof -
    have "(a mod poly_p + b) * c mod poly_p = (a + b) * c mod poly_p" for a b c by (metis mod_add_left_eq mod_mult_left_eq)
    then show ?thesis using poly_block_spec(1) [OF assms(1-3), of 1 m] unfolding v by (simp only: add.assoc unat_1 order.refl)
  qed
  moreover have "m \<noteq> []" using assms(4) by auto
  ultimately show ?thesis by (subst poly_acc.simps) simp
qed

lemma poly_acc_blocks:
  assumes "r_ok r" "length h = 5" "unat (h ! 4) \<le> 4" "16 * n \<le> length m"
  shows "length (poly_blocks_loop r h m n 1) = 5 \<and> unat (poly_blocks_loop r h m n 1 ! 4) \<le> 4 \<and>
    poly_acc (limbs r) (limbs h mod poly_p) m = poly_acc (limbs r) (limbs (poly_blocks_loop r h m n 1) mod poly_p) (drop (16 * n) m)"
  using assms(2-4)
proof (induction n arbitrary: h m)
  case (Suc n)
  have l: "16 * n \<le> length (drop 16 m)" "16 \<le> length m" using Suc.prems(3) by simp_all
  show ?case
    using Suc.IH [OF _ _ l(1), of "poly_block r h m 1"] poly_block_spec(2) [OF assms(1) Suc.prems(1,2), of 1 m]
      poly_acc_block [OF assms(1) Suc.prems(1,2) l(2)] by (simp add: add.commute)
qed simp

section \<open>The final reduction\<close>

lemma poly_carry_val: "unat c < 2 ^ 33 \<Longrightarrow> unat (poly_carry c hs) = (unat c + limbs hs) div 2 ^ (32 * length hs)"
proof (induction hs arbitrary: c)
  case (Cons h hs)
  have s: "unat (drop_bit 32 (c + ucast h)) = (unat c + unat h) div 2 ^ 32"
    using Cons.prems unat32 [of h] by (simp add: unat_drop_bit_div unat_word_ariths)
  have "(unat c + unat h) div 2 ^ 32 < 2 ^ 33" using Cons.prems unat32 [of h] by simp
  then have "unat (poly_carry c (h # hs)) = ((unat c + unat h) div 2 ^ 32 + limbs hs) div 2 ^ (32 * length hs)"
    using Cons.IH [of "drop_bit 32 (c + ucast h)"] s by simp
  also have "(unat c + unat h) div 2 ^ 32 + limbs hs = (unat c + limbs (h # hs)) div 2 ^ 32"
    by (simp add: add.assoc [symmetric])
  finally show ?case by (simp only: div_mult2_eq [symmetric] power_add [symmetric]) (simp add: add.commute)
qed simp

lemma poly_store_mac_val:
  assumes "length hs = length ps" "unat c < 2 ^ 33"
  shows "le_val (poly_store_mac c (zip hs ps)) = (unat c + limbs hs + limbs ps) mod 2 ^ (32 * length hs)"
  using assms
proof (induction hs ps arbitrary: c rule: list_induct2)
  case (Cons h hs p ps)
  let ?c = "c + (ucast h + ucast p)"
  have s: "unat ?c = unat c + unat h + unat p" "unat ?c < 2 ^ 34"
    using Cons.prems unat32 [of h] unat32 [of p] by (simp_all add: unat_word_ariths)
  have d: "unat (drop_bit 32 ?c) = unat ?c div 2 ^ 32" by (rule unat_drop_bit_div)
  then have "unat (drop_bit 32 ?c) < 2 ^ 33" using s(2) by simp
  then have "le_val (poly_store_mac c (zip (h # hs) (p # ps))) =
      unat ?c mod 2 ^ 32 + 2 ^ 32 * ((unat ?c div 2 ^ 32 + limbs hs + limbs ps) mod 2 ^ (32 * length hs))"
    using Cons.IH d by (simp add: Let_def le_val_append unat_ucast32 store32_le_def [THEN arg_cong [of _ _ length], simplified])
  also have "unat ?c div 2 ^ 32 + limbs hs + limbs ps = (unat ?c + 2 ^ 32 * (limbs hs + limbs ps)) div 2 ^ 32"
    by (simp add: add.assoc)
  also have "unat ?c mod 2 ^ 32 = (unat ?c + 2 ^ 32 * (limbs hs + limbs ps)) mod 2 ^ 32" by (rule mod_mult_self2 [symmetric])
  finally show ?case
    using mod_mult2_eq [of "unat ?c + 2 ^ 32 * (limbs hs + limbs ps)" "2 ^ 32" "2 ^ (32 * length hs)"] s(1)
    by (simp add: power_add algebra_simps)
qed simp

text \<open>An accumulator below \<open>5 * 2^128\<close> exceeds the modulus at most once.\<close>

lemma poly_reduce:
  assumes "A < 5 * 2 ^ 128"
  shows "(5 * ((A + 5) div 2 ^ 130) + A + s) mod 2 ^ 128 = (A mod poly_p + s) mod 2 ^ 128"
proof (cases "A < poly_p")
  case True
  then have "(A + 5) div 2 ^ 130 = 0" by (simp add: poly_p_def)
  then show ?thesis using True by simp
next
  case False
  then have d: "(A + 5) div 2 ^ 130 = 1" using assms by (intro div_nat_eqI) (simp_all add: poly_p_def)
  have "A mod poly_p = A - poly_p"
    using False assms by (subst le_mod_geq) (simp_all add: poly_p_def)
  then have "5 * ((A + 5) div 2 ^ 130) + A + s = A mod poly_p + s + 4 * 2 ^ 128"
    using False unfolding d by (simp add: poly_p_def)
  then show ?thesis by (metis mod_mult_self1 mult.commute)
qed

lemma poly_final_val:
  assumes "length h = 5" "unat (h ! 4) \<le> 4" "length pad = 4"
  shows "le_val (poly_store_mac (drop_bit 2 (poly_carry 5 (take 4 h) + ucast (h ! 4)) * 5) (zip (take 4 h) pad)) =
    (limbs h mod poly_p + limbs pad) mod 2 ^ 128"
proof -
  define L where "L = limbs (take 4 h)"
  have h: "limbs h = L + 2 ^ 128 * unat (h ! 4)"
    using assms(1) unfolding L_def by (simp add: limbs5 limbs4)
  have L: "L < 2 ^ 128" using unat32 [of "h ! 0"] unat32 [of "h ! 1"] unat32 [of "h ! 2"] unat32 [of "h ! 3"] assms(1)
    by (simp add: L_def limbs4)
  have c: "unat (poly_carry 5 (take 4 h)) = (5 + L) div 2 ^ 128"
    using poly_carry_val [of 5 "take 4 h"] assms(1) by (simp add: L_def)
  then have c1: "unat (poly_carry 5 (take 4 h)) \<le> 1" using L by simp
  have q: "unat (drop_bit 2 (poly_carry 5 (take 4 h) + ucast (h ! 4))) = (limbs h + 5) div 2 ^ 130"
  proof -
    have "unat (drop_bit 2 (poly_carry 5 (take 4 h) + ucast (h ! 4))) = ((5 + L) div 2 ^ 128 + unat (h ! 4)) div 4"
      using c c1 assms(2) by (simp add: unat_drop_bit_div unat_word_ariths)
    also have "(5 + L) div 2 ^ 128 + unat (h ! 4) = (limbs h + 5) div 2 ^ 128" unfolding h by simp
    finally show ?thesis by (simp add: div_mult2_eq [symmetric])
  qed
  have A: "limbs h < 5 * 2 ^ 128" using h L assms(2) by simp
  then have "(limbs h + 5) div 2 ^ 130 \<le> 1" by simp
  then have q5: "unat (drop_bit 2 (poly_carry 5 (take 4 h) + ucast (h ! 4)) * 5) = 5 * ((limbs h + 5) div 2 ^ 130)"
      "unat (drop_bit 2 (poly_carry 5 (take 4 h) + ucast (h ! 4)) * 5) < 2 ^ 33"
    using q by (simp_all add: unat_word_ariths)
  have "le_val (poly_store_mac (drop_bit 2 (poly_carry 5 (take 4 h) + ucast (h ! 4)) * 5) (zip (take 4 h) pad)) =
      (5 * ((limbs h + 5) div 2 ^ 130) + L + limbs pad) mod 2 ^ 128"
    using poly_store_mac_val [OF _ q5(2), of "take 4 h" pad] assms(1,3) by (simp add: q5(1) L_def)
  also have "\<dots> = (5 * ((limbs h + 5) div 2 ^ 130) + limbs h + limbs pad) mod 2 ^ 128"
  proof -
    have "5 * ((limbs h + 5) div 2 ^ 130) + limbs h + limbs pad = (5 * ((limbs h + 5) div 2 ^ 130) + L + limbs pad) + 2 ^ 128 * unat (h ! 4)"
      using h by linarith
    then show ?thesis by (metis mod_mult_self2)
  qed
  finally show ?thesis using poly_reduce [OF A] by simp
qed

lemma poly_repr_mac:
  assumes "poly_repr key ctx m" "length key = 32"
  shows "le_val (crypto_poly1305_final ctx) = poly1305_rfc key m"
proof -
  let ?n = "length m div 16" and ?rest = "drop (16 * (length m div 16)) m"
  define r where "r = poly_r (crypto_poly1305_init key)"
  define h where "h = poly_blocks_loop r (replicate 5 0) m ?n 1"
  define k where "k = length m mod 16"
  have ctx: "poly_r ctx = r" "poly_h ctx = h" "poly_c_idx ctx = k" "take k (poly_c ctx) = ?rest" "length (poly_c ctx) = 16"
      "poly_pad ctx = load32_le_buf (drop 16 key) 4"
    using assms(1) by (auto simp: poly_repr_def r_def h_def k_def crypto_poly1305_init_def Let_def)
  have z: "limbs (replicate 5 0) mod poly_p = 0" by (simp add: limbs5)
  have r: "r_ok r" "limbs r = le_val (clamp (take 16 key))" using init_r_ok init_r_val assms(2) by (simp_all add: r_def)
  have hs: "length h = 5" "unat (h ! 4) \<le> 4" "poly_acc (limbs r) 0 m = poly_acc (limbs r) (limbs h mod poly_p) ?rest"
    using poly_acc_blocks [OF r(1), of "replicate 5 0" ?n m] z by (simp_all add: h_def)
  have pad: "limbs (load32_le_buf (drop 16 key) 4) = le_val (slice 16 16 key)"
    using limbs_load [of "drop 16 key"] assms(2) by (simp add: slice_def)
  have lr: "length ?rest = k" "k < 16" by (simp_all add: k_def minus_mult_div_eq_mod)
  have "\<exists>H. length H = 5 \<and> unat (H ! 4) \<le> 4 \<and> limbs H mod poly_p = poly_acc (limbs r) 0 m \<and>
     crypto_poly1305_final ctx = poly_store_mac (drop_bit 2 (poly_carry 5 (take 4 H) + ucast (H ! 4)) * 5)
       (zip (take 4 H) (load32_le_buf (drop 16 key) 4))"
  proof (cases "k = 0")
    case True
    then have "poly_acc (limbs r) (limbs h mod poly_p) ?rest = limbs h mod poly_p" using lr by (subst poly_acc.simps) simp
    then show ?thesis using hs ctx True by (intro exI [of _ h]) (simp add: crypto_poly1305_final_def Let_def)
  next
    case False
    define c where "c = (?rest @ zeros (16 - k))[k := 1]"
    have c: "c = (?rest @ [1]) @ zeros (15 - k)"
      using lr False by (cases "16 - k") (simp_all add: c_def list_update_append)
    have cv: "limbs (load32_le_buf c 4) = le_val (take 16 ?rest @ [1])"
      using limbs_load [of c] lr by (simp add: c le_val_append)
    have ne: "?rest \<noteq> []" using lr False by auto
    have "limbs (poly_block r h c 0) mod poly_p = (limbs h mod poly_p + le_val (take 16 ?rest @ [1])) * limbs r mod poly_p"
      using poly_block_spec(1) [OF r(1) hs(1,2), of 0 c] cv by simp (metis mod_add_left_eq mod_mult_left_eq)
    also have "\<dots> = poly_acc (limbs r) (limbs h mod poly_p) ?rest"
      using ne lr by (subst poly_acc.simps, subst poly_acc.simps) simp
    finally have "limbs (poly_block r h c 0) mod poly_p = poly_acc (limbs r) 0 m" using hs(3) by simp
    moreover have "unat (poly_block r h c 0 ! 4) \<le> 4" using poly_block_spec(2) [OF r(1) hs(1,2), of 0 c] by simp
    ultimately show ?thesis
      using False ctx by (intro exI [of _ "poly_block r h c 0"]) (simp add: crypto_poly1305_final_def poly_blocks_def Let_def c_def)
  qed
  then show ?thesis using poly_final_val [of _ "load32_le_buf (drop 16 key) 4"] pad r(2) by (auto simp: poly1305_rfc_def)
qed

text \<open>
  C17: the authenticator is Poly1305. For every message and key, \<open>crypto_poly1305\<close> returns the 16 bytes,
  least significant first, of the number that RFC 8439 prescribes: the polynomial of the 16-byte
  blocks in the clamped first half of the key, modulo \<open>2^130 - 5\<close>, plus the second half, modulo
  \<open>2^128\<close>. The 32-bit limbs with delayed carries neither overflow nor lose a reduction.
\<close>

theorem poly1305_is_rfc8439:
  assumes "length key = 32"
  shows "length (crypto_poly1305 message (length message) key) = 16 \<and>
    le_val (crypto_poly1305 message (length message) key) = poly1305_rfc key message"
proof -
  have "poly_repr key (crypto_poly1305_update (crypto_poly1305_init key) message (length message)) message"
    using poly_update_repr [OF poly_init_repr order.refl, of key message] by simp
  then show ?thesis using poly_repr_mac [OF _ assms] length_crypto_poly1305_final by (simp add: crypto_poly1305_def)
qed

text \<open>The test vector of RFC 8439, section 2.5.2.\<close>

definition rfc_key :: bytes where
  "rfc_key = [0x85, 0xd6, 0xbe, 0x78, 0x57, 0x55, 0x6d, 0x33, 0x7f, 0x44, 0x52, 0xfe, 0x42, 0xd5, 0x06, 0xa8,
              0x01, 0x03, 0x80, 0x8a, 0xfb, 0x0d, 0xb2, 0xfd, 0x4a, 0xbf, 0xf6, 0xaf, 0x41, 0x49, 0xf5, 0x1b]"

theorem poly1305_is_rfc8439_witness:
  "poly1305_rfc rfc_key (lit ''Cryptographic Forum Research Group'') = 0xa927010caf8b2bc2c6365130c11d06a8"
proof -
  have tag: "crypto_poly1305 (lit ''Cryptographic Forum Research Group'') 34 rfc_key =
      [0xa8, 0x06, 0x1d, 0xc1, 0x30, 0x51, 0x36, 0xc6, 0xc2, 0x2b, 0x8b, 0xaf, 0x0c, 0x01, 0x27, 0xa9]"
    by code_simp
  have len: "length rfc_key = 32" "length (lit ''Cryptographic Forum Research Group'') = 34" by code_simp+
  note vec = poly1305_is_rfc8439 [OF len(1), of "lit ''Cryptographic Forum Research Group''", unfolded len(2) tag]
  show ?thesis unfolding vec [THEN conjunct2, symmetric] by simp
qed

end
