(* ===== verification/Tui_Events.thy ===== *)
theory Tui_Events
  imports C_Lib
begin

text \<open>
  The event ring of the terminal UI (\<open>src/ui/events.c\<close>): seven slots, a start index and a count,
  guarded by \<open>tui_events_lock\<close>. Each operation below is one critical section. The locale
  \<open>bounded_log\<close> is the contract of a log of bounded size; the ring refines it, so that what
  \<open>tui_render_events\<close> shows is exactly the last seven events.
\<close>

abbreviation (input) TUI_MAX_EVENTS :: nat where "TUI_MAX_EVENTS \<equiv> 7"
abbreviation (input) TUI_EVENT_MESSAGE_LEN :: nat where "TUI_EVENT_MESSAGE_LEN \<equiv> 128"
abbreviation (input) TUI_EVENT_DISPLAY_LEN :: nat where "TUI_EVENT_DISPLAY_LEN \<equiv> 57"

record tui_event_t =
  ev_ts :: int
  ev_level :: nat
  ev_message :: bytes

record tui_state =
  tui_events :: "tui_event_t list"
  tui_event_start :: nat
  tui_event_count :: nat
  tui_active :: bool

text \<open>The initial values of the static variables.\<close>

definition tui_state0 :: tui_state where
  "tui_state0 =
     \<lparr>tui_events = replicate TUI_MAX_EVENTS \<lparr>ev_ts = 0, ev_level = 0, ev_message = zeros TUI_EVENT_MESSAGE_LEN\<rparr>,
      tui_event_start = 0, tui_event_count = 0, tui_active = False\<rparr>"

definition tui_events_active :: "tui_state \<Rightarrow> bool" where
  "tui_events_active st = tui_active st"

definition tui_events_start :: "tui_state \<Rightarrow> tui_state" where
  "tui_events_start st = st\<lparr>tui_event_start := 0, tui_event_count := 0, tui_active := True\<rparr>"

definition tui_events_stop :: "tui_state \<Rightarrow> tui_state" where
  "tui_events_stop st = st\<lparr>tui_active := False\<rparr>"

text \<open>\<open>now\<close> is the value of \<open>time(NULL)\<close>.\<close>

definition tui_add_event :: "int \<Rightarrow> nat \<Rightarrow> bytes \<Rightarrow> tui_state \<Rightarrow> tui_state" where
  "tui_add_event now level message st =
     (let full = (tui_event_count st = TUI_MAX_EVENTS);
          idx = (if full then tui_event_start st
                 else (tui_event_start st + tui_event_count st) mod TUI_MAX_EVENTS);
          old = tui_events st ! idx;
          new = \<lparr>ev_ts = now, ev_level = level,
                 ev_message = snprintf (ev_message old) TUI_EVENT_MESSAGE_LEN message\<rparr>
      in st\<lparr>tui_events := (tui_events st)[idx := new],
            tui_event_start := (if full then (tui_event_start st + 1) mod TUI_MAX_EVENTS
                                else tui_event_start st),
            tui_event_count := (if full then tui_event_count st else tui_event_count st + 1)\<rparr>)"

text \<open>The copy \<open>tui_render_events\<close> takes under the lock.\<close>

definition tui_events_snapshot :: "tui_state \<Rightarrow> tui_event_t list" where
  "tui_events_snapshot st =
     map (\<lambda>i. tui_events st ! ((tui_event_start st + i) mod TUI_MAX_EVENTS)) [0..<tui_event_count st]"

definition tui_event_level_label :: "nat \<Rightarrow> bytes" where
  "tui_event_level_label level =
     (if level = 0 then lit ''DEBUG'' else if level = 1 then lit ''INFO ''
      else if level = 2 then lit ''WARN '' else if level = 3 then lit ''ERROR'' else lit ''LOG  '')"

definition tui_event_level_color :: "nat \<Rightarrow> bytes" where
  "tui_event_level_color level =
     27 # (if level = 0 then lit ''[36m'' else if level = 1 then lit ''[32m''
      else if level = 2 then lit ''[33m'' else if level = 3 then lit ''[31m'' else lit ''[90m'')"

definition tui_truncate_event :: "bytes \<Rightarrow> bytes \<Rightarrow> nat \<Rightarrow> bytes" where
  "tui_truncate_event message buf len =
     (if c_strlen message < len then snprintf buf len (c_str message)
      else if len < 4 then (if 0 < len then buf[0 := 0] else buf)
      else memcpy_at (len - 4) (lit ''...'' @ [0]) (memcpy_at 0 (take (len - 4) message) buf))"

section \<open>Logs of bounded size\<close>

locale bounded_log =
  fixes cap :: nat
    and wf :: "'s \<Rightarrow> bool"
    and contents :: "'s \<Rightarrow> 'v list"
    and clear :: "'s \<Rightarrow> 's"
    and add :: "'e \<Rightarrow> 's \<Rightarrow> 's"
    and view :: "'e \<Rightarrow> 'v"
  assumes wf_clear: "wf s \<Longrightarrow> wf (clear s)"
    and contents_clear: "contents (clear s) = []"
    and wf_add: "wf s \<Longrightarrow> wf (add e s)"
    and contents_add: "wf s \<Longrightarrow>
      contents (add e s) = drop (Suc (length (contents s)) - cap) (contents s @ [view e])"
begin

lemma drop_excess_append:
  "drop (Suc (length (drop (length xs - cap) xs)) - cap) (drop (length xs - cap) xs @ [x])
   = drop (length (xs @ [x]) - cap) (xs @ [x])"
  by (cases "length xs < cap") (auto simp: Suc_diff_le)

lemma fold_contents:
  assumes "wf s"
  shows "wf (fold add es (clear s)) \<and>
    contents (fold add es (clear s)) = drop (length es - cap) (map view es)"
proof (induction es rule: rev_induct)
  case Nil
  show ?case by (simp add: assms wf_clear contents_clear)
next
  case (snoc e es)
  then show ?case
    using contents_add [of "fold add es (clear s)" e] drop_excess_append [of "map view es" "view e"]
    by (simp add: wf_add)
qed

lemma fold_length:
  assumes "wf s" shows "length (contents (fold add es (clear s))) = min cap (length es)"
  using fold_contents [OF assms, of es] by simp

end

section \<open>The ring is a bounded log\<close>

definition tui_wf :: "tui_state \<Rightarrow> bool" where
  "tui_wf st \<longleftrightarrow> length (tui_events st) = TUI_MAX_EVENTS \<and> tui_event_start st < TUI_MAX_EVENTS \<and>
     tui_event_count st \<le> TUI_MAX_EVENTS \<and>
     list_all (\<lambda>e. length (ev_message e) = TUI_EVENT_MESSAGE_LEN) (tui_events st)"

type_synonym event_view = "int \<times> nat \<times> bytes"

definition ev_view :: "tui_event_t \<Rightarrow> event_view" where
  "ev_view e = (ev_ts e, ev_level e, c_str (ev_message e))"

definition ring_contents :: "tui_state \<Rightarrow> event_view list" where
  "ring_contents st = map ev_view (tui_events_snapshot st)"

text \<open>A message is a C string: it holds no NUL. The slot keeps its first 127 characters.\<close>

definition event_arg_view :: "event_view \<Rightarrow> event_view" where
  "event_arg_view = (\<lambda>(t, l, m). (t, l, take (TUI_EVENT_MESSAGE_LEN - 1) (c_str m)))"

definition ring_add :: "event_view \<Rightarrow> tui_state \<Rightarrow> tui_state" where
  "ring_add = (\<lambda>(t, l, m) st. tui_add_event t l (c_str m) st)"

lemma length_ring_contents [simp, len_simps]: "length (ring_contents st) = tui_event_count st"
  by (simp add: ring_contents_def tui_events_snapshot_def)

lemma ring_index_ne:
  assumes "s < (7::nat)" "i < k" "k < 7"
  shows "(s + i) mod 7 \<noteq> (s + k) mod 7"
proof
  assume "(s + i) mod 7 = (s + k) mod 7"
  then have "7 dvd (s + k) - (s + i)"
    using mod_eq_dvd_iff_nat [of "s + i" "s + k" 7] assms(2) by simp
  then show False using assms(2,3) by (auto dest: dvd_imp_le)
qed

lemma tui_wf_add [wf_intros]: "tui_wf st \<Longrightarrow> tui_wf (tui_add_event t l m st)"
  by (auto simp: tui_wf_def tui_add_event_def Let_def list_all_length nth_list_update)

lemma ring_contents_add:
  assumes wf: "tui_wf st" and m: "0 \<notin> set m"
  shows "ring_contents (tui_add_event t l m st) =
    drop (Suc (length (ring_contents st)) - 7) (ring_contents st @ [(t, l, take 127 m)])"
proof (rule nth_equalityI)
  define s c where "s = tui_event_start st" and "c = tui_event_count st"
  have s7: "s < 7" and c7: "c \<le> 7" and len: "length (tui_events st) = 7"
    and ml: "\<And>i. i < 7 \<Longrightarrow> length (ev_message (tui_events st ! i)) = 128"
    using wf by (auto simp: tui_wf_def list_all_length s_def c_def)
  show "length (ring_contents (tui_add_event t l m st)) =
    length (drop (Suc (length (ring_contents st)) - 7) (ring_contents st @ [(t, l, take 127 m)]))"
    using c7 by (auto simp: tui_add_event_def Let_def c_def)
  define new where "new j = \<lparr>ev_ts = t, ev_level = l,
      ev_message = snprintf (ev_message (tui_events st ! j)) 128 m\<rparr>" for j
  have view: "j < 7 \<Longrightarrow> ev_view (new j) = (t, l, take 127 m)" for j
    by (simp add: ev_view_def new_def c_str_snprintf m)
  have old: "i < c \<Longrightarrow> ring_contents st ! i = ev_view (tui_events st ! ((s + i) mod 7))" for i
    by (simp add: ring_contents_def tui_events_snapshot_def s_def c_def)
  fix i assume "i < length (ring_contents (tui_add_event t l m st))"
  then have i: "i < (if c = 7 then 7 else Suc c)"
    by (auto simp: tui_add_event_def Let_def c_def)
  define st' where "st' = tui_add_event t l m st"
  have ev': "tui_events st' = (tui_events st)[(if c = 7 then s else (s + c) mod 7)
               := new (if c = 7 then s else (s + c) mod 7)]"
    and s': "tui_event_start st' = (if c = 7 then (s + 1) mod 7 else s)"
    and c': "tui_event_count st' = (if c = 7 then 7 else Suc c)"
    by (auto simp: st'_def tui_add_event_def Let_def s_def c_def new_def)
  have lhs: "ring_contents st' ! i = ev_view (tui_events st' ! ((tui_event_start st' + i) mod 7))"
    using i c' by (simp add: ring_contents_def tui_events_snapshot_def)
  show "ring_contents (tui_add_event t l m st) ! i =
      drop (Suc (length (ring_contents st)) - 7) (ring_contents st @ [(t, l, take 127 m)]) ! i"
    unfolding st'_def [symmetric]
  proof (cases "c = 7")
    case True
    have idx: "((s + 1) mod 7 + i) mod 7 = (s + Suc i) mod 7" by presburger
    show "ring_contents st' ! i = drop (Suc (length (ring_contents st)) - 7)
        (ring_contents st @ [(t, l, take 127 m)]) ! i"
    proof (cases "i = 6")
      case True
      then have "(s + Suc i) mod 7 = s" using s7 by simp
      with \<open>c = 7\<close> True lhs s' ev' idx len view s7 show ?thesis
        by (simp add: c_def nth_append)
    next
      case False
      with i True have "Suc i < 7" by simp
      then have "(s + Suc i) mod 7 \<noteq> s" using ring_index_ne [of s 0 "Suc i"] s7 by simp
      with lhs s' ev' idx len True \<open>Suc i < 7\<close> old [of "Suc i"] show ?thesis
        by (simp add: c_def nth_append)
    qed
  next
    case False
    with c7 have c6: "c < 7" by simp
    show "ring_contents st' ! i = drop (Suc (length (ring_contents st)) - 7)
        (ring_contents st @ [(t, l, take 127 m)]) ! i"
    proof (cases "i = c")
      case True
      with False c6 lhs s' ev' len view show ?thesis by (simp add: c_def nth_append)
    next
      case False
      with i \<open>c \<noteq> 7\<close> have "i < c" by simp
      then have "(s + i) mod 7 \<noteq> (s + c) mod 7" using ring_index_ne [of s i c] s7 c6 by simp
      with lhs s' ev' len \<open>c \<noteq> 7\<close> \<open>i < c\<close> old [of i] c6 show ?thesis
        by (simp add: c_def nth_append)
    qed
  qed
qed

interpretation tui_ring: bounded_log TUI_MAX_EVENTS tui_wf ring_contents tui_events_start ring_add event_arg_view
proof unfold_locales
  show "tui_wf s \<Longrightarrow> tui_wf (tui_events_start s)" for s
    by (simp add: tui_wf_def tui_events_start_def)
  show "ring_contents (tui_events_start s) = []" for s
    by (simp add: ring_contents_def tui_events_snapshot_def tui_events_start_def)
  show "tui_wf s \<Longrightarrow> tui_wf (ring_add e s)" for s e
    by (auto simp: ring_add_def split: prod.splits intro: tui_wf_add)
  show "tui_wf s \<Longrightarrow> ring_contents (ring_add e s) =
      drop (Suc (length (ring_contents s)) - TUI_MAX_EVENTS) (ring_contents s @ [event_arg_view e])" for s e
    by (auto simp: ring_add_def event_arg_view_def ring_contents_add split: prod.splits)
qed

lemma tui_wf_state0 [wf_intros]: "tui_wf tui_state0"
  by (simp add: tui_wf_def tui_state0_def list_all_length)

lemma length_tui_truncate_event [len_simps]:
  "length buf = len \<Longrightarrow> length message = TUI_EVENT_MESSAGE_LEN \<Longrightarrow> len \<le> TUI_EVENT_MESSAGE_LEN \<Longrightarrow>
   length (tui_truncate_event message buf len) = len"
  by (cases "len = 0") (auto simp: tui_truncate_event_def memcpy_at_def snprintf_def)

text \<open>
  What the terminal UI shows is the log. From a well-formed ring, start the UI and add any
  sequence of events: the snapshot that \<open>tui_render_events\<close> draws is the last seven of them, oldest
  first, each message cut to 127 characters, whatever the slots held before.
\<close>

theorem tui_ring_shows_last_events:
  assumes "tui_wf st"
  shows "ring_contents (fold ring_add es (tui_events_start st)) =
         drop (length es - 7) (map event_arg_view es)"
  using tui_ring.fold_contents [OF assms, of es] by simp

theorem tui_ring_shows_last_events_witness:
  "tui_wf tui_state0 \<and>
   ring_contents (fold ring_add (map (\<lambda>i. (int i, 1, lit ''hello'')) [0..<9]) (tui_events_start tui_state0)) =
   map (\<lambda>i. (int i, 1, lit ''hello'')) [2..<9]"
proof -
  have "map event_arg_view (map (\<lambda>i. (int i, 1, lit ''hello'')) [0..<9]) = map (\<lambda>i. (int i, 1, lit ''hello'')) [0..<9]"
    by (simp add: event_arg_view_def lit_def c_str_def)
  moreover have "drop (length (map (\<lambda>i. (int i, 1 :: nat, lit ''hello'')) [0..<9]) - 7)
      (map (\<lambda>i. (int i, 1 :: nat, lit ''hello'')) [0..<9]) = map (\<lambda>i. (int i, 1, lit ''hello'')) [2..<9]"
    by (simp add: drop_map upt_rec)
  ultimately show ?thesis
    using tui_ring_shows_last_events [OF tui_wf_state0, of "map (\<lambda>i. (int i, 1, lit ''hello'')) [0..<9]"]
    by (simp only: tui_wf_state0 simp_thms)
qed

end
