(* ===== verification/World.thy ===== *)
theory World
  imports Tui_Events
begin

text \<open>
  The process around the components: the system calls the program makes and its global variables
  (\<open>src/app/tund.h\<close>, \<open>main.c\<close>, \<open>log.c\<close>, the static variables of \<open>protocol.c\<close>).

  The kernel and the C library's clocks are a parameter, the record \<open>sysenv\<close> of functions of a
  tick: every call that can return a new value consumes one tick of the \<open>world\<close>, so that two calls
  of \<open>time(NULL)\<close> may differ and every schedule of outcomes is some environment. What the process
  does to the outside (datagrams handed to the kernel, packets written to the TUN device, text on
  the standard streams) is recorded in the world. \<open>int\<close> and \<open>time_t\<close> values are mathematical
  integers; counters and wire fields are words of their C width.
\<close>

section \<open>System calls\<close>

record sockaddr_in =
  sin_family :: u16
  sin_port :: u16
  sin_addr :: u32

text \<open>One \<open>read\<close>: interrupted by a signal, failed, or the bytes read (none at end of file).\<close>

datatype read_result = ReadInterrupted | ReadFailed | ReadData bytes

text \<open>One \<open>recvfrom\<close>: the error number, or a datagram and its sender.\<close>

datatype recv_result = RecvFailed int | RecvData bytes sockaddr_in

record sysenv =
  sys_time :: "nat \<Rightarrow> int"
  sys_clock :: "nat \<Rightarrow> u64 \<times> u64"
  sys_localtime :: "int \<Rightarrow> int \<times> int \<times> int"
  sys_stderr_tty :: bool
  sys_open_urandom :: "nat \<Rightarrow> int"
  sys_urandom_reads :: "nat \<Rightarrow> read_result list"
  sys_errno :: "nat \<Rightarrow> int"
  sys_strerror :: "int \<Rightarrow> bytes"
  sys_poll :: "nat \<Rightarrow> int"
  sys_sendto :: "nat \<Rightarrow> bytes \<Rightarrow> sockaddr_in \<Rightarrow> int"
  sys_recvfrom :: "nat \<Rightarrow> recv_result"
  sys_socket :: "nat \<Rightarrow> int"
  sys_bind :: "nat \<Rightarrow> sockaddr_in \<Rightarrow> int"
  sys_getaddrinfo :: "nat \<Rightarrow> bytes \<Rightarrow> int + sockaddr_in"
  sys_gai_strerror :: "int \<Rightarrow> bytes"
  sys_open_tun :: "nat \<Rightarrow> int"
  sys_tun_name :: "nat \<Rightarrow> bytes"
  sys_ioctl :: "nat \<Rightarrow> int"
  sys_tun_read :: "nat \<Rightarrow> read_result"
  sys_tun_write :: "nat \<Rightarrow> bytes \<Rightarrow> int"
  sys_pthread_create :: "nat \<Rightarrow> int"

section \<open>Global state\<close>

record world =
  w_env :: sysenv
  w_tick :: nat
  g_proto_next_sequence :: u64
  g_proto_random_fd :: int
  g_crypto_key :: bytes
  g_running :: bool
  g_log_level :: int
  g_tui_active :: bool
  g_json_events_active :: bool
  g_start_time :: int
  w_tui :: tui_state
  w_stderr :: bytes
  w_stdout :: bytes
  w_sent :: "(bytes \<times> sockaddr_in) list"
  w_tun_out :: "bytes list"
  w_open_fds :: "int list"

text \<open>A call that consumes a tick: its outcome is a function of the tick.\<close>

definition syscall :: "(sysenv \<Rightarrow> nat \<Rightarrow> 'a) \<Rightarrow> world \<Rightarrow> 'a \<times> world" where
  "syscall f w = (f (w_env w) (w_tick w), w\<lparr>w_tick := Suc (w_tick w)\<rparr>)"

abbreviation time_now :: "world \<Rightarrow> int \<times> world" where
  "time_now \<equiv> syscall sys_time"

definition now_ms :: "world \<Rightarrow> u64 \<times> world" where
  "now_ms w = (let ((tv_sec, tv_nsec), w) = syscall sys_clock w
               in (tv_sec * 1000 + tv_nsec div 1000000, w))"

definition platform_poll_one :: "world \<Rightarrow> int \<times> world" where
  "platform_poll_one w = syscall sys_poll w"

definition sock_errstr :: "world \<Rightarrow> int \<Rightarrow> bytes" where
  "sock_errstr w err = sys_strerror (w_env w) err"

definition sock_close :: "int \<Rightarrow> world \<Rightarrow> world" where
  "sock_close s w = w\<lparr>w_open_fds := removeAll s (w_open_fds w)\<rparr>"

definition sock_valid :: "int \<Rightarrow> bool" where
  "sock_valid s \<longleftrightarrow> 0 \<le> s"

definition tund_is_running :: "world \<Rightarrow> bool" where
  "tund_is_running w = g_running w"

definition tund_request_stop :: "world \<Rightarrow> world" where
  "tund_request_stop w = w\<lparr>g_running := False\<rparr>"

text \<open>\<open>while (len-- > 0) *p++ = 0;\<close> over a buffer.\<close>

fun tund_wipe_secret :: "bytes \<Rightarrow> nat \<Rightarrow> bytes" where
  "tund_wipe_secret data 0 = data"
| "tund_wipe_secret [] (Suc n) = []"
| "tund_wipe_secret (p # ps) (Suc len) = 0 # tund_wipe_secret ps len"

definition smooth_rtt_ms :: "u64 \<Rightarrow> u64 \<Rightarrow> bool \<Rightarrow> u64" where
  "smooth_rtt_ms current sample has_current =
     (if \<not> has_current then sample else (current * 7 + sample + 3) div 8)"

text \<open>\<open>inet_ntop\<close> fails when the buffer is too small for the text and its NUL.\<close>

definition ip_to_str_buf :: "u32 \<Rightarrow> nat \<Rightarrow> bytes" where
  "ip_to_str_buf ip_nbo len =
     (if len < length (inet_ntop ip_nbo) + 1 then take (len - 1) (lit ''<invalid>'') else inet_ntop ip_nbo)"

abbreviation (input) TUND_IP_STR_LEN :: nat where "TUND_IP_STR_LEN \<equiv> 16"

section \<open>Logging\<close>

abbreviation (input) LOG_LEVEL_DEBUG :: nat where "LOG_LEVEL_DEBUG \<equiv> 0"
abbreviation (input) LOG_LEVEL_INFO :: nat where "LOG_LEVEL_INFO \<equiv> 1"
abbreviation (input) LOG_LEVEL_WARN :: nat where "LOG_LEVEL_WARN \<equiv> 2"
abbreviation (input) LOG_LEVEL_ERROR :: nat where "LOG_LEVEL_ERROR \<equiv> 3"
abbreviation (input) LOG_LEVEL_COUNT :: nat where "LOG_LEVEL_COUNT \<equiv> 4"

definition log_level_str :: "bytes list" where
  "log_level_str = [lit ''DEBUG'', lit ''INFO '', lit ''WARN '', lit ''ERROR'']"

definition log_level_color :: "bytes list" where
  "log_level_color = [27 # lit ''[36m'', 27 # lit ''[32m'', 27 # lit ''[33m'', 27 # lit ''[31m'']"

definition log_line :: "bool \<Rightarrow> nat \<Rightarrow> int \<times> int \<times> int \<Rightarrow> bytes \<Rightarrow> bytes" where
  "log_line color idx tm msg =
     (case tm of (tm_hour, tm_min, tm_sec) \<Rightarrow>
       (if color then log_level_color ! idx else []) @
       lit ''['' @ fmt_zd 2 tm_hour @ lit '':'' @ fmt_zd 2 tm_min @ lit '':'' @ fmt_zd 2 tm_sec @
       lit ''] ['' @ log_level_str ! idx @ lit ''] '' @ msg @
       (if color then 27 # lit ''[0m'' else []) @ [10])"

text \<open>\<open>s\<close> is the expansion of the format; \<open>vsnprintf\<close> keeps its first 8191 characters.\<close>

definition log_msg :: "nat \<Rightarrow> bytes \<Rightarrow> world \<Rightarrow> world" where
  "log_msg level s w =
     (if int level < g_log_level w then w
      else
        let idx = (if level < LOG_LEVEL_COUNT then level else LOG_LEVEL_ERROR);
            msg = take 8191 s;
            (t, w) = time_now w
        in if g_tui_active w \<and> tui_events_active (w_tui w)
           then w\<lparr>w_tui := tui_add_event t idx msg (w_tui w)\<rparr>
           else w\<lparr>w_stderr := w_stderr w @
                   log_line (sys_stderr_tty (w_env w)) idx (sys_localtime (w_env w) t) msg\<rparr>)"

abbreviation LOG_DEBUG :: "bytes \<Rightarrow> world \<Rightarrow> world" where "LOG_DEBUG \<equiv> log_msg LOG_LEVEL_DEBUG"
abbreviation LOG_INFO :: "bytes \<Rightarrow> world \<Rightarrow> world" where "LOG_INFO \<equiv> log_msg LOG_LEVEL_INFO"
abbreviation LOG_WARN :: "bytes \<Rightarrow> world \<Rightarrow> world" where "LOG_WARN \<equiv> log_msg LOG_LEVEL_WARN"
abbreviation LOG_ERROR :: "bytes \<Rightarrow> world \<Rightarrow> world" where "LOG_ERROR \<equiv> log_msg LOG_LEVEL_ERROR"

section \<open>What logging and the clocks leave alone\<close>

text \<open>
  The part of the world that the program's decisions depend on or that others observe: all but the
  tick and the diagnostics.
\<close>

definition w_core :: "world \<Rightarrow> world" where
  "w_core w = w\<lparr>w_tick := 0, w_tui := tui_state0, w_stderr := []\<rparr>"

lemma w_core_cong:
  assumes "w_core w = w_core w'"
  shows "w_env w = w_env w'" "g_proto_next_sequence w = g_proto_next_sequence w'"
    "g_proto_random_fd w = g_proto_random_fd w'" "g_crypto_key w = g_crypto_key w'"
    "g_running w = g_running w'" "g_log_level w = g_log_level w'" "g_tui_active w = g_tui_active w'"
    "g_json_events_active w = g_json_events_active w'" "g_start_time w = g_start_time w'"
    "w_stdout w = w_stdout w'" "w_sent w = w_sent w'" "w_tun_out w = w_tun_out w'"
    "w_open_fds w = w_open_fds w'"
  using arg_cong [OF assms, of w_env] arg_cong [OF assms, of g_proto_next_sequence]
    arg_cong [OF assms, of g_proto_random_fd] arg_cong [OF assms, of g_crypto_key]
    arg_cong [OF assms, of g_running] arg_cong [OF assms, of g_log_level]
    arg_cong [OF assms, of g_tui_active] arg_cong [OF assms, of g_json_events_active]
    arg_cong [OF assms, of g_start_time] arg_cong [OF assms, of w_stdout]
    arg_cong [OF assms, of w_sent] arg_cong [OF assms, of w_tun_out] arg_cong [OF assms, of w_open_fds]
  by (simp_all add: w_core_def)

lemma w_core_syscall [simp, frame]: "w_core (snd (syscall f w)) = w_core w"
  by (simp add: syscall_def w_core_def)

lemma w_core_now_ms [simp, frame]: "w_core (snd (now_ms w)) = w_core w"
  by (simp add: now_ms_def syscall_def w_core_def split: prod.splits)

lemma w_core_log_msg [simp, frame]: "w_core (log_msg l s w) = w_core w"
  by (simp add: log_msg_def syscall_def w_core_def Let_def)

lemmas syscall_frame [simp, frame] = w_core_cong [OF w_core_syscall]
lemmas now_ms_frame [simp, frame] = w_core_cong [OF w_core_now_ms]
lemmas log_msg_frame [simp, frame] = w_core_cong [OF w_core_log_msg]

lemma tui_wf_log_msg [wf_intros]: "tui_wf (w_tui w) \<Longrightarrow> tui_wf (w_tui (log_msg l s w))"
  by (simp add: log_msg_def syscall_def Let_def tui_wf_add)

lemma w_core_stop [simp]: "w_core (tund_request_stop w) = (w_core w)\<lparr>g_running := False\<rparr>"
  by (simp add: tund_request_stop_def w_core_def)

section \<open>Helpers of tund.h\<close>

lemma tund_wipe_secret_all: "tund_wipe_secret data (length data) = zeros (length data)"
  by (induction data) auto

lemma length_fmt_u_byte: "n < 256 \<Longrightarrow> length (fmt_u n) \<le> 3"
proof -
  assume "n < 256"
  have 1: "k < 10 \<Longrightarrow> length (fmt_u k) = 1" for k by (subst fmt_u.simps) simp
  have 2: "k < 100 \<Longrightarrow> length (fmt_u k) \<le> 2" for k
    by (subst fmt_u.simps) (simp add: 1)
  show ?thesis using \<open>n < 256\<close> 2 [of "n div 10"] by (subst fmt_u.simps) simp
qed

text \<open>The buffers the program uses are large enough for every address.\<close>

lemma ip_to_str_buf_fits [simp]: "ip_to_str_buf ip 16 = inet_ntop ip"
proof -
  have b: "length (fmt_u (unat (x :: u8))) \<le> 3" for x
  proof (rule length_fmt_u_byte)
    show "unat x < 256" using unsigned_less [of x] by simp
  qed
  have "length (inet_ntop ip) \<le> 15"
    using b [of "mem_of_u32 ip ! 0"] b [of "mem_of_u32 ip ! 1"] b [of "mem_of_u32 ip ! 2"]
      b [of "mem_of_u32 ip ! 3"] by (simp add: inet_ntop_def Let_def)
  then show ?thesis by (simp add: ip_to_str_buf_def)
qed

lemma smooth_rtt_ms_unat:
  assumes "unat c * 7 + unat s + 3 < 2 ^ 64"
  shows "unat (smooth_rtt_ms c s True) = (unat c * 7 + unat s + 3) div 8"
proof -
  have u1: "unat (c * 7) = unat c * 7" using assms by (simp add: unat_mult_lem [THEN iffD1])
  have u2: "unat (c * 7 + s) = unat c * 7 + unat s"
    using assms u1 unat_add_lem [of "c * 7" s] by simp
  have "unat (c * 7 + s + 3) = unat c * 7 + unat s + 3"
    using assms u2 unat_add_lem [of "c * 7 + s" 3] by simp
  then show ?thesis by (simp add: smooth_rtt_ms_def unat_div)
qed

section \<open>A concrete environment\<close>

text \<open>An environment in which every call succeeds, for evaluating the model.\<close>

definition demo_env :: sysenv where
  "demo_env =
     \<lparr>sys_time = (\<lambda>t. 1000 + int t), sys_clock = (\<lambda>t. (1000 + of_nat t, 0)), sys_localtime = (\<lambda>_. (12, 0, 0)),
      sys_stderr_tty = False, sys_open_urandom = (\<lambda>_. 3),
      sys_urandom_reads = (\<lambda>t. [ReadData (replicate 24 (of_nat t))]),
      sys_errno = (\<lambda>_. 0), sys_strerror = (\<lambda>_. lit ''Success''), sys_poll = (\<lambda>_. 0),
      sys_sendto = (\<lambda>_ d _. int (length d)), sys_recvfrom = (\<lambda>_. RecvFailed 11),
      sys_socket = (\<lambda>_. 4), sys_bind = (\<lambda>_ _. 0), sys_getaddrinfo = (\<lambda>_ _. Inl (-2)),
      sys_gai_strerror = (\<lambda>_. lit ''unknown''), sys_open_tun = (\<lambda>_. 5),
      sys_tun_name = (\<lambda>_. lit ''tund0'' @ zeros 11), sys_ioctl = (\<lambda>_. 0),
      sys_tun_read = (\<lambda>_. ReadInterrupted), sys_tun_write = (\<lambda>_ d. int (length d)),
      sys_pthread_create = (\<lambda>_. 0)\<rparr>"

definition demo_world :: world where
  "demo_world =
     \<lparr>w_env = demo_env, w_tick = 0, g_proto_next_sequence = 0, g_proto_random_fd = -1,
      g_crypto_key = zeros 32, g_running = True, g_log_level = 4, g_tui_active = False,
      g_json_events_active = False, g_start_time = 0, w_tui = tui_state0, w_stderr = [], w_stdout = [],
      w_sent = [], w_tun_out = [], w_open_fds = []\<rparr>"

end
