(* ===== verification/Chacha20.thy ===== *)
theory Chacha20
  imports Monocypher_Util
begin

text \<open>
  The ChaCha20 family of \<open>monocypher.c\<close>: the block rounds, the HChaCha20 key derivation and the
  streaming encryption with a 64-bit counter. The local variables \<open>t0 .. t15\<close> are a list of
  sixteen words. A null \<open>plain_text\<close> pointer is \<open>None\<close>; it makes the function write its key
  stream.
\<close>

definition QUARTERROUND :: "nat \<Rightarrow> nat \<Rightarrow> nat \<Rightarrow> nat \<Rightarrow> u32 list \<Rightarrow> u32 list" where
  "QUARTERROUND a b c d t =
     (let ta = t ! a; tb = t ! b; tc = t ! c; td = t ! d;
          ta = ta + tb; td = rotl32 (td XOR ta) 16;
          tc = tc + td; tb = rotl32 (tb XOR tc) 12;
          ta = ta + tb; td = rotl32 (td XOR ta) 8;
          tc = tc + td; tb = rotl32 (tb XOR tc) 7
      in t[a := ta, b := tb, c := tc, d := td])"

definition chacha20_double_round :: "u32 list \<Rightarrow> u32 list" where
  "chacha20_double_round t =
     (let t = QUARTERROUND 0 4 8 12 t;
          t = QUARTERROUND 1 5 9 13 t;
          t = QUARTERROUND 2 6 10 14 t;
          t = QUARTERROUND 3 7 11 15 t;
          t = QUARTERROUND 0 5 10 15 t;
          t = QUARTERROUND 1 6 11 12 t;
          t = QUARTERROUND 2 7 8 13 t
      in QUARTERROUND 3 4 9 14 t)"

definition chacha20_rounds :: "u32 list \<Rightarrow> u32 list" where
  "chacha20_rounds t = (chacha20_double_round ^^ 10) t"

definition chacha20_constant :: bytes where
  "chacha20_constant = lit ''expand 32-byte k''"

definition crypto_chacha20_h :: "bytes \<Rightarrow> bytes \<Rightarrow> bytes" where
  "crypto_chacha20_h key inp =
     (let block = load32_le_buf chacha20_constant 4 @ load32_le_buf key 8 @ load32_le_buf inp 4;
          block = chacha20_rounds block
      in store32_le_buf block 4 @ store32_le_buf (drop 12 block) 4)"

text \<open>The block counter: words 12 and 13 of the input, with the carry.\<close>

definition chacha20_next_input :: "u32 list \<Rightarrow> u32 list" where
  "chacha20_next_input input =
     (let input = input[12 := input ! 12 + 1]
      in if input ! 12 = 0 then input[13 := input ! 13 + 1] else input)"

fun chacha20_whole_blocks :: "nat \<Rightarrow> u32 list \<Rightarrow> bytes option \<Rightarrow> bytes \<times> u32 list" where
  "chacha20_whole_blocks 0 input plain = ([], input)"
| "chacha20_whole_blocks (Suc n) input plain =
     (let pool = chacha20_rounds input;
          out = concat (map (\<lambda>j.
                  let p = pool ! j + input ! j in
                  case plain of
                    Some msg \<Rightarrow> store32_le (p XOR load32_le (drop (4 * j) msg))
                  | None \<Rightarrow> store32_le p) [0..<16]);
          (rest, input') = chacha20_whole_blocks n (chacha20_next_input input) (map_option (drop 64) plain)
      in (out @ rest, input'))"

definition crypto_chacha20_djb ::
  "bytes option \<Rightarrow> nat \<Rightarrow> bytes \<Rightarrow> bytes \<Rightarrow> u64 \<Rightarrow> bytes \<times> u64" where
  "crypto_chacha20_djb plain text_size key nonce ctr =
     (let input = load32_le_buf chacha20_constant 4 @ load32_le_buf key 8 @
                  [ucast ctr, ucast (drop_bit 32 ctr)] @ load32_le_buf nonce 2;
          nb_blocks = text_size div 64;
          (cipher, input) = chacha20_whole_blocks nb_blocks input plain;
          plain = map_option (drop (64 * nb_blocks)) plain;
          text_size = text_size mod 64;
          plain_bytes = (case plain of None \<Rightarrow> zeros 128 | Some msg \<Rightarrow> msg);
          tail = (if 0 < text_size
                  then let pool = chacha20_rounds input;
                           tmp = concat (map (\<lambda>i. store32_le (pool ! i + input ! i)) [0..<16])
                       in map (\<lambda>i. tmp ! i XOR plain_bytes ! i) [0..<text_size]
                  else [])
      in (cipher @ tail,
          ucast (input ! 12) + push_bit 32 (ucast (input ! 13)) + (if 0 < text_size then 1 else 0)))"

definition crypto_chacha20_x :: "bytes option \<Rightarrow> nat \<Rightarrow> bytes \<Rightarrow> bytes \<Rightarrow> u64 \<Rightarrow> bytes \<times> u64" where
  "crypto_chacha20_x plain text_size key nonce ctr =
     crypto_chacha20_djb plain text_size (crypto_chacha20_h key nonce) (drop 16 nonce) ctr"

section \<open>The key stream\<close>

text \<open>
  The cipher text is the plain text exclusive-ored with the key stream, which is what the function
  writes for a null plain text; encryption is therefore an involution.
\<close>

definition chacha20_block :: "u32 list \<Rightarrow> bytes" where
  "chacha20_block input =
     concat (map (\<lambda>j. store32_le (chacha20_rounds input ! j + input ! j)) [0..<16])"

abbreviation xor_bytes :: "bytes \<Rightarrow> bytes \<Rightarrow> bytes" where
  "xor_bytes \<equiv> map2 (XOR)"

lemma length_chacha20_block [simp, len_simps]: "length (chacha20_block input) = 64"
  by (simp add: chacha20_block_def length_concat_const)

lemma xor_bytes_append:
  "length a = length c \<Longrightarrow> xor_bytes (a @ b) (c @ d) = xor_bytes a c @ xor_bytes b d"
  by simp

lemma xor_bytes_involution:
  "length p \<le> length k \<Longrightarrow> xor_bytes k (xor_bytes k p) = p"
proof (induction k arbitrary: p)
  case (Cons x k)
  then show ?case by (cases p) (auto simp: word_bw_assocs [symmetric])
qed simp

lemma concat_store_xor:
  assumes "4 * n \<le> length msg"
  shows "concat (map (\<lambda>j. store32_le (f j XOR load32_le (drop (4 * j) msg))) [0..<n]) =
         xor_bytes (concat (map (\<lambda>j. store32_le (f j)) [0..<n])) (take (4 * n) msg)"
  using assms
proof (induction n)
  case (Suc n)
  have tk: "take (4 * Suc n) msg = take (4 * n) msg @ take 4 (drop (4 * n) msg)"
    by (simp add: take_add [symmetric] add.commute)
  have len: "length (concat (map (\<lambda>j. store32_le (f j)) [0..<n])) = length (take (4 * n) msg)"
    using Suc.prems by (simp add: length_concat_const)
  have "store32_le (f n XOR load32_le (drop (4 * n) msg)) =
        xor_bytes (store32_le (f n)) (take 4 (drop (4 * n) msg))"
    using Suc.prems by (intro store32_le_xor_load) simp
  with Suc.IH Suc.prems len tk show ?case by (simp add: xor_bytes_append)
qed simp

lemma chacha20_whole_blocks_None_len [simp, len_simps]:
  "length (fst (chacha20_whole_blocks n input None)) = 64 * n"
  by (induction n arbitrary: input)
     (simp_all add: Let_def split_beta length_concat_const)

lemma chacha20_whole_blocks_None_Suc:
  "fst (chacha20_whole_blocks (Suc n) input None) =
   chacha20_block input @ fst (chacha20_whole_blocks n (chacha20_next_input input) None)"
  by (simp add: Let_def split_beta chacha20_block_def)

lemma chacha20_whole_blocks_Some:
  assumes "64 * n \<le> length msg"
  shows "chacha20_whole_blocks n input (Some msg) =
         (xor_bytes (fst (chacha20_whole_blocks n input None)) (take (64 * n) msg),
          snd (chacha20_whole_blocks n input None))"
  using assms
proof (induction n arbitrary: input msg)
  case (Suc n)
  have IH: "chacha20_whole_blocks n (chacha20_next_input input) (Some (drop 64 msg)) =
     (xor_bytes (fst (chacha20_whole_blocks n (chacha20_next_input input) None))
        (take (64 * n) (drop 64 msg)),
      snd (chacha20_whole_blocks n (chacha20_next_input input) None))"
    using Suc.prems by (intro Suc.IH) simp
  have blk: "concat (map (\<lambda>j. store32_le ((chacha20_rounds input ! j + input ! j) XOR
      load32_le (drop (4 * j) msg))) [0..<16]) = xor_bytes (chacha20_block input) (take 64 msg)"
    using concat_store_xor [of 16 msg "\<lambda>j. chacha20_rounds input ! j + input ! j"] Suc.prems
    by (simp add: chacha20_block_def)
  have tk: "take (64 * Suc n) msg = take 64 msg @ take (64 * n) (drop 64 msg)"
    by (simp add: take_add [symmetric])
  have len: "length (chacha20_block input) = length (take 64 msg)" using Suc.prems by simp
  have fst_eq: "fst (chacha20_whole_blocks (Suc n) input (Some msg)) =
      xor_bytes (chacha20_block input) (take 64 msg) @
      xor_bytes (fst (chacha20_whole_blocks n (chacha20_next_input input) None))
        (take (64 * n) (drop 64 msg))"
    using IH blk by (simp add: Let_def)
  have snd_eq: "snd (chacha20_whole_blocks (Suc n) input (Some msg)) =
      snd (chacha20_whole_blocks (Suc n) input None)"
    using IH by (simp add: Let_def split_beta)
  show ?case
    by (intro prod_eqI)
       (simp_all only: fst_eq snd_eq tk chacha20_whole_blocks_None_Suc xor_bytes_append [OF len]
          fst_conv snd_conv)
qed simp

definition chacha20_keystream :: "nat \<Rightarrow> bytes \<Rightarrow> bytes \<Rightarrow> u64 \<Rightarrow> bytes" where
  "chacha20_keystream n key nonce ctr = fst (crypto_chacha20_djb None n key nonce ctr)"

lemma map_nth_upt_take: "n \<le> length xs \<Longrightarrow> map (\<lambda>i. xs ! i) [0..<n] = take n xs"
  by (rule nth_equalityI) auto

lemma map_xor_nth:
  "n \<le> length a \<Longrightarrow> n \<le> length b \<Longrightarrow>
   map (\<lambda>i. a ! i XOR b ! i) [0..<n] = xor_bytes (take n a) (take n b)"
  by (rule nth_equalityI) auto

lemma crypto_chacha20_djb_None:
  "crypto_chacha20_djb None n key nonce ctr =
     (let input = load32_le_buf chacha20_constant 4 @ load32_le_buf key 8 @
                  [ucast ctr, ucast (drop_bit 32 ctr)] @ load32_le_buf nonce 2;
          (ks, input) = chacha20_whole_blocks (n div 64) input None
      in (ks @ take (n mod 64) (chacha20_block input),
          ucast (input ! 12) + push_bit 32 (ucast (input ! 13)) + (if 0 < n mod 64 then 1 else 0)))"
proof -
  have tail: "map (\<lambda>i. chacha20_block inp ! i XOR zeros 128 ! i) [0..<n mod 64] =
        take (n mod 64) (chacha20_block inp)" for inp
  proof -
    have "n mod 64 \<le> length (chacha20_block inp)" by (simp add: less_imp_le)
    moreover have "i < n mod 64 \<Longrightarrow> zeros 128 ! i = 0" for i
      using mod_less_divisor [of 64 n] by (subst nth_replicate) auto
    ultimately show ?thesis by (intro nth_equalityI) simp_all
  qed
  show ?thesis
    unfolding crypto_chacha20_djb_def Let_def chacha20_block_def [symmetric]
    by (simp add: split_beta tail)
qed

lemma crypto_chacha20_djb_Some:
  assumes "length msg = n"
  shows "fst (crypto_chacha20_djb (Some msg) n key nonce ctr) =
         xor_bytes (chacha20_keystream n key nonce ctr) msg"
proof -
  define input where "input = load32_le_buf chacha20_constant 4 @ load32_le_buf key 8 @
    [ucast ctr, ucast (drop_bit 32 ctr)] @ load32_le_buf nonce 2"
  define ks where "ks = fst (chacha20_whole_blocks (n div 64) input None)"
  define inp where "inp = snd (chacha20_whole_blocks (n div 64) input None)"
  let ?q = "64 * (n div 64)" and ?r = "n mod 64"
  have wb: "chacha20_whole_blocks (n div 64) input (Some msg) = (xor_bytes ks (take ?q msg), inp)"
    using assms by (simp add: chacha20_whole_blocks_Some ks_def inp_def)
  have lenr: "length (drop ?q msg) = ?r" using assms by (simp add: minus_mult_div_eq_mod)
  have tail: "map (\<lambda>i. chacha20_block inp ! i XOR drop ?q msg ! i) [0..<?r] =
      xor_bytes (take ?r (chacha20_block inp)) (drop ?q msg)"
    using map_xor_nth [of ?r "chacha20_block inp" "drop ?q msg"] lenr by (simp add: less_imp_le)
  have ks: "chacha20_keystream n key nonce ctr = ks @ take ?r (chacha20_block inp)"
    unfolding chacha20_keystream_def crypto_chacha20_djb_None Let_def input_def [symmetric]
    by (simp add: ks_def inp_def split_beta)
  have len: "length ks = length (take ?q msg)" using assms by (simp add: ks_def)
  have "fst (crypto_chacha20_djb (Some msg) n key nonce ctr) =
        xor_bytes ks (take ?q msg) @ map (\<lambda>i. chacha20_block inp ! i XOR drop ?q msg ! i) [0..<?r]"
    unfolding crypto_chacha20_djb_def Let_def chacha20_block_def [symmetric] input_def [symmetric]
    by (simp add: wb)
  also have "\<dots> = xor_bytes (ks @ take ?r (chacha20_block inp)) (take ?q msg @ drop ?q msg)"
    by (simp only: tail xor_bytes_append [OF len])
  finally show ?thesis by (simp add: ks)
qed

lemma length_chacha20_keystream [simp, len_simps]: "length (chacha20_keystream n key nonce ctr) = n"
proof -
  have "min 64 (n mod 64) = n mod 64" by (simp add: less_imp_le min.absorb2)
  then show ?thesis
    by (simp add: chacha20_keystream_def crypto_chacha20_djb_None Let_def split_beta)
qed

lemma chacha20_djb_involution:
  assumes "length msg = n"
  shows "fst (crypto_chacha20_djb (Some (fst (crypto_chacha20_djb (Some msg) n key nonce ctr)))
           n key nonce ctr) = msg"
  using assms by (simp add: crypto_chacha20_djb_Some xor_bytes_involution)

lemma length_crypto_chacha20_h [simp, len_simps]: "length (crypto_chacha20_h key inp) = 32"
  by (simp add: crypto_chacha20_h_def Let_def)

end
