(* ===== verification/Aead.thy ===== *)
theory Aead
  imports Chacha20 Poly1305
begin

text \<open>
  Authenticated encryption of \<open>monocypher.c\<close> (XChaCha20-Poly1305) and the interface
  \<open>src/protocol/protocol.c\<close> relies on. The locale \<open>aead\<close> states the contract of
  \<open>crypto_aead_lock\<close> and \<open>crypto_aead_unlock\<close>; it is interpreted on the model of the vendored
  code, so that no property of the library is assumed.
\<close>

record aead_ctx =
  aead_counter :: u64
  aead_key :: bytes
  aead_nonce :: bytes

definition lock_auth :: "bytes \<Rightarrow> bytes \<Rightarrow> bytes \<Rightarrow> bytes" where
  "lock_auth auth_key ad cipher_text =
     (let sizes = store64_le (of_nat (length ad)) @ store64_le (of_nat (length cipher_text));
          poly_ctx = crypto_poly1305_init auth_key;
          poly_ctx = crypto_poly1305_update poly_ctx ad (length ad);
          poly_ctx = crypto_poly1305_update poly_ctx (zeros 128) (gap (length ad) 16);
          poly_ctx = crypto_poly1305_update poly_ctx cipher_text (length cipher_text);
          poly_ctx = crypto_poly1305_update poly_ctx (zeros 128) (gap (length cipher_text) 16);
          poly_ctx = crypto_poly1305_update poly_ctx sizes 16
      in crypto_poly1305_final poly_ctx)"

definition crypto_aead_init_x :: "bytes \<Rightarrow> bytes \<Rightarrow> aead_ctx" where
  "crypto_aead_init_x key nonce =
     \<lparr>aead_counter = 0, aead_key = crypto_chacha20_h key nonce, aead_nonce = slice 16 8 nonce\<rparr>"

definition crypto_aead_write :: "aead_ctx \<Rightarrow> bytes \<Rightarrow> bytes \<Rightarrow> aead_ctx \<times> bytes \<times> bytes" where
  "crypto_aead_write ctx ad plain_text =
     (let auth_key = fst (crypto_chacha20_djb None 64 (aead_key ctx) (aead_nonce ctx) (aead_counter ctx));
          cipher_text = fst (crypto_chacha20_djb (Some plain_text) (length plain_text)
                              (aead_key ctx) (aead_nonce ctx) (aead_counter ctx + 1));
          mac = lock_auth auth_key ad cipher_text
      in (ctx\<lparr>aead_key := slice 32 32 auth_key\<rparr>, cipher_text, mac))"

text \<open>The result is \<open>None\<close> in place of the plain text when \<open>crypto_verify16\<close> reports a mismatch.\<close>

definition crypto_aead_read :: "aead_ctx \<Rightarrow> bytes \<Rightarrow> bytes \<Rightarrow> bytes \<Rightarrow> aead_ctx \<times> bytes option" where
  "crypto_aead_read ctx mac ad cipher_text =
     (let auth_key = fst (crypto_chacha20_djb None 64 (aead_key ctx) (aead_nonce ctx) (aead_counter ctx));
          real_mac = lock_auth auth_key ad cipher_text;
          mismatch = crypto_verify16 mac real_mac
      in if mismatch = 0
         then (ctx\<lparr>aead_key := slice 32 32 auth_key\<rparr>,
               Some (fst (crypto_chacha20_djb (Some cipher_text) (length cipher_text)
                           (aead_key ctx) (aead_nonce ctx) (aead_counter ctx + 1))))
         else (ctx, None))"

definition crypto_aead_lock :: "bytes \<Rightarrow> bytes \<Rightarrow> bytes \<Rightarrow> bytes \<Rightarrow> bytes \<times> bytes" where
  "crypto_aead_lock key nonce ad plain_text =
     (let (_, cipher_text, mac) = crypto_aead_write (crypto_aead_init_x key nonce) ad plain_text
      in (cipher_text, mac))"

definition crypto_aead_unlock :: "bytes \<Rightarrow> bytes \<Rightarrow> bytes \<Rightarrow> bytes \<Rightarrow> bytes \<Rightarrow> bytes option" where
  "crypto_aead_unlock mac key nonce ad cipher_text =
     snd (crypto_aead_read (crypto_aead_init_x key nonce) mac ad cipher_text)"

section \<open>The contract of the library\<close>

locale aead =
  fixes lock :: "bytes \<Rightarrow> bytes \<Rightarrow> bytes \<Rightarrow> bytes \<Rightarrow> bytes \<times> bytes"
    and unlock :: "bytes \<Rightarrow> bytes \<Rightarrow> bytes \<Rightarrow> bytes \<Rightarrow> bytes \<Rightarrow> bytes option"
  assumes lock_cipher_len: "lock k n ad p = (c, t) \<Longrightarrow> length c = length p"
    and lock_mac_len: "lock k n ad p = (c, t) \<Longrightarrow> length t = 16"
    and unlock_lock: "lock k n ad p = (c, t) \<Longrightarrow> unlock t k n ad c = Some p"
    and unlock_sound: "length t = 16 \<Longrightarrow> unlock t k n ad c = Some p \<Longrightarrow> lock k n ad p = (c, t)"
begin

lemma unlock_iff: "length t = 16 \<Longrightarrow> unlock t k n ad c = Some p \<longleftrightarrow> lock k n ad p = (c, t)"
  using unlock_lock unlock_sound by blast

lemma unlock_len: "length t = 16 \<Longrightarrow> unlock t k n ad c = Some p \<Longrightarrow> length p = length c"
  using unlock_sound lock_cipher_len by metis

lemma lock_inj: "lock k n ad p = lock k n ad q \<Longrightarrow> p = q"
  by (metis option.inject prod.exhaust unlock_lock)

text \<open>For one key, nonce and header at most one tag is accepted with a given cipher text.\<close>

lemma accepted_tag_unique:
  assumes "length t = 16" "length t' = 16"
    and "unlock t k n ad c = Some p" "unlock t' k n ad c = Some p"
  shows "t = t'"
  using assms unlock_sound by (metis prod.inject)

end

section \<open>The vendored code keeps the contract\<close>

lemma lock_auth_repr:
  "\<exists>m ctx. lock_auth k ad c = crypto_poly1305_final ctx \<and> poly_repr k ctx m \<and>
     m = ad @ zeros (gap (length ad) 16) @ c @ zeros (gap (length c) 16) @
         store64_le (of_nat (length ad)) @ store64_le (of_nat (length c))"
proof -
  have g: "gap x 16 \<le> 128" for x using gap_pow2_aligns(2) [of 4 x] by simp
  define c1 where "c1 = crypto_poly1305_update (crypto_poly1305_init k) ad (length ad)"
  define c2 where "c2 = crypto_poly1305_update c1 (zeros 128) (gap (length ad) 16)"
  define c3 where "c3 = crypto_poly1305_update c2 c (length c)"
  define c4 where "c4 = crypto_poly1305_update c3 (zeros 128) (gap (length c) 16)"
  define s where "s = store64_le (of_nat (length ad)) @ store64_le (of_nat (length c))"
  have r1: "poly_repr k c1 ad"
    using poly_update_repr [OF poly_init_repr, of "length ad" ad k] by (simp add: c1_def)
  have r2: "poly_repr k c2 (ad @ zeros (gap (length ad) 16))"
    using poly_update_repr [OF r1, of "gap (length ad) 16" "zeros 128"] g
    by (simp add: c2_def min.absorb1)
  have r3: "poly_repr k c3 ((ad @ zeros (gap (length ad) 16)) @ c)"
    using poly_update_repr [OF r2, of "length c" c] by (simp add: c3_def)
  have r4: "poly_repr k c4 (((ad @ zeros (gap (length ad) 16)) @ c) @ zeros (gap (length c) 16))"
    using poly_update_repr [OF r3, of "gap (length c) 16" "zeros 128"] g
    by (simp add: c4_def min.absorb1)
  have s16: "length s = 16" by (simp add: s_def)
  have r5: "poly_repr k (crypto_poly1305_update c4 s 16)
      ((((ad @ zeros (gap (length ad) 16)) @ c) @ zeros (gap (length c) 16)) @ s)"
    using poly_update_repr [OF r4, of 16 s] s16 by simp
  have "lock_auth k ad c = crypto_poly1305_final (crypto_poly1305_update c4 s 16)"
    by (simp add: lock_auth_def Let_def c1_def c2_def c3_def c4_def s_def)
  with r5 show ?thesis unfolding s_def by auto
qed

lemma length_lock_auth [simp, len_simps]: "length (lock_auth k ad c) = 16"
  using lock_auth_repr [of k ad c] length_crypto_poly1305_final by metis

lemma crypto_aead_unlock_eq:
  assumes "length t = 16"
  shows "crypto_aead_unlock t k n ad c =
    (let ctx = crypto_aead_init_x k n in
     if t = lock_auth (chacha20_keystream 64 (aead_key ctx) (aead_nonce ctx) 0) ad c
     then Some (xor_bytes (chacha20_keystream (length c) (aead_key ctx) (aead_nonce ctx) 1) c)
     else None)"
  using assms
  by (simp add: crypto_aead_unlock_def crypto_aead_read_def Let_def crypto_verify16_correct
      crypto_chacha20_djb_Some chacha20_keystream_def [symmetric])
     (simp add: crypto_aead_init_x_def)

lemma crypto_aead_lock_eq:
  "crypto_aead_lock k n ad p =
    (let ctx = crypto_aead_init_x k n;
         c = xor_bytes (chacha20_keystream (length p) (aead_key ctx) (aead_nonce ctx) 1) p
     in (c, lock_auth (chacha20_keystream 64 (aead_key ctx) (aead_nonce ctx) 0) ad c))"
  by (simp add: crypto_aead_lock_def crypto_aead_write_def Let_def
      crypto_chacha20_djb_Some chacha20_keystream_def [symmetric])
     (simp add: crypto_aead_init_x_def)

interpretation mc: aead crypto_aead_lock crypto_aead_unlock
proof unfold_locales
  fix k n ad p c t
  assume lk: "crypto_aead_lock k n ad p = (c, t)"
  then show len: "length c = length p" and mac: "length t = 16"
    by (auto simp: crypto_aead_lock_eq Let_def)
  from lk len mac show "crypto_aead_unlock t k n ad c = Some p"
    by (auto simp: crypto_aead_lock_eq crypto_aead_unlock_eq Let_def xor_bytes_involution)
next
  fix t k n ad c p
  assume "length t = (16::nat)" "crypto_aead_unlock t k n ad c = Some p"
  then show "crypto_aead_lock k n ad p = (c, t)"
    by (auto simp: crypto_aead_lock_eq crypto_aead_unlock_eq Let_def xor_bytes_involution split: if_splits)
qed

section \<open>Properties\<close>

text \<open>
  Authenticated encryption is exact. For a tag of 16 bytes, \<open>crypto_aead_unlock\<close> returns a
  plain text if and only if \<open>crypto_aead_lock\<close> produces this cipher text and this tag from it, for
  the same key, nonce and additional data. In one direction this is the round trip; in the other,
  a forged, altered or truncated message is accepted only if it is what locking would produce.
\<close>

theorem aead_unlock_iff_lock:
  assumes "length mac = 16"
  shows "crypto_aead_unlock mac key nonce ad cipher_text = Some plain_text \<longleftrightarrow>
         crypto_aead_lock key nonce ad plain_text = (cipher_text, mac)"
  using assms by (rule mc.unlock_iff)

theorem aead_unlock_iff_lock_witness:
  "length (zeros 16) = 16 \<and>
   (crypto_aead_unlock (zeros 16) (zeros 32) (zeros 24) [1, 2] [3, 4, 5] = Some [7, 7, 7] \<longleftrightarrow>
    crypto_aead_lock (zeros 32) (zeros 24) [1, 2] [7, 7, 7] = ([3, 4, 5], zeros 16))"
  using aead_unlock_iff_lock [of "zeros 16" "zeros 32" "zeros 24" "[1, 2]" "[3, 4, 5]" "[7, 7, 7]"]
  by simp

end
