(* ===== verification/Blake2b.thy ===== *)
theory Blake2b
  imports Monocypher_Util
begin

text \<open>
  The unkeyed BLAKE2b of \<open>monocypher.c\<close>, which \<open>proto_key_from_passphrase\<close> hashes the network
  key with. A context is the record of its five fields; the sixteen work words \<open>v0 .. v15\<close> are a
  list.
\<close>

record blake2b_ctx =
  b2_hash :: "u64 list"
  b2_input_offset :: "u64 list"
  b2_input :: "u64 list"
  b2_input_idx :: nat
  b2_hash_size :: nat

definition iv :: "u64 list" where
  "iv = [0x6a09e667f3bcc908, 0xbb67ae8584caa73b, 0x3c6ef372fe94f82b, 0xa54ff53a5f1d36f1,
         0x510e527fade682d1, 0x9b05688c2b3e6c1f, 0x1f83d9abfb41bd6b, 0x5be0cd19137e2179]"

definition sigma :: "nat list list" where
  "sigma =
    [[ 0,  1,  2,  3,  4,  5,  6,  7,  8,  9, 10, 11, 12, 13, 14, 15],
     [14, 10,  4,  8,  9, 15, 13,  6,  1, 12,  0,  2, 11,  7,  5,  3],
     [11,  8, 12,  0,  5,  2, 15, 13, 10, 14,  3,  6,  7,  1,  9,  4],
     [ 7,  9,  3,  1, 13, 12, 11, 14,  2,  6,  5, 10,  4,  0, 15,  8],
     [ 9,  0,  5,  7,  2,  4, 10, 15, 14,  1, 11, 12,  6,  8,  3, 13],
     [ 2, 12,  6, 10,  0, 11,  8,  3,  4, 13,  7,  5, 15, 14,  1,  9],
     [12,  5,  1, 15, 14, 13,  4, 10,  0,  7,  6,  3,  9,  2,  8, 11],
     [13, 11,  7, 14, 12,  1,  3,  9,  5,  0, 15,  4,  8,  6,  2, 10],
     [ 6, 15, 14,  9, 11,  3,  0,  8, 12,  2, 13,  7,  1,  4, 10,  5],
     [10,  2,  8,  4,  7,  6,  1,  5, 15, 11,  9, 14,  3, 12, 13,  0],
     [ 0,  1,  2,  3,  4,  5,  6,  7,  8,  9, 10, 11, 12, 13, 14, 15],
     [14, 10,  4,  8,  9, 15, 13,  6,  1, 12,  0,  2, 11,  7,  5,  3]]"

definition BLAKE2_G :: "nat \<Rightarrow> nat \<Rightarrow> nat \<Rightarrow> nat \<Rightarrow> u64 \<Rightarrow> u64 \<Rightarrow> u64 list \<Rightarrow> u64 list" where
  "BLAKE2_G a b c d x y v =
     (let va = v ! a; vb = v ! b; vc = v ! c; vd = v ! d;
          va = va + (vb + x); vd = rotr64 (vd XOR va) 32;
          vc = vc + vd;       vb = rotr64 (vb XOR vc) 24;
          va = va + (vb + y); vd = rotr64 (vd XOR va) 16;
          vc = vc + vd;       vb = rotr64 (vb XOR vc) 63
      in v[a := va, b := vb, c := vc, d := vd])"

definition BLAKE2_ROUND :: "u64 list \<Rightarrow> nat \<Rightarrow> u64 list \<Rightarrow> u64 list" where
  "BLAKE2_ROUND input i v =
     (let inp = (\<lambda>j. input ! (sigma ! i ! j));
          v = BLAKE2_G 0 4  8 12 (inp  0) (inp  1) v;
          v = BLAKE2_G 1 5  9 13 (inp  2) (inp  3) v;
          v = BLAKE2_G 2 6 10 14 (inp  4) (inp  5) v;
          v = BLAKE2_G 3 7 11 15 (inp  6) (inp  7) v;
          v = BLAKE2_G 0 5 10 15 (inp  8) (inp  9) v;
          v = BLAKE2_G 1 6 11 12 (inp 10) (inp 11) v;
          v = BLAKE2_G 2 7  8 13 (inp 12) (inp 13) v
      in BLAKE2_G 3 4 9 14 (inp 14) (inp 15) v)"

definition blake2b_compress :: "blake2b_ctx \<Rightarrow> int \<Rightarrow> blake2b_ctx" where
  "blake2b_compress ctx is_last_block =
     (let x = b2_input_offset ctx;
          y = of_nat (b2_input_idx ctx);
          x = x[0 := x ! 0 + y];
          x = (if x ! 0 < y then x[1 := x ! 1 + 1] else x);
          hash = b2_hash ctx;
          v = hash @ [iv ! 0, iv ! 1, iv ! 2, iv ! 3, iv ! 4 XOR x ! 0, iv ! 5 XOR x ! 1,
                      iv ! 6 XOR word_of_int (NOT (is_last_block - 1)), iv ! 7];
          v = fold (BLAKE2_ROUND (b2_input ctx)) [0..<12] v
      in ctx\<lparr>b2_input_offset := x,
             b2_hash := map (\<lambda>i. hash ! i XOR (v ! i XOR v ! (i + 8))) [0..<8]\<rparr>)"

definition crypto_blake2b_keyed_init :: "nat \<Rightarrow> bytes \<Rightarrow> blake2b_ctx" where
  "crypto_blake2b_keyed_init hash_size key =
     (let key_size = length key;
          ctx = \<lparr>b2_hash = iv[0 := iv ! 0 XOR (0x01010000 XOR push_bit 8 (of_nat key_size) XOR of_nat hash_size)],
                 b2_input_offset = [0, 0],
                 b2_input = replicate 16 0,
                 b2_input_idx = 0,
                 b2_hash_size = hash_size\<rparr>
      in if 0 < key_size
         then ctx\<lparr>b2_input := load64_le_buf (memcpy_at 0 key (zeros 128)) 16, b2_input_idx := 128\<rparr>
         else ctx)"

definition crypto_blake2b_init :: "nat \<Rightarrow> blake2b_ctx" where
  "crypto_blake2b_init hash_size = crypto_blake2b_keyed_init hash_size []"

text \<open>The steps of \<open>crypto_blake2b_update\<close>: a byte into the word that is being filled, \dots\<close>

definition blake2b_or_byte :: "u8 \<Rightarrow> blake2b_ctx \<Rightarrow> blake2b_ctx" where
  "blake2b_or_byte b ctx =
     (let word = b2_input_idx ctx div 8;
          byte = b2_input_idx ctx mod 8
      in ctx\<lparr>b2_input := (b2_input ctx)[word := b2_input ctx ! word OR push_bit (byte * 8) (ucast b)],
             b2_input_idx := b2_input_idx ctx + 1\<rparr>)"

text \<open>\dots\ words into the buffer at a word index, \dots\<close>

definition blake2b_load_words :: "nat \<Rightarrow> bytes \<Rightarrow> nat \<Rightarrow> blake2b_ctx \<Rightarrow> blake2b_ctx" where
  "blake2b_load_words at message nb_words ctx =
     ctx\<lparr>b2_input := memcpy_at at (load64_le_buf message nb_words) (b2_input ctx),
         b2_input_idx := b2_input_idx ctx + 8 * nb_words\<rparr>"

text \<open>\dots\ and whole blocks, each after compressing the previous one.\<close>

fun blake2b_blocks :: "nat \<Rightarrow> bytes \<Rightarrow> blake2b_ctx \<Rightarrow> blake2b_ctx" where
  "blake2b_blocks 0 message ctx = ctx"
| "blake2b_blocks (Suc n) message ctx =
     (let ctx = (if b2_input_idx ctx = 128 then blake2b_compress ctx 0 else ctx)
      in blake2b_blocks n (drop 128 message)
           (ctx\<lparr>b2_input := load64_le_buf message 16, b2_input_idx := 128\<rparr>))"

definition blake2b_align_word :: "blake2b_ctx \<Rightarrow> bytes \<Rightarrow> blake2b_ctx \<times> bytes" where
  "blake2b_align_word ctx message =
     (if b2_input_idx ctx mod 8 \<noteq> 0
      then let nb_bytes = min (gap (b2_input_idx ctx) 8) (length message)
           in (fold blake2b_or_byte (take nb_bytes message) ctx, drop nb_bytes message)
      else (ctx, message))"

definition blake2b_align_block :: "blake2b_ctx \<Rightarrow> bytes \<Rightarrow> blake2b_ctx \<times> bytes" where
  "blake2b_align_block ctx message =
     (if b2_input_idx ctx mod 128 \<noteq> 0
      then let nb_words = min (gap (b2_input_idx ctx) 128) (length message) div 8
           in (blake2b_load_words (b2_input_idx ctx div 8) message nb_words ctx, drop (8 * nb_words) message)
      else (ctx, message))"

definition blake2b_tail :: "blake2b_ctx \<Rightarrow> bytes \<Rightarrow> blake2b_ctx" where
  "blake2b_tail ctx message =
     (if message \<noteq> []
      then let ctx = (if b2_input_idx ctx = 128
                      then (blake2b_compress ctx 0)\<lparr>b2_input_idx := 0\<rparr> else ctx);
               ctx = (if b2_input_idx ctx = 0 then ctx\<lparr>b2_input := replicate 16 0\<rparr> else ctx);
               nb_words = length message div 8;
               ctx = blake2b_load_words 0 message nb_words ctx
           in fold blake2b_or_byte (drop (8 * nb_words) message) ctx
      else ctx)"

definition crypto_blake2b_update :: "blake2b_ctx \<Rightarrow> bytes \<Rightarrow> blake2b_ctx" where
  "crypto_blake2b_update ctx message =
     (if message = [] then ctx
      else
        let (ctx, message) = blake2b_align_word ctx message;
            (ctx, message) = blake2b_align_block ctx message;
            nb_blocks = length message div 128
        in blake2b_tail (blake2b_blocks nb_blocks message ctx) (drop (128 * nb_blocks) message))"

definition crypto_blake2b_final :: "blake2b_ctx \<Rightarrow> bytes" where
  "crypto_blake2b_final ctx =
     (let ctx = blake2b_compress ctx 1;
          hash_size = min (b2_hash_size ctx) 64;
          nb_words = hash_size div 8
      in store64_le_buf (b2_hash ctx) nb_words @
         map (\<lambda>i. ucast (drop_bit (8 * (i mod 8)) (b2_hash ctx ! (i div 8)) AND 0xff)) [8 * nb_words..<hash_size])"

definition crypto_blake2b :: "nat \<Rightarrow> bytes \<Rightarrow> bytes" where
  "crypto_blake2b hash_size msg =
     crypto_blake2b_final (crypto_blake2b_update (crypto_blake2b_keyed_init hash_size []) msg)"

section \<open>The size of a digest\<close>

lemma b2_hash_size_compress [simp, frame]: "b2_hash_size (blake2b_compress ctx l) = b2_hash_size ctx"
  by (simp add: blake2b_compress_def Let_def)

lemma b2_hash_size_or_bytes [simp, frame]:
  "b2_hash_size (fold blake2b_or_byte bs ctx) = b2_hash_size ctx"
  by (induction bs arbitrary: ctx) (simp_all add: blake2b_or_byte_def Let_def)

lemma b2_hash_size_load [simp, frame]: "b2_hash_size (blake2b_load_words a m n ctx) = b2_hash_size ctx"
  by (simp add: blake2b_load_words_def)

lemma b2_hash_size_blocks [simp, frame]: "b2_hash_size (blake2b_blocks n m ctx) = b2_hash_size ctx"
  by (induction n m ctx rule: blake2b_blocks.induct) (auto simp: Let_def)

lemma b2_hash_size_align [simp, frame]:
  "b2_hash_size (fst (blake2b_align_word ctx m)) = b2_hash_size ctx"
  "b2_hash_size (fst (blake2b_align_block ctx m)) = b2_hash_size ctx"
  "b2_hash_size (blake2b_tail ctx m) = b2_hash_size ctx"
  by (simp_all add: blake2b_align_word_def blake2b_align_block_def blake2b_tail_def Let_def)

lemma b2_hash_size_update [simp, frame]:
  "b2_hash_size (crypto_blake2b_update ctx m) = b2_hash_size ctx"
  by (simp add: crypto_blake2b_update_def Let_def split_beta)

lemma b2_hash_size_init [simp]: "b2_hash_size (crypto_blake2b_keyed_init n k) = n"
  by (simp add: crypto_blake2b_keyed_init_def Let_def)

lemma length_crypto_blake2b_final [simp, len_simps]:
  "length (crypto_blake2b_final ctx) = min (b2_hash_size ctx) 64"
  by (simp add: crypto_blake2b_final_def Let_def)

end
