(* ===== verification/Proto_Wire.thy ===== *)
theory Proto_Wire
  imports World Aead Blake2b
begin

text \<open>
  The wire format of \<open>src/protocol/protocol.c\<close>: random bytes, sequence numbers, the 37-byte header
  and the encryption of a datagram in place. A function that writes through a buffer pointer takes
  the buffer and returns it updated together with its result code; a function with out-parameters
  returns them, \<open>Inl\<close> of the code or \<open>None\<close> standing for a failure.
\<close>

abbreviation (input) TUND_MAGIC :: u8 where "TUND_MAGIC \<equiv> 0xA9"
abbreviation (input) TUND_PROTOCOL_VERSION :: u8 where "TUND_PROTOCOL_VERSION \<equiv> 4"
abbreviation (input) TUND_SEQUENCE_OFFSET :: nat where "TUND_SEQUENCE_OFFSET \<equiv> 5"
abbreviation (input) TUND_NONCE_OFFSET :: nat where "TUND_NONCE_OFFSET \<equiv> 13"
abbreviation (input) TUND_NONCE_SIZE :: nat where "TUND_NONCE_SIZE \<equiv> 24"
abbreviation (input) TUND_AUTH_TAG_SIZE :: nat where "TUND_AUTH_TAG_SIZE \<equiv> 16"
abbreviation (input) TUND_KEY_SIZE :: nat where "TUND_KEY_SIZE \<equiv> 32"
abbreviation (input) TUND_HDR_SIZE :: nat where "TUND_HDR_SIZE \<equiv> 37"
abbreviation (input) TUND_MAX_PLAINTEXT :: nat where "TUND_MAX_PLAINTEXT \<equiv> 1600"
abbreviation (input) TUND_MAX_PKT :: nat where "TUND_MAX_PKT \<equiv> 1653"
abbreviation (input) TUND_HDR_BAD_MAGIC :: int where "TUND_HDR_BAD_MAGIC \<equiv> -1"
abbreviation (input) TUND_HDR_BAD_VERSION :: int where "TUND_HDR_BAD_VERSION \<equiv> -2"

section \<open>Random bytes and sequence numbers\<close>

definition proto_random_fd :: "world \<Rightarrow> int \<times> world" where
  "proto_random_fd w =
     (if g_proto_random_fd w < 0
      then let (fd, w) = syscall sys_open_urandom w in (fd, w\<lparr>g_proto_random_fd := fd\<rparr>)
      else (g_proto_random_fd w, w))"

text \<open>
  The loop of \<open>proto_random_bytes\<close>. Its \<open>read\<close> calls see the given outcomes, then end of file, so
  that a run is interrupted finitely often. The second argument holds the bytes stored so far.
\<close>

fun proto_random_loop :: "nat \<Rightarrow> bytes \<Rightarrow> read_result list \<Rightarrow> bool \<times> bytes" where
  "proto_random_loop len got [] = (len \<le> length got, got)"
| "proto_random_loop len got (r # rs) =
     (if len \<le> length got then (True, got)
      else case r of
        ReadInterrupted \<Rightarrow> proto_random_loop len got rs
      | ReadFailed \<Rightarrow> (False, got)
      | ReadData d \<Rightarrow> (if d = [] then (False, got)
                       else proto_random_loop len (got @ take (len - length got) d) rs))"

definition proto_random_bytes :: "nat \<Rightarrow> world \<Rightarrow> bool \<times> bytes \<times> world" where
  "proto_random_bytes len w =
     (let (fd, w) = proto_random_fd w
      in if fd < 0 then (False, [], w)
         else let (rs, w) = syscall sys_urandom_reads w;
                  (ok, got) = proto_random_loop len [] rs
              in (ok, got, w))"

definition proto_initial_sequence :: "world \<Rightarrow> u64 option \<times> world" where
  "proto_initial_sequence w =
     (let (ok, got, w) = proto_random_bytes 8 w
      in if \<not> ok then (None, w)
         else let seed = u64_of_mem got AND 0x7FFFFFFFFFFFFFFF
              in (Some (if seed = 0 then 1 else seed), w))"

text \<open>
  One call with no other thread inside: the compare-and-exchange on a zero counter succeeds.
  The theory \<open>Proto_Sequence\<close> has the interleavings of several callers.
\<close>

definition proto_next_sequence :: "world \<Rightarrow> u64 option \<times> world" where
  "proto_next_sequence w =
     (let (ok, w) = (if g_proto_next_sequence w = 0
                     then case proto_initial_sequence w of
                            (None, w) \<Rightarrow> (False, w)
                          | (Some initial, w) \<Rightarrow> (True, w\<lparr>g_proto_next_sequence := initial\<rparr>)
                     else (True, w));
          next = g_proto_next_sequence w
      in if \<not> ok then (None, w)
         else let w = w\<lparr>g_proto_next_sequence := next + 1\<rparr>
              in if next = 0 then (None, w) else (Some next, w))"

section \<open>Header\<close>

definition proto_write_payload_len :: "bytes \<Rightarrow> u16 \<Rightarrow> bytes" where
  "proto_write_payload_len buf payload_len =
     buf[3 := ucast (drop_bit 8 payload_len), 4 := ucast (payload_len AND 0xFF)]"

definition proto_write_hdr :: "bytes \<Rightarrow> u8 \<Rightarrow> u16 \<Rightarrow> world \<Rightarrow> int \<times> bytes \<times> world" where
  "proto_write_hdr buf type payload_len w =
     (if of_nat TUND_MAX_PLAINTEXT < payload_len then (-1, buf, w)
      else
        let buf = buf[0 := TUND_MAGIC, 1 := TUND_PROTOCOL_VERSION, 2 := type];
            buf = proto_write_payload_len buf payload_len
        in case proto_next_sequence w of
             (None, w) \<Rightarrow> (-1, buf, w)
           | (Some sequence, w) \<Rightarrow>
               let buf = memcpy_at TUND_SEQUENCE_OFFSET (be_bytes 8 sequence) buf;
                   (ok, got, w) = proto_random_bytes TUND_NONCE_SIZE w;
                   buf = memcpy_at TUND_NONCE_OFFSET got buf
               in (if ok then int TUND_HDR_SIZE else -1, buf, w))"

definition proto_read_hdr :: "bytes \<Rightarrow> int + (u8 \<times> u16)" where
  "proto_read_hdr buf =
     (if buf ! 0 \<noteq> TUND_MAGIC then Inl TUND_HDR_BAD_MAGIC
      else if buf ! 1 \<noteq> TUND_PROTOCOL_VERSION then Inl TUND_HDR_BAD_VERSION
      else Inr (buf ! 2, push_bit 8 (ucast (buf ! 3)) OR ucast (buf ! 4)))"

definition proto_load64_be :: "bytes \<Rightarrow> u64" where
  "proto_load64_be p = be_word 0 (take 8 p)"

definition proto_read_sequence :: "bytes \<Rightarrow> u64 option" where
  "proto_read_sequence buf =
     (let value = proto_load64_be (drop TUND_SEQUENCE_OFFSET buf)
      in if value = 0 then None else Some value)"

section \<open>Keys and hashing\<close>

definition proto_rotl64 :: "u64 \<Rightarrow> nat \<Rightarrow> u64" where
  "proto_rotl64 x b = push_bit b x OR drop_bit (64 - b) x"

definition proto_load64_le :: "bytes \<Rightarrow> u64" where
  "proto_load64_le p = fold (\<lambda>i v. v OR push_bit (8 * i) (ucast (p ! i))) [0..<8] 0"

type_synonym sip_state = "u64 \<times> u64 \<times> u64 \<times> u64"

definition SIPROUND :: "sip_state \<Rightarrow> sip_state" where
  "SIPROUND = (\<lambda>(v0, v1, v2, v3).
     let v0 = v0 + v1; v1 = proto_rotl64 v1 13; v1 = v1 XOR v0; v0 = proto_rotl64 v0 32;
         v2 = v2 + v3; v3 = proto_rotl64 v3 16; v3 = v3 XOR v2;
         v0 = v0 + v3; v3 = proto_rotl64 v3 21; v3 = v3 XOR v0;
         v2 = v2 + v1; v1 = proto_rotl64 v1 17; v1 = v1 XOR v2; v2 = proto_rotl64 v2 32
     in (v0, v1, v2, v3))"

fun siphash_words :: "nat \<Rightarrow> bytes \<Rightarrow> sip_state \<Rightarrow> sip_state" where
  "siphash_words 0 inp v = v"
| "siphash_words (Suc n) inp (v0, v1, v2, v3) =
     (let m = proto_load64_le inp;
          (v0, v1, v2, v3) = SIPROUND (SIPROUND (v0, v1, v2, v3 XOR m))
      in siphash_words n (drop 8 inp) (v0 XOR m, v1, v2, v3))"

definition proto_siphash24 :: "bytes \<Rightarrow> u64 \<Rightarrow> u64 \<Rightarrow> u64" where
  "proto_siphash24 inp k0 k1 =
     (let len = length inp;
          v = siphash_words (len div 8) inp
                (0x736f6d6570736575 XOR k0, 0x646f72616e646f6d XOR k1,
                 0x6c7967656e657261 XOR k0, 0x7465646279746573 XOR k1);
          rest = drop (8 * (len div 8)) inp;
          b = fold (\<lambda>i b. b OR push_bit (8 * i) (ucast (rest ! i))) [0..<len mod 8]
                (push_bit 56 (of_nat len));
          (v0, v1, v2, v3) = v;
          (v0, v1, v2, v3) = SIPROUND (SIPROUND (v0, v1, v2, v3 XOR b));
          (v0, v1, v2, v3) = SIPROUND (SIPROUND (SIPROUND (SIPROUND (v0 XOR b, v1, v2 XOR 0xff, v3))))
      in v0 XOR v1 XOR v2 XOR v3)"

definition proto_key_from_passphrase :: "bytes \<Rightarrow> bytes" where
  "proto_key_from_passphrase passphrase =
     (let ctx = crypto_blake2b_init TUND_KEY_SIZE;
          ctx = crypto_blake2b_update ctx (lit ''TunD transport key v1'');
          ctx = crypto_blake2b_update ctx (c_str passphrase)
      in crypto_blake2b_final ctx)"

section \<open>Encryption of a datagram\<close>

definition proto_encrypt :: "bytes \<Rightarrow> int \<Rightarrow> bytes \<Rightarrow> world \<Rightarrow> int \<times> bytes \<times> world" where
  "proto_encrypt buf len key w =
     (if len < int TUND_HDR_SIZE then (-1, buf, w)
      else case proto_read_hdr buf of
        Inl _ \<Rightarrow> (-1, buf, w)
      | Inr (type, payload_len) \<Rightarrow>
          let plaintext_len = len - int TUND_HDR_SIZE
          in if plaintext_len < 0 \<or> int TUND_MAX_PLAINTEXT < plaintext_len then (-1, buf, w)
             else if payload_len \<noteq> of_int plaintext_len then (-1, buf, w)
             else
               let (hdr, buf, w) = proto_write_hdr buf type (of_int plaintext_len) w
               in if hdr < 0 then (-1, buf, w)
                  else
                    let n = nat plaintext_len;
                        wire_payload_len = of_int (plaintext_len + int TUND_AUTH_TAG_SIZE) :: u16;
                        buf = proto_write_payload_len buf wire_payload_len;
                        (ciphertext, mac) =
                          crypto_aead_lock key (slice TUND_NONCE_OFFSET TUND_NONCE_SIZE buf)
                            (take TUND_HDR_SIZE buf) (slice TUND_HDR_SIZE n buf);
                        buf = memcpy_at TUND_HDR_SIZE ciphertext buf;
                        buf = memcpy_at (TUND_HDR_SIZE + n) mac buf
                    in (int TUND_HDR_SIZE + uint wire_payload_len, buf, w))"

definition proto_decrypt :: "bytes \<Rightarrow> int \<Rightarrow> bytes \<Rightarrow> int \<times> bytes" where
  "proto_decrypt buf len key =
     (if len < int (TUND_HDR_SIZE + TUND_AUTH_TAG_SIZE) then (-1, buf)
      else case proto_read_hdr buf of
        Inl _ \<Rightarrow> (-1, buf)
      | Inr (type, wire_payload_len) \<Rightarrow>
          if uint wire_payload_len < int TUND_AUTH_TAG_SIZE \<or>
             int TUND_HDR_SIZE + uint wire_payload_len \<noteq> len then (-1, buf)
          else
            let plaintext_len = uint wire_payload_len - int TUND_AUTH_TAG_SIZE;
                n = nat plaintext_len
            in if int TUND_MAX_PLAINTEXT < plaintext_len then (-1, buf)
               else case crypto_aead_unlock (slice (TUND_HDR_SIZE + n) TUND_AUTH_TAG_SIZE buf) key
                           (slice TUND_NONCE_OFFSET TUND_NONCE_SIZE buf) (take TUND_HDR_SIZE buf)
                           (slice TUND_HDR_SIZE n buf) of
                      None \<Rightarrow> (-1, buf)
                    | Some plaintext \<Rightarrow>
                        let buf = memcpy_at TUND_HDR_SIZE plaintext buf;
                            buf = proto_write_payload_len buf (of_int plaintext_len)
                        in (int TUND_HDR_SIZE + plaintext_len, buf))"

section \<open>The header as a value\<close>

definition hdr_of :: "u8 \<Rightarrow> u16 \<Rightarrow> u64 \<Rightarrow> bytes \<Rightarrow> bytes" where
  "hdr_of type payload_len sequence nonce =
     [TUND_MAGIC, TUND_PROTOCOL_VERSION, type, ucast (drop_bit 8 payload_len),
      ucast (payload_len AND 0xFF)] @ be_bytes 8 sequence @ nonce"

lemma length_hdr_of [simp, len_simps]: "length (hdr_of t l s n) = 13 + length n"
  by (simp add: hdr_of_def)

lemma u16_of_bytes:
  "push_bit 8 (ucast (ucast (drop_bit 8 l) :: u8)) OR ucast (ucast (l AND 0xFF) :: u8) = (l :: u16)"
proof -
  have "ucast (ucast (drop_bit 8 l) :: u8) = drop_bit 8 l"
    by (rule bit_word_eqI) (auto simp: bit_simps dest: bit_imp_le_length)
  then show ?thesis by (simp add: ucast_ucast_byte push_drop_byte)
qed

lemma bytes_of_u16:
  "ucast (drop_bit 8 (push_bit 8 (ucast (a :: u8)) OR ucast (b :: u8) :: u16)) = a"
  "ucast ((push_bit 8 (ucast (a :: u8)) OR ucast (b :: u8) :: u16) AND 0xFF) = b"
  by (rule bit_word_eqI; auto simp: bit_simps mask_eq_255 [symmetric] dest: bit_imp_le_length)+

lemma proto_read_hdr_hdr_of [simp]: "proto_read_hdr (hdr_of t l s n @ rest) = Inr (t, l)"
  by (simp add: proto_read_hdr_def hdr_of_def u16_of_bytes)

lemma proto_read_sequence_hdr_of [simp]:
  "proto_read_sequence (hdr_of t l s n @ rest) = (if s = 0 then None else Some s)"
  by (simp add: proto_read_sequence_def hdr_of_def proto_load64_be_def Let_def)

lemma write_payload_len_hdr_of [simp]:
  "proto_write_payload_len (hdr_of t l s n @ rest) l' = hdr_of t l' s n @ rest"
  by (simp add: proto_write_payload_len_def hdr_of_def numeral_eq_Suc)

lemma nonce_of_hdr_of [simp]:
  "length n = 24 \<Longrightarrow> slice 13 24 (hdr_of t l s n @ rest) = n"
  "length n = 24 \<Longrightarrow> slice 13 24 (hdr_of t l s n) = n"
  by (simp_all add: slice_def hdr_of_def)

lemma hdr_of_read:
  assumes "proto_read_hdr buf = Inr (t, l)" "37 \<le> length buf"
  shows "buf = hdr_of t l (be_word 0 (slice 5 8 buf)) (slice 13 24 buf) @ drop 37 buf"
proof -
  have eq: "buf = take 5 buf @ slice 5 8 buf @ slice 13 24 buf @ drop 37 buf"
    unfolding slice_def using append_take_drop_id [of 5 buf] append_take_drop_id [of 8 "drop 5 buf"]
      append_take_drop_id [of 24 "drop 13 buf"] by simp
  have "be_bytes 8 (be_word 0 (slice 5 8 buf) :: u64) = slice 5 8 buf"
    using be_bytes_be_word [of "slice 5 8 buf", where 'a = 64] assms(2) by simp
  moreover have "take 5 buf = [0xA9, 4, t, ucast (drop_bit 8 l), ucast (l AND 0xFF)]"
  proof -
    have "[0..<5] = [0, 1, 2, 3, 4 :: nat]" by code_simp
    then have "take 5 buf = [buf ! 0, buf ! 1, buf ! 2, buf ! 3, buf ! 4]"
      using assms(2) map_nth_upt_take [of 5 buf] by simp
    then show ?thesis
      using assms(1) bytes_of_u16 [of "buf ! 3" "buf ! 4"]
      by (auto simp only: proto_read_hdr_def sum.inject prod.inject split: if_splits)
  qed
  ultimately show ?thesis using eq by (simp add: hdr_of_def)
qed

section \<open>Random bytes and sequence numbers\<close>

lemma proto_random_loop_len:
  "proto_random_loop len got rs = (ok, got') \<Longrightarrow> length got \<le> len \<Longrightarrow>
   length got' \<le> len \<and> (ok \<longrightarrow> length got' = len)"
proof (induction rs arbitrary: got)
  case (Cons r rs)
  show ?case
  proof (cases "len \<le> length got")
    case False
    show ?thesis
    proof (cases r)
      case (ReadData d)
      show ?thesis
      proof (cases "d = []")
        case False
        with \<open>\<not> len \<le> length got\<close> ReadData Cons.prems
        have "proto_random_loop len (got @ take (len - length got) d) rs = (ok, got')" by simp
        moreover have "length (got @ take (len - length got) d) \<le> len" using Cons.prems(2) by simp
        ultimately show ?thesis by (rule Cons.IH)
      qed (use ReadData False Cons.prems in auto)
    qed (use False Cons in auto)
  qed (use Cons.prems in auto)
qed auto

text \<open>The part of the world that drawing random bytes and sequence numbers leaves alone.\<close>

definition w_app :: "world \<Rightarrow> world" where
  "w_app w = (w_core w)\<lparr>g_proto_next_sequence := 0, g_proto_random_fd := 0\<rparr>"

lemma w_app_cong:
  assumes "w_app w = w_app w'"
  shows "w_env w = w_env w'" "g_crypto_key w = g_crypto_key w'"
    "g_running w = g_running w'" "g_log_level w = g_log_level w'" "g_tui_active w = g_tui_active w'"
    "g_json_events_active w = g_json_events_active w'" "g_start_time w = g_start_time w'"
    "w_stdout w = w_stdout w'" "w_sent w = w_sent w'" "w_tun_out w = w_tun_out w'"
    "w_open_fds w = w_open_fds w'"
  using arg_cong [OF assms, of w_env] arg_cong [OF assms, of g_crypto_key]
    arg_cong [OF assms, of g_running] arg_cong [OF assms, of g_log_level]
    arg_cong [OF assms, of g_tui_active] arg_cong [OF assms, of g_json_events_active]
    arg_cong [OF assms, of g_start_time] arg_cong [OF assms, of w_stdout]
    arg_cong [OF assms, of w_sent] arg_cong [OF assms, of w_tun_out] arg_cong [OF assms, of w_open_fds]
  by (simp_all add: w_app_def w_core_def)

lemma w_app_core: "w_core w = w_core w' \<Longrightarrow> w_app w = w_app w'"
  by (simp add: w_app_def)

lemma w_app_log_msg [simp, frame]: "w_app (log_msg l s w) = w_app w"
  by (rule w_app_core) simp

lemma w_app_syscall [simp, frame]: "w_app (snd (syscall f w)) = w_app w"
  by (rule w_app_core) simp

lemma w_app_now_ms [simp, frame]: "w_app (snd (now_ms w)) = w_app w"
  by (rule w_app_core) simp

lemma proto_random_fd_props:
  assumes "proto_random_fd w = (fd, w')"
  shows "w_app w' = w_app w" "g_proto_next_sequence w' = g_proto_next_sequence w"
    "g_proto_random_fd w' = fd"
  using assms by (auto simp: proto_random_fd_def syscall_def w_app_def w_core_def split: if_splits)

lemma proto_random_bytes_props:
  assumes "proto_random_bytes len w = (ok, got, w')"
  shows "w_app w' = w_app w" "g_proto_next_sequence w' = g_proto_next_sequence w"
    "length got \<le> len" "ok \<Longrightarrow> length got = len"
proof -
  obtain fd w1 where fd: "proto_random_fd w = (fd, w1)" by fastforce
  note p = proto_random_fd_props [OF fd]
  obtain ok' got' where l: "proto_random_loop len [] (sys_urandom_reads (w_env w1) (w_tick w1)) = (ok', got')"
    by fastforce
  have app: "w_app (w1\<lparr>w_tick := n\<rparr>) = w_app w1" for n by (simp add: w_app_def w_core_def)
  show "w_app w' = w_app w" "g_proto_next_sequence w' = g_proto_next_sequence w"
    "length got \<le> len" "ok \<Longrightarrow> length got = len"
    using assms fd p l proto_random_loop_len [OF l] app
    by (auto simp: proto_random_bytes_def syscall_def split: if_splits)
qed

text \<open>
  The system's random source works: it is open or can be opened, and its \<open>read\<close> calls deliver what
  is asked for (in any number of pieces, with any number of interruptions).
\<close>

definition random_ok :: "world \<Rightarrow> bool" where
  "random_ok w \<longleftrightarrow>
     (0 \<le> g_proto_random_fd w \<or> (\<forall>t. 0 \<le> sys_open_urandom (w_env w) t)) \<and>
     (\<forall>t. \<forall>n \<le> TUND_NONCE_SIZE. fst (proto_random_loop n [] (sys_urandom_reads (w_env w) t)))"

lemma random_ok_core: "w_core w = w_core w' \<Longrightarrow> random_ok w = random_ok w'"
  by (frule w_core_cong(1), drule w_core_cong(3)) (simp add: random_ok_def)

lemma random_ok_log_msg [simp]: "random_ok (log_msg l s w) = random_ok w"
  by (rule random_ok_core) simp

lemma proto_random_bytes_ok:
  assumes r: "random_ok w" and len: "len \<le> 24" and eq: "proto_random_bytes len w = (ok, got, w')"
  shows "ok" "random_ok w'"
proof -
  obtain fd w1 where fd: "proto_random_fd w = (fd, w1)" by fastforce
  have fd0: "0 \<le> fd" and env: "w_env w1 = w_env w" and fd1: "g_proto_random_fd w1 = fd"
    using fd r by (auto simp: proto_random_fd_def syscall_def random_ok_def Let_def not_less split: if_splits)
  have loop: "fst (proto_random_loop len [] (sys_urandom_reads (w_env w1) (w_tick w1)))"
    using r len env by (simp add: random_ok_def)
  have "random_ok w1" using r fd0 env fd1 by (simp add: random_ok_def)
  then have "random_ok (w1\<lparr>w_tick := Suc (w_tick w1)\<rparr>)" by (simp add: random_ok_def)
  with eq fd fd0 loop show "ok" "random_ok w'"
    by (auto simp: proto_random_bytes_def syscall_def split: prod.splits)
qed

lemma proto_initial_sequence_props:
  assumes "proto_initial_sequence w = (so, w')"
  shows "w_app w' = w_app w" "so = Some s \<Longrightarrow> s \<noteq> 0"
    "random_ok w \<Longrightarrow> so \<noteq> None \<and> random_ok w'"
proof -
  obtain ok got w1 where r: "proto_random_bytes 8 w = (ok, got, w1)" by (metis prod_cases3)
  have so: "w' = w1" "so = (if ok then Some (if u64_of_mem got AND 0x7FFFFFFFFFFFFFFF = 0 then 1
                    else u64_of_mem got AND 0x7FFFFFFFFFFFFFFF) else None)"
    using assms by (auto simp only: proto_initial_sequence_def r Let_def prod.case split: if_splits)
  show "w_app w' = w_app w" using proto_random_bytes_props(1) [OF r] so by simp
  show "so = Some s \<Longrightarrow> s \<noteq> 0" using so(2) by (simp only: split: if_splits) auto
  show "random_ok w \<Longrightarrow> so \<noteq> None \<and> random_ok w'"
    using proto_random_bytes_ok [OF _ _ r] so by (simp only:) simp
qed

lemma proto_next_sequence_props:
  assumes "proto_next_sequence w = (so, w')"
  shows "w_app w' = w_app w" "so = Some s \<Longrightarrow> s \<noteq> 0 \<and> g_proto_next_sequence w' = s + 1"
    "so = Some s \<Longrightarrow> g_proto_next_sequence w \<noteq> 0 \<Longrightarrow> s = g_proto_next_sequence w"
    "random_ok w \<Longrightarrow> so \<noteq> None \<and> random_ok w'"
proof -
  have upd: "w_app (v\<lparr>g_proto_next_sequence := x\<rparr>) = w_app v"
    "random_ok (v\<lparr>g_proto_next_sequence := x\<rparr>) = random_ok v" for v x
    by (simp_all add: w_app_def w_core_def random_ok_def)
  show "w_app w' = w_app w" "so = Some s \<Longrightarrow> s \<noteq> 0 \<and> g_proto_next_sequence w' = s + 1"
    "so = Some s \<Longrightarrow> g_proto_next_sequence w \<noteq> 0 \<Longrightarrow> s = g_proto_next_sequence w"
    "random_ok w \<Longrightarrow> so \<noteq> None \<and> random_ok w'"
    using assms proto_initial_sequence_props [of w] upd
    by (auto simp: proto_next_sequence_def Let_def split: prod.splits if_splits option.splits)
qed


section \<open>Writing a header\<close>

definition hdr_prefix :: "bytes \<Rightarrow> u8 \<Rightarrow> u16 \<Rightarrow> bytes" where
  "hdr_prefix buf t l = proto_write_payload_len (buf[0 := 0xA9, 1 := 4, 2 := t]) l"

lemma proto_write_hdr_eq:
  "proto_write_hdr buf t l w =
     (if 1600 < unat l then (-1, buf, w)
      else case proto_next_sequence w of
             (None, w1) \<Rightarrow> (-1, hdr_prefix buf t l, w1)
           | (Some s, w1) \<Rightarrow>
               (case proto_random_bytes 24 w1 of (ok, got, w2) \<Rightarrow>
                 (if ok then 37 else -1,
                  memcpy_at 13 got (memcpy_at 5 (be_bytes 8 s) (hdr_prefix buf t l)), w2)))"
  by (simp add: proto_write_hdr_def Let_def word_less_nat_alt hdr_prefix_def
      split: prod.splits option.splits)

lemma hdr_prefix_props:
  "length (hdr_prefix buf t l) = length buf" "drop 37 (hdr_prefix buf t l) = drop 37 buf"
  by (simp_all add: hdr_prefix_def proto_write_payload_len_def drop_update_cancel)

lemma take_hdr_prefix:
  assumes "37 \<le> length buf"
  shows "take 5 (hdr_prefix buf t l) = [0xA9, 4, t, ucast (drop_bit 8 l), ucast (l AND 0xFF)]"
proof -
  have "[0..<5] = [0, 1, 2, 3, 4 :: nat]" by code_simp
  moreover have "0 < length buf" "1 < length buf" "2 < length buf" "3 < length buf" "4 < length buf"
    using assms by linarith+
  ultimately show ?thesis
    using map_nth_upt_take [of 5 "hdr_prefix buf t l", symmetric] assms
    by (simp add: hdr_prefix_props, simp add: hdr_prefix_def proto_write_payload_len_def nth_list_update)
qed

lemma write_hdr_bytes:
  assumes "37 \<le> length buf" "length n = 24"
  shows "memcpy_at 13 n (memcpy_at 5 (be_bytes 8 s) (hdr_prefix buf t l)) = hdr_of t l s n @ drop 37 buf"
  using assms take_hdr_prefix [OF assms(1), of t l]
  by (simp add: memcpy_at_def hdr_of_def hdr_prefix_props)

text \<open>
  On success the header holds the type, the length, a fresh non-zero sequence number and a nonce of
  random bytes; the bytes behind it are untouched. On failure the rest of the buffer is untouched
  too.
\<close>

lemma proto_write_hdr_post:
  assumes eq: "proto_write_hdr buf t l w = (r, buf', w')" and len: "37 \<le> length buf"
  shows "w_app w' = w_app w \<and> (r = -1 \<or> r = 37) \<and> length buf' = length buf \<and> drop 37 buf' = drop 37 buf \<and>
      (r = 37 \<longrightarrow> unat l \<le> 1600 \<and> (\<exists>s n. s \<noteq> 0 \<and> length n = 24 \<and> g_proto_next_sequence w' = s + 1 \<and>
        (g_proto_next_sequence w \<noteq> 0 \<longrightarrow> s = g_proto_next_sequence w) \<and> buf' = hdr_of t l s n @ drop 37 buf)) \<and>
      (random_ok w \<longrightarrow> unat l \<le> 1600 \<longrightarrow> r = 37 \<and> random_ok w')" (is ?P)
proof -
  obtain so w1 where ns: "proto_next_sequence w = (so, w1)" by fastforce
  note nsp = proto_next_sequence_props [OF ns]
  consider (big) "1600 < unat l" "r = -1" "buf' = buf" "w' = w"
    | (noseq) "unat l \<le> 1600" "so = None" "r = -1" "buf' = hdr_prefix buf t l" "w' = w1"
    | (seq) s ok got where "unat l \<le> 1600" "so = Some s" "proto_random_bytes 24 w1 = (ok, got, w')"
        "r = (if ok then 37 else -1)"
        "buf' = memcpy_at 13 got (memcpy_at 5 (be_bytes 8 s) (hdr_prefix buf t l))"
    using eq ns by (auto simp: proto_write_hdr_eq split: if_splits option.splits prod.splits)
  then show ?P
  proof cases
    case (seq s ok got)
    note rb = proto_random_bytes_props [OF seq(3)] and rok = proto_random_bytes_ok [OF _ _ seq(3)]
    have g: "length got \<le> 24" "ok \<Longrightarrow> length got = 24" using rb by auto
    have "ok \<Longrightarrow> buf' = hdr_of t l s got @ drop 37 buf"
      using seq(5) write_hdr_bytes [OF len, of got s t l] g by simp
    moreover have "length buf' = length buf" "drop 37 buf' = drop 37 buf"
      using seq(5) len g(1) by (simp_all add: memcpy_at_def hdr_prefix_props)
    ultimately show ?P using seq rb g nsp rok by auto
  qed (use nsp in \<open>auto simp: hdr_prefix_props\<close>)
qed

lemma proto_write_hdr_props:
  assumes "proto_write_hdr buf t l w = (r, buf', w')" "37 \<le> length buf"
  shows "w_app w' = w_app w" "r = -1 \<or> r = 37" "length buf' = length buf" "drop 37 buf' = drop 37 buf"
    "random_ok w \<Longrightarrow> unat l \<le> 1600 \<Longrightarrow> r = 37 \<and> random_ok w'"
  using proto_write_hdr_post [OF assms] by auto

lemma proto_write_hdr_success:
  assumes "proto_write_hdr buf t l w = (r, buf', w')" "37 \<le> length buf" "r \<noteq> -1"
  obtains s n where "s \<noteq> 0" "length n = 24" "unat l \<le> 1600" "r = 37" "g_proto_next_sequence w' = s + 1"
    "g_proto_next_sequence w \<noteq> 0 \<longrightarrow> s = g_proto_next_sequence w"
    "buf' = hdr_of t l s n @ drop 37 buf"
  using proto_write_hdr_post [OF assms(1,2)] assms(3) by auto

section \<open>Sealed datagrams\<close>

text \<open>
  The datagram a peer holding \<open>key\<close> puts on the wire for a message: the header with the length of
  the encrypted payload, authenticated but readable, the cipher text and the tag.
\<close>

definition sealed :: "bytes \<Rightarrow> u8 \<Rightarrow> u64 \<Rightarrow> bytes \<Rightarrow> bytes \<Rightarrow> bytes" where
  "sealed key t s n plain =
     (let hdr = hdr_of t (of_nat (length plain + 16)) s n; (c, mac) = crypto_aead_lock key n hdr plain
      in hdr @ c @ mac)"

text \<open>The same message as the handlers see it.\<close>

definition opened :: "u8 \<Rightarrow> u64 \<Rightarrow> bytes \<Rightarrow> bytes \<Rightarrow> bytes" where
  "opened t s n plain = hdr_of t (of_nat (length plain)) s n @ plain"

lemma crypto_aead_lock_len:
  "length (fst (crypto_aead_lock k n ad p)) = length p" "length (snd (crypto_aead_lock k n ad p)) = 16"
  by (metis mc.lock_cipher_len prod.collapse, metis mc.lock_mac_len prod.collapse)

lemma length_sealed [simp, len_simps]: "length n = 24 \<Longrightarrow> length (sealed key t s n plain) = length plain + 53"
  by (simp add: sealed_def Let_def crypto_aead_lock_len split: prod.splits)
     (metis crypto_aead_lock_len add.commute fst_conv snd_conv)

lemma length_opened [simp, len_simps]: "length n = 24 \<Longrightarrow> length (opened t s n plain) = length plain + 37"
  by (simp add: opened_def)

lemma of_int_of_nat_u16: "0 \<le> i \<Longrightarrow> (of_int i :: u16) = of_nat (nat i)"
  by simp

lemma unat_of_nat_u16: "n < 65536 \<Longrightarrow> unat (of_nat n :: u16) = n"
  by (simp add: unat_of_nat take_bit_nat_eq_self)

lemma uint_of_nat_u16: "n < 65536 \<Longrightarrow> uint (of_nat n :: u16) = int n"
  by (metis uint_nat unat_of_nat_u16)

lemma proto_encrypt_eq:
  assumes "n \<le> 1600" "proto_read_hdr buf = Inr (t, of_nat n)"
  shows "proto_encrypt buf (37 + int n) key w =
    (let (hdr, buf, w) = proto_write_hdr buf t (of_nat n) w
     in if hdr < 0 then (-1, buf, w)
        else let buf = proto_write_payload_len buf (of_nat (n + 16));
                 (ciphertext, mac) = crypto_aead_lock key (slice 13 24 buf) (take 37 buf) (slice 37 n buf)
             in (37 + int (n + 16), memcpy_at (37 + n) mac (memcpy_at 37 ciphertext buf), w))"
proof -
  have a: "37 + int n - int 37 = int n" "int n + int 16 = int (n + 16)" by simp_all
  have b: "(of_int (int n) :: u16) = of_nat n" "(of_int (int (n + 16)) :: u16) = of_nat (n + 16)"
    by (simp_all only: of_int_of_nat_eq)
  have c: "uint (of_nat (n + 16) :: u16) = int (n + 16)" using assms(1) by (intro uint_of_nat_u16) simp
  have d: "(37 + int n < int 37) = False" "(int n < 0 \<or> int 1600 < int n) = False" "nat (int n) = n"
      "(of_nat n \<noteq> (of_nat n :: u16)) = False"
    using assms(1) by auto
  show ?thesis
    unfolding proto_encrypt_def Let_def assms(2) sum.case prod.case a b c d if_False
    by (simp split: prod.splits)
qed

lemma proto_encrypt_post:
  assumes eq: "proto_encrypt buf len key w = (r, buf', w')" and len: "len + 16 \<le> int (length buf)"
    and buf: "37 \<le> length buf"
  shows "w_app w' = w_app w \<and> length buf' = length buf \<and>
    (r = -1 \<or> (37 \<le> len \<and> len \<le> 1637 \<and> r = len + 16 \<and>
      (\<exists>t s n. proto_read_hdr buf = Inr (t, of_nat (nat len - 37)) \<and> s \<noteq> 0 \<and> length n = 24 \<and>
        g_proto_next_sequence w' = s + 1 \<and>
        (g_proto_next_sequence w \<noteq> 0 \<longrightarrow> s = g_proto_next_sequence w) \<and>
        take (nat r) buf' = sealed key t s n (slice 37 (nat len - 37) buf)))) \<and>
    (random_ok w \<longrightarrow> 37 \<le> len \<longrightarrow> len \<le> 1637 \<longrightarrow>
      (\<exists>t. proto_read_hdr buf = Inr (t, of_nat (nat len - 37))) \<longrightarrow> r = len + 16 \<and> random_ok w')"
    (is ?P)
proof -
  define n where "n = nat len - 37"
  show ?P
  proof (cases "37 \<le> len \<and> len \<le> 1637 \<and> (\<exists>t. proto_read_hdr buf = Inr (t, of_nat n))")
    case False
    have "proto_encrypt buf len key w = (-1, buf, w)"
    proof (cases "proto_read_hdr buf")
      case (Inr tl)
      obtain t l where tl: "tl = (t, l)" by fastforce
      have "l \<noteq> of_int (len - 37)" if "37 \<le> len" "len \<le> 1637"
        using that False Inr tl of_int_of_nat_u16 [of "len - 37"] by (auto simp: n_def nat_diff_distrib)
      then show ?thesis unfolding proto_encrypt_def Inr tl Let_def sum.case prod.case by auto
    qed (simp add: proto_encrypt_def)
    with eq False show ?P by (auto simp: n_def)
  next
    case True
    then obtain t where lb: "37 \<le> len" "len \<le> 1637" and rd: "proto_read_hdr buf = Inr (t, of_nat n)" by blast
    have n: "nat (len - 37) = n" "int n = len - 37" "n \<le> 1600" "37 + n + 16 \<le> length buf"
      using lb len by (auto simp: n_def)
    obtain h b1 w1 where wh: "proto_write_hdr buf t (of_nat n) w = (h, b1, w1)" by (metis prod_cases3)
    note whp = proto_write_hdr_props [OF wh buf]
    have red: "proto_encrypt buf len key w = proto_encrypt buf (37 + int n) key w" using n by simp
    note red = red [unfolded proto_encrypt_eq [OF n(3) rd]]
    have u: "unat (of_nat n :: u16) = n" using n by (simp add: unat_of_nat_u16)
    show ?P
    proof (cases "h = -1")
      case True
      then have "r = -1 \<and> buf' = b1 \<and> w' = w1"
        using eq red wh by simp
      with whp True show ?P by (auto simp: u n)
    next
      case False
      from wh buf False obtain s nn where s: "s \<noteq> 0" "length nn = 24" "unat (of_nat n :: u16) \<le> 1600" "h = 37"
          "g_proto_next_sequence w1 = s + 1" "g_proto_next_sequence w \<noteq> 0 \<longrightarrow> s = g_proto_next_sequence w"
          "b1 = hdr_of t (of_nat n) s nn @ drop 37 buf"
        by (rule proto_write_hdr_success)
      obtain c mac where lk: "crypto_aead_lock key nn (hdr_of t (of_nat (n + 16)) s nn) (slice 37 n buf) = (c, mac)"
        by fastforce
      have cm: "length c = n" "length mac = 16"
        using mc.lock_cipher_len [OF lk] mc.lock_mac_len [OF lk] n(4) by simp_all
      have sl: "slice 37 n (hdr_of t (of_nat (n + 16)) s nn @ drop 37 buf) = slice 37 n buf"
        by (simp add: slice_def s(2))
      have res: "r = 37 + int (n + 16)" "w' = w1"
        "buf' = memcpy_at (37 + n) mac (memcpy_at 37 c (hdr_of t (of_nat (n + 16)) s nn @ drop 37 buf))"
        using eq red wh s lk sl by (simp_all add: Let_def del: of_nat_add)
      have r: "r = len + 16" using res(1) n by simp
      have b': "buf' = (hdr_of t (of_nat (n + 16)) s nn @ c @ mac) @ drop (53 + n) buf"
        using res(3) s(2) cm n(4) by (simp add: memcpy_at_def)
      have "take (nat r) buf' = sealed key t s nn (slice 37 n buf)"
        using b' r n cm s(2) lk by (simp add: sealed_def nat_add_distrib)
      moreover have "length buf' = length buf" using b' cm s(2) n(4) by simp
      ultimately show ?P
        using r lb rd s res(2) whp u n(3) by (auto simp: n_def)
    qed
  qed
qed

lemma proto_decrypt_eq:
  assumes "n \<le> 1600" "proto_read_hdr buf = Inr (t, of_nat (n + 16))"
  shows "proto_decrypt buf (int (n + 53)) key =
    (case crypto_aead_unlock (slice (37 + n) 16 buf) key (slice 13 24 buf) (take 37 buf) (slice 37 n buf) of
       None \<Rightarrow> (-1, buf)
     | Some plaintext \<Rightarrow>
         (int (37 + n), proto_write_payload_len (memcpy_at 37 plaintext buf) (of_nat n)))"
proof -
  have c: "uint (of_nat (n + 16) :: u16) = int (n + 16)" using assms(1) by (intro uint_of_nat_u16) simp
  have a: "int (n + 16) - int 16 = int n" by simp
  have b: "(of_int (int n) :: u16) = of_nat n" by (simp only: of_int_of_nat_eq)
  have d: "(int (n + 53) < int (37 + 16)) = False" "(int (n + 16) < int 16 \<or> int 37 + int (n + 16) \<noteq> int (n + 53)) = False"
      "(int 1600 < int n) = False" "nat (int n) = n" "int 37 + int n = int (37 + n)"
    using assms(1) by auto
  show ?thesis
    unfolding proto_decrypt_def Let_def assms(2) sum.case prod.case c a b d if_False by (rule refl)
qed

text \<open>Decryption fails unless the header announces exactly the length that was received.\<close>

lemma proto_decrypt_reject:
  assumes "\<And>t n. n \<le> 1600 \<Longrightarrow> len = int (n + 53) \<Longrightarrow> proto_read_hdr buf \<noteq> Inr (t, of_nat (n + 16))"
  shows "proto_decrypt buf len key = (-1, buf)"
proof (cases "proto_read_hdr buf")
  case (Inr tl)
  obtain t l where tl: "tl = (t, l)" by fastforce
  have "\<not> (53 \<le> len \<and> 16 \<le> uint l \<and> 37 + uint l = len \<and> uint l - 16 \<le> 1600)"
  proof
    assume h: "53 \<le> len \<and> 16 \<le> uint l \<and> 37 + uint l = len \<and> uint l - 16 \<le> 1600"
    define n where "n = unat l - 16"
    have u: "uint l = int (unat l)" by (rule uint_nat)
    obtain m where m: "unat l = m" by blast
    have n: "n \<le> 1600" "len = int (n + 53)" "unat l = n + 16"
      using h unfolding u n_def m by linarith+
    have "of_nat (unat l) = l" by simp
    then have "l = of_nat (n + 16)" unfolding n(3) by (rule sym)
    with assms [OF n(1,2), of t] Inr tl show False by simp
  qed
  then have "len < int (37 + 16) \<or> (uint l < int 16 \<or> int 37 + uint l \<noteq> len) \<or> int 1600 < uint l - int 16"
    by (auto simp: not_le)
  then show ?thesis unfolding proto_decrypt_def Inr tl Let_def sum.case prod.case
    by (simp only: if_splits split: if_splits) auto
qed (simp add: proto_decrypt_def)

lemma proto_decrypt_sealed:
  assumes "length n = 24" "length plain \<le> 1600"
  obtains mac where "length mac = 16"
    "proto_decrypt (sealed key t s n plain @ rest) (int (length plain + 53)) key =
       (int (37 + length plain), opened t s n plain @ mac @ rest)"
proof -
  let ?h = "hdr_of t (of_nat (length plain + 16)) s n"
  obtain c mac where lk: "crypto_aead_lock key n ?h plain = (c, mac)" by fastforce
  have l: "length c = length plain" "length mac = 16"
    using mc.lock_cipher_len [OF lk] mc.lock_mac_len [OF lk] by simp_all
  have se: "sealed key t s n plain @ rest = ?h @ c @ mac @ rest"
    by (simp only: sealed_def lk Let_def prod.case append_assoc)
  have parts: "slice (37 + length plain) 16 (?h @ c @ mac @ rest) = mac" "take 37 (?h @ c @ mac @ rest) = ?h"
    "slice 37 (length plain) (?h @ c @ mac @ rest) = c"
    using l assms(1) by (simp_all add: slice_def)
  note parts = parts nonce_of_hdr_of(1) [OF assms(1)]
  have ul: "crypto_aead_unlock mac key n ?h c = Some plain" by (rule mc.unlock_lock [OF lk])
  have cp: "memcpy_at 37 plain (?h @ c @ mac @ rest) = ?h @ plain @ mac @ rest"
    using l assms(1) by (simp add: memcpy_at_def)
  have "proto_decrypt (sealed key t s n plain @ rest) (int (length plain + 53)) key =
       (int (37 + length plain), opened t s n plain @ mac @ rest)"
    unfolding se proto_decrypt_eq [OF assms(2) proto_read_hdr_hdr_of] parts ul option.case cp
      write_payload_len_hdr_of opened_def by simp
  with l(2) show thesis by (rule that)
qed

lemma proto_decrypt_accept:
  assumes eq: "proto_decrypt buf len key = (r, buf')" and r: "r \<noteq> -1" and len: "len \<le> int (length buf)"
  obtains t s n plain rest where "length n = 24" "length plain \<le> 1600" "len = int (length plain + 53)"
    "r = int (length plain + 37)" "buf = sealed key t s n plain @ drop (nat len) buf"
    "buf' = opened t s n plain @ rest" "length buf' = length buf"
proof -
  from eq r have "proto_decrypt buf len key \<noteq> (-1, buf)" by auto
  then obtain t n where n: "n \<le> 1600" "len = int (n + 53)" and rd: "proto_read_hdr buf = Inr (t, of_nat (n + 16))"
    using proto_decrypt_reject [of len buf key] by blast
  define s nn where "s = (be_word 0 (slice 5 8 buf) :: u64)" and "nn = slice 13 24 buf"
  have lb: "n + 53 \<le> length buf" using len n(2) by simp
  have nn: "length nn = 24" using lb by (simp add: nn_def)
  let ?h = "hdr_of t (of_nat (n + 16)) s nn"
  have buf: "buf = ?h @ drop 37 buf" unfolding s_def nn_def
    using hdr_of_read [OF rd] lb by simp
  have h: "take 37 buf = ?h" by (subst buf) (simp add: nn)
  define c mac where "c = slice 37 n buf" and "mac = slice (37 + n) 16 buf"
  have cl: "length c = n" "length mac = 16" using lb by (simp_all add: c_def mac_def)
  have d: "drop 37 buf = c @ mac @ drop (n + 53) buf"
  proof -
    have "drop 37 buf = c @ drop (37 + n) buf"
      using append_take_drop_id [of n "drop 37 buf"] by (simp add: c_def slice_def add.commute)
    moreover have "drop (37 + n) buf = mac @ drop (n + 53) buf"
      using append_take_drop_id [of 16 "drop (37 + n) buf"] by (simp add: mac_def slice_def add.commute)
    ultimately show ?thesis by simp
  qed
  note de = proto_decrypt_eq [OF n(1) rd, of key, folded n(2) nn_def c_def mac_def, unfolded h]
  obtain plain where pl: "crypto_aead_unlock mac key nn ?h c = Some plain"
    using eq r de by (cases "crypto_aead_unlock mac key nn ?h c") auto
  have lk: "crypto_aead_lock key nn ?h plain = (c, mac)" by (rule mc.unlock_sound [OF cl(2) pl])
  have pn: "length plain = n" using mc.lock_cipher_len [OF lk] cl by simp
  have b': "buf' = proto_write_payload_len (memcpy_at 37 plain buf) (of_nat n)" and r': "r = int (37 + n)"
    using eq de pl by auto
  have "memcpy_at 37 plain buf = ?h @ plain @ mac @ drop (n + 53) buf"
    using pn cl nn by (subst buf, subst d) (simp add: memcpy_at_def)
  then have b2: "buf' = opened t s nn plain @ mac @ drop (n + 53) buf"
    using b' pn by (simp add: opened_def)
  have "buf = sealed key t s nn plain @ drop (nat len) buf"
    unfolding sealed_def pn lk Let_def prod.case n(2) nat_int
    using buf d by (metis append_assoc)
  with nn pn n r' b2 cl lb show thesis
    by (intro that [of nn plain t s "mac @ drop (n + 53) buf"]) auto
qed

section \<open>Properties\<close>

lemma random_loop_one: "n \<le> length d \<Longrightarrow> fst (proto_random_loop n [] [ReadData d])"
  by (cases n) auto

lemma random_ok_demo [simp]: "random_ok demo_world"
  by (simp add: random_ok_def demo_world_def demo_env_def random_loop_one del: proto_random_loop.simps)

text \<open>
  C5: round trip of a datagram. If the random source works, encrypting a well-formed message of up to
  1600 payload bytes in a packet buffer succeeds, and decrypting the result with the same key gives
  back the message type, its length and its payload, under a non-zero sequence number and a
  24-byte nonce.
\<close>

theorem datagram_round_trip:
  assumes "random_ok w" "length buf = TUND_MAX_PKT" "n \<le> TUND_MAX_PLAINTEXT"
    and "proto_read_hdr buf = Inr (type, of_nat n)"
  shows "\<exists>wire w' plain sequence nonce.
    proto_encrypt buf (int (37 + n)) key w = (int (53 + n), wire, w') \<and>
    proto_decrypt wire (int (53 + n)) key = (int (37 + n), plain) \<and>
    sequence \<noteq> 0 \<and> length nonce = TUND_NONCE_SIZE \<and>
    take (37 + n) plain = hdr_of type (of_nat n) sequence nonce @ slice 37 n buf"
proof -
  obtain r wire w' where enc: "proto_encrypt buf (int (37 + n)) key w = (r, wire, w')" by (metis prod_cases3)
  have nn: "nat (int (37 + n)) - 37 = n" by simp
  note post = proto_encrypt_post [OF enc, unfolded nn]
  have r: "r = int (53 + n)" using post assms by auto
  obtain s nonce where s: "s \<noteq> 0" "length nonce = 24"
      "take (nat r) wire = sealed key type s nonce (slice 37 n buf)" and len: "length wire = length buf"
    using post assms by auto
  have sl: "length (slice 37 n buf) = n" using assms by simp
  obtain mac where "proto_decrypt (sealed key type s nonce (slice 37 n buf) @ drop (nat r) wire) (int (n + 53)) key =
      (int (37 + n), opened type s nonce (slice 37 n buf) @ mac @ drop (nat r) wire)"
    using proto_decrypt_sealed [of nonce "slice 37 n buf" key type s "drop (nat r) wire"] s assms(3) sl by metis
  then have "proto_decrypt wire (int (53 + n)) key =
      (int (37 + n), opened type s nonce (slice 37 n buf) @ mac @ drop (nat r) wire)"
    using s(3) append_take_drop_id [of "nat r" wire] by (simp add: add.commute)
  then show ?thesis using enc r s sl by (fastforce simp: opened_def)
qed

theorem datagram_round_trip_witness:
  "\<exists>wire w' plain sequence nonce.
    proto_encrypt (hdr_of 4 2 1 (zeros 24) @ [7, 8] @ zeros 1614) 39 (zeros 32) demo_world = (55, wire, w') \<and>
    proto_decrypt wire 55 (zeros 32) = (39, plain) \<and> sequence \<noteq> 0 \<and> length nonce = 24 \<and>
    take 39 plain = hdr_of 4 2 sequence nonce @ [7, 8]"
  using datagram_round_trip [of demo_world "hdr_of 4 2 1 (zeros 24) @ [7, 8] @ zeros 1614" 2 4 "zeros 32"]
  by (simp add: slice_def)

text \<open>
  C4: authenticity. A received datagram passes \<open>proto_decrypt\<close> if and only if it is, byte for byte,
  what a holder of the same key sends for some type, sequence number, nonce and payload of at most
  1600 bytes: a datagram with an altered header, length, payload or tag, a truncated one and one with
  trailing bytes are rejected unless they are themselves such a datagram.
\<close>

theorem decrypt_accepts_exactly_sealed:
  "fst (proto_decrypt buf (int (length buf)) key) \<noteq> -1 \<longleftrightarrow>
   (\<exists>type sequence nonce payload. length nonce = TUND_NONCE_SIZE \<and> length payload \<le> TUND_MAX_PLAINTEXT \<and>
      buf = sealed key type sequence nonce payload)"
proof
  assume "fst (proto_decrypt buf (int (length buf)) key) \<noteq> -1"
  then obtain r buf' where d: "proto_decrypt buf (int (length buf)) key = (r, buf')" "r \<noteq> -1"
    by (metis prod.collapse)
  from d order_refl obtain t s n p rest where "length n = 24" "length p \<le> 1600"
      "buf = sealed key t s n p @ drop (nat (int (length buf))) buf"
    by (rule proto_decrypt_accept)
  then show "\<exists>type sequence nonce payload. length nonce = 24 \<and> length payload \<le> 1600 \<and>
      buf = sealed key type sequence nonce payload"
    by (metis append_Nil2 drop_all nat_int order_refl)
next
  assume "\<exists>type sequence nonce payload. length nonce = 24 \<and> length payload \<le> 1600 \<and>
      buf = sealed key type sequence nonce payload"
  then obtain t s n p where p: "length n = 24" "length p \<le> 1600" "buf = sealed key t s n p" by blast
  obtain mac where "proto_decrypt (sealed key t s n p @ []) (int (length p + 53)) key =
      (int (37 + length p), opened t s n p @ mac @ [])"
    using proto_decrypt_sealed [OF p(1,2)] by metis
  with p show "fst (proto_decrypt buf (int (length buf)) key) \<noteq> -1" by simp
qed

end
