(* ===== verification/Proto_Sequence.thy ===== *)
theory Proto_Sequence
  imports Proto_Wire
begin

text \<open>
  Sequence numbers under concurrency (\<open>proto_next_sequence\<close> of \<open>src/protocol/protocol.c\<close>). The main loop,
  the timeout or keepalive thread and the TUN thread all seal datagrams, so that several callers are
  inside the function at once. Here the function is cut into its atomic operations: the load of the
  counter, the drawing of an initial value, the compare-and-exchange and the fetch-and-add. The
  function of \<open>Proto_Wire\<close> is the run of one caller on its own.
\<close>

section \<open>Atomic operations\<close>

text \<open>What a caller does next; \<open>SeqCas\<close> carries the initial value it has drawn.\<close>

datatype seq_pc = SeqLoad | SeqSeed | SeqCas u64 | SeqFetch

text \<open>
  One operation of a caller on the counter: its next operation, the counter and, when the call
  returns, the number or \<open>None\<close> for a failure. A failed exchange has read a counter that is not zero,
  so that the loop ends.
\<close>

fun seq_exec :: "u64 option \<Rightarrow> seq_pc \<Rightarrow> u64 \<Rightarrow> seq_pc \<times> u64 \<times> u64 option option" where
  "seq_exec drawn SeqLoad current = (if current = 0 then SeqSeed else SeqFetch, current, None)"
| "seq_exec drawn SeqSeed current =
     (case drawn of None \<Rightarrow> (SeqLoad, current, Some None) | Some initial \<Rightarrow> (SeqCas initial, current, None))"
| "seq_exec drawn (SeqCas initial) current = (SeqFetch, if current = 0 then initial else current, None)"
| "seq_exec drawn SeqFetch current = (SeqLoad, current + 1, Some (if current = 0 then None else Some current))"

record seq_state =
  seq_counter :: u64
  seq_pcs :: "nat \<Rightarrow> seq_pc"
  seq_issued :: "(nat \<times> u64) list"

definition seq_state0 :: seq_state where
  "seq_state0 = \<lparr>seq_counter = 0, seq_pcs = (\<lambda>_. SeqLoad), seq_issued = []\<rparr>"

fun issue :: "nat \<Rightarrow> u64 option option \<Rightarrow> (nat \<times> u64) list" where
  "issue t (Some (Some n)) = [(t, n)]"
| "issue t _ = []"

text \<open>Any caller may go next, in any state of the random source.\<close>

inductive seq_step :: "seq_state \<Rightarrow> seq_state \<Rightarrow> bool" where
  seq_stepI: "seq_exec (fst (proto_initial_sequence w)) (seq_pcs s t) (seq_counter s) = (pc, c, res) \<Longrightarrow>
     seq_step s \<lparr>seq_counter = c, seq_pcs = (seq_pcs s)(t := pc), seq_issued = seq_issued s @ issue t res\<rparr>"

abbreviation seq_steps :: "seq_state \<Rightarrow> seq_state \<Rightarrow> bool" where
  "seq_steps \<equiv> seq_step\<^sup>*\<^sup>*"

inductive_cases seq_stepE: "seq_step s s'"

section \<open>Uniqueness\<close>

lemma initial_sequence_range:
  assumes "proto_initial_sequence w = (Some i, w')"
  shows "1 \<le> unat i" "unat i < 2 ^ 63"
proof -
  obtain ok got v where r: "proto_random_bytes 8 w = (ok, got, v)" by (metis prod_cases3)
  define seed where "seed = u64_of_mem got AND 0x7FFFFFFFFFFFFFFF"
  have i: "i = (if seed = 0 then 1 else seed)"
    using assms r by (auto simp: proto_initial_sequence_def seed_def Let_def split: if_splits)
  have m: "(0x7FFFFFFFFFFFFFFF :: u64) = mask 63" by (simp add: mask_eq_exp_minus_1)
  have "unat seed = unat (u64_of_mem got) mod 2 ^ 63"
    unfolding seed_def m take_bit_eq_mask [symmetric] by (simp add: unat_take_bit_mod)
  then have "unat seed < 2 ^ 63" by simp
  then show "1 \<le> unat i" "unat i < 2 ^ 63" using i by (auto simp: Suc_le_eq unat_gt_0)
qed

lemma initial_sequence_counter: "proto_initial_sequence w = (so, w') \<Longrightarrow> g_proto_next_sequence w' = g_proto_next_sequence w"
  using proto_random_bytes_props(2) [of 8 w]
  by (auto simp: proto_initial_sequence_def Let_def split: prod.splits if_splits)

text \<open>
  The counter is zero until the first exchange succeeds; from then on the numbers handed out are
  consecutive and the counter is the next one.
\<close>

definition seq_inv :: "seq_state \<Rightarrow> bool" where
  "seq_inv s \<longleftrightarrow>
     (\<forall>t i. seq_pcs s t = SeqCas i \<longrightarrow> 1 \<le> unat i \<and> unat i < 2 ^ 63) \<and>
     (seq_counter s = 0 \<and> seq_issued s = [] \<and> (\<forall>t. seq_pcs s t \<noteq> SeqFetch) \<or>
      (\<exists>i. 1 \<le> i \<and> i < 2 ^ 63 \<and> unat (seq_counter s) = i + length (seq_issued s) \<and>
         map (\<lambda>(t, n). unat n) (seq_issued s) = [i..<i + length (seq_issued s)]))"

lemma seq_inv0: "seq_inv seq_state0"
  by (simp add: seq_inv_def seq_state0_def)

lemma seq_step_inv:
  assumes "seq_step s s'" "seq_inv s" "length (seq_issued s') \<le> 2 ^ 63"
  shows "seq_inv s'"
proof -
  obtain w t pc c res where 1: "s' = \<lparr>seq_counter = c, seq_pcs = (seq_pcs s)(t := pc), seq_issued = seq_issued s @ issue t res\<rparr>"
      "seq_exec (fst (proto_initial_sequence w)) (seq_pcs s t) (seq_counter s) = (pc, c, res)"
    using assms(1) by (rule seq_stepE) blast
  have drawn: "1 \<le> unat i \<and> unat i < 2 ^ 63" if "fst (proto_initial_sequence w) = Some i" for i
    using initial_sequence_range [of w i] that by (metis prod.collapse)
  have pcs: "\<forall>u i. seq_pcs s' u = SeqCas i \<longrightarrow> 1 \<le> unat i \<and> unat i < 2 ^ 63"
    using assms(2) 1 drawn by (cases "seq_pcs s t") (auto simp: seq_inv_def split: option.splits if_splits)
  show ?thesis
  proof (cases "seq_counter s = 0 \<and> seq_issued s = [] \<and> (\<forall>t. seq_pcs s t \<noteq> SeqFetch)")
    case True
    then show ?thesis
      using 1 pcs assms(2) unfolding seq_inv_def
      by (cases "seq_pcs s t") (auto simp: seq_inv_def split: option.splits)
  next
    case False
    then obtain i where i: "1 \<le> i" "i < 2 ^ 63" "unat (seq_counter s) = i + length (seq_issued s)"
        "map (\<lambda>(t, n). unat n) (seq_issued s) = [i..<i + length (seq_issued s)]"
      using assms(2) by (auto simp: seq_inv_def)
    have ne: "seq_counter s \<noteq> 0" using i(1,3) by auto
    have "unat (seq_counter s + 1) = i + length (seq_issued s) + 1" if "length (seq_issued s) < 2 ^ 63"
    proof -
      have "unat (seq_counter s) + 1 < 2 ^ 64" using i(2,3) that by simp
      then show ?thesis using i(3) by (subst unat_add_lem [THEN iffD1]) simp_all
    qed
    then have "\<exists>i. 1 \<le> i \<and> i < 2 ^ 63 \<and> unat (seq_counter s') = i + length (seq_issued s') \<and>
        map (\<lambda>(t, n). unat n) (seq_issued s') = [i..<i + length (seq_issued s')]"
      using 1 i ne assms(3) by (cases "seq_pcs s t") (auto simp: split: option.splits intro!: exI [of _ i])
    then show ?thesis using pcs by (auto simp: seq_inv_def)
  qed
qed

lemma seq_step_issued: "seq_step s s' \<Longrightarrow> length (seq_issued s) \<le> length (seq_issued s')"
  by (auto elim: seq_stepE)

lemma seq_steps_inv:
  assumes "seq_steps s s'" "seq_inv s"
  shows "length (seq_issued s') \<le> 2 ^ 63 \<Longrightarrow> seq_inv s'"
  using assms
proof (induction rule: rtranclp_induct)
  case (step y z)
  then show ?case using seq_step_inv [of y z] seq_step_issued [of y z] by simp
qed simp

section \<open>One caller on its own\<close>

lemma seq_stepI':
  assumes "seq_exec (fst (proto_initial_sequence w)) (seq_pcs s t) (seq_counter s) = (pc, c, res)"
    "seq_counter s' = c" "seq_pcs s' = (seq_pcs s)(t := pc)" "seq_issued s' = seq_issued s @ issue t res"
  shows "seq_steps s s'"
proof -
  have "s' = \<lparr>seq_counter = c, seq_pcs = (seq_pcs s)(t := pc), seq_issued = seq_issued s @ issue t res\<rparr>"
    using assms(2-4) by simp
  then show ?thesis using seq_stepI [OF assms(1)] by blast
qed

lemma fetch_run:
  assumes "seq_pcs s t = SeqFetch"
  shows "seq_steps s \<lparr>seq_counter = seq_counter s + 1, seq_pcs = (seq_pcs s)(t := SeqLoad),
    seq_issued = seq_issued s @ (if seq_counter s = 0 then [] else [(t, seq_counter s)])\<rparr>"
  by (rule seq_stepI' [where t = t]) (auto simp: assms)

lemma next_sequence_is_run:
  assumes "proto_next_sequence w = (so, w')" "seq_pcs s t = SeqLoad" "seq_counter s = g_proto_next_sequence w"
  shows "\<exists>s'. seq_steps s s' \<and> seq_counter s' = g_proto_next_sequence w' \<and> seq_pcs s' = seq_pcs s \<and>
    seq_issued s' = seq_issued s @ issue t (Some so)"
proof (cases "g_proto_next_sequence w = 0")
  case False
  let ?s = "s\<lparr>seq_pcs := (seq_pcs s)(t := SeqFetch)\<rparr>"
  have "seq_steps s ?s"
    using False assms(2,3) by (intro seq_stepI' [where t = t]) simp+
  also have "seq_steps ?s \<lparr>seq_counter = seq_counter s + 1, seq_pcs = seq_pcs s, seq_issued = seq_issued s @ [(t, seq_counter s)]\<rparr>"
    using fetch_run [of ?s t] False assms(2,3) by (simp add: fun_upd_idem)
  finally have run: "seq_steps s \<lparr>seq_counter = seq_counter s + 1, seq_pcs = seq_pcs s, seq_issued = seq_issued s @ [(t, seq_counter s)]\<rparr>" .
  show ?thesis
    by (rule exI, rule conjI, rule run) (use assms(1,3) False in \<open>auto simp: proto_next_sequence_def Let_def\<close>)
next
  case True
  obtain io v where p: "proto_initial_sequence w = (io, v)" by fastforce
  let ?s1 = "s\<lparr>seq_pcs := (seq_pcs s)(t := SeqSeed)\<rparr>"
  have s1: "seq_steps s ?s1"
    using True assms(2,3) by (intro seq_stepI' [where t = t]) simp+
  show ?thesis
  proof (cases io)
    case None
    have "seq_steps ?s1 s"
      using None p assms(2) by (intro seq_stepI' [where t = t and w = w]) (simp add: fun_upd_idem)+
    with s1 have "seq_steps s s" by simp
    moreover have "g_proto_next_sequence w' = 0" "so = None"
      using assms(1) True None p initial_sequence_counter [OF p] by (auto simp: proto_next_sequence_def Let_def)
    ultimately show ?thesis using True assms(3) by (intro exI [of _ s]) (simp add: seq_state.equality)
  next
    case (Some i)
    have i0: "i \<noteq> 0" using initial_sequence_range(1) [of w i v] p Some by auto
    let ?s2 = "s\<lparr>seq_pcs := (seq_pcs s)(t := SeqCas i)\<rparr>"
    let ?s3 = "s\<lparr>seq_counter := i, seq_pcs := (seq_pcs s)(t := SeqFetch)\<rparr>"
    note s1
    also have "seq_steps ?s1 ?s2"
      using Some p by (intro seq_stepI' [where t = t and w = w]) simp+
    also have "seq_steps ?s2 ?s3"
      using True assms(3) by (intro seq_stepI' [where t = t]) simp+
    also have "seq_steps ?s3 \<lparr>seq_counter = i + 1, seq_pcs = seq_pcs s, seq_issued = seq_issued s @ [(t, i)]\<rparr>"
      using fetch_run [of ?s3 t] i0 assms(2) by (simp add: fun_upd_idem)
    finally have run: "seq_steps s \<lparr>seq_counter = i + 1, seq_pcs = seq_pcs s, seq_issued = seq_issued s @ [(t, i)]\<rparr>" .
    show ?thesis
      by (rule exI, rule conjI, rule run) (use assms(1) True Some p i0 in \<open>auto simp: proto_next_sequence_def Let_def\<close>)
  qed
qed

text \<open>How far a call is from its end.\<close>

fun seq_rank :: "seq_pc \<Rightarrow> nat" where
  "seq_rank SeqLoad = 3"
| "seq_rank SeqSeed = 2"
| "seq_rank (SeqCas i) = 1"
| "seq_rank SeqFetch = 0"

lemma seq_exec_rank: "seq_exec drawn pc c = (pc', c', None) \<Longrightarrow> seq_rank pc' < seq_rank pc"
  by (cases pc) (auto split: option.splits if_splits)

text \<open>
  C16: no two datagrams of a process carry the same sequence number. However the atomic operations of
  any number of callers interleave, the first \<open>2^63\<close> numbers handed out are consecutive, starting
  from a random number below \<open>2^63\<close>, hence pairwise different and increasing in the order of the
  fetches; no call fails on a zero counter, even when several callers initialise it at once. Every
  call returns after at most four operations of its own, and the sequential function is the run of a
  single caller.
\<close>

theorem sequence_numbers_unique:
  assumes "seq_steps seq_state0 s" "length (seq_issued s) \<le> 2 ^ 63"
  shows "(\<exists>i. 1 \<le> i \<and> i < 2 ^ 63 \<and> map (\<lambda>(t, n). unat n) (seq_issued s) = [i..<i + length (seq_issued s)]) \<and>
    distinct (map snd (seq_issued s)) \<and>
    (\<forall>t. seq_pcs s t = SeqFetch \<longrightarrow> seq_counter s \<noteq> 0) \<and>
    (\<forall>drawn t pc c. seq_exec drawn (seq_pcs s t) (seq_counter s) = (pc, c, None) \<longrightarrow> seq_rank pc < seq_rank (seq_pcs s t)) \<and>
    (\<forall>w so w' t. g_proto_next_sequence w = seq_counter s \<and> seq_pcs s t = SeqLoad \<and> proto_next_sequence w = (so, w') \<longrightarrow>
       (\<exists>s'. seq_steps s s' \<and> seq_counter s' = g_proto_next_sequence w' \<and> seq_pcs s' = seq_pcs s \<and>
          seq_issued s' = seq_issued s @ issue t (Some so)))"
proof -
  have inv: "seq_inv s" by (rule seq_steps_inv [OF assms(1) seq_inv0 assms(2)])
  then have ex: "\<exists>i. 1 \<le> i \<and> i < 2 ^ 63 \<and> map (\<lambda>(t, n). unat n) (seq_issued s) = [i..<i + length (seq_issued s)]"
    by (auto simp: seq_inv_def intro: exI [of _ 1])
  then have "distinct (map (\<lambda>(t, n). unat n) (seq_issued s))" by (metis distinct_upt)
  moreover have "map (\<lambda>(t, n). unat n) (seq_issued s) = map unat (map snd (seq_issued s))" by (simp add: case_prod_beta')
  ultimately have "distinct (map snd (seq_issued s))" by (auto simp: distinct_map intro: inj_on_imageI2)
  moreover have "\<forall>t. seq_pcs s t = SeqFetch \<longrightarrow> seq_counter s \<noteq> 0" using inv by (auto simp: seq_inv_def)
  ultimately show ?thesis using ex seq_exec_rank next_sequence_is_run by metis
qed

text \<open>Two callers that both find the counter uninitialised.\<close>

theorem sequence_numbers_unique_witness:
  "\<exists>s i. seq_steps seq_state0 s \<and> map fst (seq_issued s) = [1, 0] \<and> map (\<lambda>(t, n). unat n) (seq_issued s) = [i..<i + 2]"
proof -
  obtain i v where p: "proto_initial_sequence demo_world = (Some i, v)"
    using proto_initial_sequence_props(3) [of demo_world "fst (proto_initial_sequence demo_world)"] random_ok_demo
    by (metis option.exhaust prod.collapse)
  note r = initial_sequence_range [OF p]
  define pcs :: "seq_pc \<Rightarrow> seq_pc \<Rightarrow> nat \<Rightarrow> seq_pc" where "pcs a b = (\<lambda>_. SeqLoad)(0 := a, 1 := b)" for a b
  define st where "st c a b xs = \<lparr>seq_counter = c, seq_pcs = pcs a b, seq_issued = xs\<rparr>" for c a b xs
  have step: "seq_steps (st c a b xs) (st c' a' b' xs')"
    if "seq_exec (Some i) a c = (a', c', res) \<and> b' = b \<and> xs' = xs @ issue 0 res \<or>
        seq_exec (Some i) b c = (b', c', res) \<and> a' = a \<and> xs' = xs @ issue 1 res" for c a b xs c' a' b' xs' res
    using that p seq_stepI' [of demo_world "st c a b xs" 0 a' c' res "st c' a' b' xs'"]
      seq_stepI' [of demo_world "st c a b xs" 1 b' c' res "st c' a' b' xs'"]
    by (auto simp: st_def pcs_def fun_upd_twist)
  have i1: "i \<noteq> 0" "i + 1 \<noteq> 0"
  proof -
    show "i \<noteq> 0" using r by auto
    have "unat (i + 1) = unat i + 1" using r(2) by (subst unat_add_lem [THEN iffD1]) simp_all
    then show "i + 1 \<noteq> 0" by (metis unat_0 add_is_0 one_neq_zero)
  qed
  have "seq_state0 = st 0 SeqLoad SeqLoad []" by (auto simp: seq_state0_def st_def pcs_def)
  also have "seq_steps (st 0 SeqLoad SeqLoad []) (st 0 SeqSeed SeqLoad [])" by (rule step [where res = None]) simp
  also have "seq_steps (st 0 SeqSeed SeqLoad []) (st 0 SeqSeed SeqSeed [])" by (rule step [where res = None]) simp
  also have "seq_steps (st 0 SeqSeed SeqSeed []) (st 0 (SeqCas i) SeqSeed [])" by (rule step [where res = None]) simp
  also have "seq_steps (st 0 (SeqCas i) SeqSeed []) (st 0 (SeqCas i) (SeqCas i) [])" by (rule step [where res = None]) simp
  also have "seq_steps (st 0 (SeqCas i) (SeqCas i) []) (st i (SeqCas i) SeqFetch [])" by (rule step [where res = None]) simp
  also have "seq_steps (st i (SeqCas i) SeqFetch []) (st i SeqFetch SeqFetch [])" by (rule step [where res = None]) (simp add: i1)
  also have "seq_steps (st i SeqFetch SeqFetch []) (st (i + 1) SeqFetch SeqLoad [(1, i)])"
    by (rule step [where res = "Some (Some i)"]) (simp add: i1)
  also have "seq_steps (st (i + 1) SeqFetch SeqLoad [(1, i)]) (st (i + 1 + 1) SeqLoad SeqLoad [(1, i), (0, i + 1)])"
    by (rule step [where res = "Some (Some (i + 1))"]) (simp add: i1)
  finally have run: "seq_steps seq_state0 (st (i + 1 + 1) SeqLoad SeqLoad [(1, i), (0, i + 1)])" .
  let ?s = "st (i + 1 + 1) SeqLoad SeqLoad [(1, i), (0, i + 1)]"
  have iss: "seq_issued ?s = [(1, i), (0, i + 1)]" by (simp add: st_def)
  then obtain k where "map (\<lambda>(t, n). unat n) (seq_issued ?s) = [k..<k + 2]" using sequence_numbers_unique [OF run] by auto
  then show ?thesis using run iss by (intro exI [of _ ?s] exI [of _ k]) simp
qed

end
