(* ===== verification/App_Events.thy ===== *)
theory App_Events
  imports World
begin

text \<open>
  The JSON event stream for graphical front ends (\<open>src/app/events.c\<close>): one line per event on the
  standard output, strings escaped byte by byte. \<open>json_read\<close> is the reader of JSON string literals
  against which the escaping is proved correct.
\<close>

definition json_escape :: "u8 \<Rightarrow> bytes" where
  "json_escape b =
     (if b = 92 then [92, 92]
      else if b = 34 then [92, 34]
      else if b = 8 then lit [CHR 92, CHR ''b'']
      else if b = 12 then lit [CHR 92, CHR ''f'']
      else if b = 10 then lit [CHR 92, CHR ''n'']
      else if b = 13 then lit [CHR 92, CHR ''r'']
      else if b = 9 then lit [CHR 92, CHR ''t'']
      else if b < 0x20 then lit [CHR 92, CHR ''u''] @ fmt_04x_byte b
      else [b])"

definition event_json_string :: "bytes \<Rightarrow> bytes" where
  "event_json_string value = [34] @ concat (map json_escape (c_str value)) @ [34]"

definition json_key :: "string \<Rightarrow> bytes" where
  "json_key k = [34] @ lit k @ [34, 58]"

definition app_event_peer_join :: "bytes \<Rightarrow> u32 \<Rightarrow> sockaddr_in \<Rightarrow> world \<Rightarrow> world" where
  "app_event_peer_join name virt_ip endpoint w =
     (if \<not> g_json_events_active w then w
      else
        let endpoint_text = take (TUND_IP_STR_LEN + 8 - 1)
              (ip_to_str_buf (sin_addr endpoint) TUND_IP_STR_LEN @ lit '':'' @
               fmt_u (unat (ntohs (sin_port endpoint))))
        in w\<lparr>w_stdout := w_stdout w @
               lit ''{'' @ json_key ''event'' @ [34] @ lit ''peer_join'' @ [34] @ lit '','' @
               json_key ''name'' @ event_json_string name @ lit '','' @
               json_key ''virtual_ip'' @ event_json_string (ip_to_str_buf virt_ip TUND_IP_STR_LEN) @ lit '','' @
               json_key ''endpoint'' @ event_json_string endpoint_text @ lit ''}'' @ [10]\<rparr>)"

definition app_event_peer_leave :: "u32 \<Rightarrow> bytes \<Rightarrow> world \<Rightarrow> world" where
  "app_event_peer_leave virt_ip reason w =
     (if \<not> g_json_events_active w then w
      else w\<lparr>w_stdout := w_stdout w @
               lit ''{'' @ json_key ''event'' @ [34] @ lit ''peer_leave'' @ [34] @ lit '','' @
               json_key ''virtual_ip'' @ event_json_string (ip_to_str_buf virt_ip TUND_IP_STR_LEN) @ lit '','' @
               json_key ''reason'' @ event_json_string reason @ lit ''}'' @ [10]\<rparr>)"

section \<open>Reading the strings back\<close>

definition hex_value :: "u8 \<Rightarrow> u8" where
  "hex_value c = (if c < 58 then c - 48 else c - 87)"

text \<open>
  The body of a JSON string literal behind the opening quote: its bytes and the rest behind the
  closing quote. Raw control characters are not allowed.
\<close>

function (sequential) json_read :: "bytes \<Rightarrow> (bytes \<times> bytes) option" where
  "json_read [] = None"
| "json_read (b # r) =
     (if b = 34 then Some ([], r)
      else if b = 92 then
        (case r of
           [] \<Rightarrow> None
         | c # r' \<Rightarrow>
             if c = 117 then
               (case r' of
                  h1 # h2 # h3 # h4 # r'' \<Rightarrow>
                    if h1 = 48 \<and> h2 = 48
                    then map_option (\<lambda>(s, rest). ((16 * hex_value h3 + hex_value h4) # s, rest)) (json_read r'')
                    else None
                | _ \<Rightarrow> None)
             else
               let v = (if c = 98 then 8 else if c = 102 then 12 else if c = 110 then 10
                        else if c = 114 then 13 else if c = 116 then 9 else c)
               in map_option (\<lambda>(s, rest). (v # s, rest)) (json_read r'))
      else if b < 0x20 then None
      else map_option (\<lambda>(s, rest). (b # s, rest)) (json_read r))"
  by pat_completeness auto
termination by (relation "measure length") auto

lemma hex_value_digit: "d < 16 \<Longrightarrow> hex_value (digit d) = of_nat d"
proof -
  have "\<forall>d \<in> set [0..<16]. hex_value (digit d) = of_nat d" by code_simp
  then show "d < 16 \<Longrightarrow> hex_value (digit d) = of_nat d" by simp
qed

lemma u8_hex_digits: "16 * of_nat (unat b div 16) + of_nat (unat b mod 16) = (b :: u8)"
proof -
  have "16 * of_nat (unat b div 16) + of_nat (unat b mod 16) = (of_nat (16 * (unat b div 16) + unat b mod 16) :: u8)"
    by (simp only: of_nat_add of_nat_mult of_nat_numeral)
  also have "16 * (unat b div 16) + unat b mod 16 = unat b" by simp
  finally show ?thesis by simp
qed

lemma json_read_escape:
  "json_read (json_escape b @ r) = map_option (\<lambda>(s, rest). (b # s, rest)) (json_read r)"
proof -
  have lt: "unat b < 256" using unsigned_less [of b] by simp
  then have "unat b div 16 < 16" "unat b mod 16 < 16" by auto
  then have ctrl: "16 * hex_value (digit (unat b div 16)) + hex_value (digit (unat b mod 16)) = b"
    by (simp only: hex_value_digit u8_hex_digits)
  consider "b = 92" | "b = 34" | "b = 8" | "b = 12" | "b = 10" | "b = 13" | "b = 9"
    | (ctrl) "b \<noteq> 92" "b \<noteq> 34" "b \<noteq> 8" "b \<noteq> 12" "b \<noteq> 10" "b \<noteq> 13" "b \<noteq> 9" "b < 0x20"
    | (plain) "b \<noteq> 92" "b \<noteq> 34" "b \<noteq> 8" "b \<noteq> 12" "b \<noteq> 10" "b \<noteq> 13" "b \<noteq> 9" "\<not> b < 0x20"
    by blast
  then show ?thesis
  proof cases
    case ctrl
    then have "json_escape b = [92, 117, 48, 48, digit (unat b div 16), digit (unat b mod 16)]"
      by (simp add: json_escape_def fmt_04x_byte_def lit_def)
    then show ?thesis by (simp add: \<open>16 * hex_value _ + _ = b\<close>)
  qed (simp_all add: json_escape_def lit_def)
qed

lemma json_read_event_string:
  "json_read (concat (map json_escape v) @ 34 # rest) = Some (v, rest)"
  by (induction v) (simp_all add: json_read_escape del: json_read.simps(2), simp)

text \<open>No raw control character, in particular no line break, is printed inside a string.\<close>

lemma json_escape_printable: "c \<in> set (json_escape b) \<Longrightarrow> 0x20 \<le> c"
proof -
  assume c: "c \<in> set (json_escape b)"
  have d: "\<forall>d \<in> set [0..<16]. 0x20 \<le> digit d" by code_simp
  have lt: "unat b < 256" using unsigned_less [of b] by simp
  then have "unat b div 16 < 16" "unat b mod 16 < 16" by auto
  with c d show "0x20 \<le> c"
    by (auto simp: json_escape_def fmt_04x_byte_def lit_def not_less split: if_splits)
qed

lemma event_frame [simp, frame]:
  "w_sent (app_event_peer_join n v e w) = w_sent w" "w_sent (app_event_peer_leave v r w) = w_sent w"
  "g_crypto_key (app_event_peer_join n v e w) = g_crypto_key w" "g_crypto_key (app_event_peer_leave v r w) = g_crypto_key w"
  "w_env (app_event_peer_join n v e w) = w_env w" "w_env (app_event_peer_leave v r w) = w_env w"
  "w_tun_out (app_event_peer_join n v e w) = w_tun_out w" "w_tun_out (app_event_peer_leave v r w) = w_tun_out w"
  "g_running (app_event_peer_join n v e w) = g_running w" "g_running (app_event_peer_leave v r w) = g_running w"
  "g_proto_random_fd (app_event_peer_join n v e w) = g_proto_random_fd w"
  "g_proto_random_fd (app_event_peer_leave v r w) = g_proto_random_fd w"
  by (simp_all add: app_event_peer_join_def app_event_peer_leave_def Let_def)



end
