(* ===== verification/Proto_Msg.thy ===== *)
theory Proto_Msg
  imports Proto_Wire
begin

text \<open>
  The messages of \<open>src/protocol/protocol.c\<close>: their builders and readers, the peer-list entries and
  the validation of tunnelled IPv4 packets. A builder writes into the caller's packet buffer and
  returns the length of the message, or a negative code.
\<close>

abbreviation (input) TUND_NAME_LEN :: nat where "TUND_NAME_LEN \<equiv> 32"
abbreviation (input) TUND_PEER_ENTRY_SIZE :: nat where "TUND_PEER_ENTRY_SIZE \<equiv> 37"
abbreviation (input) TUND_TUN_MTU :: nat where "TUND_TUN_MTU \<equiv> 1400"

abbreviation (input) TUND_SUBNET :: u32 where "TUND_SUBNET \<equiv> 0x0A090000"
abbreviation (input) TUND_NETMASK :: u32 where "TUND_NETMASK \<equiv> 0xFFFFFF00"
abbreviation (input) TUND_SERVER_IP :: u32 where "TUND_SERVER_IP \<equiv> 0x0A090001"
abbreviation (input) TUND_IP_START :: u32 where "TUND_IP_START \<equiv> 0x0A090002"
abbreviation (input) TUND_IP_END :: u32 where "TUND_IP_END \<equiv> 0x0A0900FE"

abbreviation (input) MSG_REGISTER :: u8 where "MSG_REGISTER \<equiv> 1"
abbreviation (input) MSG_ASSIGN :: u8 where "MSG_ASSIGN \<equiv> 2"
abbreviation (input) MSG_PEER_LIST :: u8 where "MSG_PEER_LIST \<equiv> 3"
abbreviation (input) MSG_DATA :: u8 where "MSG_DATA \<equiv> 4"
abbreviation (input) MSG_KEEPALIVE :: u8 where "MSG_KEEPALIVE \<equiv> 5"
abbreviation (input) MSG_DISCONNECT :: u8 where "MSG_DISCONNECT \<equiv> 6"
abbreviation (input) MSG_PEER_JOIN :: u8 where "MSG_PEER_JOIN \<equiv> 7"
abbreviation (input) MSG_PEER_LEAVE :: u8 where "MSG_PEER_LEAVE \<equiv> 8"
abbreviation (input) MSG_KEEPALIVE_ACK :: u8 where "MSG_KEEPALIVE_ACK \<equiv> 9"

abbreviation (input) TUND_IPV4_OK :: int where "TUND_IPV4_OK \<equiv> 0"
abbreviation (input) TUND_IPV4_TOO_SHORT :: int where "TUND_IPV4_TOO_SHORT \<equiv> -1"
abbreviation (input) TUND_IPV4_BAD_VERSION :: int where "TUND_IPV4_BAD_VERSION \<equiv> -2"
abbreviation (input) TUND_IPV4_BAD_IHL :: int where "TUND_IPV4_BAD_IHL \<equiv> -3"
abbreviation (input) TUND_IPV4_TRUNCATED :: int where "TUND_IPV4_TRUNCATED \<equiv> -4"
abbreviation (input) TUND_IPV4_LENGTH_MISMATCH :: int where "TUND_IPV4_LENGTH_MISMATCH \<equiv> -5"
abbreviation (input) TUND_IPV4_BAD_SRC :: int where "TUND_IPV4_BAD_SRC \<equiv> -6"
abbreviation (input) TUND_IPV4_BAD_DST :: int where "TUND_IPV4_BAD_DST \<equiv> -7"

section \<open>Builders\<close>

definition proto_build_register :: "bytes \<Rightarrow> bytes \<Rightarrow> world \<Rightarrow> int \<times> bytes \<times> world" where
  "proto_build_register buf name w =
     (let nlen = of_nat (c_strlen name) :: u16;
          nlen = (if of_nat TUND_NAME_LEN < nlen then of_nat TUND_NAME_LEN else nlen);
          (r, buf, w) = proto_write_hdr buf MSG_REGISTER nlen w
      in if r < 0 then (-1, buf, w)
         else (int TUND_HDR_SIZE + uint nlen, memcpy_at TUND_HDR_SIZE (take (unat nlen) name) buf, w))"

definition proto_build_assign :: "bytes \<Rightarrow> u32 \<Rightarrow> u32 \<Rightarrow> u16 \<Rightarrow> world \<Rightarrow> int \<times> bytes \<times> world" where
  "proto_build_assign buf virt_ip netmask mtu w =
     (let plen = 10;
          (r, buf, w) = proto_write_hdr buf MSG_ASSIGN plen w
      in if r < 0 then (-1, buf, w)
         else let buf = memcpy_at TUND_HDR_SIZE (mem_of_u32 virt_ip) buf;
                  buf = memcpy_at (TUND_HDR_SIZE + 4) (mem_of_u32 netmask) buf;
                  nmtu = htons mtu;
                  buf = memcpy_at (TUND_HDR_SIZE + 8) (mem_of_u16 nmtu) buf
              in (int TUND_HDR_SIZE + uint plen, buf, w))"

definition proto_build_data :: "bytes \<Rightarrow> bytes \<Rightarrow> u16 \<Rightarrow> world \<Rightarrow> int \<times> bytes \<times> world" where
  "proto_build_data buf ip_pkt ip_len w =
     (let (r, buf, w) = proto_write_hdr buf MSG_DATA ip_len w
      in if r < 0 then (-1, buf, w)
         else (int TUND_HDR_SIZE + uint ip_len, memcpy_at TUND_HDR_SIZE (take (unat ip_len) ip_pkt) buf, w))"

definition proto_build_timestamp_msg :: "bytes \<Rightarrow> u8 \<Rightarrow> u64 \<Rightarrow> world \<Rightarrow> int \<times> bytes \<times> world" where
  "proto_build_timestamp_msg buf type timestamp w =
     (let (r, buf, w) = proto_write_hdr buf type 8 w
      in if r < 0 then (-1, buf, w)
         else (int TUND_HDR_SIZE + 8, memcpy_at TUND_HDR_SIZE (be_bytes 8 timestamp) buf, w))"

definition proto_build_keepalive :: "bytes \<Rightarrow> u64 \<Rightarrow> world \<Rightarrow> int \<times> bytes \<times> world" where
  "proto_build_keepalive buf timestamp w = proto_build_timestamp_msg buf MSG_KEEPALIVE timestamp w"

definition proto_build_keepalive_ack :: "bytes \<Rightarrow> u64 \<Rightarrow> world \<Rightarrow> int \<times> bytes \<times> world" where
  "proto_build_keepalive_ack buf timestamp w = proto_build_timestamp_msg buf MSG_KEEPALIVE_ACK timestamp w"

definition proto_build_disconnect :: "bytes \<Rightarrow> world \<Rightarrow> int \<times> bytes \<times> world" where
  "proto_build_disconnect buf w =
     (let (r, buf, w) = proto_write_hdr buf MSG_DISCONNECT 0 w
      in if r < 0 then (-1, buf, w) else (int TUND_HDR_SIZE, buf, w))"

definition proto_build_peer_join :: "bytes \<Rightarrow> u32 \<Rightarrow> bytes \<Rightarrow> world \<Rightarrow> int \<times> bytes \<times> world" where
  "proto_build_peer_join buf virt_ip name w =
     (let plen = of_nat (4 + TUND_NAME_LEN);
          (r, buf, w) = proto_write_hdr buf MSG_PEER_JOIN plen w
      in if r < 0 then (-1, buf, w)
         else let buf = memcpy_at TUND_HDR_SIZE (mem_of_u32 virt_ip) buf;
                  buf = memcpy_at (TUND_HDR_SIZE + 4) (zeros TUND_NAME_LEN) buf;
                  buf = memcpy_at (TUND_HDR_SIZE + 4)
                          (strncpy (slice (TUND_HDR_SIZE + 4) TUND_NAME_LEN buf) name (TUND_NAME_LEN - 1)) buf
              in (int TUND_HDR_SIZE + uint plen, buf, w))"

definition proto_build_peer_leave :: "bytes \<Rightarrow> u32 \<Rightarrow> world \<Rightarrow> int \<times> bytes \<times> world" where
  "proto_build_peer_leave buf virt_ip w =
     (let (r, buf, w) = proto_write_hdr buf MSG_PEER_LEAVE 4 w
      in if r < 0 then (-1, buf, w)
         else (int TUND_HDR_SIZE + 4, memcpy_at TUND_HDR_SIZE (mem_of_u32 virt_ip) buf, w))"

section \<open>Readers\<close>

definition proto_read_keepalive_timestamp :: "bytes \<Rightarrow> u16 \<Rightarrow> u64 option" where
  "proto_read_keepalive_timestamp payload payload_len =
     (if payload_len < 8 then None else Some (be_word 0 (take 8 payload)))"

text \<open>\<open>payload\<close> is the space from the entry's first byte on; \<open>name\<close> is \<open>None\<close> for a null pointer.\<close>

definition proto_write_peer_entry :: "bytes \<Rightarrow> nat \<Rightarrow> u32 \<Rightarrow> bytes option \<Rightarrow> bool \<Rightarrow> bytes option" where
  "proto_write_peer_entry payload payload_size virt_ip name online =
     (if payload_size < TUND_PEER_ENTRY_SIZE then None
      else
        let payload = memcpy_at 0 (mem_of_u32 virt_ip) payload;
            payload = memcpy_at 4 (zeros TUND_NAME_LEN) payload;
            payload = (case name of
                         None \<Rightarrow> payload
                       | Some name \<Rightarrow>
                           let name_len = (if TUND_NAME_LEN \<le> c_strlen name then TUND_NAME_LEN - 1
                                           else c_strlen name)
                           in memcpy_at 4 (take name_len name) payload)
        in Some (payload[36 := (if online then 1 else 0)]))"

definition proto_read_peer_entry :: "bytes \<Rightarrow> u16 \<Rightarrow> int \<Rightarrow> (u32 \<times> bytes \<times> bool) option" where
  "proto_read_peer_entry payload payload_len index =
     (if index < 0 then None
      else
        let offset = nat index * TUND_PEER_ENTRY_SIZE
        in if unat payload_len < offset + TUND_PEER_ENTRY_SIZE then None
           else Some (u32_of_mem (slice offset 4 payload),
                      (slice (offset + 4) TUND_NAME_LEN payload)[TUND_NAME_LEN - 1 := 0],
                      payload ! (offset + 36) \<noteq> 0))"

definition proto_peer_entry_count :: "u16 \<Rightarrow> int" where
  "proto_peer_entry_count payload_len = int (unat payload_len div TUND_PEER_ENTRY_SIZE)"

section \<open>IPv4 packets\<close>

definition proto_read_u16_be :: "bytes \<Rightarrow> u16" where
  "proto_read_u16_be p = push_bit 8 (ucast (p ! 0)) OR ucast (p ! 1)"

definition proto_get_dst_ip :: "bytes \<Rightarrow> u16 \<Rightarrow> u32" where
  "proto_get_dst_ip ip_pkt len = (if len < 20 then 0 else u32_of_mem (slice 16 4 ip_pkt))"

definition proto_get_src_ip :: "bytes \<Rightarrow> u16 \<Rightarrow> u32" where
  "proto_get_src_ip ip_pkt len = (if len < 20 then 0 else u32_of_mem (slice 12 4 ip_pkt))"

definition proto_validate_ipv4_packet :: "bytes \<Rightarrow> u16 \<Rightarrow> int" where
  "proto_validate_ipv4_packet ip_pkt len =
     (if len < 20 then TUND_IPV4_TOO_SHORT
      else if drop_bit 4 (ip_pkt ! 0) \<noteq> 4 then TUND_IPV4_BAD_VERSION
      else
        let ihl = (ip_pkt ! 0 AND 0x0F) * 4
        in if ihl < 20 then TUND_IPV4_BAD_IHL
           else if len < ucast ihl then TUND_IPV4_TRUNCATED
           else
             let total_len = proto_read_u16_be (drop 2 ip_pkt)
             in if total_len < ucast ihl then TUND_IPV4_LENGTH_MISMATCH
                else if len < total_len then TUND_IPV4_TRUNCATED
                else if total_len \<noteq> len then TUND_IPV4_LENGTH_MISMATCH
                else
                  let src = ntohl (proto_get_src_ip ip_pkt len);
                      dst = ntohl (proto_get_dst_ip ip_pkt len);
                      broadcast = TUND_SUBNET OR NOT TUND_NETMASK
                  in if src AND TUND_NETMASK \<noteq> TUND_SUBNET \<or> src = TUND_SUBNET \<or> src = broadcast
                     then TUND_IPV4_BAD_SRC
                     else if dst = TUND_SUBNET then TUND_IPV4_BAD_DST
                     else if dst \<noteq> broadcast \<and> dst AND TUND_NETMASK \<noteq> TUND_SUBNET
                     then TUND_IPV4_BAD_DST
                     else TUND_IPV4_OK)"

definition proto_ipv4_validation_error :: "int \<Rightarrow> bytes" where
  "proto_ipv4_validation_error code =
     (if code = TUND_IPV4_OK then lit ''ok''
      else if code = TUND_IPV4_TOO_SHORT then lit ''too short''
      else if code = TUND_IPV4_BAD_VERSION then lit ''not IPv4''
      else if code = TUND_IPV4_BAD_IHL then lit ''invalid IPv4 header length''
      else if code = TUND_IPV4_TRUNCATED then lit ''truncated IPv4 packet''
      else if code = TUND_IPV4_LENGTH_MISMATCH then lit ''IPv4 length mismatch''
      else if code = TUND_IPV4_BAD_SRC then lit ''source outside TunD subnet''
      else if code = TUND_IPV4_BAD_DST then lit ''destination outside TunD subnet''
      else lit ''invalid IPv4 packet'')"

section \<open>What the builders build\<close>

text \<open>
  \<open>built t p buf w res\<close>: the result of a builder called with the buffer \<open>buf\<close> in the world \<open>w\<close>. It
  fails, or the message of type \<open>t\<close> with payload \<open>p\<close> is at the start of the buffer under a fresh
  sequence number; with a working random source it does not fail.
\<close>

definition built :: "u8 \<Rightarrow> bytes \<Rightarrow> bytes \<Rightarrow> world \<Rightarrow> int \<times> bytes \<times> world \<Rightarrow> bool" where
  "built t p buf w = (\<lambda>(r, buf', w').
     w_app w' = w_app w \<and> length buf' = length buf \<and>
     (r = -1 \<or> (r = int (37 + length p) \<and>
        (\<exists>s n. s \<noteq> 0 \<and> length n = TUND_NONCE_SIZE \<and> g_proto_next_sequence w' = s + 1 \<and>
           (g_proto_next_sequence w \<noteq> 0 \<longrightarrow> s = g_proto_next_sequence w) \<and>
           take (37 + length p) buf' = opened t s n p))) \<and>
     (random_ok w \<longrightarrow> r \<noteq> -1 \<and> random_ok w'))"

definition build_with :: "u8 \<Rightarrow> u16 \<Rightarrow> nat \<Rightarrow> (bytes \<Rightarrow> bytes) \<Rightarrow> bytes \<Rightarrow> world \<Rightarrow> int \<times> bytes \<times> world" where
  "build_with t l m upd buf w =
     (let (r, buf, w) = proto_write_hdr buf t l w
      in if r < 0 then (-1, buf, w) else (int (37 + m), upd buf, w))"

lemma built_build_with:
  assumes fits: "37 + length p \<le> length buf" and p: "length p \<le> 1600" and l: "l = of_nat (length p)"
    and m: "m = length p"
    and upd: "\<And>hdr. length hdr = 37 \<Longrightarrow> upd (hdr @ drop 37 buf) = hdr @ p @ drop (37 + length p) buf"
  shows "built t p buf w (build_with t l m upd buf w)"
proof -
  obtain r b w' where wh: "proto_write_hdr buf t l w = (r, b, w')" by (metis prod_cases3)
  have len: "37 \<le> length buf" using fits by simp
  have u: "unat l \<le> 1600" using p l by (simp add: unat_of_nat_u16)
  note pr = proto_write_hdr_props [OF wh len]
  show ?thesis
  proof (cases "r = -1")
    case True
    with wh pr u show ?thesis by (auto simp: build_with_def built_def)
  next
    case False
    from wh len False obtain s n where s: "s \<noteq> 0" "length n = 24" "unat l \<le> 1600" "r = 37"
        "g_proto_next_sequence w' = s + 1" "g_proto_next_sequence w \<noteq> 0 \<longrightarrow> s = g_proto_next_sequence w"
        "b = hdr_of t l s n @ drop 37 buf"
      by (rule proto_write_hdr_success)
    have up: "upd b = hdr_of t l s n @ p @ drop (37 + length p) buf"
      using upd [of "hdr_of t l s n"] s by simp
    have tk: "take (37 + length p) (upd b) = opened t s n p" using up s(2) l by (simp add: opened_def)
    have ln: "length (upd b) = length buf" using up fits s(2) by simp
    have res: "build_with t l m upd buf w = (int (37 + length p), upd b, w')"
      using wh s(4) m by (simp add: build_with_def)
    have "int (37 + length p) \<noteq> -1" by simp
    then show ?thesis
      unfolding res built_def prod.case using s(1,2,5,6) tk ln pr(1,5) u by blast
  qed
qed

lemma built_data:
  assumes "37 + unat l \<le> length buf" "unat l \<le> 1600" "unat l \<le> length p"
  shows "built 4 (take (unat l) p) buf w (proto_build_data buf p l w)"
proof -
  have "proto_build_data buf p l w = build_with 4 l (unat l) (memcpy_at 37 (take (unat l) p)) buf w"
    unfolding proto_build_data_def build_with_def uint_nat by (simp split: prod.split)
  also have "built 4 (take (unat l) p) buf w \<dots>"
    using assms by (intro built_build_with) (auto simp: memcpy_at_def add.commute)
  finally show ?thesis .
qed

lemma built_timestamp:
  assumes "45 \<le> length buf"
  shows "built t (be_bytes 8 x) buf w (proto_build_timestamp_msg buf t x w)"
proof -
  have "proto_build_timestamp_msg buf t x w = build_with t 8 8 (memcpy_at 37 (be_bytes 8 x)) buf w"
    by (simp add: proto_build_timestamp_msg_def build_with_def split: prod.split)
  also have "built t (be_bytes 8 x) buf w \<dots>"
    using assms by (intro built_build_with) (auto simp: memcpy_at_def add.commute)
  finally show ?thesis .
qed

lemma built_keepalive:
  "45 \<le> length buf \<Longrightarrow> built 5 (be_bytes 8 x) buf w (proto_build_keepalive buf x w)"
  "45 \<le> length buf \<Longrightarrow> built 9 (be_bytes 8 x) buf w (proto_build_keepalive_ack buf x w)"
  by (simp_all add: proto_build_keepalive_def proto_build_keepalive_ack_def built_timestamp)

lemma built_disconnect:
  assumes "37 \<le> length buf"
  shows "built 6 [] buf w (proto_build_disconnect buf w)"
proof -
  have "proto_build_disconnect buf w = build_with 6 0 0 (\<lambda>b. b) buf w"
    by (simp add: proto_build_disconnect_def build_with_def split: prod.split)
  also have "built 6 [] buf w \<dots>"
    using assms by (intro built_build_with) auto
  finally show ?thesis .
qed

lemma built_peer_leave:
  assumes "41 \<le> length buf"
  shows "built 8 (mem_of_u32 vip) buf w (proto_build_peer_leave buf vip w)"
proof -
  have "proto_build_peer_leave buf vip w = build_with 8 4 4 (memcpy_at 37 (mem_of_u32 vip)) buf w"
    by (simp add: proto_build_peer_leave_def build_with_def split: prod.split)
  also have "built 8 (mem_of_u32 vip) buf w \<dots>"
    using assms by (intro built_build_with) (auto simp: memcpy_at_def add.commute)
  finally show ?thesis .
qed

lemma built_register:
  assumes "69 \<le> length buf" "c_strlen name < 65536"
  shows "built 1 (take 32 (c_str name)) buf w (proto_build_register buf name w)"
proof -
  let ?n = "min 32 (c_strlen name)"
  have nl: "(if of_nat 32 < (of_nat (c_strlen name) :: u16) then of_nat 32 else of_nat (c_strlen name)) =
      (of_nat ?n :: u16)"
    using assms(2) by (auto simp: word_less_nat_alt unat_of_nat_u16 min_def)
  have u: "unat (of_nat ?n :: u16) = ?n" by (simp add: unat_of_nat_u16)
  have "take ?n name = take 32 (c_str name)"
    by (metis c_str_def c_strlen_def min.commute take_take takeWhile_eq_take)
  then have "proto_build_register buf name w =
      build_with 1 (of_nat ?n) ?n (memcpy_at 37 (take 32 (c_str name))) buf w"
    unfolding proto_build_register_def Let_def nl uint_nat u build_with_def by (simp split: prod.split)
  also have "built 1 (take 32 (c_str name)) buf w \<dots>"
    using assms(1) by (intro built_build_with) (auto simp: memcpy_at_def c_strlen_def min.commute add.commute)
  finally show ?thesis .
qed

text \<open>The payload of \<open>MSG_ASSIGN\<close> and \<open>MSG_PEER_JOIN\<close>.\<close>

definition assign_payload :: "u32 \<Rightarrow> u32 \<Rightarrow> u16 \<Rightarrow> bytes" where
  "assign_payload vip netmask mtu = mem_of_u32 vip @ mem_of_u32 netmask @ mem_of_u16 (htons mtu)"

definition join_payload :: "u32 \<Rightarrow> bytes \<Rightarrow> bytes" where
  "join_payload vip name = mem_of_u32 vip @ name_array 32 (take 31 (c_str name))"

lemma length_payloads [simp, len_simps]:
  "length (assign_payload vip m mtu) = 10" "length (join_payload vip name) = 36"
  by (simp_all add: assign_payload_def join_payload_def name_array_props)

lemma built_assign:
  assumes "47 \<le> length buf"
  shows "built 2 (assign_payload vip netmask mtu) buf w (proto_build_assign buf vip netmask mtu w)"
proof -
  have "proto_build_assign buf vip netmask mtu w = build_with 2 10 10
      (\<lambda>b. memcpy_at 45 (mem_of_u16 (htons mtu)) (memcpy_at 41 (mem_of_u32 netmask) (memcpy_at 37 (mem_of_u32 vip) b))) buf w"
    by (simp add: proto_build_assign_def build_with_def Let_def split: prod.split)
  also have "built 2 (assign_payload vip netmask mtu) buf w \<dots>"
    using assms by (intro built_build_with) (auto simp: memcpy_at_def assign_payload_def)
  finally show ?thesis .
qed

lemma strncpy_name: "strncpy (zeros 32) name 31 = name_array 32 (take 31 (c_str name))"
proof -
  have "strncpy (zeros 32) name 31 = take 31 (c_str name) @ zeros (31 - length (c_str name)) @ zeros 1"
    by (simp add: strncpy_def)
  also have "\<dots> = take 31 (c_str name) @ zeros (31 - length (c_str name) + 1)"
    by (simp only: replicate_add)
  also have "31 - length (c_str name) + 1 = 32 - length (take 31 (c_str name))" by simp
  finally show ?thesis by (simp only: name_array_def)
qed

lemma built_peer_join:
  assumes "73 \<le> length buf"
  shows "built 7 (join_payload vip name) buf w (proto_build_peer_join buf vip name w)"
proof -
  have "proto_build_peer_join buf vip name w = build_with 7 36 36
      (\<lambda>b. let b = memcpy_at 41 (zeros 32) (memcpy_at 37 (mem_of_u32 vip) b)
           in memcpy_at 41 (strncpy (slice 41 32 b) name 31) b) buf w"
    by (simp add: proto_build_peer_join_def build_with_def Let_def split: prod.split)
  also have "built 7 (join_payload vip name) buf w \<dots>"
  proof (intro built_build_with)
    fix hdr :: bytes assume h: "length hdr = 37"
    let ?b = "memcpy_at 41 (zeros 32) (memcpy_at 37 (mem_of_u32 vip) (hdr @ drop 37 buf))"
    have b: "?b = hdr @ mem_of_u32 vip @ zeros 32 @ drop 73 buf"
      using h assms by (simp add: memcpy_at_def)
    have "slice 41 32 ?b = zeros 32" unfolding b using h by (simp add: slice_def)
    then show "(let b = ?b in memcpy_at 41 (strncpy (slice 41 32 b) name 31) b) =
        hdr @ join_payload vip name @ drop (37 + length (join_payload vip name)) buf"
      using h assms unfolding Let_def b
      by (simp add: strncpy_name memcpy_at_def join_payload_def name_array_props)
  qed (use assms in auto)
  finally show ?thesis .
qed

section \<open>Reading what was written\<close>

definition entry_bytes :: "u32 \<Rightarrow> bytes \<Rightarrow> bool \<Rightarrow> bytes" where
  "entry_bytes vip name online =
     mem_of_u32 vip @ name_array 32 (take 31 (c_str name)) @ [if online then 1 else 0]"

lemma length_entry_bytes [simp, len_simps]: "length (entry_bytes vip name online) = 37"
  by (simp add: entry_bytes_def name_array_props)

lemma take_c_strlen: "k \<le> c_strlen a \<Longrightarrow> take k a = take k (c_str a)"
  unfolding c_strlen_def c_str_def by (metis min.absorb1 take_take takeWhile_eq_take)

lemma write_peer_entry_bytes:
  assumes "37 \<le> sz" "37 \<le> length payload"
  shows "proto_write_peer_entry payload sz vip (Some name) online =
    Some (entry_bytes vip name online @ drop 37 payload)"
proof -
  define k where "k = (if 32 \<le> c_strlen name then 32 - 1 else c_strlen name)"
  have k: "take k name = take 31 (c_str name)" and kl: "length (take 31 (c_str name)) = k"
    using take_c_strlen [of k name] by (auto simp: c_strlen_def k_def)
  have "memcpy_at 4 (zeros 32) (memcpy_at 0 (mem_of_u32 vip) payload) =
      mem_of_u32 vip @ zeros 32 @ drop 36 payload"
    using assms(2) by (simp add: memcpy_at_def)
  moreover have "memcpy_at 4 (take 31 (c_str name)) (mem_of_u32 vip @ zeros 32 @ drop 36 payload) =
      mem_of_u32 vip @ name_array 32 (take 31 (c_str name)) @ drop 36 payload"
    using kl by (simp add: memcpy_at_def name_array_def)
  moreover have "drop 36 payload = payload ! 36 # drop 37 payload"
    using assms(2) Cons_nth_drop_Suc [of 36 payload] by simp
  ultimately show ?thesis
    using assms(1) unfolding proto_write_peer_entry_def Let_def option.case k_def [symmetric] k
    by (simp add: entry_bytes_def list_update_append name_array_props)
qed

lemma write_peer_entry_short: "sz < 37 \<Longrightarrow> proto_write_peer_entry payload sz vip name online = None"
  by (simp add: proto_write_peer_entry_def)

lemma read_entry_bytes:
  assumes "length pre = 37 * i" "37 * (i + 1) \<le> unat len"
  shows "proto_read_peer_entry (pre @ entry_bytes vip name online @ post) len (int i) =
    Some (vip, name_array 32 (take 31 (c_str name)), online)"
proof -
  have na: "length (name_array 32 (take 31 (c_str name))) = 32" by (simp add: name_array_props)
  have last: "(name_array 32 (take 31 (c_str name)))[31 := 0] = name_array 32 (take 31 (c_str name))"
  proof (rule nth_equalityI)
    fix j assume "j < length ((name_array 32 (take 31 (c_str name)))[31 := 0])"
    then show "(name_array 32 (take 31 (c_str name)))[31 := 0] ! j = name_array 32 (take 31 (c_str name)) ! j"
      by (auto simp: na nth_list_update name_array_def nth_append)
  qed simp
  let ?p = "pre @ entry_bytes vip name online @ post"
  have "slice (i * 37) 4 ?p = mem_of_u32 vip" "slice (i * 37 + 4) 32 ?p = name_array 32 (take 31 (c_str name))"
    "?p ! (i * 37 + 36) = (if online then 1 else 0)"
    using assms(1) na by (simp_all add: slice_def entry_bytes_def nth_append mult.commute)
  moreover have "\<not> unat len < i * 37 + 37" using assms(2) by simp
  ultimately show ?thesis by (simp add: proto_read_peer_entry_def Let_def last)
qed

lemma read_keepalive_bytes:
  "8 \<le> unat l \<Longrightarrow> proto_read_keepalive_timestamp (be_bytes 8 x @ rest) l = Some x"
  by (simp add: proto_read_keepalive_timestamp_def word_less_nat_alt)

section \<open>Validation of IPv4 packets\<close>

lemma and_not_255: "x AND 0xFFFFFF00 = push_bit 8 (drop_bit 8 (x :: u32))"
proof -
  have m: "(0xFFFFFF00 :: u32) = NOT (mask 8)" by (simp add: mask_numeral)
  show ?thesis unfolding m by (rule bit_word_eqI) (auto simp: bit_simps)
qed

lemma in_subnet_iff: "x AND TUND_NETMASK = TUND_SUBNET \<longleftrightarrow> unat x div 256 = 0x0A0900"
proof -
  have "push_bit 8 (drop_bit 8 x) = (TUND_SUBNET :: u32) \<longleftrightarrow> drop_bit 8 x = 0x0A0900"
  proof
    assume "push_bit 8 (drop_bit 8 x) = (TUND_SUBNET :: u32)"
    then have "drop_bit 8 (push_bit 8 (drop_bit 8 x)) = drop_bit 8 (TUND_SUBNET :: u32)" by simp
    moreover have "drop_bit 8 (push_bit 8 (drop_bit 8 x)) = drop_bit 8 x"
      by (rule bit_word_eqI) (auto simp: bit_simps dest: bit_imp_le_length)
    ultimately show "drop_bit 8 x = 0x0A0900" by simp
  qed simp
  also have "\<dots> \<longleftrightarrow> unat (drop_bit 8 x) = unat (0x0A0900 :: u32)" by (rule word_unat_eq_iff)
  also have "\<dots> \<longleftrightarrow> unat x div 256 = 0x0A0900" by (simp add: unat_drop_bit_div del: unat_drop_bit_eq)
  finally show ?thesis by (simp add: and_not_255)
qed

lemma subnet_range: "unat (x :: u32) div 256 = 0x0A0900 \<longleftrightarrow> TUND_SUBNET \<le> x \<and> x \<le> 0x0A0900FF"
proof -
  have "unat x div 256 = 0x0A0900 \<longleftrightarrow> 0x0A090000 \<le> unat x \<and> unat x \<le> 0x0A0900FF"
    by auto
  then show ?thesis by (simp add: word_le_nat_alt)
qed

text \<open>
  The hosts of the virtual LAN are 10.9.0.1 to 10.9.0.254; 10.9.0.255 is its broadcast address.
\<close>

definition lan_host :: "u32 \<Rightarrow> bool" where
  "lan_host ip \<longleftrightarrow> TUND_SERVER_IP \<le> ip \<and> ip \<le> TUND_IP_END"

lemma lan_host_iff:
  "\<not> (x AND TUND_NETMASK \<noteq> TUND_SUBNET \<or> x = TUND_SUBNET \<or> x = 0x0A0900FF) \<longleftrightarrow> lan_host x"
proof -
  have "(x AND TUND_NETMASK = TUND_SUBNET) = (TUND_SUBNET \<le> x \<and> x \<le> 0x0A0900FF)"
    using in_subnet_iff subnet_range by simp
  then show ?thesis
    unfolding lan_host_def by (simp add: word_le_nat_alt word_unat_eq_iff) arith
qed

definition ipv4_ok :: "bytes \<Rightarrow> nat \<Rightarrow> bool" where
  "ipv4_ok pkt len \<longleftrightarrow>
     20 \<le> len \<and> unat (pkt ! 0) div 16 = 4 \<and>
     20 \<le> 4 * (unat (pkt ! 0) mod 16) \<and> 4 * (unat (pkt ! 0) mod 16) \<le> len \<and>
     256 * unat (pkt ! 2) + unat (pkt ! 3) = len \<and>
     lan_host (ntohl (u32_of_mem (slice 12 4 pkt))) \<and>
     (lan_host (ntohl (u32_of_mem (slice 16 4 pkt))) \<or> ntohl (u32_of_mem (slice 16 4 pkt)) = 0x0A0900FF)"

lemma unat_read_u16: "unat (proto_read_u16_be p) = 256 * unat (p ! 0) + unat (p ! 1)"
proof -
  let ?a = "ucast (p ! 0) :: u16" and ?b = "ucast (p ! 1) :: u16"
  have dis: "push_bit 8 ?a AND ?b = 0"
    by (rule bit_word_eqI) (auto simp: bit_simps dest: bit_imp_le_length)
  have b: "unat (p ! 0) < 256" "unat (p ! 1) < 256"
    using unsigned_less [of "p ! 0"] unsigned_less [of "p ! 1"] by simp_all
  have ab: "unat ?a = unat (p ! 0)" "unat ?b = unat (p ! 1)" using b by (simp_all add: unsigned_ucast_eq take_bit_nat_eq_self)
  have pa: "push_bit 8 ?a = 256 * ?a" by (simp add: push_bit_eq_mult mult.commute)
  have "proto_read_u16_be p = 256 * ?a + ?b"
    unfolding proto_read_u16_be_def using dis pa by (simp add: disjunctive_add_eq_or)
  moreover have "unat (256 * ?a) = 256 * unat ?a"
    using b ab unat_mult_lem [of 256 ?a] by simp
  moreover have "unat (256 * ?a + ?b) = unat (256 * ?a) + unat ?b"
    using b ab calculation(2) unat_add_lem [of "256 * ?a" ?b] by simp
  ultimately show ?thesis using ab by simp
qed

lemma unat_ihl:
  "unat ((b AND 0x0F) * 4 :: u8) = 4 * (unat b mod 16)" "unat (ucast ((b AND 0x0F) * 4 :: u8) :: u16) = 4 * (unat b mod 16)"
proof -
  have "b AND 0x0F = take_bit 4 b" by (simp add: take_bit_eq_mask mask_numeral)
  then have m: "unat (b AND 0x0F) = unat b mod 16" using unat_take_bit_mod [of 4 b] by simp
  have lt: "unat b mod 16 < 16" by simp
  then show i: "unat ((b AND 0x0F) * 4 :: u8) = 4 * (unat b mod 16)"
    using unat_mult_lem [of "b AND 0x0F" 4] m by (simp add: mult.commute less_trans [of _ 16 64])
  show "unat (ucast ((b AND 0x0F) * 4 :: u8) :: u16) = 4 * (unat b mod 16)"
    using i lt by (simp add: unsigned_ucast_eq take_bit_nat_eq_self)
qed

lemma validate_ipv4_iff:
  assumes "unat len \<le> length pkt"
  shows "proto_validate_ipv4_packet pkt len = 0 \<longleftrightarrow> ipv4_ok pkt (unat len)"
proof (cases "20 \<le> unat len")
  case False
  then show ?thesis by (simp add: proto_validate_ipv4_packet_def ipv4_ok_def word_less_nat_alt)
next
  case True
  define ihl :: u8 where "ihl = (pkt ! 0 AND 0x0F) * 4"
  define tot where "tot = proto_read_u16_be (drop 2 pkt)"
  define src dst where "src = ntohl (u32_of_mem (slice 12 4 pkt))" and "dst = ntohl (u32_of_mem (slice 16 4 pkt))"
  have v: "drop_bit 4 (pkt ! 0) = 4 \<longleftrightarrow> unat (pkt ! 0) div 16 = 4"
    using word_unat_eq_iff [of "drop_bit 4 (pkt ! 0)" 4] by (simp add: unat_drop_bit_div del: unat_drop_bit_eq)
  have i: "unat ihl = 4 * (unat (pkt ! 0) mod 16)" "unat (ucast ihl :: u16) = 4 * (unat (pkt ! 0) mod 16)"
    unfolding ihl_def by (rule unat_ihl)+
  have t: "unat tot = 256 * unat (pkt ! 2) + unat (pkt ! 3)"
    unfolding tot_def unat_read_u16 using True assms by simp
  have bc: "TUND_SUBNET OR NOT TUND_NETMASK = (0x0A0900FF :: u32)" by simp
  have s: "\<not> (src AND TUND_NETMASK \<noteq> TUND_SUBNET \<or> src = TUND_SUBNET \<or> src = 0x0A0900FF) \<longleftrightarrow> lan_host src"
    by (rule lan_host_iff)
  have d: "dst \<noteq> TUND_SUBNET \<and> \<not> (dst \<noteq> 0x0A0900FF \<and> dst AND TUND_NETMASK \<noteq> TUND_SUBNET) \<longleftrightarrow>
      lan_host dst \<or> dst = 0x0A0900FF"
    using lan_host_iff [of dst] by auto
  have "proto_validate_ipv4_packet pkt len = 0 \<longleftrightarrow>
      drop_bit 4 (pkt ! 0) = 4 \<and> \<not> ihl < 20 \<and> \<not> len < ucast ihl \<and> \<not> tot < ucast ihl \<and> tot = len \<and>
      \<not> (src AND TUND_NETMASK \<noteq> TUND_SUBNET \<or> src = TUND_SUBNET \<or> src = 0x0A0900FF) \<and>
      dst \<noteq> TUND_SUBNET \<and> \<not> (dst \<noteq> 0x0A0900FF \<and> dst AND TUND_NETMASK \<noteq> TUND_SUBNET)"
  proof -
    have "\<not> len < 20" using True by (simp add: word_less_nat_alt)
    then show ?thesis
      unfolding proto_validate_ipv4_packet_def Let_def ihl_def [symmetric] tot_def [symmetric]
        proto_get_src_ip_def proto_get_dst_ip_def bc
      by (simp only: if_False src_def [symmetric] dst_def [symmetric] split: if_split) auto
  qed
  also have "\<dots> \<longleftrightarrow> ipv4_ok pkt (unat len)"
    unfolding s d ipv4_ok_def src_def [symmetric] dst_def [symmetric] v
    using True i t by (auto simp: word_less_nat_alt word_unat_eq_iff not_less)
  finally show ?thesis .
qed

section \<open>Properties\<close>

text \<open>
  C32: the packet filter is exact. \<open>proto_validate_ipv4_packet\<close> accepts a packet buffer of \<open>len\<close> bytes if
  and only if it holds an IPv4 packet with a header of at least 20 bytes that fits, a total length
  field equal to \<open>len\<close>, a source among the hosts 10.9.0.1 to 10.9.0.254 and a destination among them
  or the broadcast address 10.9.0.255.
\<close>

theorem validate_ipv4_exact:
  assumes "unat len \<le> length pkt"
  shows "proto_validate_ipv4_packet pkt len = TUND_IPV4_OK \<longleftrightarrow>
     20 \<le> unat len \<and> unat (pkt ! 0) div 16 = 4 \<and>
     20 \<le> 4 * (unat (pkt ! 0) mod 16) \<and> 4 * (unat (pkt ! 0) mod 16) \<le> unat len \<and>
     256 * unat (pkt ! 2) + unat (pkt ! 3) = unat len \<and>
     lan_host (ntohl (proto_get_src_ip pkt len)) \<and>
     (lan_host (ntohl (proto_get_dst_ip pkt len)) \<or> ntohl (proto_get_dst_ip pkt len) = 0x0A0900FF)"
  using validate_ipv4_iff [OF assms]
  by (cases "20 \<le> unat len")
     (auto simp: ipv4_ok_def proto_get_src_ip_def proto_get_dst_ip_def word_less_nat_alt)

theorem validate_ipv4_exact_witness:
  "proto_validate_ipv4_packet
     ([0x45, 0, 0, 20] @ zeros 8 @ [10, 9, 0, 2, 10, 9, 0, 255]) 20 = 0"
proof -
  have "lan_host (ntohl (proto_get_src_ip ([0x45, 0, 0, 20] @ zeros 8 @ [10, 9, 0, 2, 10, 9, 0, 255]) 20))"
    "ntohl (proto_get_dst_ip ([0x45, 0, 0, 20] @ zeros 8 @ [10, 9, 0, 2, 10, 9, 0, 255]) 20) = 0x0A0900FF"
    by code_simp+
  with validate_ipv4_exact [of 20 "[0x45, 0, 0, 20] @ zeros 8 @ [10, 9, 0, 2, 10, 9, 0, 255]"]
  show ?thesis by simp
qed

text \<open>
  Round trip of a peer-list entry. An entry that \<open>proto_write_peer_entry\<close> writes at position \<open>i\<close>
  of a payload is read back by \<open>proto_read_peer_entry\<close> with its address and status, its name cut to 31
  characters, and the name always terminated inside its array.
\<close>

theorem peer_entry_round_trip:
  assumes "TUND_PEER_ENTRY_SIZE \<le> sz" "sz \<le> length space"
    and "length pre = TUND_PEER_ENTRY_SIZE * i" "TUND_PEER_ENTRY_SIZE * (i + 1) \<le> unat len"
  shows "\<exists>out name'. proto_write_peer_entry space sz vip (Some name) online = Some out \<and>
    proto_read_peer_entry (pre @ out) len (int i) = Some (vip, name', online) \<and>
    c_str name' = take 31 (c_str name) \<and> terminated name'"
proof -
  have "proto_write_peer_entry space sz vip (Some name) online = Some (entry_bytes vip name online @ drop 37 space)"
    using assms(1,2) by (intro write_peer_entry_bytes) auto
  moreover have "c_str (name_array 32 (take 31 (c_str name))) = take 31 (c_str name)"
    "terminated (name_array 32 (take 31 (c_str name)))"
    by (intro name_array_props; simp add: take_no_nul)+
  ultimately show ?thesis using read_entry_bytes [OF assms(3,4)] by blast
qed

theorem peer_entry_round_trip_witness:
  "\<exists>out name'. proto_write_peer_entry (zeros 40) 40 0x0200090A (Some (lit ''bob'' @ [0])) True = Some out \<and>
    proto_read_peer_entry (zeros 37 @ out) 74 1 = Some (0x0200090A, name', True) \<and>
    c_str name' = lit ''bob'' \<and> terminated name'"
proof -
  have "c_str (lit ''bob'' @ [0]) = lit ''bob''" by code_simp
  then show ?thesis
    using peer_entry_round_trip [of 40 "zeros 40" "zeros 37" 1 74 "0x0200090A" "lit ''bob'' @ [0]" True] by simp
qed

end
