(* ===== verification/Proto_Replay.thy ===== *)
theory Proto_Replay
  imports Prelude
begin

text \<open>
  The replay window of \<open>src/protocol/protocol.c\<close>: the highest accepted sequence number and a bitmap
  of the 64 numbers up to it. The abstract state is the set of all sequence numbers accepted since
  the reset; the window decides exactly the rule "never seen, and less than 64 behind the highest".
  The locale \<open>replay_guard\<close> is what the client and the server rely on.
\<close>

record proto_replay_window_t =
  replay_highest :: u64
  replay_seen :: u64

definition proto_replay_reset :: proto_replay_window_t where
  "proto_replay_reset = \<lparr>replay_highest = 0, replay_seen = 0\<rparr>"

definition proto_replay_accept :: "proto_replay_window_t \<Rightarrow> u64 \<Rightarrow> bool \<times> proto_replay_window_t" where
  "proto_replay_accept window sequence =
     (if sequence = 0 then (False, window)
      else if replay_highest window = 0
      then (True, window\<lparr>replay_highest := sequence, replay_seen := 1\<rparr>)
      else if replay_highest window < sequence
      then let shift = sequence - replay_highest window
           in (True, window\<lparr>replay_seen := (if 64 \<le> shift then 1
                                            else push_bit (unat shift) (replay_seen window) OR 1),
                            replay_highest := sequence\<rparr>)
      else let age = replay_highest window - sequence
           in if 64 \<le> age then (False, window)
              else let b = push_bit (unat age) 1
                   in if replay_seen window AND b \<noteq> 0 then (False, window)
                      else (True, window\<lparr>replay_seen := replay_seen window OR b\<rparr>))"

section \<open>The contract\<close>

text \<open>
  \<open>repr s A\<close>: the state \<open>s\<close> has accepted exactly the numbers in \<open>A\<close> since the reset. The rule is the
  window of \<open>width\<close> numbers.
\<close>

locale replay_guard =
  fixes width :: nat
    and reset :: 's
    and accept :: "'s \<Rightarrow> u64 \<Rightarrow> bool \<times> 's"
    and repr :: "'s \<Rightarrow> u64 set \<Rightarrow> bool"
  assumes repr_reset: "repr reset {}"
    and repr_accept: "repr s A \<Longrightarrow> accept s q = (ok, s') \<Longrightarrow> repr s' (if ok then insert q A else A)"
    and accept_iff: "repr s A \<Longrightarrow>
      fst (accept s q) \<longleftrightarrow> q \<noteq> 0 \<and> q \<notin> A \<and> (\<forall>a \<in> A. unat a < unat q + width)"
    and width_pos: "0 < width"
begin

fun run :: "'s \<Rightarrow> u64 list \<Rightarrow> u64 list \<times> 's" where
  "run s [] = ([], s)"
| "run s (q # qs) =
     (let (ok, s') = accept s q; (acc, s'') = run s' qs
      in (if ok then q # acc else acc, s''))"

lemma run_repr:
  "repr s A \<Longrightarrow> run s qs = (acc, s') \<Longrightarrow>
   repr s' (A \<union> set acc) \<and> distinct acc \<and> set acc \<inter> A = {} \<and> 0 \<notin> set acc"
proof (induction qs arbitrary: s A acc)
  case (Cons q qs)
  obtain ok s1 where a: "accept s q = (ok, s1)" by fastforce
  obtain acc1 where r: "run s1 qs = (acc1, s')" and acc: "acc = (if ok then q # acc1 else acc1)"
    using Cons.prems(2) a by (auto split: prod.splits)
  note ih = Cons.IH [OF repr_accept [OF Cons.prems(1) a] r]
  show ?case
  proof (cases ok)
    case True
    then have "q \<notin> A" "q \<noteq> 0" using accept_iff [OF Cons.prems(1), of q] a by auto
    with ih True acc show ?thesis by auto
  qed (use ih acc in auto)
qed auto

text \<open>No sequence number is ever accepted twice, whatever arrives.\<close>

lemma no_replay: "distinct (fst (run reset qs))"
  using run_repr [OF repr_reset] by (metis prod.collapse)

text \<open>Once accepted, a number is refused for ever after.\<close>

lemma replay_refused:
  assumes "repr s A" "q \<in> A" "run s qs = (acc, s')"
  shows "\<not> fst (accept s' q)"
  using run_repr [OF assms(1,3)] assms(2) accept_iff [of s' "A \<union> set acc" q] by auto

text \<open>A number that was decided on, or that is refused, is refused after any further number.\<close>

lemma refused_again: "repr s A \<Longrightarrow> accept s q = (ok, s') \<Longrightarrow> \<not> fst (accept s' q)"
  using accept_iff [of s A q] repr_accept [of s A q ok s'] accept_iff [of s' _ q] by (cases ok) auto

lemma refused_mono: "repr s A \<Longrightarrow> repr s' B \<Longrightarrow> A \<subseteq> B \<Longrightarrow> \<not> fst (accept s q) \<Longrightarrow> \<not> fst (accept s' q)"
  using accept_iff [of s A q] accept_iff [of s' B q] by auto

text \<open>A number that has not been seen and is not too old is accepted, in whatever order.\<close>

lemma fresh_accepted:
  "repr s A \<Longrightarrow> q \<noteq> 0 \<Longrightarrow> q \<notin> A \<Longrightarrow> \<forall>a \<in> A. unat a < unat q + width \<Longrightarrow> fst (accept s q)"
  using accept_iff by blast

lemma in_order_accepted:
  "repr s A \<Longrightarrow> \<forall>a \<in> A. a < q0 \<Longrightarrow> 0 < q0 \<Longrightarrow> sorted_wrt (<) (q0 # qs) \<Longrightarrow>
   fst (run s (q0 # qs)) = q0 # qs"
proof (induction qs arbitrary: s A q0)
  case Nil
  obtain s1 where a: "accept s q0 = (True, s1)"
    using accept_iff [OF Nil.prems(1), of q0] Nil.prems(2,3) width_pos
    by (cases "accept s q0") (force simp: word_less_nat_alt intro: trans_less_add1)
  then show ?case by simp
next
  case (Cons q1 qs)
  obtain s1 where a: "accept s q0 = (True, s1)"
    using accept_iff [OF Cons.prems(1), of q0] Cons.prems(2,3)
    by (cases "accept s q0") (force simp: word_less_nat_alt intro: trans_less_add1)
  have r1: "repr s1 (insert q0 A)" using repr_accept [OF Cons.prems(1) a] by simp
  have "fst (run s1 (q1 # qs)) = q1 # qs"
    using Cons.prems by (intro Cons.IH [OF r1]) (auto simp: word_less_nat_alt)
  with a show ?case by (auto split: prod.splits)
qed

end

section \<open>The window keeps the contract\<close>

definition replay_repr :: "proto_replay_window_t \<Rightarrow> u64 set \<Rightarrow> bool" where
  "replay_repr win A \<longleftrightarrow>
     0 \<notin> A \<and> (if replay_highest win = 0 then A = {}
              else replay_highest win \<in> A \<and> (\<forall>a \<in> A. a \<le> replay_highest win) \<and>
                   (\<forall>i < 64. bit (replay_seen win) i \<longleftrightarrow>
                       (\<exists>a \<in> A. unat (replay_highest win) = unat a + i)))"

lemma unat_diff_u64: "(b :: u64) \<le> a \<Longrightarrow> unat (a - b) = unat a - unat b"
  by (simp add: unat_sub)

lemma and_pow_zero_iff: "i < 64 \<Longrightarrow> (x :: u64) AND push_bit i 1 = 0 \<longleftrightarrow> \<not> bit x i"
  by (metis and_exp_eq_0_iff_not_bit push_bit_of_1)

lemma replay_repr_first:
  assumes "q \<noteq> 0" shows "replay_repr \<lparr>replay_highest = q, replay_seen = 1\<rparr> {q}"
  using assms by (auto simp: replay_repr_def bit_1_iff)

lemma replay_repr_advance:
  assumes r: "replay_repr win A" and h0: "replay_highest win \<noteq> 0" and lt: "replay_highest win < q"
  shows "replay_repr (win\<lparr>replay_seen := (if 64 \<le> q - replay_highest win then 1
             else push_bit (unat (q - replay_highest win)) (replay_seen win) OR 1),
           replay_highest := q\<rparr>) (insert q A)"
proof -
  define h sh where "h = replay_highest win" and "sh = unat q - unat h"
  have hq: "unat h < unat q" using lt by (simp add: h_def word_less_nat_alt)
  have sh: "unat (q - h) = sh" using lt by (simp add: sh_def h_def unat_diff_u64)
  have s64: "(64 \<le> q - h) = (64 \<le> sh)" by (simp add: word_le_nat_alt sh)
  have le: "\<And>a. a \<in> A \<Longrightarrow> unat a \<le> unat h" and A0: "0 \<notin> A" "h \<in> A"
    and bits: "\<And>i. i < 64 \<Longrightarrow> bit (replay_seen win) i \<longleftrightarrow> (\<exists>a \<in> A. unat h = unat a + i)"
    using r h0 by (auto simp: replay_repr_def h_def word_le_nat_alt)
  have q0: "q \<noteq> 0" using hq by auto
  have newbits: "bit (if 64 \<le> sh then 1 else push_bit sh (replay_seen win) OR 1 :: u64) i \<longleftrightarrow>
      (\<exists>a \<in> insert q A. unat q = unat a + i)" if i: "i < 64" for i
  proof -
    have older: "(\<exists>a \<in> A. unat q = unat a + i) \<longleftrightarrow> sh \<le> i \<and> (\<exists>a \<in> A. unat h = unat a + (i - sh))"
    proof -
      have "unat q = unat a + i \<longleftrightarrow> sh \<le> i \<and> unat h = unat a + (i - sh)" if "a \<in> A" for a
        using hq le [OF that] by (auto simp: sh_def)
      then show ?thesis by blast
    qed
    show ?thesis
    proof (cases "64 \<le> sh")
      case True
      with older i show ?thesis by (auto simp: bit_1_iff)
    next
      case False
      have "(\<exists>a \<in> A. unat q = unat a + i) \<longleftrightarrow> sh \<le> i \<and> bit (replay_seen win) (i - sh)"
        using older bits [of "i - sh"] i by auto
      with False i show ?thesis by (auto simp: bit_simps bit_1_iff)
    qed
  qed
  have "unat a \<le> unat q" if "a \<in> A" for a using le [OF that] hq by linarith
  then show ?thesis
    using A0 q0 newbits by (auto simp: replay_repr_def h_def [symmetric] s64 sh word_le_nat_alt)
qed

lemma replay_repr_fill:
  assumes r: "replay_repr win A" and h0: "replay_highest win \<noteq> 0" and q0: "q \<noteq> 0"
    and le: "q \<le> replay_highest win" and age: "unat (replay_highest win - q) < 64"
  shows "replay_repr (win\<lparr>replay_seen := replay_seen win OR push_bit (unat (replay_highest win - q)) 1\<rparr>) (insert q A)"
proof -
  have ag: "unat (replay_highest win - q) = unat (replay_highest win) - unat q"
    using le by (simp add: unat_diff_u64)
  have q: "unat q \<le> unat (replay_highest win)" using le by (simp add: word_le_nat_alt)
  show ?thesis
    using r h0 q0 le age q
    by (auto simp: replay_repr_def ag bit_simps bit_1_iff)
qed

lemma replay_old_iff:
  assumes r: "replay_repr win A" and h0: "replay_highest win \<noteq> 0"
    and le: "q \<le> replay_highest win" and age: "unat (replay_highest win - q) < 64"
  shows "bit (replay_seen win) (unat (replay_highest win - q)) \<longleftrightarrow> q \<in> A"
proof -
  have ag: "unat (replay_highest win - q) = unat (replay_highest win) - unat q"
    using le by (simp add: unat_diff_u64)
  have q: "unat q \<le> unat (replay_highest win)" using le by (simp add: word_le_nat_alt)
  have "unat (replay_highest win) = unat a + (unat (replay_highest win) - unat q) \<longleftrightarrow> a = q"
    if "a \<in> A" for a
    using q by (auto simp: word_unat_eq_iff)
  then show ?thesis using r h0 age by (auto simp: replay_repr_def ag)
qed

lemma replay_accept_spec:
  assumes r: "replay_repr win A" and eq: "proto_replay_accept win q = (ok, win')"
  shows "replay_repr win' (if ok then insert q A else A)"
    and "ok \<longleftrightarrow> q \<noteq> 0 \<and> q \<notin> A \<and> (\<forall>a \<in> A. unat a < unat q + 64)"
proof -
  let ?h = "replay_highest win"
  consider (zero) "q = 0" | (first) "q \<noteq> 0" "?h = 0" | (new) "q \<noteq> 0" "?h \<noteq> 0" "?h < q"
    | (old) "q \<noteq> 0" "?h \<noteq> 0" "q \<le> ?h" by fastforce
  then have "replay_repr win' (if ok then insert q A else A) \<and>
      (ok \<longleftrightarrow> q \<noteq> 0 \<and> q \<notin> A \<and> (\<forall>a \<in> A. unat a < unat q + 64))"
  proof cases
    case zero
    with r eq show ?thesis by (simp add: proto_replay_accept_def)
  next
    case first
    then have "A = {}" "ok" "win' = \<lparr>replay_highest = q, replay_seen = 1\<rparr>"
      using r eq by (auto simp: proto_replay_accept_def replay_repr_def)
    with first replay_repr_first show ?thesis by simp
  next
    case new
    then have "ok" "win' = win\<lparr>replay_seen := (if 64 \<le> q - ?h then 1
             else push_bit (unat (q - ?h)) (replay_seen win) OR 1), replay_highest := q\<rparr>"
      using eq by (auto simp: proto_replay_accept_def Let_def)
    moreover have "\<forall>a \<in> A. unat a < unat q" using r new by (auto simp: replay_repr_def word_le_nat_alt word_less_nat_alt)
    ultimately show ?thesis using new replay_repr_advance [OF r new(2,3)] by force
  next
    case old
    have ag: "unat (?h - q) = unat ?h - unat q" using old by (simp add: unat_diff_u64)
    have q: "unat q \<le> unat ?h" and h: "?h \<in> A" "\<forall>a \<in> A. unat a \<le> unat ?h"
      using old r by (auto simp: replay_repr_def word_le_nat_alt)
    show ?thesis
    proof (cases "64 \<le> unat (?h - q)")
      case True
      then have "64 \<le> ?h - q" by (simp add: word_le_nat_alt)
      then have "ok = False" "win' = win" using eq old
        by (auto simp: proto_replay_accept_def Let_def split: if_splits)
      moreover have "\<not> unat ?h < unat q + 64" using True ag by simp
      ultimately show ?thesis using r h by auto
    next
      case False
      then have age: "unat (?h - q) < 64" by simp
      have n64: "\<not> 64 \<le> ?h - q" using age by (simp add: word_le_nat_alt)
      have ok: "ok = (\<not> bit (replay_seen win) (unat (?h - q)))"
        and win': "win' = (if ok then win\<lparr>replay_seen := replay_seen win OR push_bit (unat (?h - q)) 1\<rparr> else win)"
        using eq old n64 and_pow_zero_iff [OF age, of "replay_seen win"]
        by (auto simp: proto_replay_accept_def Let_def split: if_splits)
      have "\<forall>a \<in> A. unat a < unat q + 64" using h age ag by force
      with ok win' old replay_old_iff [OF r old(2,3) age] replay_repr_fill [OF r old(2,1,3) age] r
      show ?thesis by auto
    qed
  qed
  then show "replay_repr win' (if ok then insert q A else A)"
    and "ok \<longleftrightarrow> q \<noteq> 0 \<and> q \<notin> A \<and> (\<forall>a \<in> A. unat a < unat q + 64)" by blast+
qed

interpretation window: replay_guard 64 proto_replay_reset proto_replay_accept replay_repr
proof unfold_locales
  show "replay_repr proto_replay_reset {}" by (simp add: replay_repr_def proto_replay_reset_def)
  show "replay_repr s A \<Longrightarrow> proto_replay_accept s q = (ok, s') \<Longrightarrow> replay_repr s' (if ok then insert q A else A)"
    for s A q ok s' by (rule replay_accept_spec(1))
  show "replay_repr s A \<Longrightarrow> fst (proto_replay_accept s q) = (q \<noteq> 0 \<and> q \<notin> A \<and> (\<forall>a \<in> A. unat a < unat q + 64))"
    for s A q using replay_accept_spec(2) [of s A q] by (cases "proto_replay_accept s q") auto
qed simp

section \<open>Properties\<close>

text \<open>The sequence numbers a window accepts out of a stream of arrivals, in order of arrival.\<close>

fun replay_accepted :: "proto_replay_window_t \<Rightarrow> u64 list \<Rightarrow> u64 list" where
  "replay_accepted win [] = []"
| "replay_accepted win (q # qs) =
     (case proto_replay_accept win q of
        (ok, win') \<Rightarrow> (if ok then q # replay_accepted win' qs else replay_accepted win' qs))"

lemma replay_accepted_run: "replay_accepted win qs = fst (window.run win qs)"
  by (induction qs arbitrary: win) (auto split: prod.splits)

text \<open>
  C15: refinement of the replay window. In every state that has accepted exactly the sequence numbers
  \<open>A\<close> since the reset, \<open>proto_replay_accept\<close> accepts a number if and only if it is not zero, has not
  been accepted before and is less than 64 behind every accepted one, and the new state has accepted
  exactly that many more: the 64-bit bitmap loses nothing of the abstract set.
\<close>

theorem replay_window_refines_set:
  assumes "replay_repr win A" "proto_replay_accept win q = (ok, win')"
  shows "(ok \<longleftrightarrow> q \<noteq> 0 \<and> q \<notin> A \<and> (\<forall>a \<in> A. unat a < unat q + 64)) \<and>
         replay_repr win' (if ok then insert q A else A)"
  using replay_accept_spec [OF assms] by blast

theorem replay_window_refines_set_witness:
  "replay_repr \<lparr>replay_highest = 70, replay_seen = 1\<rparr> {70} \<and>
   replay_repr \<lparr>replay_highest = 70, replay_seen = 0x401\<rparr> {60, 70}"
proof -
  have r: "replay_repr \<lparr>replay_highest = 70, replay_seen = 1\<rparr> {70}" by (rule replay_repr_first) simp
  have "proto_replay_accept \<lparr>replay_highest = 70, replay_seen = 1\<rparr> 60 = (True, \<lparr>replay_highest = 70, replay_seen = 0x401\<rparr>)"
    by code_simp
  from replay_window_refines_set [OF r this] r show ?thesis by simp
qed

text \<open>
  No replay, for every run. Whatever sequence numbers arrive after a reset, in whatever order and
  multiplicity, the accepted ones are pairwise distinct; and numbers that arrive in increasing order
  are all accepted.
\<close>

theorem replay_never_accepts_twice:
  "distinct (replay_accepted proto_replay_reset qs) \<and>
   (sorted_wrt (<) (0 # qs) \<longrightarrow> replay_accepted proto_replay_reset qs = qs)"
proof (cases qs)
  case (Cons q0 qs')
  then show ?thesis
    using window.no_replay [of qs] window.in_order_accepted [OF window.repr_reset, of q0 qs']
    by (simp add: replay_accepted_run del: window.run.simps replay_accepted.simps)
qed simp

theorem replay_never_accepts_twice_witness:
  "replay_accepted proto_replay_reset [5, 9, 300] = [5, 9, 300]"
  using replay_never_accepts_twice [of "[5, 9, 300]"] by simp

end
