(* ===== verification/Network.thy ===== *)
theory Network
  imports Proto_Msg Proto_Replay
begin

text \<open>
  The UDP layer (\<open>src/net/network.c\<close>) and the shared data types of \<open>src/app/tund.h\<close> and
  \<open>src/ui/tui.h\<close>. Every datagram is encrypted on its way out and decrypted on its way in. The
  handlers of the client and the server see the socket through \<open>delivered\<close>: the messages a piece of
  code put on the wire, in order.
\<close>

abbreviation (input) TUND_MAX_PEERS :: nat where "TUND_MAX_PEERS \<equiv> 253"
abbreviation (input) NET_RECV_NO_DATA :: int where "NET_RECV_NO_DATA \<equiv> 0"
abbreviation (input) NET_RECV_ERROR :: int where "NET_RECV_ERROR \<equiv> -1"
abbreviation (input) NET_RECV_AUTH_FAILED :: int where "NET_RECV_AUTH_FAILED \<equiv> -2"
abbreviation (input) AF_INET :: u16 where "AF_INET \<equiv> 2"
abbreviation (input) EINTR :: int where "EINTR \<equiv> 4"
abbreviation (input) EAGAIN :: int where "EAGAIN \<equiv> 11"

record peer_t =
  peer_active :: bool
  peer_virt_ip :: u32
  peer_name :: bytes
  peer_real_addr :: sockaddr_in
  peer_last_seen :: int
  peer_bytes_in :: u64
  peer_bytes_out :: u64
  peer_rtt_ms :: u64
  peer_has_rtt :: bool
  peer_replay :: proto_replay_window_t

record tui_peer_t =
  tp_virt_ip :: u32
  tp_name :: bytes
  tp_last_seen :: int
  tp_bytes_in :: u64
  tp_bytes_out :: u64
  tp_rtt_ms :: u64
  tp_has_rtt :: bool
  tp_active :: bool

datatype tund_mode_t = MODE_SERVER | MODE_CLIENT

record config_t =
  cfg_mode :: tund_mode_t
  cfg_port :: u16
  cfg_server_ip :: bytes
  cfg_client_name :: bytes
  cfg_access_key :: bytes
  cfg_log_level :: int
  cfg_key_from_stdin :: bool
  cfg_json_events :: bool
  cfg_tui_mode :: bool

abbreviation (input) TUND_KEEPALIVE_INTERVAL :: nat where "TUND_KEEPALIVE_INTERVAL \<equiv> 10"
abbreviation (input) TUND_PEER_TIMEOUT :: int where "TUND_PEER_TIMEOUT \<equiv> 30"

text \<open>\<open>memset(.., 0, ..)\<close> of an address and of a peer.\<close>

definition sockaddr0 :: sockaddr_in where
  "sockaddr0 = \<lparr>sin_family = 0, sin_port = 0, sin_addr = 0\<rparr>"

definition peer0 :: peer_t where
  "peer0 = \<lparr>peer_active = False, peer_virt_ip = 0, peer_name = zeros TUND_NAME_LEN, peer_real_addr = sockaddr0,
            peer_last_seen = 0, peer_bytes_in = 0, peer_bytes_out = 0, peer_rtt_ms = 0, peer_has_rtt = False,
            peer_replay = \<lparr>replay_highest = 0, replay_seen = 0\<rparr>\<rparr>"

section \<open>Operations\<close>

definition net_create_socket :: "u16 \<Rightarrow> world \<Rightarrow> int \<times> world" where
  "net_create_socket bind_port w =
     (let (sockfd, w) = syscall sys_socket w
      in if sockfd = -1
         then let (err, w) = syscall sys_errno w
              in (-1, LOG_ERROR (lit ''Cannot create UDP socket: '' @ sock_errstr w err @
                                 lit ''. Check OS socket permissions and try again.'') w)
         else
           let w = w\<lparr>w_open_fds := w_open_fds w @ [sockfd]\<rparr>;
               addr = \<lparr>sin_family = AF_INET, sin_port = htons bind_port, sin_addr = htonl 0\<rparr>;
               (b, w) = syscall (\<lambda>e t. sys_bind e t addr) w
           in if b < 0
              then let (err, w) = syscall sys_errno w;
                       w = LOG_ERROR (lit ''Cannot bind UDP port '' @ fmt_u (unat bind_port) @ lit '': '' @
                             sock_errstr w err @
                             lit ''. If another TunD/server is running, stop it or choose a different port with -p.'') w
                   in (-1, sock_close sockfd w)
              else (sockfd, LOG_INFO (lit ''UDP socket bound to port '' @ fmt_u (unat bind_port) @
                                      lit '' (fd='' @ fmt_d sockfd @ lit '')'') w))"

text \<open>What a \<open>sendto\<close> returning \<open>sent\<close> has handed to the kernel.\<close>

definition record_sent :: "int \<Rightarrow> bytes \<Rightarrow> sockaddr_in \<Rightarrow> world \<Rightarrow> world" where
  "record_sent sent wire dest w =
     (if sent < 0 then w else w\<lparr>w_sent := w_sent w @ [(take (nat sent) wire, dest)]\<rparr>)"

definition net_send :: "bytes \<Rightarrow> int \<Rightarrow> sockaddr_in \<Rightarrow> world \<Rightarrow> int \<times> world" where
  "net_send buf len dest w =
     (if len < int TUND_HDR_SIZE then (-1, w)
      else if int (TUND_HDR_SIZE + TUND_MAX_PLAINTEXT) < len then (-1, w)
      else
        let wire = memcpy_at 0 (take (nat len) buf) (zeros TUND_MAX_PKT);
            (wire_len, wire, w) = proto_encrypt wire len (g_crypto_key w) w
        in if wire_len < 0 then (-1, LOG_ERROR (lit ''Failed to encrypt outgoing datagram'') w)
           else
             let wire = take (nat wire_len) wire;
                 (sent, w) = syscall (\<lambda>e t. sys_sendto e t wire dest) w;
                 w = record_sent sent wire dest w
             in if sent < 0
                then let (err, w) = syscall sys_errno w
                     in (-1, LOG_ERROR (lit ''sendto('' @ ip_to_str_buf (sin_addr dest) TUND_IP_STR_LEN @
                               lit '':'' @ fmt_u (unat (ntohs (sin_port dest))) @ lit '') failed: '' @
                               sock_errstr w err) w)
                else if sent \<noteq> wire_len then (-1, w)
                else (0, w))"

text \<open>
  \<open>recvfrom\<close> stores at most the size of the buffer; \<open>from\<close> is written only when a datagram was
  received.
\<close>

definition net_recv :: "bytes \<Rightarrow> sockaddr_in \<Rightarrow> world \<Rightarrow> int \<times> bytes \<times> sockaddr_in \<times> world" where
  "net_recv buf from w =
     (case syscall sys_recvfrom w of
        (RecvFailed err, w) \<Rightarrow>
          if err = EAGAIN \<or> err = EINTR then (NET_RECV_NO_DATA, buf, from, w)
          else (NET_RECV_ERROR, buf, from, LOG_ERROR (lit ''recvfrom() failed: '' @ sock_errstr w err) w)
      | (RecvData d from, w) \<Rightarrow>
          let n = min (length d) (length buf);
              buf = memcpy_at 0 (take n d) buf;
              (decrypted, buf) = proto_decrypt buf (int n) (g_crypto_key w)
          in if decrypted < 0
             then (NET_RECV_AUTH_FAILED, buf, from,
                   LOG_DEBUG (lit ''Dropped undecryptable packet from '' @
                     ip_to_str_buf (sin_addr from) TUND_IP_STR_LEN @ lit '':'' @
                     fmt_u (unat (ntohs (sin_port from)))) w)
             else (decrypted, buf, from, w))"

definition net_addr_equal :: "sockaddr_in \<Rightarrow> sockaddr_in \<Rightarrow> bool" where
  "net_addr_equal a b \<longleftrightarrow>
     sin_family a = sin_family b \<and> sin_port a = sin_port b \<and> sin_addr a = sin_addr b"

definition net_resolve :: "bytes \<Rightarrow> u16 \<Rightarrow> sockaddr_in \<Rightarrow> world \<Rightarrow> int \<times> sockaddr_in \<times> world" where
  "net_resolve host port out w =
     (case syscall (\<lambda>e t. sys_getaddrinfo e t (c_str host)) w of
        (Inl err, w) \<Rightarrow>
          (-1, out, LOG_ERROR (lit ''Cannot resolve server '' @ lit [CHR 39] @ c_str host @ lit [CHR 39] @
             lit '': '' @ sys_gai_strerror (w_env w) err @
             lit ''. Check the hostname/IP and DNS/network connectivity.'') w)
      | (Inr addr, w) \<Rightarrow>
          let out = addr\<lparr>sin_port := htons port\<rparr>
          in (0, out, LOG_DEBUG (lit ''Resolved '' @ c_str host @ lit '' -> '' @
                ip_to_str_buf (sin_addr out) TUND_IP_STR_LEN @ lit '':'' @ fmt_u (unat port)) w))"

definition tui_peer_of :: "peer_t \<Rightarrow> tui_peer_t" where
  "tui_peer_of p =
     \<lparr>tp_virt_ip = peer_virt_ip p, tp_name = peer_name p, tp_last_seen = peer_last_seen p,
      tp_bytes_in = peer_bytes_in p, tp_bytes_out = peer_bytes_out p, tp_rtt_ms = peer_rtt_ms p,
      tp_has_rtt = peer_has_rtt p, tp_active = peer_active p\<rparr>"

text \<open>
  The snapshot loop: every peer is copied to the slot at the count, which advances only for active
  ones.
\<close>

fun snapshot_loop :: "peer_t list \<Rightarrow> tui_peer_t list \<Rightarrow> nat \<Rightarrow> tui_peer_t list \<times> nat" where
  "snapshot_loop [] tui_peers npeers = (tui_peers, npeers)"
| "snapshot_loop (p # ps) tui_peers npeers =
     snapshot_loop ps (tui_peers[npeers := tui_peer_of p]) (if peer_active p then npeers + 1 else npeers)"

definition net_poll_peers ::
    "peer_t list \<Rightarrow> tui_peer_t list \<Rightarrow> nat \<Rightarrow> world \<Rightarrow> int \<times> tui_peer_t list \<times> nat \<times> world" where
  "net_poll_peers peers tui_peers npeers w =
     (let (ret, w) = platform_poll_one w
      in if ret < 0
         then let (err, w) = syscall sys_errno w
              in if err = EINTR then (0, tui_peers, npeers, w)
                 else (-1, tui_peers, npeers, LOG_ERROR (lit ''poll() failed: '' @ sock_errstr w err) w)
         else if ret = 0
         then let (tui_peers, npeers) = snapshot_loop peers tui_peers 0 in (0, tui_peers, npeers, w)
         else (1, tui_peers, npeers, w))"

section \<open>What sending does to the world\<close>

text \<open>The part of the world that sending leaves alone.\<close>

definition w_keep :: "world \<Rightarrow> world" where
  "w_keep w = (w_app w)\<lparr>w_sent := []\<rparr>"

lemma w_keep_cong:
  assumes "w_keep w = w_keep w'"
  shows "w_env w = w_env w'" "g_crypto_key w = g_crypto_key w'"
    "g_running w = g_running w'" "g_log_level w = g_log_level w'" "g_tui_active w = g_tui_active w'"
    "g_json_events_active w = g_json_events_active w'" "g_start_time w = g_start_time w'"
    "w_stdout w = w_stdout w'" "w_tun_out w = w_tun_out w'" "w_open_fds w = w_open_fds w'"
  using arg_cong [OF assms, of w_env] arg_cong [OF assms, of g_crypto_key]
    arg_cong [OF assms, of g_running] arg_cong [OF assms, of g_log_level]
    arg_cong [OF assms, of g_tui_active] arg_cong [OF assms, of g_json_events_active]
    arg_cong [OF assms, of g_start_time] arg_cong [OF assms, of w_stdout]
    arg_cong [OF assms, of w_tun_out] arg_cong [OF assms, of w_open_fds]
  by (simp_all add: w_keep_def w_app_def w_core_def)

lemma w_keep_app: "w_app w = w_app w' \<Longrightarrow> w_keep w = w_keep w'"
  by (simp add: w_keep_def)

lemma w_keep_sent [simp]: "w_keep (w\<lparr>w_sent := x\<rparr>) = w_keep w"
  by (simp add: w_keep_def w_app_def w_core_def)

lemma w_keep_log_msg [simp, frame]: "w_keep (log_msg l s w) = w_keep w"
  by (rule w_keep_app) simp

lemma w_keep_syscall [simp, frame]: "w_keep (snd (syscall f w)) = w_keep w"
  by (rule w_keep_app) simp

lemma w_keep_now_ms [simp, frame]: "w_keep (snd (now_ms w)) = w_keep w"
  by (rule w_keep_app) simp

text \<open>The kernel takes every datagram whole.\<close>

definition send_ok :: "sysenv \<Rightarrow> bool" where
  "send_ok e \<longleftrightarrow> (\<forall>t d a. sys_sendto e t d a = int (length d))"

definition net_ok :: "world \<Rightarrow> bool" where
  "net_ok w \<longleftrightarrow> random_ok w \<and> send_ok (w_env w)"

lemma net_ok_core: "w_core w = w_core w' \<Longrightarrow> net_ok w = net_ok w'"
  using random_ok_core w_core_cong(1) by (metis net_ok_def)

lemma net_ok_log_msg [simp]: "net_ok (log_msg l s w) = net_ok w"
  by (rule net_ok_core) simp

lemma net_ok_syscall [simp]: "net_ok (snd (syscall f w)) = net_ok w"
  by (rule net_ok_core) simp

lemma net_ok_now_ms [simp]: "net_ok (snd (now_ms w)) = net_ok w"
  by (rule net_ok_core) simp

lemma net_ok_sent [simp]: "net_ok (w\<lparr>w_sent := x\<rparr>) = net_ok w"
  by (simp add: net_ok_def random_ok_def)

text \<open>
  \<open>delivered w w' ms\<close>: between \<open>w\<close> and \<open>w'\<close> exactly the messages \<open>ms\<close> (type, payload, destination)
  went out, each sealed under the process's key with a non-zero sequence number and a nonce of its
  own.
\<close>

type_synonym message = "u8 \<times> bytes \<times> sockaddr_in"

definition sealed_msg :: "bytes \<Rightarrow> message \<Rightarrow> bytes \<times> sockaddr_in \<Rightarrow> bool" where
  "sealed_msg key = (\<lambda>(t, p, d) (wire, dest).
     d = dest \<and> (\<exists>s n. s \<noteq> 0 \<and> length n = TUND_NONCE_SIZE \<and> wire = sealed key t s n p))"

definition delivered :: "world \<Rightarrow> world \<Rightarrow> message list \<Rightarrow> bool" where
  "delivered w w' ms \<longleftrightarrow>
     (\<exists>ds. w_sent w' = w_sent w @ ds \<and> list_all2 (sealed_msg (g_crypto_key w)) ms ds)"

lemma delivered_Nil [simp]: "delivered w w' [] \<longleftrightarrow> w_sent w' = w_sent w"
  by (simp add: delivered_def)

lemma delivered_trans:
  assumes "delivered w w1 as" "delivered w1 w2 bs" "g_crypto_key w1 = g_crypto_key w"
  shows "delivered w w2 (as @ bs)"
  using assms unfolding delivered_def by (metis append_assoc list_all2_appendI)

lemma delivered_cong:
  "w_sent v = w_sent w \<Longrightarrow> g_crypto_key v = g_crypto_key w \<Longrightarrow> w_sent v' = w_sent w' \<Longrightarrow>
   delivered w w' ms = delivered v v' ms"
  by (simp add: delivered_def)

lemma encrypt_wire_copy:
  assumes "37 \<le> len" "nat len \<le> length buf" "nat len \<le> 1653"
  shows "proto_read_hdr (memcpy_at 0 (take (nat len) buf) (zeros 1653)) = proto_read_hdr buf"
    "slice 37 (nat len - 37) (memcpy_at 0 (take (nat len) buf) (zeros 1653)) = slice 37 (nat len - 37) buf"
    "length (memcpy_at 0 (take (nat len) buf) (zeros 1653)) = 1653"
proof -
  have "4 < nat len" using assms(1) by linarith
  then show "proto_read_hdr (memcpy_at 0 (take (nat len) buf) (zeros 1653)) = proto_read_hdr buf"
    "slice 37 (nat len - 37) (memcpy_at 0 (take (nat len) buf) (zeros 1653)) = slice 37 (nat len - 37) buf"
    "length (memcpy_at 0 (take (nat len) buf) (zeros 1653)) = 1653"
    using assms by (simp_all add: memcpy_at_def proto_read_hdr_def nth_append slice_def drop_take)
qed

lemma net_send_post:
  assumes eq: "net_send buf len dest w = (r, w')" and len: "len \<le> int (length buf)"
  shows "w_keep w' = w_keep w \<and> (r = 0 \<or> r = -1) \<and>
    (\<exists>ds. w_sent w' = w_sent w @ ds \<and> length ds \<le> 1 \<and> (\<forall>d \<in> set ds. snd d = dest)) \<and>
    (r = 0 \<longrightarrow> (\<exists>t. proto_read_hdr buf = Inr (t, of_nat (nat len - 37)) \<and>
        delivered w w' [(t, slice 37 (nat len - 37) buf, dest)])) \<and>
    (net_ok w \<longrightarrow> 37 \<le> len \<longrightarrow> len \<le> 1637 \<longrightarrow>
       (\<exists>t. proto_read_hdr buf = Inr (t, of_nat (nat len - 37))) \<longrightarrow> r = 0 \<and> net_ok w')" (is ?P)
proof (cases "len < 37 \<or> 1637 < len")
  case True
  then have "r = -1 \<and> w' = w" using eq by (auto simp: net_send_def)
  with True show ?P by auto
next
  case False
  then have lb: "37 \<le> len" "len \<le> 1637" by auto
  define wire0 where "wire0 = memcpy_at 0 (take (nat len) buf) (zeros 1653)"
  have copy: "proto_read_hdr wire0 = proto_read_hdr buf" "slice 37 (nat len - 37) wire0 = slice 37 (nat len - 37) buf"
    "length wire0 = 1653"
    using encrypt_wire_copy [of len buf] lb len by (auto simp: wire0_def)
  obtain wl wire w1 where enc: "proto_encrypt wire0 len (g_crypto_key w) w = (wl, wire, w1)" by (metis prod_cases3)
  note post = proto_encrypt_post [OF enc]
  have app: "w_app w1 = w_app w" using post lb copy(3) by auto
  show ?P
  proof (cases "wl = -1")
    case True
    then have res: "r = -1" "w' = LOG_ERROR (lit ''Failed to encrypt outgoing datagram'') w1"
      using eq lb enc by (auto simp: net_send_def wire0_def [symmetric])
    have "\<not> (net_ok w \<and> (\<exists>t. proto_read_hdr buf = Inr (t, of_nat (nat len - 37))))"
      using post lb copy True by (auto simp: net_ok_def)
    with res app show ?P using w_app_cong(9) [OF app] by (auto intro: w_keep_app)
  next
    case False
    then obtain t s n where t: "proto_read_hdr buf = Inr (t, of_nat (nat len - 37))" "s \<noteq> 0" "length n = 24"
        "take (nat wl) wire = sealed (g_crypto_key w) t s n (slice 37 (nat len - 37) buf)" "wl = len + 16"
      using post lb copy by auto
    define d where "d = take (nat wl) wire"
    define w2 where "w2 = snd (syscall (\<lambda>e t. sys_sendto e t d dest) w1)"
    define sent where "sent = fst (syscall (\<lambda>e t. sys_sendto e t d dest) w1)"
    have app2: "w_app w2 = w_app w" using app by (simp add: w2_def)
    have keep2: "w_keep w2 = w_keep w" using app2 by (rule w_keep_app)
    have s2: "w_sent w2 = w_sent w" using w_app_cong(9) [OF app2] .
    have dlen: "int (length d) = wl"
    proof -
      have "length (slice 37 (nat len - 37) buf) = nat len - 37" using lb len by simp
      then show ?thesis using t lb by (simp add: d_def)
    qed
    have res: "r = (if sent < 0 then -1 else if sent \<noteq> wl then -1 else 0)"
      "w_core w' = w_core (record_sent sent d dest w2)"
    proof -
      have sc: "syscall (\<lambda>e t. sys_sendto e t d dest) w1 = (sent, w2)" by (simp add: sent_def w2_def)
      obtain err w3 where se: "syscall sys_errno (record_sent sent d dest w2) = (err, w3)" by fastforce
      have "w_core w3 = w_core (record_sent sent d dest w2)" using w_core_syscall [of sys_errno "record_sent sent d dest w2"] se by simp
      moreover have "0 \<le> wl" using t lb by simp
      ultimately show "r = (if sent < 0 then -1 else if sent \<noteq> wl then -1 else 0)"
          "w_core w' = w_core (record_sent sent d dest w2)"
        using eq lb enc sc se
        by (auto simp: net_send_def wire0_def [symmetric] d_def [symmetric] Let_def split: if_splits)
    qed
    have keep: "w_keep w' = w_keep w"
      using w_keep_app [OF w_app_core [OF res(2)]] keep2 by (simp add: record_sent_def split: if_splits)
    have snt: "w_sent w' = (if sent < 0 then w_sent w else w_sent w @ [(take (nat sent) d, dest)])"
      using w_core_cong(11) [OF res(2)] s2 by (simp add: record_sent_def)
    have "delivered w w' [(t, slice 37 (nat len - 37) buf, dest)]" if "sent = wl"
      using snt that dlen t lb by (auto simp: delivered_def sealed_msg_def d_def)
    moreover have "r = 0 \<and> net_ok w'" if "net_ok w"
    proof -
      have "random_ok w1" using post that lb copy t(1) by (auto simp: net_ok_def)
      then have ok2: "net_ok w2"
        using that w_app_cong(1) [OF app2] random_ok_core [of w2 w1] by (simp add: net_ok_def w2_def)
      have "sent = int (length d)" using that w_app_cong(1) [OF app]
        by (simp add: sent_def syscall_def net_ok_def send_ok_def)
      then show ?thesis using res ok2 dlen net_ok_core [OF res(2)] by (simp add: record_sent_def)
    qed
    ultimately show ?P using keep snt res(1) t(1) by auto
  qed
qed

lemma net_send_props:
  assumes "net_send buf len dest w = (r, w')" "len \<le> int (length buf)"
  shows "w_keep w' = w_keep w" "r = 0 \<or> r = -1"
    "\<exists>ds. w_sent w' = w_sent w @ ds \<and> length ds \<le> 1 \<and> (\<forall>d \<in> set ds. snd d = dest)"
  using net_send_post [OF assms] by blast+

text \<open>A message that a builder built goes out whole.\<close>

lemma read_hdr_take:
  "37 \<le> k \<Longrightarrow> k \<le> length buf \<Longrightarrow> proto_read_hdr (take k buf) = proto_read_hdr buf"
  by (simp add: proto_read_hdr_def)

lemma net_send_opened:
  assumes buf: "take (37 + length p) buf = opened t s n p" and n: "length n = 24" and p: "length p \<le> 1600"
    and len: "37 + length p \<le> length buf" and eq: "net_send buf (int (37 + length p)) dest w = (r, w')"
  shows "r = 0 \<Longrightarrow> delivered w w' [(t, p, dest)]" "net_ok w \<Longrightarrow> r = 0 \<and> net_ok w'"
proof -
  have rd: "proto_read_hdr buf = Inr (t, of_nat (length p))"
    using read_hdr_take [of "37 + length p" buf] len buf by (simp add: opened_def)
  have "slice 37 (length p) buf = drop 37 (take (37 + length p) buf)" by (simp add: slice_def drop_take)
  then have sl: "slice 37 (length p) buf = p" using buf n by (simp add: opened_def)
  have nn: "nat (int (37 + length p)) - 37 = length p" by simp
  note post = net_send_post [OF eq, unfolded nn]
  show "r = 0 \<Longrightarrow> delivered w w' [(t, p, dest)]" using post rd sl len by auto
  show "net_ok w \<Longrightarrow> r = 0 \<and> net_ok w'" using post rd p len by auto
qed

text \<open>
  \<open>ready t p buf len\<close>: what a builder left in \<open>buf\<close> and \<open>len\<close>, a message or a failure.
\<close>

definition ready :: "u8 \<Rightarrow> bytes \<Rightarrow> bytes \<Rightarrow> int \<Rightarrow> bool" where
  "ready t p buf len \<longleftrightarrow> len \<le> int (length buf) \<and> length p \<le> TUND_MAX_PLAINTEXT \<and>
     (len = -1 \<or> (len = int (37 + length p) \<and>
        (\<exists>s n. length n = TUND_NONCE_SIZE \<and> take (37 + length p) buf = opened t s n p)))"

lemma built_ready:
  assumes "built t p buf w (len, buf', w')" "37 + length p \<le> length buf" "length p \<le> 1600"
  shows "ready t p buf' len" "w_app w' = w_app w" "random_ok w \<Longrightarrow> len \<noteq> -1 \<and> random_ok w'"
    "net_ok w \<Longrightarrow> len \<noteq> -1 \<and> net_ok w'" "length buf' = length buf"
proof -
  have app: "w_app w' = w_app w" and len: "length buf' = length buf"
    and ok: "random_ok w \<Longrightarrow> len \<noteq> -1 \<and> random_ok w'"
    using assms(1) by (auto simp: built_def)
  show "ready t p buf' len" using assms by (auto simp: built_def ready_def)
  show "w_app w' = w_app w" "random_ok w \<Longrightarrow> len \<noteq> -1 \<and> random_ok w'" "length buf' = length buf"
    by fact+
  show "net_ok w \<Longrightarrow> len \<noteq> -1 \<and> net_ok w'"
    using ok w_app_cong(1) [OF app] by (simp add: net_ok_def)
qed

lemma net_send_ready:
  assumes "ready t p buf len" "net_send buf len dest w = (r, w')"
  shows "w_keep w' = w_keep w" "r = 0 \<Longrightarrow> delivered w w' [(t, p, dest)]"
    "net_ok w \<Longrightarrow> len \<noteq> -1 \<Longrightarrow> r = 0 \<and> net_ok w'" "r = 0 \<or> r = -1"
    "\<exists>ds. w_sent w' = w_sent w @ ds \<and> length ds \<le> 1 \<and> (\<forall>d \<in> set ds. snd d = dest)"
proof -
  have len: "len \<le> int (length buf)" using assms(1) by (simp add: ready_def)
  show "w_keep w' = w_keep w" "r = 0 \<or> r = -1"
    "\<exists>ds. w_sent w' = w_sent w @ ds \<and> length ds \<le> 1 \<and> (\<forall>d \<in> set ds. snd d = dest)"
    using net_send_props [OF assms(2) len] by auto
  have m1: "net_send buf (-1) dest w = (-1, w)" by (simp add: net_send_def)
  show "r = 0 \<Longrightarrow> delivered w w' [(t, p, dest)]" "net_ok w \<Longrightarrow> len \<noteq> -1 \<Longrightarrow> r = 0 \<and> net_ok w'"
    using assms m1 len net_send_opened [of p buf t _ _ dest w r w'] by (auto simp: ready_def)
qed

section \<open>Receiving\<close>

lemma net_recv_core: "net_recv buf from w = (r, buf', from', w') \<Longrightarrow> w_core w' = w_core w"
proof -
  assume eq: "net_recv buf from w = (r, buf', from', w')"
  obtain x w1 where s: "syscall sys_recvfrom w = (x, w1)" by fastforce
  have "w_core w1 = w_core w" using w_core_syscall [of sys_recvfrom w] s by simp
  with eq s show ?thesis
    by (auto simp: net_recv_def Let_def split: recv_result.splits if_splits prod.splits)
qed

lemma proto_decrypt_length:
  assumes "proto_decrypt b l k = (x, b')" "l \<le> int (length b)"
  shows "length b' = length b"
proof (cases "x = -1")
  case False
  with assms show ?thesis by (metis proto_decrypt_accept)
next
  case True
  have "proto_decrypt b l k = (-1, b)"
  proof (rule ccontr)
    assume ne: "proto_decrypt b l k \<noteq> (-1, b)"
    then obtain t n where n: "n \<le> 1600" "l = int (n + 53)" "proto_read_hdr b = Inr (t, of_nat (n + 16))"
      using proto_decrypt_reject by blast
    show False
      using ne assms(1) True unfolding n(2) proto_decrypt_eq [OF n(1,3)]
      by (cases "crypto_aead_unlock (slice (37 + n) 16 b) k (slice 13 24 b) (take 37 b) (slice 37 n b)") auto
  qed
  with assms(1) show ?thesis by simp
qed

lemma net_recv_length:
  assumes eq: "net_recv buf from w = (r, buf', from', w')" shows "length buf' = length buf"
proof (cases "sys_recvfrom (w_env w) (w_tick w)")
  case (RecvFailed err)
  with eq show ?thesis by (auto simp: net_recv_def syscall_def split: if_splits)
next
  case (RecvData d f)
  define n where "n = min (length d) (length buf)"
  define b where "b = memcpy_at 0 (take n d) buf"
  obtain x b' where dec: "proto_decrypt b (int n) (g_crypto_key w) = (x, b')" by fastforce
  have "b' = buf'"
    using eq RecvData dec
    by (auto simp: net_recv_def syscall_def n_def [symmetric] b_def [symmetric] Let_def split: if_splits)
  moreover have "length b = length buf" by (simp add: b_def n_def)
  ultimately show ?thesis using proto_decrypt_length [OF dec] by (simp add: n_def)
qed

lemma net_recv_accept:
  assumes eq: "net_recv buf from w = (r, buf', from', w')" and r: "0 < r"
  obtains d t s n p where "sys_recvfrom (w_env w) (w_tick w) = RecvData d from'"
    "take (length buf) d = sealed (g_crypto_key w) t s n p" "length n = 24" "length p \<le> 1600"
    "r = int (37 + length p)" "take (37 + length p) buf' = opened t s n p" "length buf' = length buf"
proof -
  obtain d f where rd: "sys_recvfrom (w_env w) (w_tick w) = RecvData d f"
    using eq r by (cases "sys_recvfrom (w_env w) (w_tick w)")
      (auto simp: net_recv_def syscall_def split: if_splits)
  define m where "m = min (length d) (length buf)"
  define b where "b = memcpy_at 0 (take m d) buf"
  obtain x b' where dec: "proto_decrypt b (int m) (g_crypto_key w) = (x, b')" by fastforce
  have res: "x = r" "b' = buf'" "f = from'"
    using eq r rd dec
    by (auto simp: net_recv_def syscall_def m_def [symmetric] b_def [symmetric] Let_def split: if_splits)
  have lb: "length b = length buf" by (simp add: b_def m_def)
  have r1: "x \<noteq> -1" using res r by simp
  have mb: "int m \<le> int (length b)" by (simp add: lb m_def)
  from dec r1 mb obtain t s n p rest where p: "length n = 24" "length p \<le> 1600" "int m = int (length p + 53)"
      "x = int (length p + 37)" "b = sealed (g_crypto_key w) t s n p @ drop (nat (int m)) b"
      "b' = opened t s n p @ rest" "length b' = length b"
    by (rule proto_decrypt_accept)
  have "take m b = take m d" by (simp add: b_def memcpy_at_def m_def)
  moreover have "take m b = sealed (g_crypto_key w) t s n p"
    using p(1,3) by (subst p(5)) simp
  moreover have "take m d = take (length buf) d" by (simp add: m_def min_def)
  ultimately have "take (length buf) d = sealed (g_crypto_key w) t s n p" by simp
  with rd p res lb show thesis by (intro that [of d t s n p]) auto
qed

lemma net_recv_bound:
  assumes "net_recv buf from w = (r, buf', from', w')" "0 < r"
  shows "37 \<le> r" "r \<le> int (length buf')"
proof -
  from assms obtain d t s n p where "length n = 24" "r = int (37 + length p)"
      "take (37 + length p) buf' = opened t s n p" "length buf' = length buf"
    by (rule net_recv_accept)
  moreover have "length (opened t s n p) = 37 + length p"
    using \<open>length n = 24\<close> by simp
  ultimately have "37 + length p \<le> length buf'"
    by (metis length_take min.absorb_iff2 min.commute)
  then show "37 \<le> r" "r \<le> int (length buf')" using \<open>r = int (37 + length p)\<close> by simp_all
qed

lemma net_recv_sealed:
  assumes rd: "sys_recvfrom (w_env w) (w_tick w) = RecvData (sealed (g_crypto_key w) t s n p) src"
    and n: "length n = 24" and p: "length p \<le> 1600" and buf: "length buf = 1653"
  shows "\<exists>buf' w'. net_recv buf from w = (int (37 + length p), buf', src, w') \<and>
    take (37 + length p) buf' = opened t s n p \<and> w_core w' = w_core w"
proof -
  let ?d = "sealed (g_crypto_key w) t s n p"
  have m: "min (length ?d) (length buf) = length p + 53" using n p buf by simp
  have "memcpy_at 0 (take (length p + 53) ?d) buf = ?d @ drop (length p + 53) buf"
    using n by (simp add: memcpy_at_def)
  moreover obtain mac where "proto_decrypt (?d @ drop (length p + 53) buf) (int (length p + 53)) (g_crypto_key w) =
      (int (37 + length p), opened t s n p @ mac @ drop (length p + 53) buf)"
    using proto_decrypt_sealed [OF n p] by metis
  ultimately have "net_recv buf from w = (int (37 + length p), opened t s n p @ mac @ drop (length p + 53) buf, src,
      w\<lparr>w_tick := Suc (w_tick w)\<rparr>)"
    using rd m by (simp add: net_recv_def syscall_def Let_def)
  then show ?thesis using n by (simp add: w_core_def)
qed

section \<open>The snapshot of the peer table\<close>

lemma snapshot_loop_spec:
  assumes "n + length ps \<le> length tps" "snapshot_loop ps tps n = (tps', n')"
  shows "n' = n + count_if peer_active ps \<and> length tps' = length tps \<and>
    take n' tps' = take n tps @ map tui_peer_of (filter peer_active ps)"
  using assms
proof (induction ps arbitrary: tps n)
  case (Cons p ps)
  let ?tps = "tps[n := tui_peer_of p]" and ?n = "if peer_active p then n + 1 else n"
  have ih: "n' = ?n + count_if peer_active ps \<and> length tps' = length ?tps \<and>
      take n' tps' = take ?n ?tps @ map tui_peer_of (filter peer_active ps)"
    using Cons.prems by (intro Cons.IH) auto
  have "take (n + 1) ?tps = take n tps @ [tui_peer_of p]"
    using Cons.prems(1) by (simp add: take_Suc_conv_app_nth)
  with ih show ?case by (auto simp: take_update_cancel)
qed auto

section \<open>Properties\<close>

lemma net_ok_demo [simp]: "net_ok demo_world"
  by (simp add: net_ok_def send_ok_def) (simp add: demo_world_def demo_env_def)

lemma opened_read:
  assumes "take (37 + length p) buf = opened t s n p" "length n = 24" "37 + length p \<le> length buf" "s \<noteq> 0"
  shows "proto_read_hdr buf = Inr (t, of_nat (length p))" "slice 37 (length p) buf = p"
    "proto_read_sequence buf = Some s"
proof -
  have b: "buf = hdr_of t (of_nat (length p)) s n @ p @ drop (37 + length p) buf"
    using assms(1) append_take_drop_id [of "37 + length p" buf] by (simp add: opened_def)
  show "proto_read_hdr buf = Inr (t, of_nat (length p))" by (subst b) simp
  show "slice 37 (length p) buf = p" by (subst b) (simp add: slice_def assms(2))
  show "proto_read_sequence buf = Some s" by (subst b) (simp add: assms(4))
qed

text \<open>
  From socket to socket. If the random source works and the kernel takes datagrams, \<open>net_send\<close> of a
  well-formed message of up to 1600 payload bytes succeeds and puts exactly one datagram on the wire,
  to the given address; and every process that holds the same key and receives this datagram into a
  packet buffer gets from \<open>net_recv\<close> the same message type, length and payload, with a non-zero
  sequence number.
\<close>

theorem send_then_receive:
  assumes "net_ok w" "length buf = TUND_MAX_PKT" "n \<le> TUND_MAX_PLAINTEXT"
    and "proto_read_hdr buf = Inr (type, of_nat n)"
  shows "\<exists>wire w'. net_send buf (int (37 + n)) dest w = (0, w') \<and> w_sent w' = w_sent w @ [(wire, dest)] \<and>
    (\<forall>v src. g_crypto_key v = g_crypto_key w \<longrightarrow> sys_recvfrom (w_env v) (w_tick v) = RecvData wire src \<longrightarrow>
      (\<exists>buf' v' sequence. net_recv (zeros TUND_MAX_PKT) from0 v = (int (37 + n), buf', src, v') \<and>
         proto_read_hdr buf' = Inr (type, of_nat n) \<and> slice 37 n buf' = slice 37 n buf \<and>
         proto_read_sequence buf' = Some sequence))"
proof -
  obtain r w' where snd: "net_send buf (int (37 + n)) dest w = (r, w')" by fastforce
  have nn: "nat (int (37 + n)) - 37 = n" by simp
  note post = net_send_post [OF snd, unfolded nn]
  have r: "r = 0" using post assms by auto
  let ?p = "slice 37 n buf"
  have p: "length ?p = n" using assms by simp
  obtain s nonce where s: "s \<noteq> 0" "length nonce = 24"
      "w_sent w' = w_sent w @ [(sealed (g_crypto_key w) type s nonce ?p, dest)]"
    using post assms r by (auto simp: delivered_def sealed_msg_def list_all2_Cons1)
  have "\<exists>buf' v' sequence. net_recv (zeros 1653) from0 v = (int (37 + n), buf', src, v') \<and>
         proto_read_hdr buf' = Inr (type, of_nat n) \<and> slice 37 n buf' = ?p \<and>
         proto_read_sequence buf' = Some sequence"
    if v: "g_crypto_key v = g_crypto_key w"
      "sys_recvfrom (w_env v) (w_tick v) = RecvData (sealed (g_crypto_key w) type s nonce ?p) src" for v src
  proof -
    obtain buf' v' where rc: "net_recv (zeros 1653) from0 v = (int (37 + n), buf', src, v')"
        "take (37 + n) buf' = opened type s nonce ?p"
      using net_recv_sealed [of v type s nonce ?p src "zeros 1653" from0] v s(2) p assms(3) by auto
    have "length buf' = 1653" using net_recv_length [OF rc(1)] by simp
    with rc opened_read [of ?p buf' type s nonce] p s assms(3) show ?thesis by auto
  qed
  with snd r s(3) show ?thesis by blast
qed

theorem send_then_receive_witness:
  "\<exists>wire w'. net_send (hdr_of 4 2 1 (zeros 24) @ [7, 8] @ zeros 1614) 39 sockaddr0 demo_world = (0, w') \<and>
    w_sent w' = [(wire, sockaddr0)]"
proof -
  have "w_sent demo_world = []" by (simp add: demo_world_def)
  then show ?thesis
    using send_then_receive [of demo_world "hdr_of 4 2 1 (zeros 24) @ [7, 8] @ zeros 1614" 2 4 sockaddr0 sockaddr0]
    by auto
qed

text \<open>
  The snapshot the terminal UI draws from. When a poll times out, \<open>net_poll_peers\<close> leaves in the
  first \<open>npeers\<close> entries exactly the active peers of the table, in table order, and \<open>npeers\<close> is their
  number; the copy never leaves the array.
\<close>

theorem poll_snapshot_is_active_peers:
  assumes "sys_poll (w_env w) (w_tick w) = 0" "length peers \<le> length tui_peers"
  shows "\<exists>out. net_poll_peers peers tui_peers npeers w =
      (0, out, count_if peer_active peers, w\<lparr>w_tick := Suc (w_tick w)\<rparr>) \<and>
    length out = length tui_peers \<and>
    take (count_if peer_active peers) out = map tui_peer_of (filter peer_active peers)"
proof -
  obtain out n where s: "snapshot_loop peers tui_peers 0 = (out, n)" by fastforce
  have p: "n = count_if peer_active peers" "length out = length tui_peers"
      "take n out = map tui_peer_of (filter peer_active peers)"
    using snapshot_loop_spec [of 0 peers tui_peers out n] s assms(2) by auto
  show ?thesis using assms(1) s p(2,3) unfolding p(1) by (simp add: net_poll_peers_def platform_poll_one_def syscall_def)
qed

theorem poll_snapshot_is_active_peers_witness:
  "\<exists>out. net_poll_peers [peer0, peer0\<lparr>peer_active := True\<rparr>] [tui_peer_of peer0, tui_peer_of peer0] 0 demo_world =
      (0, out, 1, demo_world\<lparr>w_tick := 1\<rparr>) \<and> take 1 out = [tui_peer_of (peer0\<lparr>peer_active := True\<rparr>)]"
proof -
  have "sys_poll (w_env demo_world) (w_tick demo_world) = 0" "w_tick demo_world = 0"
    by (simp_all add: demo_world_def demo_env_def)
  moreover have "\<not> peer_active peer0" by (simp add: peer0_def)
  ultimately show ?thesis
    using poll_snapshot_is_active_peers [of demo_world "[peer0, peer0\<lparr>peer_active := True\<rparr>]"
      "[tui_peer_of peer0, tui_peer_of peer0]" 0] by auto
qed

end
