(* ===== verification/App_Cli.thy ===== *)
theory App_Cli
  imports Network
begin

text \<open>
  The command line (\<open>src/app/cli.c\<close>): the mode, the options, the three sources of the shared key and the
  final checks. \<open>getopt_long\<close> is a parameter: the list of results (option code and argument) it returns
  before -1. What the terminal, the file system and the host name service answer is the record
  \<open>app_env\<close>. An argument is the list of its bytes without the terminating NUL.
\<close>

section \<open>Streams and strings of the C library\<close>

text \<open>
  An input stream: the bytes still to come, whether a read error rather than the end of the file
  follows them, and the end-of-file indicator.
\<close>

record stream =
  st_data :: bytes
  st_error :: bool
  st_eof :: bool

text \<open>
  \<open>fgets\<close> with a buffer of \<open>sz\<close> bytes: the bytes stored before the NUL, or \<open>None\<close> for a null pointer.
\<close>

definition fgets :: "nat \<Rightarrow> stream \<Rightarrow> bytes option \<times> stream" where
  "fgets sz s =
     (let lim = take (sz - 1) (st_data s);
          line = takeWhile (\<lambda>b. b \<noteq> 10) lim
      in if length line < length lim
         then (Some (line @ [10]), s\<lparr>st_data := drop (length line + 1) (st_data s)\<rparr>)
         else if length lim = sz - 1 then (Some lim, s\<lparr>st_data := drop (sz - 1) (st_data s)\<rparr>)
         else if st_error s then (None, s\<lparr>st_data := []\<rparr>)
         else ((if lim = [] then None else Some lim), s\<lparr>st_data := [], st_eof := True\<rparr>))"

text \<open>The index of the first \<open>\r\<close> or \<open>\n\<close>, or of the NUL.\<close>

definition strcspn_eol :: "bytes \<Rightarrow> nat" where
  "strcspn_eol s = length (takeWhile (\<lambda>b. b \<noteq> 13 \<and> b \<noteq> 10) (c_str s))"

definition isspace :: "u8 \<Rightarrow> bool" where
  "isspace b \<longleftrightarrow> b = 32 \<or> 9 \<le> b \<and> b \<le> 13"

definition isdigit :: "u8 \<Rightarrow> bool" where
  "isdigit b \<longleftrightarrow> 48 \<le> b \<and> b \<le> 57"

definition digits_val :: "bytes \<Rightarrow> nat" where
  "digits_val ds = foldl (\<lambda>n d. 10 * n + (unat d - 48)) 0 ds"

text \<open>\<open>strtol\<close> in base 10 with a 64-bit \<open>long\<close>: the value and the number of bytes before \<open>end\<close>.\<close>

definition strtol :: "bytes \<Rightarrow> int \<times> nat" where
  "strtol s =
     (let ws = length (takeWhile isspace s);
          r = drop ws s;
          sg = (if r \<noteq> [] \<and> (hd r = 43 \<or> hd r = 45) then 1 else 0);
          ds = takeWhile isdigit (drop sg r);
          v = (if r \<noteq> [] \<and> hd r = 45 then - int (digits_val ds) else int (digits_val ds))
      in if ds = [] then (0, 0)
         else (max (- (2 ^ 63)) (min (2 ^ 63 - 1) v), ws + sg + length ds))"

section \<open>The environment of start-up\<close>

record app_env =
  ae_stdin_tty :: bool
  ae_geteuid :: nat
  ae_gethostname :: "bytes option"
  ae_fopen :: "bytes \<Rightarrow> int + stream"
  ae_tcgetattr :: bool
  ae_tcsetattr_hide :: bool
  ae_tcsetattr_restore :: bool

text \<open>The process's standard input, the echo of its terminal and its signal dispositions.\<close>

datatype sig_action = SigRequestStop | SigIgnore

record app_io =
  io_stdin :: stream
  io_echo :: bool
  io_signals :: "(nat \<times> sig_action) list"

definition fput_stderr :: "bytes \<Rightarrow> world \<Rightarrow> world" where
  "fput_stderr s w = w\<lparr>w_stderr := w_stderr w @ s\<rparr>"

section \<open>cli.c\<close>

datatype cli_result_t = CLI_OK | CLI_EXIT_OK | CLI_EXIT_ERROR

datatype key_source_t = KEY_SOURCE_NONE | KEY_SOURCE_ARG | KEY_SOURCE_FILE | KEY_SOURCE_STDIN

abbreviation (input) TUND_PORT :: u16 where "TUND_PORT \<equiv> 9909"
abbreviation (input) ACCESS_KEY_SIZE :: nat where "ACCESS_KEY_SIZE \<equiv> 128"

definition print_usage :: "bytes \<Rightarrow> bool \<Rightarrow> world \<Rightarrow> world" where
  "print_usage prog show_desc w =
     (let w = (if show_desc
               then fput_stderr (concat (map (\<lambda>l. l @ [10])
                 [lit ''TunD - Virtual LAN over UDP. Creates an encrypted'',
                  lit ''IPv4 tunnel for LAN gaming with friends.'', []])) w
               else w)
      in fput_stderr (concat (map (\<lambda>l. l @ [10])
           [lit ''Usage:'',
            lit ''  '' @ c_str prog @ lit '' server (-k <key>|--key-file <path>|--key-stdin) [-p port] [-v]'',
            lit ''  '' @ c_str prog @ lit '' client -s <server_ip> (-k <key>|--key-file <path>|--key-stdin) [-p port] [-n '' @ lit ''name] [-v]'',
            [],
            lit ''Modes:'',
            lit ''  server   Run as hub server (requires public IP)'',
            lit ''  client   Connect to a server'',
            [],
            lit ''Options:'',
            lit ''  -s, --server <ip>    Server IP/hostname (client mode, required)'',
            lit ''  -p, --port <port>    UDP port (default: '' @ fmt_u (unat TUND_PORT) @ lit '')'',
            lit ''  -n, --name <name>    Client display name (default: hostname)'',
            lit ''  -k, --key <key>      Shared network key (visible in process list)'',
            lit ''      --key-file <path> Read shared network key from a file'',
            lit ''      --key-stdin       Prompt for the key or read the first stdin line'',
            lit ''      --json-events     Emit machine-readable JSON events to stdout'',
            lit ''  -t, --no-tui        Disable terminal UI (live peer dashboard)'',
            lit ''  -v, --verbose        Enable debug logging'',
            lit ''  -h, --help           Show this help'',
            [],
            lit ''Examples:'',
            lit ''  sudo '' @ c_str prog @ lit '' server --key-file tund.key'',
            lit ''  printf '' @ [39] @ lit ''a-long-random-key'' @ [92] @ lit ''n'' @ [39] @ lit '' | sudo '' @ c_str prog @ lit '' server --key-stdin'',
            lit ''  sudo '' @ c_str prog @ lit '' client -s 1.2.3.4 -n MyPC --key-stdin'',
            lit ''  sudo '' @ c_str prog @ lit '' server -p 12345 --key-file tund.key'',
            [],
            lit ''Note: Requires root/sudo for TUN interface creation.'',
            []])) w)"

definition parse_mode :: "bytes \<Rightarrow> bytes \<Rightarrow> config_t \<Rightarrow> world \<Rightarrow> cli_result_t \<times> config_t \<times> world" where
  "parse_mode prog mode cfg w =
     (if c_str mode = lit ''server'' then (CLI_OK, cfg\<lparr>cfg_mode := MODE_SERVER\<rparr>, w)
      else if c_str mode = lit ''client'' then (CLI_OK, cfg\<lparr>cfg_mode := MODE_CLIENT\<rparr>, w)
      else if c_str mode = lit ''-h'' \<or> c_str mode = lit ''--help'' then (CLI_EXIT_OK, cfg, print_usage prog True w)
      else (CLI_EXIT_ERROR, cfg, print_usage prog False
             (fput_stderr (lit ''Error: Unknown mode '' @ [39] @ c_str mode @ [39] @ lit ''. Use '' @ [39] @ lit ''server'' @ [39] @
                lit '' or '' @ [39] @ lit ''client'' @ [39] @ lit ''.'' @ [10, 10]) w)))"

definition parse_port :: "bytes \<Rightarrow> config_t \<Rightarrow> world \<Rightarrow> cli_result_t \<times> config_t \<times> world" where
  "parse_port value cfg w =
     (let (port, stop) = strtol (c_str value)
      in if stop = 0 \<or> stop < c_strlen value \<or> port < 1 \<or> 65535 < port
         then (CLI_EXIT_ERROR, cfg, fput_stderr (lit ''Error: invalid port '' @ [39] @ c_str value @ [39] @
                lit '' (use 1-65535)'' @ [10, 10]) w)
         else (CLI_OK, cfg\<lparr>cfg_port := of_int port\<rparr>, w))"

definition store_access_key :: "config_t \<Rightarrow> bytes \<Rightarrow> world \<Rightarrow> cli_result_t \<times> config_t \<times> world" where
  "store_access_key cfg key w =
     (let len = c_strlen key
      in if ACCESS_KEY_SIZE \<le> len
         then (CLI_EXIT_ERROR, cfg, fput_stderr (lit ''Error: shared access key is too long (max '' @
                fmt_u (ACCESS_KEY_SIZE - 1) @ lit '' characters).'' @ [10]) w)
         else (CLI_OK, cfg\<lparr>cfg_access_key := memcpy_at 0 (c_str key @ [0]) (cfg_access_key cfg)\<rparr>, w))"

definition trim_line_end :: "bytes \<Rightarrow> bytes" where
  "trim_line_end value = value[strcspn_eol value := 0]"

text \<open>\<open>key\<close> is the local buffer, uninitialised on entry; its contents on return are the last component.\<close>

definition read_key_line ::
    "bytes \<Rightarrow> config_t \<Rightarrow> stream \<Rightarrow> bytes \<Rightarrow> world \<Rightarrow> cli_result_t \<times> config_t \<times> stream \<times> world \<times> bytes" where
  "read_key_line key cfg stream source w =
     (case fgets (ACCESS_KEY_SIZE + 2) stream of
        (None, stream) \<Rightarrow>
          (CLI_EXIT_ERROR, cfg, stream,
           fput_stderr (lit ''Error: cannot read shared access key from '' @ c_str source @ lit ''.'' @ [10]) w, key)
      | (Some line, stream) \<Rightarrow>
          let key = memcpy_at 0 (line @ [0]) key
          in if 10 \<notin> set (c_str key) \<and> \<not> st_eof stream
             then (CLI_EXIT_ERROR, cfg, stream,
                   fput_stderr (lit ''Error: shared access key from '' @ c_str source @ lit '' is too long (max '' @
                     fmt_u (ACCESS_KEY_SIZE - 1) @ lit '' characters).'' @ [10]) w, key)
             else
               let key = trim_line_end key;
                   (result, cfg, w) = store_access_key cfg key w
               in (result, cfg, stream, w, tund_wipe_secret key (ACCESS_KEY_SIZE + 2)))"

definition read_key_from_terminal ::
    "app_env \<Rightarrow> bytes \<Rightarrow> config_t \<Rightarrow> app_io \<Rightarrow> world \<Rightarrow> cli_result_t \<times> config_t \<times> app_io \<times> world" where
  "read_key_from_terminal e key cfg io w =
     (let w = fput_stderr (lit ''Network key: '') w;
          hidden = ae_tcgetattr e \<and> ae_tcsetattr_hide e;
          oldt = io_echo io;
          io = (if hidden then io\<lparr>io_echo := False\<rparr> else io);
          (result, cfg, stream, w, key) = read_key_line key cfg (io_stdin io) (lit ''stdin'') w;
          io = io\<lparr>io_stdin := stream\<rparr>;
          io = (if hidden \<and> ae_tcsetattr_restore e then io\<lparr>io_echo := oldt\<rparr> else io)
      in (result, cfg, io, if hidden then fput_stderr [10] w else w))"

text \<open>The stream is standard input in the first variant and a file in the second.\<close>

definition read_key_from_stdin ::
    "app_env \<Rightarrow> bytes \<Rightarrow> config_t \<Rightarrow> app_io \<Rightarrow> world \<Rightarrow> cli_result_t \<times> config_t \<times> app_io \<times> world" where
  "read_key_from_stdin e key cfg io w =
     (if ae_stdin_tty e then read_key_from_terminal e key cfg io w
      else let (result, cfg, stream, w, key) = read_key_line key cfg (io_stdin io) (lit ''stdin'') w
           in (result, cfg, io\<lparr>io_stdin := stream\<rparr>, w))"

definition read_key_from_file ::
    "app_env \<Rightarrow> bytes \<Rightarrow> config_t \<Rightarrow> bytes \<Rightarrow> world \<Rightarrow> cli_result_t \<times> config_t \<times> world" where
  "read_key_from_file e key cfg path w =
     (case ae_fopen e path of
        Inl err \<Rightarrow>
          (CLI_EXIT_ERROR, cfg,
           fput_stderr (lit ''Error: cannot open key file '' @ [39] @ c_str path @ [39] @ lit '': '' @
             sys_strerror (w_env w) err @ lit ''.'' @ [10]) w)
      | Inr f \<Rightarrow>
          let (result, cfg, f, w, key) = read_key_line key cfg f path w in (result, cfg, w))"

text \<open>\<open>gethostname\<close> stores the name and its NUL as far as the given length reaches.\<close>

definition validate_config :: "app_env \<Rightarrow> bytes \<Rightarrow> config_t \<Rightarrow> world \<Rightarrow> cli_result_t \<times> config_t \<times> world" where
  "validate_config e prog cfg w =
     (if cfg_mode cfg = MODE_CLIENT \<and> cfg_server_ip cfg ! 0 = 0
      then (CLI_EXIT_ERROR, cfg, print_usage prog False
             (fput_stderr (lit ''Error: Client mode requires -s <server_ip>'' @ [10, 10]) w))
      else
        let cfg = (if cfg_mode cfg = MODE_CLIENT \<and> cfg_client_name cfg ! 0 = 0
                   then (case ae_gethostname e of
                           Some name \<Rightarrow> cfg\<lparr>cfg_client_name := memcpy_at 0 (take (TUND_NAME_LEN - 1) (name @ [0])) (cfg_client_name cfg)\<rparr>
                         | None \<Rightarrow> cfg\<lparr>cfg_client_name := strncpy (cfg_client_name cfg) (lit ''tund-client'') (TUND_NAME_LEN - 1)\<rparr>)
                   else cfg)
        in if c_strlen (cfg_access_key cfg) < 12
           then (CLI_EXIT_ERROR, cfg, fput_stderr (lit ''Error: a shared access key of at least 12 characters is required (-k, '' @
                  lit ''--key-file, or --key-stdin).'' @ [10]) w)
           else (CLI_OK, cfg, w))"

text \<open>
  The loop over the results of \<open>getopt_long\<close>: \<open>None\<close> when it ends, otherwise the result \<open>cli_parse\<close>
  returns at once.
\<close>

definition one_key_source :: "world \<Rightarrow> world" where
  "one_key_source w = fput_stderr (lit ''Error: choose only one key source.'' @ [10]) w"

fun cli_options ::
    "app_env \<Rightarrow> bytes \<Rightarrow> bytes \<Rightarrow> (nat \<times> bytes) list \<Rightarrow> key_source_t \<Rightarrow> config_t \<Rightarrow> app_io \<Rightarrow> world \<Rightarrow>
     cli_result_t option \<times> config_t \<times> app_io \<times> world" where
  "cli_options e key prog [] key_source cfg io w = (None, cfg, io, w)"
| "cli_options e key prog ((opt, optarg) # opts) key_source cfg io w =
     (if opt = 115
      then cli_options e key prog opts key_source (cfg\<lparr>cfg_server_ip := strncpy (cfg_server_ip cfg) optarg 63\<rparr>) io w
      else if opt = 112
      then let (result, cfg, w) = parse_port optarg cfg w
           in if result \<noteq> CLI_OK then (Some result, cfg, io, w) else cli_options e key prog opts key_source cfg io w
      else if opt = 110
      then cli_options e key prog opts key_source
             (cfg\<lparr>cfg_client_name := strncpy (cfg_client_name cfg) optarg (TUND_NAME_LEN - 1)\<rparr>) io w
      else if opt = 107
      then if key_source \<noteq> KEY_SOURCE_NONE then (Some CLI_EXIT_ERROR, cfg, io, one_key_source w)
           else let (result, cfg, w) = store_access_key cfg optarg w
                in if result \<noteq> CLI_OK then (Some result, cfg, io, w)
                   else cli_options e key prog opts KEY_SOURCE_ARG cfg io w
      else if opt = 1000
      then if key_source \<noteq> KEY_SOURCE_NONE then (Some CLI_EXIT_ERROR, cfg, io, one_key_source w)
           else let (result, cfg, w) = read_key_from_file e key cfg optarg w
                in if result \<noteq> CLI_OK then (Some result, cfg, io, w)
                   else cli_options e key prog opts KEY_SOURCE_FILE cfg io w
      else if opt = 1001
      then if key_source \<noteq> KEY_SOURCE_NONE then (Some CLI_EXIT_ERROR, cfg, io, one_key_source w)
           else let (result, cfg, io, w) = read_key_from_stdin e key (cfg\<lparr>cfg_key_from_stdin := True\<rparr>) io w
                in if result \<noteq> CLI_OK then (Some result, cfg, io, w)
                   else cli_options e key prog opts KEY_SOURCE_STDIN cfg io w
      else if opt = 1002 then cli_options e key prog opts key_source (cfg\<lparr>cfg_json_events := True\<rparr>) io w
      else if opt = 116 then cli_options e key prog opts key_source (cfg\<lparr>cfg_tui_mode := False\<rparr>) io w
      else if opt = 118 then cli_options e key prog opts key_source (cfg\<lparr>cfg_log_level := int LOG_LEVEL_DEBUG\<rparr>) io w
      else if opt = 104 then (Some CLI_EXIT_OK, cfg, io, print_usage prog True w)
      else (Some CLI_EXIT_ERROR, cfg, io, print_usage prog False w))"

definition config0 :: config_t where
  "config0 =
     \<lparr>cfg_mode = MODE_SERVER, cfg_port = TUND_PORT, cfg_server_ip = zeros 64, cfg_client_name = zeros TUND_NAME_LEN,
      cfg_access_key = zeros ACCESS_KEY_SIZE, cfg_log_level = int LOG_LEVEL_INFO, cfg_key_from_stdin = False,
      cfg_json_events = False, cfg_tui_mode = True\<rparr>"

text \<open>\<open>getopt_long\<close> is given the arguments from index 2 on (\<open>optind = 2\<close>).\<close>

definition cli_parse ::
    "(bytes list \<Rightarrow> (nat \<times> bytes) list) \<Rightarrow> app_env \<Rightarrow> bytes \<Rightarrow> bytes list \<Rightarrow> app_io \<Rightarrow> world \<Rightarrow>
     cli_result_t \<times> config_t \<times> app_io \<times> world" where
  "cli_parse getopt_long e key argv io w =
     (if length argv < 2 then (CLI_EXIT_ERROR, config0, io, print_usage (argv ! 0) False w)
      else
        let (result, cfg, w) = parse_mode (argv ! 0) (argv ! 1) config0 w
        in if result \<noteq> CLI_OK then (result, cfg, io, w)
           else case cli_options e key (argv ! 0) (getopt_long argv) KEY_SOURCE_NONE cfg io w of
                  (Some result, cfg, io, w) \<Rightarrow> (result, cfg, io, w)
                | (None, cfg, io, w) \<Rightarrow>
                    let (result, cfg, w) = validate_config e (argv ! 0) cfg w in (result, cfg, io, w))"

section \<open>The configuration stays well-formed\<close>

definition cfg_ok :: "config_t \<Rightarrow> bool" where
  "cfg_ok cfg \<longleftrightarrow>
     length (cfg_server_ip cfg) = 64 \<and> cfg_server_ip cfg ! 63 = 0 \<and>
     length (cfg_client_name cfg) = 32 \<and> cfg_client_name cfg ! 31 = 0 \<and>
     length (cfg_access_key cfg) = 128 \<and> terminated (cfg_access_key cfg) \<and> 1 \<le> cfg_port cfg"

lemma strncpy_nth: "n < length dst \<Longrightarrow> strncpy dst src n ! n = dst ! n"
proof -
  assume n: "n < length dst"
  have l: "length (take n (c_str src @ replicate n 0)) = n" by simp
  show "strncpy dst src n ! n = dst ! n" unfolding strncpy_def nth_append l using n by simp
qed

lemma config0_ok: "cfg_ok config0"
  by (simp add: cfg_ok_def config0_def terminated_def)

lemma parse_port_ok:
  assumes "parse_port value cfg w = (res, cfg', w')"
  shows "cfg_ok cfg \<Longrightarrow> cfg_ok cfg'" "cfg_mode cfg' = cfg_mode cfg"
proof -
  obtain port stop where st: "strtol (c_str value) = (port, stop)" by fastforce
  have u: "unat (of_int port :: u16) = nat port" if "1 \<le> port" "port \<le> 65535"
  proof (subst of_int_of_nat_u16)
    show "unat (of_nat (nat port) :: u16) = nat port" using that by (intro unat_of_nat_u16) simp
  qed (use that in simp)
  have "1 \<le> (of_int port :: u16)" if "1 \<le> port" "port \<le> 65535"
    using u [OF that] that by (simp add: word_le_nat_alt)
  moreover have "cfg' = cfg \<or> 1 \<le> port \<and> port \<le> 65535 \<and> cfg' = cfg\<lparr>cfg_port := of_int port\<rparr>"
    using assms st by (auto simp: parse_port_def split: if_splits)
  ultimately show "cfg_ok cfg \<Longrightarrow> cfg_ok cfg'" "cfg_mode cfg' = cfg_mode cfg" by (auto simp: cfg_ok_def)
qed

lemma store_access_key_eq:
  assumes "length (cfg_access_key cfg) = 128"
  shows "store_access_key cfg key w =
    (if c_strlen key \<le> 127
     then (CLI_OK, cfg\<lparr>cfg_access_key := c_str key @ 0 # drop (c_strlen key + 1) (cfg_access_key cfg)\<rparr>, w)
     else (CLI_EXIT_ERROR, cfg, fput_stderr (lit ''Error: shared access key is too long (max '' @ fmt_u 127 @
       lit '' characters).'' @ [10]) w))"
  using assms by (simp add: store_access_key_def Let_def memcpy_at_def c_strlen_def)

lemma store_access_key_ok:
  assumes "store_access_key cfg key w = (res, cfg', w')" "cfg_ok cfg"
  shows "cfg_ok cfg'" "cfg_mode cfg' = cfg_mode cfg"
  using assms by (auto simp: store_access_key_eq cfg_ok_def terminated_def c_strlen_def split: if_splits)

lemma read_key_line_ok:
  assumes "read_key_line key cfg stream src w = (res, cfg', stream', w', key')" "cfg_ok cfg"
  shows "cfg_ok cfg'" "cfg_mode cfg' = cfg_mode cfg"
  using assms store_access_key_ok [OF _ assms(2)]
  by (auto simp: read_key_line_def Let_def split: prod.splits option.splits if_splits)

lemma read_key_from_stdin_ok:
  assumes "read_key_from_stdin e key cfg io w = (res, cfg', io', w')" "cfg_ok cfg"
  shows "cfg_ok cfg'" "cfg_mode cfg' = cfg_mode cfg"
  using assms read_key_line_ok [OF _ assms(2)]
  by (auto simp: read_key_from_stdin_def read_key_from_terminal_def Let_def split: prod.splits if_splits)

lemma read_key_from_file_ok:
  assumes "read_key_from_file e key cfg path w = (res, cfg', w')" "cfg_ok cfg"
  shows "cfg_ok cfg'" "cfg_mode cfg' = cfg_mode cfg"
  using assms read_key_line_ok [OF _ assms(2)]
  by (auto simp: read_key_from_file_def Let_def split: prod.splits sum.splits)

lemma cfg_ok_fields:
  assumes "cfg_ok cfg"
  shows "cfg_ok (cfg\<lparr>cfg_server_ip := strncpy (cfg_server_ip cfg) a 63\<rparr>)"
    "cfg_ok (cfg\<lparr>cfg_client_name := strncpy (cfg_client_name cfg) a 31\<rparr>)"
    "cfg_ok (cfg\<lparr>cfg_client_name := memcpy_at 0 (take 31 b) (cfg_client_name cfg)\<rparr>)"
    "cfg_ok (cfg\<lparr>cfg_json_events := True\<rparr>)" "cfg_ok (cfg\<lparr>cfg_tui_mode := False\<rparr>)" "cfg_ok (cfg\<lparr>cfg_log_level := lv\<rparr>)"
    "cfg_ok (cfg\<lparr>cfg_key_from_stdin := True\<rparr>)" "cfg_ok (cfg\<lparr>cfg_mode := m\<rparr>)"
  using assms by (auto simp: cfg_ok_def strncpy_nth memcpy_at_def nth_append min_def)

lemma cli_options_ok:
  assumes "cli_options e key prog opts ks cfg io w = (res, cfg', io', w')" "cfg_ok cfg"
  shows "cfg_ok cfg' \<and> cfg_mode cfg' = cfg_mode cfg"
  using assms
proof (induction opts arbitrary: ks cfg io w)
  case (Cons oa opts)
  obtain opt optarg where oa: "oa = (opt, optarg)" by fastforce
  note ok = Cons.prems(2) and eq = Cons.prems(1) [unfolded oa]
  obtain r1 c1 w1 where p: "parse_port optarg cfg w = (r1, c1, w1)" by (metis prod_cases3)
  obtain r2 c2 w2 where k: "store_access_key cfg optarg w = (r2, c2, w2)" by (metis prod_cases3)
  obtain r3 c3 w3 where f: "read_key_from_file e key cfg optarg w = (r3, c3, w3)" by (metis prod_cases3)
  obtain r4 c4 io4 w4 where i: "read_key_from_stdin e key (cfg\<lparr>cfg_key_from_stdin := True\<rparr>) io w = (r4, c4, io4, w4)"
    by (metis prod_cases4)
  have oks: "cfg_ok c1" "cfg_ok c2" "cfg_ok c3" "cfg_ok c4" "cfg_mode c1 = cfg_mode cfg" "cfg_mode c2 = cfg_mode cfg"
    "cfg_mode c3 = cfg_mode cfg" "cfg_mode c4 = cfg_mode cfg"
    using parse_port_ok [OF p] store_access_key_ok [OF k ok] read_key_from_file_ok [OF f ok]
      read_key_from_stdin_ok [OF i cfg_ok_fields(7) [OF ok]] ok by simp_all
  have "cfg' \<in> {cfg, c1, c2, c3, c4} \<or> (\<exists>c ks' io'' w''. cfg_ok c \<and> cfg_mode c = cfg_mode cfg \<and>
      cli_options e key prog opts ks' c io'' w'' = (res, cfg', io', w'))"
    using eq p k f i oks cfg_ok_fields [OF ok] by (simp split: if_splits) (fastforce+)?
  then show ?case using Cons.IH oks ok by auto
qed simp

lemma cli_options_result: "cli_options e key prog opts ks cfg io w = (res, cfg', io', w') \<Longrightarrow> res \<noteq> Some CLI_OK"
proof (induction opts arbitrary: ks cfg io w)
  case (Cons oa opts)
  obtain opt optarg where oa: "oa = (opt, optarg)" by fastforce
  obtain r1 c1 w1 where p: "parse_port optarg cfg w = (r1, c1, w1)" by (metis prod_cases3)
  obtain r2 c2 w2 where k: "store_access_key cfg optarg w = (r2, c2, w2)" by (metis prod_cases3)
  obtain r3 c3 w3 where f: "read_key_from_file e key cfg optarg w = (r3, c3, w3)" by (metis prod_cases3)
  obtain r4 c4 io4 w4 where i: "read_key_from_stdin e key (cfg\<lparr>cfg_key_from_stdin := True\<rparr>) io w = (r4, c4, io4, w4)"
    by (metis prod_cases4)
  show ?case using Cons.prems Cons.IH p k f i unfolding oa by (auto split: if_splits)
qed simp

lemma validate_config_ok:
  assumes "validate_config e prog cfg w = (CLI_OK, cfg', w')" "cfg_ok cfg"
  shows "cfg_ok cfg'" "cfg_mode cfg' = cfg_mode cfg" "12 \<le> c_strlen (cfg_access_key cfg')"
    "cfg_mode cfg' = MODE_CLIENT \<Longrightarrow> cfg_server_ip cfg' ! 0 \<noteq> 0"
proof -
  define c where "c = (if cfg_mode cfg = MODE_CLIENT \<and> cfg_client_name cfg ! 0 = 0
     then (case ae_gethostname e of
             Some name \<Rightarrow> cfg\<lparr>cfg_client_name := memcpy_at 0 (take (TUND_NAME_LEN - 1) (name @ [0])) (cfg_client_name cfg)\<rparr>
           | None \<Rightarrow> cfg\<lparr>cfg_client_name := strncpy (cfg_client_name cfg) (lit ''tund-client'') (TUND_NAME_LEN - 1)\<rparr>)
     else cfg)"
  have "cfg_ok c" "cfg_mode c = cfg_mode cfg" "cfg_server_ip c = cfg_server_ip cfg"
    using assms(2) cfg_ok_fields(2,3) [OF assms(2)] by (auto simp: c_def simp del: take_append split: option.splits)
  moreover have "cfg' = c" "\<not> c_strlen (cfg_access_key c) < 12" "cfg_mode cfg = MODE_CLIENT \<Longrightarrow> cfg_server_ip cfg ! 0 \<noteq> 0"
    using assms(1) by (auto simp: validate_config_def c_def [symmetric] Let_def split: if_splits)
  ultimately show "cfg_ok cfg'" "cfg_mode cfg' = cfg_mode cfg" "12 \<le> c_strlen (cfg_access_key cfg')"
    "cfg_mode cfg' = MODE_CLIENT \<Longrightarrow> cfg_server_ip cfg' ! 0 \<noteq> 0" by simp_all
qed

lemma c_str_nonempty: "a \<noteq> [] \<Longrightarrow> a ! 0 \<noteq> 0 \<Longrightarrow> c_str a \<noteq> []"
  by (cases a) (simp_all add: c_str_def)

lemma cli_parse_valid:
  assumes "cli_parse getopt_long e key argv io w = (CLI_OK, cfg, io', w')"
  shows "2 \<le> length argv" "c_str (argv ! 1) = (case cfg_mode cfg of MODE_SERVER \<Rightarrow> lit ''server'' | MODE_CLIENT \<Rightarrow> lit ''client'')"
    "cfg_ok cfg" "12 \<le> c_strlen (cfg_access_key cfg)" "cfg_mode cfg = MODE_CLIENT \<Longrightarrow> cfg_server_ip cfg ! 0 \<noteq> 0"
proof -
  obtain r1 c1 w1 where m: "parse_mode (argv ! 0) (argv ! 1) config0 w = (r1, c1, w1)" by (metis prod_cases3)
  obtain r2 c2 io2 w2 where o: "cli_options e key (argv ! 0) (getopt_long argv) KEY_SOURCE_NONE c1 io w1 = (r2, c2, io2, w2)"
    by (metis prod_cases4)
  have n: "2 \<le> length argv" "r1 = CLI_OK"
    using assms m by (auto simp: cli_parse_def split: if_splits)
  then have md: "cfg_ok c1" "c_str (argv ! 1) = (case cfg_mode c1 of MODE_SERVER \<Rightarrow> lit ''server'' | MODE_CLIENT \<Rightarrow> lit ''client'')"
    using m cfg_ok_fields(8) [OF config0_ok] by (auto simp: parse_mode_def split: if_splits)
  have o2: "cfg_ok c2" "cfg_mode c2 = cfg_mode c1" using cli_options_ok [OF o md(1)] by auto
  have "r2 = None \<and> (\<exists>w3. validate_config e (argv ! 0) c2 w2 = (CLI_OK, cfg, w3)) \<or> r2 = Some CLI_OK"
    using assms m n o by (auto simp: cli_parse_def split: option.splits prod.splits if_splits)
  moreover have "r2 \<noteq> Some CLI_OK" by (rule cli_options_result [OF o])
  ultimately obtain w3 where v: "validate_config e (argv ! 0) c2 w2 = (CLI_OK, cfg, w3)" by blast
  note ok = validate_config_ok [OF v o2(1)]
  show "2 \<le> length argv" "c_str (argv ! 1) = (case cfg_mode cfg of MODE_SERVER \<Rightarrow> lit ''server'' | MODE_CLIENT \<Rightarrow> lit ''client'')"
    "cfg_ok cfg" "12 \<le> c_strlen (cfg_access_key cfg)" "cfg_mode cfg = MODE_CLIENT \<Longrightarrow> cfg_server_ip cfg ! 0 \<noteq> 0"
    using n(1) md(2) o2(2) ok by simp_all
qed

text \<open>
  C37: the command line lets only usable configurations through, whatever \<open>getopt_long\<close>, the terminal and
  the files answer: the mode is the one named by the first argument, the port is not zero, the key has
  12 to 127 characters, a client has a server to connect to, and every string is terminated inside its
  array.
\<close>

theorem cli_accepts_only_valid:
  assumes "cli_parse getopt_long e key argv io w = (CLI_OK, cfg, io', w')"
  shows "2 \<le> length argv \<and> c_str (argv ! 1) = (case cfg_mode cfg of MODE_SERVER \<Rightarrow> lit ''server'' | MODE_CLIENT \<Rightarrow> lit ''client'') \<and>
    1 \<le> cfg_port cfg \<and> c_strlen (cfg_access_key cfg) \<in> {12..127} \<and>
    (cfg_mode cfg = MODE_CLIENT \<longrightarrow> c_str (cfg_server_ip cfg) \<noteq> []) \<and>
    length (cfg_server_ip cfg) = 64 \<and> 0 \<in> set (cfg_server_ip cfg) \<and>
    length (cfg_client_name cfg) = 32 \<and> 0 \<in> set (cfg_client_name cfg) \<and>
    length (cfg_access_key cfg) = 128 \<and> 0 \<in> set (cfg_access_key cfg)"
proof -
  note ok = cli_parse_valid [OF assms]
  have t: "0 \<in> set (cfg_server_ip cfg)" "0 \<in> set (cfg_client_name cfg)"
    using ok(3) nth_mem [of 63 "cfg_server_ip cfg"] nth_mem [of 31 "cfg_client_name cfg"] by (auto simp: cfg_ok_def)
  have "c_strlen (cfg_access_key cfg) \<le> 127" using ok(3) terminated_c_strlen by (fastforce simp: cfg_ok_def)
  moreover have "c_str (cfg_server_ip cfg) \<noteq> []" if "cfg_mode cfg = MODE_CLIENT"
  proof (rule c_str_nonempty)
    have "length (cfg_server_ip cfg) = 64" using ok(3) by (simp add: cfg_ok_def)
    then show "cfg_server_ip cfg \<noteq> []" by auto
  qed (use ok(5) that in simp)
  ultimately show ?thesis using ok t by (auto simp: cfg_ok_def terminated_def)
qed

definition demo_app_env :: app_env where
  "demo_app_env = \<lparr>ae_stdin_tty = False, ae_geteuid = 0, ae_gethostname = Some (lit ''box''), ae_fopen = (\<lambda>_. Inl 2),
     ae_tcgetattr = False, ae_tcsetattr_hide = False, ae_tcsetattr_restore = False\<rparr>"

definition demo_io :: "bytes \<Rightarrow> app_io" where
  "demo_io input = \<lparr>io_stdin = \<lparr>st_data = input, st_error = False, st_eof = False\<rparr>, io_echo = True, io_signals = []\<rparr>"

definition demo_getopt :: "bytes list \<Rightarrow> (nat \<times> bytes) list" where
  "demo_getopt argv = [(112, lit ''4000''), (107, lit ''correct-horse''), (115, lit ''203.0.113.10'')]"

definition demo_argv :: "bytes list" where
  "demo_argv = [lit ''tund-cli'', lit ''client'', lit ''-p'', lit ''4000'', lit ''-k'', lit ''correct-horse'', lit ''-s'', lit ''203.0.113.10'']"

lemma demo_cli_parse:
  "fst (cli_parse demo_getopt demo_app_env (zeros 130) demo_argv (demo_io []) demo_world) = CLI_OK"
  by code_simp

theorem cli_accepts_only_valid_witness:
  "\<exists>cfg io' w'. cli_parse demo_getopt demo_app_env (zeros 130) demo_argv (demo_io []) demo_world = (CLI_OK, cfg, io', w') \<and>
     c_str (cfg_server_ip cfg) \<noteq> []"
proof -
  obtain cfg io' w' where c: "cli_parse demo_getopt demo_app_env (zeros 130) demo_argv (demo_io []) demo_world = (CLI_OK, cfg, io', w')"
    using demo_cli_parse by (metis prod.collapse)
  have ne: "lit ''client'' \<noteq> lit ''server''" "c_str (demo_argv ! 1) = lit ''client''" by code_simp+
  from cli_accepts_only_valid [OF c] ne have "cfg_mode cfg = MODE_CLIENT" by (cases "cfg_mode cfg") auto
  then show ?thesis using cli_accepts_only_valid [OF c] c by blast
qed

section \<open>Ports and keys\<close>

text \<open>What the user may write for a port: spaces, a plus sign or none, and decimal digits.\<close>

definition port_syntax :: "bytes \<Rightarrow> nat \<Rightarrow> bool" where
  "port_syntax s n \<longleftrightarrow>
     (\<exists>ws sg ds. s = ws @ sg @ ds \<and> list_all isspace ws \<and> (sg = [] \<or> sg = [43]) \<and>
        ds \<noteq> [] \<and> list_all isdigit ds \<and> digits_val ds = n)"

lemma digit_not_space: "isdigit b \<Longrightarrow> \<not> isspace b" "isdigit b \<Longrightarrow> b \<noteq> 43 \<and> b \<noteq> 45" "\<not> isspace 43" "\<not> isspace 45"
  by (auto simp: isdigit_def isspace_def word_le_nat_alt)

lemma takeWhile_prefix: "list_all P xs \<Longrightarrow> ys = [] \<or> \<not> P (hd ys) \<Longrightarrow> takeWhile P (xs @ ys) = xs"
  by (induction xs) (cases ys; auto)+

lemma strtol_syntax:
  assumes "port_syntax s n"
  shows "strtol s = (min (2 ^ 63 - 1) (int n), length s)" "s \<noteq> []"
proof -
  obtain ws sg ds where s: "s = ws @ sg @ ds" "list_all isspace ws" "sg = [] \<or> sg = [43]" "ds \<noteq> []" "list_all isdigit ds"
      "digits_val ds = n"
    using assms by (auto simp: port_syntax_def)
  have d: "isdigit (hd ds)" using s(4,5) by (cases ds) auto
  have "takeWhile isspace s = ws"
    unfolding s(1) using s(2,3,4) d digit_not_space by (intro takeWhile_prefix) auto
  moreover have "takeWhile isdigit ds = ds" using takeWhile_prefix [OF s(5), of "[]"] by simp
  ultimately show "strtol s = (min (2 ^ 63 - 1) (int n), length s)"
    using s(1,3,4,6) digit_not_space(2) [OF d]
    by (auto simp: strtol_def Let_def hd_append simp del: takeWhile_eq_all_conv)
  show "s \<noteq> []" using s by simp
qed

lemma strtol_syntaxD:
  assumes "strtol s = (v, length s)" "s \<noteq> []" "1 \<le> v" "v \<le> 65535"
  shows "port_syntax s (nat v)"
proof -
  define ws where "ws = takeWhile isspace s"
  define r where "r = drop (length ws) s"
  define sg where "sg = (if r \<noteq> [] \<and> (hd r = 43 \<or> hd r = 45) then 1 else 0 :: nat)"
  define ds where "ds = takeWhile isdigit (drop sg r)"
  have st: "strtol s = (if ds = [] then (0, 0) else
      (max (- (2 ^ 63)) (min (2 ^ 63 - 1) (if r \<noteq> [] \<and> hd r = 45 then - int (digits_val ds) else int (digits_val ds))),
       length ws + sg + length ds))"
    by (simp add: strtol_def Let_def ws_def r_def sg_def ds_def)
  then have ds: "ds \<noteq> []" using assms(1,2) by auto
  have len: "length ws + sg + length ds = length s" using st assms(1) ds by simp
  have neg: "\<not> (r \<noteq> [] \<and> hd r = 45)" and v: "v = int (digits_val ds)"
    using st assms(1,3,4) ds by (auto split: if_splits)
  have sr: "s = ws @ r" unfolding r_def ws_def by (metis append_take_drop_id takeWhile_eq_take)
  have rr: "r = take sg r @ ds"
  proof -
    have "length (drop sg r) = length ds" using len sr ds unfolding sg_def by (auto simp: ds_def)
    then have "drop sg r = ds" unfolding ds_def by (metis le_refl takeWhile_eq_take take_all)
    then show ?thesis by (metis append_take_drop_id)
  qed
  have "take sg r = [] \<or> take sg r = [43]" using neg by (cases r) (auto simp: sg_def)
  moreover have "list_all isspace ws" "list_all isdigit ds"
    unfolding ws_def ds_def by (auto simp: list_all_iff dest: set_takeWhileD)
  ultimately show ?thesis unfolding port_syntax_def using sr rr ds v by (metis nat_int)
qed

lemma strtol_stop:
  assumes "strtol s = (v, k)"
  shows "k \<le> length s"
proof -
  define ws where "ws = length (takeWhile isspace s)"
  define r where "r = drop ws s"
  define sg where "sg = (if r \<noteq> [] \<and> (hd r = 43 \<or> hd r = 45) then 1 else 0 :: nat)"
  define ds where "ds = takeWhile isdigit (drop sg r)"
  have "k = (if ds = [] then 0 else ws + sg + length ds)"
    using assms by (auto simp: strtol_def Let_def ws_def r_def sg_def ds_def split: if_splits)
  moreover have "ws \<le> length s" "sg \<le> length r" "length ds \<le> length r - sg"
    using length_takeWhile_le [of isspace s] length_takeWhile_le [of isdigit "drop sg r"]
    by (auto simp: ws_def sg_def ds_def Suc_le_eq)
  moreover have "length r = length s - ws" by (simp add: r_def)
  ultimately show ?thesis by auto
qed

lemma digits_val_fmt_u: "list_all isdigit (fmt_u n) \<and> digits_val (fmt_u n) = n \<and> fmt_u n \<noteq> []"
proof (induction n rule: fmt_u.induct)
  case (1 n)
  have dg: "isdigit (digit k)" "unat (digit k) - 48 = k" if "k < 10" for k
  proof -
    have "unat (of_nat (48 + k) :: u8) = 48 + k" unfolding unat_of_nat using that by simp
    then have "unat (digit k) = 48 + k" using that by (simp add: digit_def)
    then show "isdigit (digit k)" "unat (digit k) - 48 = k" using that by (simp_all add: isdigit_def word_le_nat_alt)
  qed
  show ?case
  proof (cases "n < 10")
    case True
    then show ?thesis using dg by (subst (1 2 3) fmt_u.simps) (simp add: digits_val_def)
  next
    case False
    then show ?thesis using 1 dg [of "n mod 10"] by (subst (1 2 3) fmt_u.simps) (simp add: digits_val_def)
  qed
qed

text \<open>
  The port option is read exactly: \<open>parse_port\<close> accepts an argument if and only if it is, after
  spaces and an optional plus sign, a decimal number from 1 to 65535 and nothing else; it stores this
  number, without wrap-around, and leaves the configuration alone otherwise.
\<close>

theorem parse_port_exact:
  "case parse_port value cfg w of (res, cfg', w') \<Rightarrow>
     (res = CLI_OK \<longleftrightarrow> (\<exists>n. port_syntax (c_str value) n \<and> 1 \<le> n \<and> n \<le> 65535)) \<and>
     (res = CLI_OK \<longrightarrow> (\<exists>n. port_syntax (c_str value) n \<and> unat (cfg_port cfg') = n \<and> cfg' = cfg\<lparr>cfg_port := of_nat n\<rparr> \<and> w' = w)) \<and>
     (res \<noteq> CLI_OK \<longrightarrow> res = CLI_EXIT_ERROR \<and> cfg' = cfg)"
proof -
  obtain v stop where st: "strtol (c_str value) = (v, stop)" by fastforce
  let ?s = "c_str value"
  have le: "stop \<le> length ?s" by (rule strtol_stop [OF st])
  have iff: "stop \<noteq> 0 \<and> \<not> stop < c_strlen value \<and> 1 \<le> v \<and> v \<le> 65535 \<longleftrightarrow> (\<exists>n. port_syntax ?s n \<and> 1 \<le> n \<and> n \<le> 65535 \<and> v = int n)"
  proof
    assume a: "stop \<noteq> 0 \<and> \<not> stop < c_strlen value \<and> 1 \<le> v \<and> v \<le> 65535"
    then have "stop = length ?s" "?s \<noteq> []" using le by (auto simp: c_strlen_def)
    then have "port_syntax ?s (nat v)" using strtol_syntaxD st a by simp
    then show "\<exists>n. port_syntax ?s n \<and> 1 \<le> n \<and> n \<le> 65535 \<and> v = int n" using a by (intro exI [of _ "nat v"]) auto
  next
    assume "\<exists>n. port_syntax ?s n \<and> 1 \<le> n \<and> n \<le> 65535 \<and> v = int n"
    then obtain n where n: "port_syntax ?s n" "1 \<le> n" "n \<le> 65535" "v = int n" by blast
    moreover have "stop = length ?s" "?s \<noteq> []" using strtol_syntax [OF n(1)] unfolding st by simp_all
    ultimately show "stop \<noteq> 0 \<and> \<not> stop < c_strlen value \<and> 1 \<le> v \<and> v \<le> 65535" by (simp add: c_strlen_def)
  qed
  have val: "port_syntax ?s n \<Longrightarrow> n \<le> 65535 \<Longrightarrow> v = int n" for n using strtol_syntax(1) [of ?s n] unfolding st by simp
  have eq: "parse_port value cfg w = (if stop \<noteq> 0 \<and> \<not> stop < c_strlen value \<and> 1 \<le> v \<and> v \<le> 65535
      then (CLI_OK, cfg\<lparr>cfg_port := of_int v\<rparr>, w)
      else (CLI_EXIT_ERROR, cfg, fput_stderr (lit ''Error: invalid port '' @ [39] @ ?s @ [39] @ lit '' (use 1-65535)'' @ [10, 10]) w))"
    by (auto simp: parse_port_def st)
  show ?thesis
  proof (cases "\<exists>n. port_syntax ?s n \<and> 1 \<le> n \<and> n \<le> 65535 \<and> v = int n")
    case True
    then obtain n where n: "port_syntax ?s n" "1 \<le> n" "n \<le> 65535" "v = int n" by blast
    have "unat (of_nat n :: u16) = n" using n(3) by (intro unat_of_nat_u16) simp
    moreover have "parse_port value cfg w = (CLI_OK, cfg\<lparr>cfg_port := of_nat n\<rparr>, w)" using True n(4) unfolding eq iff by simp
    ultimately show ?thesis using n by auto
  next
    case False
    then have "\<not> (\<exists>n. port_syntax ?s n \<and> 1 \<le> n \<and> n \<le> 65535)" using val by blast
    moreover have "parse_port value cfg w = (CLI_EXIT_ERROR, cfg, fput_stderr (lit ''Error: invalid port '' @ [39] @ ?s @ [39] @
        lit '' (use 1-65535)'' @ [10, 10]) w)"
      unfolding eq iff using False by (simp only: if_False)
    ultimately show ?thesis by simp
  qed
qed

theorem parse_port_exact_witness:
  "parse_port (lit ''4000'') config0 demo_world = (CLI_OK, config0\<lparr>cfg_port := 4000\<rparr>, demo_world)"
proof -
  have f: "c_str (lit ''4000'') = fmt_u 4000" by code_simp
  have p: "port_syntax (fmt_u 4000) 4000"
    unfolding port_syntax_def using digits_val_fmt_u [of 4000] by (intro exI [of _ "[]"] exI [of _ "fmt_u 4000"]) simp
  have u: "n = 4000" if "port_syntax (fmt_u 4000) n" for n
    using strtol_syntax(1) [OF that] strtol_syntax(1) [OF p] by (auto simp: min_def split: if_splits)
  obtain r c v where e: "parse_port (lit ''4000'') config0 demo_world = (r, c, v)" by (metis prod_cases3)
  note pp = parse_port_exact [of "lit ''4000''" config0 demo_world, unfolded e f prod.case]
  have ok: "r = CLI_OK" using pp p by auto
  then obtain n where "port_syntax (fmt_u 4000) n" "c = config0\<lparr>cfg_port := of_nat n\<rparr>" "v = demo_world" using pp by blast
  then show ?thesis using u [of n] ok e by simp
qed

text \<open>What \<open>fgets\<close> returns for a line that fits, for one that does not, and for a last line without its end.\<close>

lemma fgets_newline:
  assumes "st_data s = l @ 10 # rest" "10 \<notin> set l" "length l < sz - 1"
  shows "fgets sz s = (Some (l @ [10]), s\<lparr>st_data := rest\<rparr>)"
proof -
  have "take (sz - 1) (st_data s) = l @ 10 # take (sz - 2 - length l) rest"
  proof -
    have "sz - 1 = length l + Suc (sz - 2 - length l)" using assms(3) by simp
    then show ?thesis unfolding assms(1) by (metis append_eq_conv_conj take_Suc_Cons take_add append_take_drop_id)
  qed
  moreover have "takeWhile (\<lambda>b. b \<noteq> 10) (l @ 10 # xs) = l" for xs using assms(2) by (auto simp: takeWhile_append)
  ultimately show ?thesis using assms(1) by (simp add: fgets_def Let_def)
qed

lemma fgets_no_newline:
  assumes "st_data s = l @ rest" "10 \<notin> set l"
  shows "sz - 1 \<le> length l \<Longrightarrow> fgets sz s = (Some (take (sz - 1) l), s\<lparr>st_data := drop (sz - 1) l @ rest\<rparr>)"
    "rest = [] \<Longrightarrow> \<not> st_error s \<Longrightarrow> l \<noteq> [] \<Longrightarrow> length l < sz - 1 \<Longrightarrow> fgets sz s = (Some l, s\<lparr>st_data := [], st_eof := True\<rparr>)"
proof -
  have "takeWhile (\<lambda>b. b \<noteq> 10) (take k l) = take k l" for k
    using assms(2) by (auto dest: in_set_takeD)
  note tw = this this [of "length l", unfolded take_all [OF order.refl]]
  show "sz - 1 \<le> length l \<Longrightarrow> fgets sz s = (Some (take (sz - 1) l), s\<lparr>st_data := drop (sz - 1) l @ rest\<rparr>)"
    "rest = [] \<Longrightarrow> \<not> st_error s \<Longrightarrow> l \<noteq> [] \<Longrightarrow> length l < sz - 1 \<Longrightarrow> fgets sz s = (Some l, s\<lparr>st_data := [], st_eof := True\<rparr>)"
    using assms tw by (simp_all add: fgets_def Let_def del: takeWhile_eq_all_conv)
qed

text \<open>The end of a line as text files have it: none on the last one.\<close>

definition line_end :: "stream \<Rightarrow> bytes \<Rightarrow> bytes \<Rightarrow> bool" where
  "line_end s eol rest \<longleftrightarrow> eol = [10] \<or> eol = [13, 10] \<or> eol = [] \<and> rest = [] \<and> \<not> st_error s"

lemma line_end_cases:
  assumes "line_end s eol rest"
  obtains (lf) "eol = [10]" | (crlf) "eol = [13, 10]" | (eof) "eol = []" "rest = []" "\<not> st_error s"
  using assms by (auto simp: line_end_def)

lemma fgets_line:
  assumes "st_data s = line @ eol @ rest" "line_end s eol rest" "10 \<notin> set line" "line \<noteq> [] \<or> eol \<noteq> []"
  defines "l \<equiv> line @ takeWhile (\<lambda>b. b \<noteq> 10) eol"
  shows "length l < sz - 1 \<Longrightarrow> fgets sz s = (Some (line @ eol), s\<lparr>st_data := rest, st_eof := st_eof s \<or> eol = []\<rparr>)"
    "sz - 1 \<le> length l \<Longrightarrow> \<exists>r. fgets sz s = (Some (take (sz - 1) l), s\<lparr>st_data := r\<rparr>)"
proof -
  show "fgets sz s = (Some (line @ eol), s\<lparr>st_data := rest, st_eof := st_eof s \<or> eol = []\<rparr>)" if "length l < sz - 1"
    using assms(2)
  proof (cases rule: line_end_cases)
    case lf then show ?thesis using assms that fgets_newline [of s line rest sz] by simp
  next
    case crlf then show ?thesis using assms that fgets_newline [of s "line @ [13]" rest sz] by simp
  next
    case eof then show ?thesis using assms that fgets_no_newline(2) [of s line "[]" sz] by simp
  qed
  have "10 \<notin> set l" using assms(3) by (auto simp: l_def dest: set_takeWhileD)
  moreover have "\<exists>r. st_data s = l @ r"
    using assms(1) takeWhile_dropWhile_id [of "\<lambda>b. b \<noteq> 10" eol] unfolding l_def by (metis append.assoc)
  ultimately show "\<exists>r. fgets sz s = (Some (take (sz - 1) l), s\<lparr>st_data := r\<rparr>)" if "sz - 1 \<le> length l"
    using fgets_no_newline(1) [of s l _ sz] that by blast
qed

lemma trim_line_end_str:
  assumes "set line \<inter> {0, 10, 13} = {}" "line_end s eol rest"
  shows "c_str (trim_line_end (line @ eol @ 0 # xs)) = line"
proof -
  have nz: "0 \<notin> set line" "0 \<notin> set (line @ eol)" using assms by (auto simp: line_end_def)
  have tw: "takeWhile (\<lambda>b. b \<noteq> 13 \<and> b \<noteq> 10) (line @ eol) = line"
    using assms by (auto simp: line_end_def takeWhile_append)
  have "c_str (line @ eol @ 0 # xs) = line @ eol" using c_str_append_nul [OF nz(2)] by simp
  then have "strcspn_eol (line @ eol @ 0 # xs) = length line" unfolding strcspn_eol_def using tw by simp
  moreover have "(line @ y # ys)[length line := 0] = line @ 0 # ys" for y ys by simp
  ultimately have "\<exists>ys. trim_line_end (line @ eol @ 0 # xs) = line @ 0 # ys"
    using assms(2) by (cases eol) (simp_all add: trim_line_end_def)
  then show ?thesis using nz(1) by auto
qed

lemma read_key_line_whole:
  assumes "fgets 130 stream = (Some line, stream')" "buf = memcpy_at 0 (line @ [0]) key" "10 \<in> set (c_str buf) \<or> st_eof stream'"
  shows "read_key_line key cfg stream source w =
    (case store_access_key cfg (trim_line_end buf) w of
       (result, cfg, w) \<Rightarrow> (result, cfg, stream', w, tund_wipe_secret (trim_line_end buf) 130))"
  using assms by (auto simp: read_key_line_def Let_def)



end
