(* ===== verification/Tun_Interface.thy ===== *)
theory Tun_Interface
  imports Prelude
begin

text \<open>
  The contract of \<open>src/tun/tun.h\<close> that the client and the server rely on, for every platform: opening a
  device is all or nothing, the other operations leave no resource of the kernel behind, closing gives
  back what opening took, and packets pass unchanged between the program and the driver whatever frame
  the driver puts around them. The theories \<open>Tun_Linux\<close>, \<open>Tun_Darwin\<close> and \<open>Tun_Windows\<close> interpret both
  locales on the three implementations.
\<close>

section \<open>Lifetime\<close>

datatype tun_op = TunRead nat | TunWrite bytes nat | TunSetIp u32 u32 | TunSetMtu int

text \<open>A sequence of operations on an open device; \<open>None\<close> when one of them does not return.\<close>

fun tun_ops :: "(tun_op \<Rightarrow> 'd \<Rightarrow> 's \<Rightarrow> ('d \<times> 's) option) \<Rightarrow> tun_op list \<Rightarrow> 'd \<Rightarrow> 's \<Rightarrow> ('d \<times> 's) option" where
  "tun_ops f [] d s = Some (d, s)"
| "tun_ops f (x # xs) d s = (case f x d s of None \<Rightarrow> None | Some (d, s) \<Rightarrow> tun_ops f xs d s)"

text \<open>
  The resources held after a device was opened, used and closed, or after it failed to open; \<open>None\<close> when
  an operation does not return.
\<close>

definition session_held ::
    "('d \<Rightarrow> 's \<Rightarrow> int \<times> 'd \<times> 's) \<Rightarrow> ('d \<Rightarrow> 's \<Rightarrow> 'd \<times> 's) \<Rightarrow> (tun_op \<Rightarrow> 'd \<Rightarrow> 's \<Rightarrow> ('d \<times> 's) option) \<Rightarrow>
     ('s \<Rightarrow> 'h set) \<Rightarrow> tun_op list \<Rightarrow> 'd \<Rightarrow> 's \<Rightarrow> 'h set option" where
  "session_held topen tclose tapply held xs d s =
     (case topen d s of (r, d, s) \<Rightarrow>
        if r < 0 then Some (held s)
        else case tun_ops tapply xs d s of
               None \<Rightarrow> None
             | Some (d, s) \<Rightarrow> Some (held (snd (tclose d s))))"

lemma tun_ops_total: "(\<And>x d s. tapply x d s \<noteq> None) \<Longrightarrow> tun_ops tapply xs d s \<noteq> None"
  by (induction xs arbitrary: d s) (auto split: option.splits)

lemma session_held_total:
  assumes "\<And>x d s. tapply x d s \<noteq> None"
  shows "\<exists>H. session_held topen tclose tapply held xs d s = Some H"
proof -
  obtain r d1 s1 where o: "topen d s = (r, d1, s1)" using prod_cases3 by blast
  obtain d2 s2 where "tun_ops tapply xs d1 s1 = Some (d2, s2)" using tun_ops_total [of tapply xs d1 s1] assms by auto
  then show ?thesis by (simp add: session_held_def o)
qed

text \<open>\<open>held\<close>: the kernel resources the process holds; \<open>mine\<close>: those a device stands for.\<close>

locale tun_lifetime =
  fixes topen :: "'d \<Rightarrow> 's \<Rightarrow> int \<times> 'd \<times> 's"
    and tclose :: "'d \<Rightarrow> 's \<Rightarrow> 'd \<times> 's"
    and tapply :: "tun_op \<Rightarrow> 'd \<Rightarrow> 's \<Rightarrow> ('d \<times> 's) option"
    and held :: "'s \<Rightarrow> 'h set"
    and mine :: "'d \<Rightarrow> 'h set"
  assumes open_fails: "topen d s = (r, d', s') \<Longrightarrow> r < 0 \<Longrightarrow> held s' \<subseteq> held s"
    and open_works: "topen d s = (r, d', s') \<Longrightarrow> \<not> r < 0 \<Longrightarrow> held s' = held s \<union> mine d' \<and> mine d' \<noteq> {}"
    and apply_keeps: "tapply x d s = Some (d', s') \<Longrightarrow> held s' \<subseteq> held s \<and> mine d' = mine d"
    and close_frees: "tclose d s = (d', s') \<Longrightarrow> held s' = held s - mine d"
begin

lemma ops_keep: "tun_ops tapply xs d s = Some (d', s') \<Longrightarrow> held s' \<subseteq> held s \<and> mine d' = mine d"
proof (induction xs arbitrary: d s)
  case (Cons x xs)
  then obtain d1 s1 where "tapply x d s = Some (d1, s1)" "tun_ops tapply xs d1 s1 = Some (d', s')"
    by (auto split: option.splits)
  with Cons.IH apply_keeps [of x d s d1 s1] show ?case by blast
qed simp

lemma session_frees: "session_held topen tclose tapply held xs d s = Some H \<Longrightarrow> H \<subseteq> held s"
proof -
  assume h: "session_held topen tclose tapply held xs d s = Some H"
  obtain r d1 s1 where o: "topen d s = (r, d1, s1)" using prod_cases3 by blast
  show ?thesis
  proof (cases "r < 0")
    case True
    then show ?thesis using h o open_fails [OF o] by (simp add: session_held_def)
  next
    case False
    then obtain d2 s2 where x: "tun_ops tapply xs d1 s1 = Some (d2, s2)" "H = held (snd (tclose d2 s2))"
      using h o by (auto simp: session_held_def split: option.splits)
    then show ?thesis
      using open_works [OF o False] ops_keep [OF x(1)] close_frees [of d2 s2 "fst (tclose d2 s2)" "snd (tclose d2 s2)"] by auto
  qed
qed

end

section \<open>Transfer\<close>

text \<open>
  \<open>frame\<close> is what the driver sees of a packet; \<open>arriving d s f\<close> says that the next read of the device
  finds the frame \<open>f\<close>, \<open>accepts d s\<close> that the driver takes the next frame whole, \<open>out\<close> lists the frames it
  has taken and \<open>cap\<close> is the largest packet.
\<close>

locale tun_transfer =
  fixes tread :: "'d \<Rightarrow> nat \<Rightarrow> 's \<Rightarrow> (int \<times> bytes \<times> 's) option"
    and twrite :: "'d \<Rightarrow> bytes \<Rightarrow> nat \<Rightarrow> 's \<Rightarrow> int \<times> 's"
    and frame :: "bytes \<Rightarrow> bytes"
    and arriving :: "'d \<Rightarrow> 's \<Rightarrow> bytes \<Rightarrow> bool"
    and accepts :: "'d \<Rightarrow> 's \<Rightarrow> bool"
    and out :: "'s \<Rightarrow> bytes list"
    and cap :: nat
  assumes read_bound: "tread d n s = Some (k, p, s') \<Longrightarrow> n \<le> cap \<Longrightarrow> k \<le> int n \<and> (0 < k \<longrightarrow> int (length p) = k) \<and> out s' = out s"
    and read_frame: "arriving d s (frame p) \<Longrightarrow> 0 < length p \<Longrightarrow> length p \<le> n \<Longrightarrow> n \<le> cap \<Longrightarrow>
      \<exists>s'. tread d n s = Some (int (length p), p, s')"
    and write_frame: "accepts d s \<Longrightarrow> 0 < length p \<Longrightarrow> length p \<le> cap \<Longrightarrow>
      \<exists>s'. twrite d p (length p) s = (int (length p), s') \<and> out s' = out s @ [frame p]"
begin

text \<open>What one device writes, another device of the platform reads as it was.\<close>

lemma write_then_read:
  assumes "accepts d s" "0 < length p" "length p \<le> n" "n \<le> cap"
  shows "\<exists>s'. twrite d p (length p) s = (int (length p), s') \<and>
    (\<forall>e t. arriving e t (last (out s')) \<longrightarrow> (\<exists>t'. tread e n t = Some (int (length p), p, t')))"
proof -
  obtain s' where "twrite d p (length p) s = (int (length p), s')" "out s' = out s @ [frame p]"
    using write_frame [OF assms(1,2)] assms(3,4) by auto
  with read_frame [OF _ assms(2-4)] show ?thesis by auto
qed

text \<open>A packet read from one device and written to another leaves as the frame it came in.\<close>

lemma relay:
  assumes "arriving d s (frame p)" "0 < length p" "length p \<le> n" "n \<le> cap" "tread d n s = Some (k, q, s')" "accepts e s'"
  shows "\<exists>s''. twrite e q (nat k) s' = (int (length p), s'') \<and> out s'' = out s @ [frame p]"
proof -
  have "k = int (length p)" "q = p" using read_frame [OF assms(1-4)] assms(5) by auto
  moreover have "out s' = out s" using read_bound [OF assms(5,4)] by simp
  ultimately show ?thesis using write_frame [OF assms(6,2)] assms(3,4) by simp
qed

end
end
