(* ===== verification/Tun_Linux.thy ===== *)
theory Tun_Linux
  imports Network Tun_Interface
begin

text \<open>
  The TUN device on Linux (\<open>src/tun/tun.h\<close>, \<open>src/tun/linux/tun.c\<close>). The \<open>ioctl\<close> calls are outcomes of
  the environment; file descriptors are tracked in the world so that leaks are visible. Packets
  accepted by the kernel are recorded in \<open>w_tun_out\<close>.
\<close>

record tun_device_t =
  tun_fd :: int
  tun_ifname :: bytes
  tun_mtu :: int

definition tun_device0 :: tun_device_t where
  "tun_device0 = \<lparr>tun_fd = 0, tun_ifname = zeros 32, tun_mtu = 0\<rparr>"

definition fd_open :: "int \<Rightarrow> world \<Rightarrow> world" where
  "fd_open fd w = w\<lparr>w_open_fds := w_open_fds w @ [fd]\<rparr>"

definition fd_close :: "int \<Rightarrow> world \<Rightarrow> world" where
  "fd_close fd w = w\<lparr>w_open_fds := removeAll fd (w_open_fds w)\<rparr>"

text \<open>\<open>LOG_ERROR(.. strerror(errno))\<close>, then \<open>return -1\<close>.\<close>

definition fail_errno :: "bytes \<Rightarrow> bytes \<Rightarrow> world \<Rightarrow> world" where
  "fail_errno before after w =
     (let (err, w) = syscall sys_errno w in LOG_ERROR (before @ sys_strerror (w_env w) err @ after) w)"

definition tun_open :: "tun_device_t \<Rightarrow> world \<Rightarrow> int \<times> tun_device_t \<times> world" where
  "tun_open dev w =
     (let (fd, w) = syscall sys_open_tun w
      in if fd < 0
         then (-1, dev, fail_errno (lit ''Cannot open /dev/net/tun: '')
                 (lit ''. Run with sudo/CAP_NET_ADMIN and ensure the tun kernel module is available.'') w)
         else
           let w = fd_open fd w;
               (ifr_name, w) = syscall sys_tun_name w;
               (r, w) = syscall sys_ioctl w
           in if r < 0
              then (-1, dev, fd_close fd (fail_errno (lit ''Cannot create Linux TUN interface: '')
                      (lit ''. Run with sudo/CAP_NET_ADMIN and check /dev/net/tun.'') w))
              else
                let dev = dev\<lparr>tun_fd := fd,
                              tun_ifname := (strncpy (tun_ifname dev) ifr_name 31)[31 := 0],
                              tun_mtu := int TUND_TUN_MTU\<rparr>
                in (0, dev, LOG_INFO (lit ''TUN interface created: '' @ c_str (tun_ifname dev) @ lit '' (fd='' @
                                      fmt_d fd @ lit '')'') w))"

definition tun_close :: "tun_device_t \<Rightarrow> world \<Rightarrow> tun_device_t \<times> world" where
  "tun_close dev w =
     (if 0 \<le> tun_fd dev
      then (dev\<lparr>tun_fd := -1\<rparr>,
            fd_close (tun_fd dev) (LOG_INFO (lit ''Closing TUN interface: '' @ c_str (tun_ifname dev)) w))
      else (dev, w))"

definition tun_set_ip :: "tun_device_t \<Rightarrow> u32 \<Rightarrow> u32 \<Rightarrow> world \<Rightarrow> int \<times> world" where
  "tun_set_ip dev ip netmask w =
     (let (sock, w) = syscall sys_socket w
      in if sock < 0
         then (-1, fail_errno (lit ''Cannot open socket for Linux interface configuration: '') (lit ''.'') w)
         else
           let w = fd_open sock w;
               (r, w) = syscall sys_ioctl w
           in if r < 0
              then (-1, fd_close sock (fail_errno (lit ''Cannot set Linux TUN IP address: '')
                     (lit ''. Check privileges and whether 10.9.0.0/24 conflicts with another interface.'') w))
              else
           let (r, w) = syscall sys_ioctl w
           in if r < 0
              then (-1, fd_close sock (fail_errno (lit ''Cannot set Linux TUN netmask: '') (lit ''.'') w))
              else
           let (r, w) = syscall sys_ioctl w
           in if r < 0
              then (-1, fd_close sock (fail_errno (lit ''ioctl(SIOCGIFFLAGS) failed: '') [] w))
              else
           let (r, w) = syscall sys_ioctl w
           in if r < 0
              then (-1, fd_close sock (fail_errno (lit ''ioctl(SIOCSIFFLAGS) failed: '') [] w))
              else (0, LOG_INFO (lit ''Configured '' @ c_str (tun_ifname dev) @ lit '': '' @
                         ip_to_str_buf ip TUND_IP_STR_LEN @ lit ''/'' @
                         ip_to_str_buf netmask TUND_IP_STR_LEN) (fd_close sock w)))"

definition tun_set_mtu :: "tun_device_t \<Rightarrow> int \<Rightarrow> world \<Rightarrow> int \<times> tun_device_t \<times> world" where
  "tun_set_mtu dev mtu w =
     (let (sock, w) = syscall sys_socket w
      in if sock < 0 then (-1, dev, w)
         else
           let w = fd_open sock w;
               (r, w) = syscall sys_ioctl w
           in if r < 0
              then (-1, dev, fd_close sock (fail_errno (lit ''Cannot set Linux TUN MTU to '' @ fmt_d mtu @ lit '': '')
                                              (lit ''.'') w))
              else (0, dev\<lparr>tun_mtu := mtu\<rparr>,
                    LOG_INFO (lit ''MTU set to '' @ fmt_d mtu @ lit '' on '' @ c_str (tun_ifname dev)) (fd_close sock w)))"

text \<open>The count and the bytes that \<open>read\<close> stored, at most \<open>bufsize\<close>; zero when the poll timed out.\<close>

definition tun_read :: "tun_device_t \<Rightarrow> nat \<Rightarrow> world \<Rightarrow> int \<times> bytes \<times> world" where
  "tun_read dev bufsize w =
     (let (ready, w) = syscall sys_poll w
      in if ready \<le> 0 then (0, [], w)
         else case syscall sys_tun_read w of
                (ReadData d, w) \<Rightarrow> (int (min (length d) bufsize), take bufsize d, w)
              | (_, w) \<Rightarrow> (-1, [], w))"

definition tun_write :: "tun_device_t \<Rightarrow> bytes \<Rightarrow> nat \<Rightarrow> world \<Rightarrow> int \<times> world" where
  "tun_write dev buf len w =
     (let data = take len buf;
          (n, w) = syscall (\<lambda>e t. sys_tun_write e t data) w
      in (n, if n < 0 then w else w\<lparr>w_tun_out := w_tun_out w @ [take (nat n) data]\<rparr>))"

section \<open>Lemmas\<close>

lemma tun_write_frame:
  assumes "tun_write dev buf len w = (n, w')"
  shows "w_sent w' = w_sent w" "g_crypto_key w' = g_crypto_key w" "g_running w' = g_running w"
    "w_env w' = w_env w" "w_stdout w' = w_stdout w" "w_open_fds w' = w_open_fds w" "net_ok w' = net_ok w"
    "g_tui_active w' = g_tui_active w"
  using assms by (auto simp: tun_write_def syscall_def Let_def net_ok_def random_ok_def split: if_splits)

definition tun_write_ok :: "sysenv \<Rightarrow> bool" where
  "tun_write_ok e \<longleftrightarrow> (\<forall>t d. sys_tun_write e t d = int (length d))"

lemma tun_write_out:
  assumes "tun_write_ok (w_env w)" "len \<le> length buf"
  shows "w_tun_out (snd (tun_write dev buf len w)) = w_tun_out w @ [take len buf]"
  using assms by (simp add: tun_write_def syscall_def Let_def tun_write_ok_def)

lemma tun_read_bounds:
  assumes "tun_read dev sz w = (n, d, w')"
  shows "n \<le> int sz" "0 < n \<Longrightarrow> int (length d) = n" "w_core w' = w_core w"
  using assms
  by (auto simp: tun_read_def syscall_def w_core_def Let_def split: if_splits read_result.splits)

lemma fail_errno_core [simp]: "w_core (fail_errno a b w) = w_core w"
  by (simp add: fail_errno_def syscall_def w_core_def log_msg_def Let_def)

lemmas fail_errno_frame [simp, frame] = w_core_cong [OF fail_errno_core]

section \<open>File descriptors\<close>

text \<open>What POSIX promises of \<open>socket\<close>: a descriptor, or -1.\<close>

definition socket_posix :: "sysenv \<Rightarrow> bool" where
  "socket_posix e \<longleftrightarrow> (\<forall>t. -1 \<le> sys_socket e t)"

lemma fds_frame [simp]:
  "w_open_fds (fd_open fd w) = w_open_fds w @ [fd]" "w_open_fds (fd_close fd w) = removeAll fd (w_open_fds w)"
  "w_open_fds (sock_close fd w) = removeAll fd (w_open_fds w)"
  "w_env (fd_open fd w) = w_env w" "w_env (fd_close fd w) = w_env w" "w_env (sock_close fd w) = w_env w"
  by (simp_all add: fd_open_def fd_close_def sock_close_def)

lemma socket_fds:
  assumes "net_create_socket port w = (fd, w')" "socket_posix (w_env w)"
  shows "w_env w' = w_env w" "set (w_open_fds w') \<subseteq> set (w_open_fds w) \<union> (if 0 \<le> fd then {fd} else {})"
proof -
  have "-1 \<le> fst (syscall sys_socket w)" using assms(2) by (simp add: syscall_def socket_posix_def)
  then show "w_env w' = w_env w" "set (w_open_fds w') \<subseteq> set (w_open_fds w) \<union> (if 0 \<le> fd then {fd} else {})"
    using assms(1) by (auto simp: net_create_socket_def split_beta Let_def split: if_splits)
qed

lemma tun_open_fds:
  assumes "tun_open dev w = (r, dev', w')"
  shows "w_env w' = w_env w" "set (w_open_fds w') \<subseteq> set (w_open_fds w) \<union> (if r < 0 then {} else {tun_fd dev'})"
    "r < 0 \<Longrightarrow> dev' = dev" "\<not> r < 0 \<Longrightarrow> 0 \<le> tun_fd dev'"
  using assms by (auto simp: tun_open_def split_beta Let_def split: if_splits)

lemma tun_close_fds:
  assumes "tun_close dev w = (dev', w')"
  shows "w_env w' = w_env w" "tun_fd dev' < 0" "set (w_open_fds w') = set (w_open_fds w) - (if 0 \<le> tun_fd dev then {tun_fd dev} else {})"
  using assms by (auto simp: tun_close_def split: if_splits)

lemma tun_set_ip_fds:
  assumes "tun_set_ip dev ip nm w = (r, w')"
  shows "w_env w' = w_env w" "set (w_open_fds w') \<subseteq> set (w_open_fds w)"
  using assms by (auto simp: tun_set_ip_def split_beta Let_def split: if_splits)

lemma tun_set_mtu_fds:
  assumes "tun_set_mtu dev mtu w = (r, dev', w')"
  shows "w_env w' = w_env w" "set (w_open_fds w') \<subseteq> set (w_open_fds w)" "tun_fd dev' = tun_fd dev"
  using assms by (auto simp: tun_set_mtu_def split_beta Let_def split: if_splits)

section \<open>The contract of tun.h on Linux\<close>

definition tun_apply :: "tun_op \<Rightarrow> tun_device_t \<Rightarrow> world \<Rightarrow> (tun_device_t \<times> world) option" where
  "tun_apply x dev w =
     (case x of
        TunRead n \<Rightarrow> (case tun_read dev n w of (_, _, w) \<Rightarrow> Some (dev, w))
      | TunWrite buf n \<Rightarrow> (case tun_write dev buf n w of (_, w) \<Rightarrow> Some (dev, w))
      | TunSetIp ip netmask \<Rightarrow> (case tun_set_ip dev ip netmask w of (_, w) \<Rightarrow> Some (dev, w))
      | TunSetMtu mtu \<Rightarrow> (case tun_set_mtu dev mtu w of (_, dev, w) \<Rightarrow> Some (dev, w)))"

definition fd_set :: "int \<Rightarrow> int set" where
  "fd_set fd = (if 0 \<le> fd then {fd} else {})"

lemma tun_apply_fds:
  assumes "tun_apply x dev w = Some (dev', w')"
  shows "set (w_open_fds w') \<subseteq> set (w_open_fds w)" "tun_fd dev' = tun_fd dev"
  using assms w_core_cong(13) [OF tun_read_bounds(3) [of dev]] tun_write_frame(6) [of dev] tun_set_ip_fds(2) [of dev] tun_set_mtu_fds(2,3) [of dev]
  by (auto simp: tun_apply_def split: tun_op.splits prod.splits)

lemma tun_open_works:
  "tun_open dev w = (r, dev', w') \<Longrightarrow> \<not> r < 0 \<Longrightarrow> set (w_open_fds w') = set (w_open_fds w) \<union> fd_set (tun_fd dev')"
  by (auto simp: tun_open_def split_beta Let_def fd_set_def split: if_splits)

interpretation linux: tun_lifetime tun_open tun_close tun_apply "\<lambda>w. set (w_open_fds w)" "\<lambda>dev. fd_set (tun_fd dev)"
proof unfold_locales
  fix x d d' s s' r
  show "tun_open d s = (r, d', s') \<Longrightarrow> r < 0 \<Longrightarrow> set (w_open_fds s') \<subseteq> set (w_open_fds s)"
    using tun_open_fds(2) [of d s r d' s'] by simp
  show "tun_open d s = (r, d', s') \<Longrightarrow> \<not> r < 0 \<Longrightarrow>
      set (w_open_fds s') = set (w_open_fds s) \<union> fd_set (tun_fd d') \<and> fd_set (tun_fd d') \<noteq> {}"
    using tun_open_works [of d s r d' s'] tun_open_fds(4) [of d s r d' s'] by (auto simp: fd_set_def)
  show "tun_apply x d s = Some (d', s') \<Longrightarrow> set (w_open_fds s') \<subseteq> set (w_open_fds s) \<and> fd_set (tun_fd d') = fd_set (tun_fd d)"
    using tun_apply_fds [of x d s d' s'] by simp
  show "tun_close d s = (d', s') \<Longrightarrow> set (w_open_fds s') = set (w_open_fds s) - fd_set (tun_fd d)"
    using tun_close_fds(3) [of d s d' s'] by (simp add: fd_set_def)
qed

text \<open>The next poll of the device reports data and the read after it gives \<open>f\<close>.\<close>

definition tun_arriving :: "world \<Rightarrow> bytes \<Rightarrow> bool" where
  "tun_arriving w f \<longleftrightarrow> 0 < sys_poll (w_env w) (w_tick w) \<and> sys_tun_read (w_env w) (Suc (w_tick w)) = ReadData f"

interpretation linux_io: tun_transfer "\<lambda>dev n w. Some (tun_read dev n w)" tun_write id "\<lambda>_. tun_arriving" "\<lambda>_ w. tun_write_ok (w_env w)" w_tun_out 1600
proof unfold_locales
  fix d n s k p s'
  assume "Some (tun_read d n s) = Some (k, p, s')"
  then have r: "tun_read d n s = (k, p, s')" by simp
  show "k \<le> int n \<and> (0 < k \<longrightarrow> int (length p) = k) \<and> w_tun_out s' = w_tun_out s"
    using tun_read_bounds [OF r] w_core_cong(12) [OF tun_read_bounds(3) [OF r]] by simp
next
  fix d s and p :: bytes and n
  show "tun_arriving s (id p) \<Longrightarrow> length p \<le> n \<Longrightarrow> \<exists>s'. Some (tun_read d n s) = Some (int (length p), p, s')"
    by (simp add: tun_arriving_def tun_read_def syscall_def Let_def)
next
  fix d s and p :: bytes
  show "tun_write_ok (w_env s) \<Longrightarrow> \<exists>s'. tun_write d p (length p) s = (int (length p), s') \<and> w_tun_out s' = w_tun_out s @ [id p]"
    by (simp add: tun_write_def tun_write_ok_def syscall_def Let_def)
qed

end
