(* ===== verification/Sending.thy ===== *)
theory Sending
  imports Tun_Linux App_Events
begin

text \<open>
  What a piece of the program sent while the network and the random source worked: \<open>sends w w' ms ts\<close>
  says that between \<open>w\<close> and \<open>w'\<close> exactly the messages \<open>ms\<close> left through the socket and the packets \<open>ts\<close>
  through the TUN device, and that the network still works. The lemmas compose it along the code: a
  builder prepares a message, \<open>net_send\<close> sends it, logging and events change nothing.
\<close>

definition sends :: "world \<Rightarrow> world \<Rightarrow> message list \<Rightarrow> bytes list \<Rightarrow> bool" where
  "sends w w' ms ts \<longleftrightarrow>
     net_ok w' \<and> delivered w w' ms \<and> w_tun_out w' = w_tun_out w @ ts \<and>
     g_crypto_key w' = g_crypto_key w \<and> w_env w' = w_env w \<and> g_running w' = g_running w"

lemma sends_core: "net_ok w \<Longrightarrow> w_core w' = w_core w \<Longrightarrow> sends w w' [] []"
  using net_ok_core [of w' w] w_core_cong [of w' w] by (simp add: sends_def)

lemma sends_refl [simp]: "sends w w [] [] \<longleftrightarrow> net_ok w"
  by (auto simp: sends_def)

lemma sends_trans [trans]:
  "sends w w1 ms ts \<Longrightarrow> sends w1 w2 ms' ts' \<Longrightarrow> sends w w2 (ms @ ms') (ts @ ts')"
  by (auto simp: sends_def intro: delivered_trans)

lemma sends_net_ok: "sends w w' ms ts \<Longrightarrow> net_ok w'"
  by (simp add: sends_def)

lemma sends_log_msg [simp]: "sends w (log_msg l s w') ms ts = sends w w' ms ts"
  by (simp add: sends_def delivered_def)

lemma sends_syscall [simp]: "sends w (snd (syscall f w')) ms ts = sends w w' ms ts"
  by (simp add: sends_def delivered_def)

lemma sends_now_ms [simp]: "sends w (snd (now_ms w')) ms ts = sends w w' ms ts"
  by (simp add: sends_def delivered_def)

lemma net_ok_events [simp]:
  "net_ok (app_event_peer_join n v e w) = net_ok w" "net_ok (app_event_peer_leave v r w) = net_ok w"
  by (simp_all add: net_ok_def random_ok_def)

lemma sends_events [simp]:
  "sends w (app_event_peer_join n v e w') ms ts = sends w w' ms ts"
  "sends w (app_event_peer_leave v r w') ms ts = sends w w' ms ts"
  by (simp_all add: sends_def delivered_def)

text \<open>The three ways a world is threaded on: a builder, a send, a write to the device.\<close>

lemma sends_built:
  assumes "sends w w1 ms ts" "built t p buf w1 (len, buf', w2)" "37 + length p \<le> length buf" "length p \<le> 1600"
  shows "sends w w2 ms ts" "ready t p buf' len" "len \<noteq> -1" "length buf' = length buf"
proof -
  note b = built_ready [OF assms(2-4)]
  show "ready t p buf' len" "length buf' = length buf" by (rule b)+
  show "len \<noteq> -1" using b(4) [OF sends_net_ok [OF assms(1)]] by simp
  have "w_sent w2 = w_sent w1" "w_tun_out w2 = w_tun_out w1" "g_crypto_key w2 = g_crypto_key w1"
    "w_env w2 = w_env w1" "g_running w2 = g_running w1"
    using w_app_cong [OF b(2)] by auto
  then show "sends w w2 ms ts"
    using assms(1) b(4) [OF sends_net_ok [OF assms(1)]] by (simp add: sends_def delivered_def)
qed

lemma sends_net_send:
  assumes "sends w w1 ms ts" "ready t p buf len" "len \<noteq> -1" "net_send buf len d w1 = (r, w2)"
  shows "r = 0" "sends w w2 (ms @ [(t, p, d)]) ts"
proof -
  note s = net_send_ready [OF assms(2,4)] and ok = sends_net_ok [OF assms(1)]
  show r: "r = 0" using s(3) [OF ok assms(3)] by simp
  have "sends w1 w2 [(t, p, d)] []"
    using s(2) [OF r] s(3) [OF ok assms(3)] w_keep_cong [OF s(1)] by (simp add: sends_def)
  then show "sends w w2 (ms @ [(t, p, d)]) ts" using sends_trans [OF assms(1)] by fastforce
qed

lemma sends_tun_write:
  assumes "sends w w1 ms ts" "tun_write_ok (w_env w)" "len \<le> length buf"
  shows "sends w (snd (tun_write dev buf len w1)) ms (ts @ [take len buf])"
proof -
  obtain n w2 where t: "tun_write dev buf len w1 = (n, w2)" by fastforce
  have "tun_write_ok (w_env w1)" using assms by (simp add: sends_def)
  then have "w_tun_out w2 = w_tun_out w1 @ [take len buf]"
    using tun_write_out [of w1 len buf dev] assms(3) t by simp
  then show ?thesis using assms(1) tun_write_frame [OF t] t by (simp add: sends_def delivered_def)
qed

end
