(* ===== verification/Ui.thy ===== *)
theory Ui
  imports Network
begin

text \<open>
  The terminal UI (\<open>src/ui/render.c\<close>, \<open>tui.c\<close> and the drawing half of \<open>events.c\<close>): everything it draws
  goes to the standard error stream. Byte counts are shown with one decimal as the C code's
  \<open>double\<close> arithmetic gives it: the conversion of a 64-bit count keeps 53 significant bits, the
  divisions by 1024 are exact and the decimal is rounded half to even.
\<close>

definition ESC :: "string \<Rightarrow> bytes" where
  "ESC s = 27 # lit s"

abbreviation TUI_CLEAR :: bytes where "TUI_CLEAR \<equiv> ESC ''[2J'' @ ESC ''[H''"
abbreviation TUI_HOME :: bytes where "TUI_HOME \<equiv> ESC ''[H''"
abbreviation TUI_CLEAR_REST :: bytes where "TUI_CLEAR_REST \<equiv> ESC ''[J''"
abbreviation TUI_HIDE_CURSOR :: bytes where "TUI_HIDE_CURSOR \<equiv> ESC ''[?25l''"
abbreviation TUI_SHOW_CURSOR :: bytes where "TUI_SHOW_CURSOR \<equiv> ESC ''[?25h''"
abbreviation TUI_ALT_BUF :: bytes where "TUI_ALT_BUF \<equiv> ESC ''[?1049h''"
abbreviation TUI_MAIN_BUF :: bytes where "TUI_MAIN_BUF \<equiv> ESC ''[?1049l''"
abbreviation TUI_BOLD :: bytes where "TUI_BOLD \<equiv> ESC ''[1m''"
abbreviation TUI_CYAN :: bytes where "TUI_CYAN \<equiv> ESC ''[36m''"
abbreviation TUI_YELLOW :: bytes where "TUI_YELLOW \<equiv> ESC ''[33m''"
abbreviation TUI_GREEN :: bytes where "TUI_GREEN \<equiv> ESC ''[32m''"
abbreviation TUI_RED :: bytes where "TUI_RED \<equiv> ESC ''[31m''"
abbreviation TUI_GRAY :: bytes where "TUI_GRAY \<equiv> ESC ''[90m''"
abbreviation TUI_RESET :: bytes where "TUI_RESET \<equiv> ESC ''[0m''"
abbreviation (input) TUI_WIDTH :: nat where "TUI_WIDTH \<equiv> 76"
abbreviation TUND_VERSION :: string where "TUND_VERSION \<equiv> ''2.1''"

text \<open>\<open>%-*s\<close>, \<open>%*s\<close> and \<open>snprintf\<close> into a buffer of \<open>k\<close> characters.\<close>

definition pad_right :: "nat \<Rightarrow> bytes \<Rightarrow> bytes" where
  "pad_right k s = s @ replicate (k - length s) 32"

definition pad_left :: "nat \<Rightarrow> bytes \<Rightarrow> bytes" where
  "pad_left k s = replicate (k - length s) 32 @ s"

definition fit :: "nat \<Rightarrow> bytes \<Rightarrow> bytes" where
  "fit k s = take (k - 1) s"

text \<open>C's integer division and remainder, and the conversion to a 32-bit \<open>int\<close>.\<close>

definition c_div :: "int \<Rightarrow> int \<Rightarrow> int" where
  "c_div a b = sgn a * sgn b * (\<bar>a\<bar> div \<bar>b\<bar>)"

definition c_mod :: "int \<Rightarrow> int \<Rightarrow> int" where
  "c_mod a b = a - b * c_div a b"

definition to_int32 :: "int \<Rightarrow> int" where
  "to_int32 i = sint (of_int i :: u32)"

section \<open>render.c\<close>

definition tui_write :: "bytes \<Rightarrow> world \<Rightarrow> world" where
  "tui_write s w = w\<lparr>w_stderr := w_stderr w @ s\<rparr>"

definition tui_printf :: "bytes \<Rightarrow> world \<Rightarrow> world" where
  "tui_printf s w = w\<lparr>w_stderr := w_stderr w @ s\<rparr>"

definition tui_rule :: "world \<Rightarrow> world" where
  "tui_rule w =
     tui_printf (TUI_RESET @ [10])
       (fold (\<lambda>_. tui_write [0xE2, 0x94, 0x80]) [0..<TUI_WIDTH] (tui_printf (lit '' '' @ TUI_GRAY) w))"

definition tui_render_header :: "bytes \<Rightarrow> bytes \<Rightarrow> world \<Rightarrow> world" where
  "tui_render_header version mode w =
     tui_rule (tui_printf (lit '' '' @ TUI_BOLD @ TUI_CYAN @ [0xE2, 0x97, 0x86] @ lit '' TunD'' @ TUI_RESET @ lit '' '' @
       TUI_YELLOW @ lit ''v'' @ version @ TUI_RESET @ lit '' '' @ TUI_GRAY @ [0xE2, 0x80, 0x94] @ lit '' '' @ mode @
       TUI_RESET @ [10]) w)"

definition tui_section :: "bytes \<Rightarrow> world \<Rightarrow> world" where
  "tui_section title w = tui_printf (lit '' '' @ TUI_BOLD @ TUI_CYAN @ title @ TUI_RESET @ [10]) w"

definition tui_kv :: "bytes \<Rightarrow> bytes \<Rightarrow> world \<Rightarrow> world" where
  "tui_kv label val w =
     tui_printf (lit '' '' @ TUI_GRAY @ pad_right 10 label @ TUI_RESET @ lit '' '' @ val @ [10]) w"

definition fmt_hms :: "int \<Rightarrow> int \<Rightarrow> int \<Rightarrow> bytes" where
  "fmt_hms h m s = fmt_zd 2 h @ lit '':'' @ fmt_zd 2 m @ lit '':'' @ fmt_zd 2 s"

definition tui_uptime :: "int \<Rightarrow> nat \<Rightarrow> world \<Rightarrow> bytes \<times> world" where
  "tui_uptime start len w =
     (let (t, w) = time_now w; secs = to_int32 (t - start)
      in (fit len (fmt_hms (c_div secs 3600) (c_div (c_mod secs 3600) 60) (c_mod secs 60)), w))"

definition tui_timeago :: "int \<Rightarrow> nat \<Rightarrow> world \<Rightarrow> bytes \<times> world" where
  "tui_timeago ts len w =
     (let (t, w) = time_now w; ago = to_int32 (t - ts)
      in (fit len (if ago < 2 then lit ''just now''
                   else if ago < 60 then fmt_d ago @ lit ''s ago''
                   else if ago < 3600 then fmt_d (ago div 60) @ lit ''m '' @ fmt_d (ago mod 60) @ lit ''s ago''
                   else fmt_d (ago div 3600) @ lit ''h '' @ fmt_d ((ago mod 3600) div 60) @ lit ''m ago''), w))"

text \<open>Division rounded to the nearest integer, half to even.\<close>

definition round_div :: "nat \<Rightarrow> nat \<Rightarrow> nat" where
  "round_div n d =
     (let q = n div d; r = n mod d
      in if 2 * r < d then q else if d < 2 * r then q + 1 else if even q then q else q + 1)"

text \<open>\<open>(double)n\<close> for a 64-bit \<open>n\<close>: at most 11 low bits are rounded away.\<close>

definition to_double :: "nat \<Rightarrow> nat" where
  "to_double n =
     (let e = length (filter (\<lambda>i. 2 ^ (53 + i) \<le> n) [0..<11]) in round_div n (2 ^ e) * 2 ^ e)"

fun tui_unit_loop :: "nat \<Rightarrow> nat \<Rightarrow> nat \<Rightarrow> nat" where
  "tui_unit_loop 0 val unit = unit"
| "tui_unit_loop (Suc k) val unit =
     (if 1024 ^ (unit + 1) \<le> val then tui_unit_loop k val (unit + 1) else unit)"

definition tui_format_bytes :: "u64 \<Rightarrow> nat \<Rightarrow> bytes" where
  "tui_format_bytes bs len =
     (let val = to_double (unat bs);
          unit = tui_unit_loop 3 val 0;
          tenths = round_div (10 * val) (1024 ^ unit)
      in fit len (if unit = 0 then fmt_u (unat bs) @ lit ''B''
                  else fmt_u (tenths div 10) @ lit ''.'' @ fmt_u (tenths mod 10) @
                       (if unit = 1 then lit ''KB'' else if unit = 2 then lit ''MB'' else lit ''GB'')))"

definition tui_format_rtt :: "bool \<Rightarrow> u64 \<Rightarrow> nat \<Rightarrow> bytes" where
  "tui_format_rtt has_rtt rtt_ms len =
     fit len (if \<not> has_rtt then lit ''-'' else if 9999 < rtt_ms then lit ''>9999ms''
              else fmt_u (unat rtt_ms) @ lit ''ms'')"

fun tui_peer_rows :: "tui_peer_t list \<Rightarrow> bool \<Rightarrow> world \<Rightarrow> bool \<times> world" where
  "tui_peer_rows [] found w = (found, w)"
| "tui_peer_rows (p # ps) found w =
     (if \<not> tp_active p then tui_peer_rows ps found w
      else
        let (ago, w) = tui_timeago (tp_last_seen p) 32 w;
            rtt = tui_format_rtt (tp_has_rtt p) (tp_rtt_ms p) 16;
            bin = tui_format_bytes (tp_bytes_in p) 16;
            bout = tui_format_bytes (tp_bytes_out p) 16;
            (t, w) = time_now w;
            age = to_int32 (t - tp_last_seen p);
            dot = (if age < 10 then TUI_GREEN else if age < 30 then TUI_YELLOW else TUI_RED) @
                  [0xE2, 0x97, 0x8F] @ TUI_RESET;
            status = (if age < 10 then lit ''online'' else if age < 30 then lit ''stale'' else lit ''timeout'')
        in tui_peer_rows ps True
             (tui_printf (lit '' '' @ dot @ lit '' '' @ pad_right 7 status @ lit '' '' @
                pad_right 15 (inet_ntop (tp_virt_ip p)) @ lit '' '' @ pad_right 18 (take 18 (c_str (tp_name p))) @ lit '' '' @
                pad_left 7 rtt @ lit '' '' @ pad_left 7 bin @ lit '' '' @ pad_left 7 bout @ lit '' '' @ ago @ [10]) w))"

definition tui_render_peer_table :: "int \<Rightarrow> tui_peer_t list \<Rightarrow> nat \<Rightarrow> world \<Rightarrow> world" where
  "tui_render_peer_table peer_count peers npeers w =
     (let w = tui_section (fit 32 (lit ''Peers ('' @ fmt_d peer_count @ lit '')'')) w;
          w = tui_printf (lit '' '' @ TUI_GRAY @ pad_right 8 (lit ''Status'') @ lit '' '' @
                pad_right 15 (lit ''Virtual IP'') @ lit '' '' @ pad_right 18 (lit ''Name'') @ lit '' '' @
                pad_left 7 (lit ''KA RTT'') @ lit '' '' @ pad_left 7 (lit ''In'') @ lit '' '' @
                pad_left 7 (lit ''Out'') @ lit '' '' @ lit ''Last'' @ TUI_RESET @ [10]) w;
          (found, w) = tui_peer_rows (take npeers peers) False w
      in if \<not> found then tui_printf (lit '' '' @ TUI_GRAY @ lit ''(no peers yet)'' @ TUI_RESET @ [10]) w else w)"

definition tui_render_footer :: "bytes \<Rightarrow> world \<Rightarrow> world" where
  "tui_render_footer hint w =
     tui_printf (lit '' '' @ TUI_YELLOW @ hint @ TUI_RESET @ [10]) (tui_rule w)"

definition tui_finish_frame :: "world \<Rightarrow> world" where
  "tui_finish_frame w = tui_write TUI_CLEAR_REST w"

section \<open>The event list\<close>

definition tui_render_event :: "tui_event_t \<Rightarrow> world \<Rightarrow> world" where
  "tui_render_event e w =
     (let (h, m, s) = sys_localtime (w_env w) (ev_ts e);
          ts = fit 9 (fmt_hms h m s);
          message = tui_truncate_event (ev_message e) (zeros TUI_EVENT_DISPLAY_LEN) TUI_EVENT_DISPLAY_LEN
      in tui_printf (lit '' '' @ ts @ lit '' '' @ tui_event_level_color (ev_level e) @
           tui_event_level_label (ev_level e) @ TUI_RESET @ lit '' '' @ c_str message @ [10]) w)"

definition tui_render_events :: "world \<Rightarrow> world" where
  "tui_render_events w =
     (let events = tui_events_snapshot (w_tui w);
          w = tui_section (lit ''Events'') w
      in if events = [] then tui_printf (lit '' '' @ TUI_GRAY @ lit ''(no recent events)'' @ TUI_RESET @ [10]) w
         else fold tui_render_event events w)"

section \<open>tui.c\<close>

definition tui_init :: "world \<Rightarrow> world" where
  "tui_init w =
     tui_write TUI_HIDE_CURSOR (tui_write TUI_CLEAR (tui_write TUI_ALT_BUF (w\<lparr>w_tui := tui_events_start (w_tui w)\<rparr>)))"

definition tui_shutdown :: "world \<Rightarrow> world" where
  "tui_shutdown w =
     tui_write TUI_MAIN_BUF (tui_write TUI_SHOW_CURSOR (w\<lparr>w_tui := tui_events_stop (w_tui w)\<rparr>))"

definition tui_render_server ::
    "u16 \<Rightarrow> bytes \<Rightarrow> u32 \<Rightarrow> u32 \<Rightarrow> int \<Rightarrow> int \<Rightarrow> tui_peer_t list \<Rightarrow> nat \<Rightarrow> world \<Rightarrow> world" where
  "tui_render_server port tun_name virt_ip netmask start_time peer_count peers npeers w =
     (let w = tui_render_header (lit TUND_VERSION) (lit ''Server'') (tui_write TUI_HOME w);
          (uptime, w) = tui_uptime start_time 16 w;
          w = tui_section (lit ''Connection'') w;
          w = tui_kv (lit ''UDP'') (fit 128 (fmt_u (unat port))) w;
          w = tui_kv (lit ''TUN'') (c_str tun_name) w;
          w = tui_kv (lit ''Virtual'') (fit 128 (inet_ntop virt_ip @ lit ''/'' @ inet_ntop netmask)) w;
          w = tui_kv (lit ''Uptime'') uptime w;
          w = tui_rule w;
          w = tui_render_peer_table peer_count peers npeers w;
          w = tui_render_events (tui_rule w);
          w = tui_render_footer (fit 128 (lit ''Ctrl+C quit '' @ [0xC2, 0xB7] @ lit '' UDP '' @ fmt_u (unat port) @ lit '' '' @
                [0xC2, 0xB7] @ lit '' subnet 10.9.0.0/24 '' @ [0xC2, 0xB7] @ lit '' encrypted in transit'')) w
      in tui_finish_frame w)"

definition tui_render_client ::
    "bytes \<Rightarrow> u16 \<Rightarrow> bytes \<Rightarrow> u32 \<Rightarrow> u32 \<Rightarrow> bool \<Rightarrow> u64 \<Rightarrow> int \<Rightarrow> int \<Rightarrow> tui_peer_t list \<Rightarrow> nat \<Rightarrow> world \<Rightarrow> world" where
  "tui_render_client server_addr port tun_name virt_ip netmask has_server_rtt server_rtt_ms start_time peer_count peers
       npeers w =
     (let w = tui_render_header (lit TUND_VERSION) (lit ''Client'') (tui_write TUI_HOME w);
          (uptime, w) = tui_uptime start_time 16 w;
          rtt_str = tui_format_rtt has_server_rtt server_rtt_ms 16;
          w = tui_section (lit ''Connection'') w;
          w = tui_kv (lit ''Server'') (fit 192 (server_addr @ lit '':'' @ fmt_u (unat port))) w;
          w = tui_kv (lit ''Keepalive'') rtt_str w;
          w = tui_kv (lit ''TUN'') (c_str tun_name) w;
          w = tui_kv (lit ''Virtual'') (fit 192 (inet_ntop virt_ip @ lit ''/'' @ inet_ntop netmask)) w;
          w = tui_kv (lit ''Uptime'') uptime w;
          w = tui_rule w;
          w = tui_render_peer_table peer_count peers npeers w;
          w = tui_render_events (tui_rule w);
          w = tui_render_footer (fit 160 (lit ''Ctrl+C quit '' @ [0xC2, 0xB7] @ lit '' server '' @ server_addr @ lit '':'' @
                fmt_u (unat port) @ lit '' '' @ [0xC2, 0xB7] @ lit '' encrypted in transit'')) w
      in tui_finish_frame w)"

section \<open>Drawing changes nothing but the screen\<close>

lemma w_core_write [simp, frame]:
  "w_core (tui_write s w) = w_core w" "w_core (tui_printf s w) = w_core w"
  by (simp_all add: tui_write_def tui_printf_def w_core_def)

lemma w_core_fold: "(\<And>x v. w_core (f x v) = w_core v) \<Longrightarrow> w_core (fold f xs w) = w_core w"
  by (induction xs arbitrary: w) simp_all

lemma w_core_rule [simp, frame]: "w_core (tui_rule w) = w_core w"
  unfolding tui_rule_def by (simp add: w_core_fold)

lemma w_core_parts [simp, frame]:
  "w_core (tui_render_header v m w) = w_core w" "w_core (tui_section t w) = w_core w"
  "w_core (tui_kv l x w) = w_core w" "w_core (tui_render_footer h w) = w_core w"
  "w_core (tui_finish_frame w) = w_core w"
  by (simp_all add: tui_render_header_def tui_section_def tui_kv_def tui_render_footer_def tui_finish_frame_def)

lemma w_core_clock:
  "tui_uptime s n w = (x, w') \<Longrightarrow> w_core w' = w_core w" "tui_timeago s n w = (x, w') \<Longrightarrow> w_core w' = w_core w"
  by (auto simp: tui_uptime_def tui_timeago_def syscall_def w_core_def Let_def)

lemma w_core_rows: "tui_peer_rows ps f w = (f', w') \<Longrightarrow> w_core w' = w_core w"
proof (induction ps arbitrary: f w)
  case (Cons p ps)
  show ?case
  proof (cases "tp_active p")
    case True
    obtain ago w1 where a: "tui_timeago (tp_last_seen p) 32 w = (ago, w1)" by fastforce
    obtain t w2 where t: "time_now w1 = (t, w2)" by fastforce
    have "w_core w2 = w_core w"
      using w_core_clock(2) [OF a] w_core_syscall [of sys_time w1] t by simp
    with Cons.prems True a t show ?thesis by (auto simp: Let_def dest!: Cons.IH)
  qed (use Cons in auto)
qed simp

lemma w_core_table [simp, frame]: "w_core (tui_render_peer_table c ps n w) = w_core w"
  by (auto simp: tui_render_peer_table_def Let_def split: prod.splits dest!: w_core_rows)

lemma w_core_events [simp, frame]: "w_core (tui_render_events w) = w_core w"
proof -
  have "w_core (tui_render_event e v) = w_core v" for e v
    by (simp add: tui_render_event_def Let_def split: prod.splits)
  then show ?thesis by (simp add: tui_render_events_def Let_def w_core_fold)
qed

lemma w_core_render [simp, frame]:
  "w_core (tui_render_server p t v m s c ps n w) = w_core w"
  "w_core (tui_render_client a p t v m hs r s c ps n w) = w_core w"
  by (auto simp: tui_render_server_def tui_render_client_def Let_def split: prod.splits dest!: w_core_clock)

lemma w_core_tui_init [simp, frame]: "w_core (tui_init w) = w_core w" "w_core (tui_shutdown w) = w_core w"
  by (simp_all add: tui_init_def tui_shutdown_def) (simp_all add: w_core_def)

end
