(* ===== verification/Client_Peers.thy ===== *)
theory Client_Peers
  imports Sending Ui
begin

text \<open>
  The client's state (\<open>src/core/client/client.h\<close>), its table of known peers (\<open>peers.c\<close>) and its record
  of when the server was last heard of (\<open>session.c\<close>). The table is a \<^emph>\<open>roster\<close>: a map from virtual
  addresses to names, updated by joins, leaves and peer lists. The theory \<open>Client_Inv\<close> states this
  contract as a locale and proves it for \<open>client_update_peer\<close>.
\<close>

record client_t =
  cli_sockfd :: int
  cli_tun :: tun_device_t
  cli_server_addr :: sockaddr_in
  cli_virt_ip :: u32
  cli_netmask :: u32
  cli_server_rtt_ms :: u64
  cli_has_server_rtt :: bool
  cli_last_server_seen :: u64
  cli_server_replay :: proto_replay_window_t
  cli_name :: bytes
  cli_peers :: "peer_t list"
  cli_peer_count :: int
  cli_ka_started :: bool
  cli_tun_started :: bool
  cli_ka_quit :: bool
  cli_tun_quit :: bool

abbreviation (input) TUND_SERVER_TIMEOUT :: u64 where "TUND_SERVER_TIMEOUT \<equiv> 30"

section \<open>session.c\<close>

definition client_mark_server_seen :: "client_t \<Rightarrow> world \<Rightarrow> client_t \<times> world" where
  "client_mark_server_seen cli w =
     (let (now, w) = time_now w
      in (if 0 < now then cli\<lparr>cli_last_server_seen := of_int now\<rparr> else cli, w))"

definition client_server_timed_out :: "client_t \<Rightarrow> int \<Rightarrow> bool" where
  "client_server_timed_out cli now \<longleftrightarrow>
     (let last = cli_last_server_seen cli
      in if last = 0 \<or> now \<le> 0 then False
         else let current = of_int now :: u64 in last < current \<and> TUND_SERVER_TIMEOUT < current - last)"

section \<open>peers.c\<close>

text \<open>
  The search loop of \<open>client_update_peer\<close> from slot \<open>i\<close> on: the slot of the address, and the first free
  slot before it.
\<close>

fun client_slot_scan :: "u32 \<Rightarrow> nat \<Rightarrow> nat option \<Rightarrow> peer_t list \<Rightarrow> nat option \<times> nat option" where
  "client_slot_scan vip i free_idx [] = (None, free_idx)"
| "client_slot_scan vip i free_idx (p # ps) =
     (if peer_active p \<and> peer_virt_ip p = vip then (Some i, free_idx)
      else client_slot_scan vip (i + 1) (if \<not> peer_active p \<and> free_idx = None then Some i else free_idx) ps)"

text \<open>\<open>name\<close> is \<open>None\<close> for a null pointer.\<close>

definition client_update_peer :: "client_t \<Rightarrow> u32 \<Rightarrow> bytes option \<Rightarrow> bool \<Rightarrow> world \<Rightarrow> client_t \<times> world" where
  "client_update_peer cli vip name online w =
     (let (idx, free_idx) = client_slot_scan vip 0 None (cli_peers cli)
      in if online
         then
           let place = (\<lambda>i p cli w.
                 let nm = (case name of None \<Rightarrow> zeros TUND_NAME_LEN
                                      | Some name \<Rightarrow> strncpy (zeros TUND_NAME_LEN) name (TUND_NAME_LEN - 1));
                     (now, w) = time_now w
                 in (cli\<lparr>cli_peers := (cli_peers cli)[i :=
                       p\<lparr>peer_active := True, peer_virt_ip := vip, peer_name := nm, peer_last_seen := now\<rparr>]\<rparr>, w))
           in case idx of
                Some i \<Rightarrow> place i (cli_peers cli ! i) cli w
              | None \<Rightarrow>
                  (case free_idx of
                     None \<Rightarrow> (cli, w)
                   | Some i \<Rightarrow> place i ((cli_peers cli ! i)\<lparr>peer_bytes_in := 0, peer_bytes_out := 0\<rparr>)
                                 (cli\<lparr>cli_peer_count := cli_peer_count cli + 1\<rparr>) w)
         else case idx of
                Some i \<Rightarrow> (cli\<lparr>cli_peers := (cli_peers cli)[i := (cli_peers cli ! i)\<lparr>peer_active := False\<rparr>],
                               cli_peer_count := cli_peer_count cli - 1\<rparr>, w)
              | None \<Rightarrow> (cli, w))"

definition client_add_peer_traffic :: "client_t \<Rightarrow> u32 \<Rightarrow> u64 \<Rightarrow> u64 \<Rightarrow> client_t" where
  "client_add_peer_traffic cli vip bytes_in bytes_out =
     (case first_idx (\<lambda>p. peer_active p \<and> peer_virt_ip p = vip) (cli_peers cli) of
        None \<Rightarrow> cli
      | Some i \<Rightarrow>
          let p = cli_peers cli ! i
          in cli\<lparr>cli_peers := (cli_peers cli)[i :=
               p\<lparr>peer_bytes_in := peer_bytes_in p + bytes_in, peer_bytes_out := peer_bytes_out p + bytes_out\<rparr>]\<rparr>)"

definition client_add_broadcast_traffic :: "client_t \<Rightarrow> u64 \<Rightarrow> client_t" where
  "client_add_broadcast_traffic cli bytes_out =
     cli\<lparr>cli_peers := map (\<lambda>p. if peer_active p then p\<lparr>peer_bytes_out := peer_bytes_out p + bytes_out\<rparr> else p)
          (cli_peers cli)\<rparr>"

text \<open>The box-drawing characters of the printed table.\<close>

definition box_rule :: "nat \<Rightarrow> bytes" where
  "box_rule n = concat (replicate n [0xE2, 0x94, 0x80])"

abbreviation (input) box_bar :: bytes where "box_bar \<equiv> [0xE2, 0x94, 0x82]"

definition client_log_peers :: "client_t \<Rightarrow> world \<Rightarrow> world" where
  "client_log_peers cli w =
     (let w = LOG_INFO ([0xE2, 0x94, 0x8C] @ box_rule 41 @ [0xE2, 0x94, 0x90]) w;
          w = LOG_INFO (box_bar @ lit ''         Connected Peers ('' @ fmt_d (cli_peer_count cli) @
                lit '')              '' @ box_bar) w;
          w = LOG_INFO ([0xE2, 0x94, 0x9C] @ box_rule 14 @ [0xE2, 0x94, 0xAC] @ box_rule 26 @ [0xE2, 0x94, 0xA4]) w;
          w = fold (\<lambda>p w.
                LOG_INFO (box_bar @ lit '' '' @ pad_right 12 (ip_to_str_buf (peer_virt_ip p) TUND_IP_STR_LEN) @
                  lit '' '' @ box_bar @ lit '' '' @ pad_right 24 (c_str (peer_name p)) @ lit '' '' @ box_bar) w)
              (filter peer_active (cli_peers cli)) w
      in LOG_INFO ([0xE2, 0x94, 0x94] @ box_rule 14 @ [0xE2, 0x94, 0xB4] @ box_rule 26 @ [0xE2, 0x94, 0x98]) w)"

end
