(* ===== verification/Client_Session.thy ===== *)
theory Client_Session
  imports Client_Peers
begin

text \<open>
  The client's dialogue with the server: registration (\<open>src/core/client/register.c\<close>) and the handling
  of the server's messages (\<open>handlers.c\<close>).
\<close>

abbreviation (input) TUND_REGISTER_RETRIES :: nat where "TUND_REGISTER_RETRIES \<equiv> 3"

section \<open>register.c\<close>

definition handle_assign :: "client_t \<Rightarrow> bytes \<Rightarrow> u16 \<Rightarrow> world \<Rightarrow> bool \<times> client_t \<times> world" where
  "handle_assign cli payload len w =
     (if len < 10 then (False, cli, w)
      else
        let cli = cli\<lparr>cli_virt_ip := u32_of_mem (slice 0 4 payload), cli_netmask := u32_of_mem (slice 4 4 payload)\<rparr>;
            mtu_n = u16_of_mem (slice 8 2 payload)
        in (True, cli, LOG_INFO ([0xE2, 0x98, 0x85] @ lit '' Registered! Virtual IP: '' @
              ip_to_str_buf (cli_virt_ip cli) TUND_IP_STR_LEN @ lit '' (MTU: '' @ fmt_u (unat (ntohs mtu_n)) @
              lit '')'') w))"

text \<open>What the attempts so far have met.\<close>

record register_flags =
  rf_auth :: bool
  rf_mismatch :: bool
  rf_bad :: bool
  rf_reply :: bool

definition log_registration_failure :: "register_flags \<Rightarrow> world \<Rightarrow> world" where
  "log_registration_failure f w =
     (if rf_mismatch f
      then LOG_ERROR (lit ''Registration failed: server protocol is not compatible with this client.'') w
      else if rf_auth f
      then LOG_ERROR (lit ''Registration failed: server replied but authentication failed; check the shared '' @
                      lit ''key and protocol compatibility.'') w
      else if rf_bad f then LOG_ERROR (lit ''Registration failed: server replied with an invalid handshake.'') w
      else if \<not> rf_reply f
      then LOG_ERROR (lit ''Registration timed out after '' @ fmt_u TUND_REGISTER_RETRIES @
                      lit '' attempts; check server address, UDP port, and '' @ lit ''firewall.'') w
      else LOG_ERROR (lit ''Registration failed after '' @ fmt_u TUND_REGISTER_RETRIES @ lit '' attempts'') w)"

text \<open>
  The reply to one attempt, after a datagram was authenticated: registered, or the flags to go on
  with.
\<close>

definition client_register_reply ::
    "client_t \<Rightarrow> bytes \<Rightarrow> int \<Rightarrow> register_flags \<Rightarrow> world \<Rightarrow> bool \<times> register_flags \<times> client_t \<times> world" where
  "client_register_reply cli buf n f w =
     (let f = f\<lparr>rf_reply := True\<rparr>
      in case proto_read_hdr buf of
        Inl hdr \<Rightarrow>
          let f = f\<lparr>rf_bad := True\<rparr>
          in if hdr = TUND_HDR_BAD_VERSION
             then (False, f\<lparr>rf_mismatch := True\<rparr>, cli,
                   LOG_WARN (lit ''Server uses unsupported protocol version '' @ fmt_u (unat (buf ! 1)) @
                     lit '' (expected '' @ fmt_u (unat TUND_PROTOCOL_VERSION) @ lit '').'') w)
             else (False, f, cli, LOG_WARN (lit ''Server sent an invalid handshake reply.'') w)
      | Inr (type, payload_len) \<Rightarrow>
          if n < int TUND_HDR_SIZE + uint payload_len
          then (False, f\<lparr>rf_bad := True\<rparr>, cli, LOG_WARN (lit ''Server sent a truncated handshake reply.'') w)
          else
            let replayed = (\<lambda>cli. (False, f\<lparr>rf_bad := True\<rparr>, cli,
                              LOG_WARN (lit ''Server sent a replayed handshake reply.'') w))
            in case proto_read_sequence buf of
                 None \<Rightarrow> replayed cli
               | Some sequence \<Rightarrow>
                   let (ok, replay) = proto_replay_accept (cli_server_replay cli) sequence;
                       cli = cli\<lparr>cli_server_replay := replay\<rparr>
                   in if \<not> ok then replayed cli
                      else
                        let unexpected = (\<lambda>cli w. (False, f\<lparr>rf_bad := True\<rparr>, cli,
                              LOG_WARN (lit ''Server sent an unexpected handshake message type 0x'' @ fmt_02X type @
                                lit ''.'') w))
                        in if type = MSG_ASSIGN
                           then let (done, cli, w) = handle_assign cli (drop TUND_HDR_SIZE buf) payload_len w
                                in if done then (True, f, cli, w) else unexpected cli w
                           else unexpected cli w)"

text \<open>The loop over the attempts; the first argument is the number of attempts left.\<close>

fun client_register_loop ::
    "nat \<Rightarrow> bytes \<Rightarrow> sockaddr_in \<Rightarrow> register_flags \<Rightarrow> client_t \<Rightarrow> world \<Rightarrow> int \<times> client_t \<times> world" where
  "client_register_loop 0 buf from f cli w = (-1, cli, log_registration_failure f w)"
| "client_register_loop (Suc left) buf from f cli w =
     (let w = LOG_INFO (lit ''Registering with server (attempt '' @ fmt_u (TUND_REGISTER_RETRIES - left) @ lit ''/'' @
                fmt_u TUND_REGISTER_RETRIES @ lit '')...'') w;
          (len, buf, w) = proto_build_register buf (cli_name cli) w;
          (r, w) = net_send buf len (cli_server_addr cli) w
      in if r < 0 then (-1, cli, w)
         else
           let (ret, w) = platform_poll_one w
           in if ret < 0
              then let (err, w) = syscall sys_errno w
                   in (-1, cli, LOG_ERROR (lit ''poll() failed: '' @ sock_errstr w err) w)
              else if ret = 0
              then client_register_loop left buf from f cli
                     (LOG_WARN (lit ''No response from server; check the IP, port, firewall, and that the server '' @
                        lit ''is running.'') w)
              else
                let (n, buf, from, w) = net_recv buf from w
                in if n = NET_RECV_AUTH_FAILED \<and> net_addr_equal from (cli_server_addr cli)
                   then client_register_loop left buf from (f\<lparr>rf_auth := True, rf_reply := True\<rparr>) cli
                          (LOG_WARN (lit ''Server replied, but authentication failed; check the shared key and protocol '' @
                             lit ''version.'') w)
                   else if n \<le> 0 \<or> \<not> net_addr_equal from (cli_server_addr cli)
                   then client_register_loop left buf from f cli w
                   else
                     let (done, f, cli, w) = client_register_reply cli buf n f w
                     in if done then (0, cli, w) else client_register_loop left buf from f cli w)"

text \<open>The packet buffer and the sender's address are uninitialised locals.\<close>

definition client_register :: "bytes \<Rightarrow> sockaddr_in \<Rightarrow> client_t \<Rightarrow> world \<Rightarrow> int \<times> client_t \<times> world" where
  "client_register buf from cli w =
     client_register_loop TUND_REGISTER_RETRIES buf from
       \<lparr>rf_auth = False, rf_mismatch = False, rf_bad = False, rf_reply = False\<rparr> cli w"

section \<open>handlers.c\<close>

definition client_handle_keepalive :: "client_t \<Rightarrow> bytes \<Rightarrow> u16 \<Rightarrow> world \<Rightarrow> world" where
  "client_handle_keepalive cli payload plen w =
     (case proto_read_keepalive_timestamp payload plen of
        None \<Rightarrow> w
      | Some sent_at \<Rightarrow>
          let (len, buf, w) = proto_build_keepalive_ack (zeros TUND_MAX_PKT) sent_at w;
              (r, w) = net_send buf len (cli_server_addr cli) w
          in if r < 0 then LOG_WARN (lit ''Keepalive reply to server failed'') w else w)"

definition client_handle_keepalive_ack :: "client_t \<Rightarrow> bytes \<Rightarrow> u16 \<Rightarrow> world \<Rightarrow> client_t \<times> world" where
  "client_handle_keepalive_ack cli payload plen w =
     (case proto_read_keepalive_timestamp payload plen of
        None \<Rightarrow> (cli, w)
      | Some sent_at \<Rightarrow>
          let (now, w) = now_ms w
          in if now < sent_at then (cli, w)
             else
               let sample = now - sent_at;
                   cli = cli\<lparr>cli_server_rtt_ms := smooth_rtt_ms (cli_server_rtt_ms cli) sample (cli_has_server_rtt cli),
                             cli_has_server_rtt := True\<rparr>
               in (cli, LOG_DEBUG (lit ''Server keepalive RTT: '' @ fmt_u (unat (cli_server_rtt_ms cli)) @ lit ''ms'') w))"

text \<open>The loop over the entries from index \<open>i\<close> on, \<open>k\<close> of them.\<close>

fun client_peer_list_loop :: "nat \<Rightarrow> nat \<Rightarrow> bytes \<Rightarrow> u16 \<Rightarrow> client_t \<Rightarrow> world \<Rightarrow> client_t \<times> world" where
  "client_peer_list_loop 0 i payload plen cli w = (cli, w)"
| "client_peer_list_loop (Suc k) i payload plen cli w =
     (case proto_read_peer_entry payload plen (int i) of
        None \<Rightarrow> (cli, w)
      | Some (virt_ip, name, online) \<Rightarrow>
          let (cli, w) = client_update_peer cli virt_ip (Some name) online w
          in client_peer_list_loop k (i + 1) payload plen cli w)"

definition client_handle_peer_list :: "client_t \<Rightarrow> bytes \<Rightarrow> u16 \<Rightarrow> world \<Rightarrow> client_t \<times> world" where
  "client_handle_peer_list cli payload plen w =
     (let count = proto_peer_entry_count plen;
          w = (if \<not> g_tui_active w then LOG_INFO (lit ''Received peer list: '' @ fmt_d count @ lit '' peer(s)'') w else w);
          (cli, w) = client_peer_list_loop (nat count) 0 payload plen cli w
      in (cli, if \<not> g_tui_active w \<and> 0 < count then client_log_peers cli w else w))"

definition client_handle_peer_join :: "client_t \<Rightarrow> bytes \<Rightarrow> u16 \<Rightarrow> world \<Rightarrow> client_t \<times> world" where
  "client_handle_peer_join cli payload plen w =
     (if unat plen < 4 + TUND_NAME_LEN then (cli, w)
      else
        let vip = u32_of_mem (slice 0 4 payload);
            name = memcpy_at 0 (slice 4 TUND_NAME_LEN payload) (zeros TUND_NAME_LEN);
            w = LOG_INFO ([0xE2, 0x98, 0x85] @ lit '' Peer joined: '' @ c_str name @ lit '' ('' @
                  ip_to_str_buf vip TUND_IP_STR_LEN @ lit '')'') w;
            (cli, w) = client_update_peer cli vip (Some name) True w
        in (cli, if \<not> g_tui_active w then client_log_peers cli w else w))"

definition client_leave_locked :: "client_t \<Rightarrow> u32 \<Rightarrow> bytes \<times> int \<times> client_t" where
  "client_leave_locked cli vip =
     (let unknown = lit ''unknown'' @ zeros (TUND_NAME_LEN - 7)
      in case first_idx (\<lambda>p. peer_active p \<and> peer_virt_ip p = vip) (cli_peers cli) of
           None \<Rightarrow> (unknown, cli_peer_count cli, cli)
         | Some i \<Rightarrow>
             let p = cli_peers cli ! i;
                 cli = cli\<lparr>cli_peers := (cli_peers cli)[i := p\<lparr>peer_active := False\<rparr>],
                           cli_peer_count := cli_peer_count cli - 1\<rparr>
             in (strncpy unknown (peer_name p) (TUND_NAME_LEN - 1), cli_peer_count cli, cli))"

definition client_handle_peer_leave :: "client_t \<Rightarrow> bytes \<Rightarrow> u16 \<Rightarrow> world \<Rightarrow> client_t \<times> world" where
  "client_handle_peer_leave cli payload plen w =
     (if plen < 4 then (cli, w)
      else
        let vip = u32_of_mem (slice 0 4 payload);
            (name, remaining, cli) = client_leave_locked cli vip;
            w = LOG_INFO ([0xE2, 0x9C, 0xA6] @ lit '' Peer left: '' @ c_str name @ lit '' ('' @
                  ip_to_str_buf vip TUND_IP_STR_LEN @ lit '')'') w
        in (cli, if \<not> g_tui_active w \<and> 0 < remaining then client_log_peers cli w
                 else if \<not> g_tui_active w then LOG_INFO (lit ''No peers connected.'') w
                 else w))"

definition client_dispatch :: "client_t \<Rightarrow> u8 \<Rightarrow> bytes \<Rightarrow> u16 \<Rightarrow> world \<Rightarrow> client_t \<times> world" where
  "client_dispatch cli type payload payload_len w =
     (if type = MSG_DATA
      then if proto_validate_ipv4_packet payload payload_len \<noteq> TUND_IPV4_OK
           then (cli, LOG_DEBUG (lit ''Dropped invalid DATA packet from server'') w)
           else let cli = client_add_peer_traffic cli (proto_get_src_ip payload payload_len) (ucast payload_len) 0
                in (cli, snd (tun_write (cli_tun cli) payload (unat payload_len) w))
      else if type = MSG_PEER_LIST then client_handle_peer_list cli payload payload_len w
      else if type = MSG_PEER_JOIN then client_handle_peer_join cli payload payload_len w
      else if type = MSG_PEER_LEAVE then client_handle_peer_leave cli payload payload_len w
      else if type = MSG_KEEPALIVE then (cli, client_handle_keepalive cli payload payload_len w)
      else if type = MSG_KEEPALIVE_ACK then client_handle_keepalive_ack cli payload payload_len w
      else if type = MSG_DISCONNECT then (cli, tund_request_stop (LOG_WARN (lit ''Server disconnected!'') w))
      else (cli, LOG_DEBUG (lit ''Unknown message type 0x'' @ fmt_02X type) w))"

definition client_handle_server_packet :: "client_t \<Rightarrow> bytes \<Rightarrow> int \<Rightarrow> world \<Rightarrow> client_t \<times> world" where
  "client_handle_server_packet cli buf len w =
     (case proto_read_hdr buf of
        Inl hdr \<Rightarrow>
          (cli, if hdr = TUND_HDR_BAD_VERSION
                then LOG_DEBUG (lit ''Ignored packet with unsupported protocol version '' @ fmt_u (unat (buf ! 1))) w
                else w)
      | Inr (type, payload_len) \<Rightarrow>
          if len < int TUND_HDR_SIZE + uint payload_len then (cli, w)
          else
            let replayed = (\<lambda>cli. (cli, LOG_DEBUG (lit ''Dropped replayed packet from server'') w))
            in case proto_read_sequence buf of
                 None \<Rightarrow> replayed cli
               | Some sequence \<Rightarrow>
                   let (ok, replay) = proto_replay_accept (cli_server_replay cli) sequence;
                       cli = cli\<lparr>cli_server_replay := replay\<rparr>
                   in if \<not> ok then replayed cli
                      else let (cli, w) = client_mark_server_seen cli w
                           in client_dispatch cli type (drop TUND_HDR_SIZE buf) payload_len w)"

end
