(* ===== verification/Client_Run.thy ===== *)
theory Client_Run
  imports Client_Session
begin

text \<open>
  The client's threads and life cycle (\<open>src/core/client/client.c\<close>, \<open>log.c\<close>). As for the server, a thread
  is modelled by one iteration of its loop, which returns whether the loop goes on.
\<close>

section \<open>log.c\<close>

definition client_log_banner :: "client_t \<Rightarrow> world \<Rightarrow> world" where
  "client_log_banner cli w =
     (let w = LOG_INFO (lit ''TunD Client v'' @ lit TUND_VERSION) w;
          w = LOG_INFO (lit ''Virtual IP: '' @ ip_to_str_buf (cli_virt_ip cli) TUND_IP_STR_LEN) w;
          w = LOG_INFO (lit ''Server: '' @ ip_to_str_buf (sin_addr (cli_server_addr cli)) TUND_IP_STR_LEN @ lit '':'' @
                fmt_u (unat (ntohs (sin_port (cli_server_addr cli))))) w;
          w = LOG_INFO (lit ''TUN: '' @ c_str (tun_ifname (cli_tun cli))) w;
          w = LOG_INFO (lit ''Name: '' @ c_str (cli_name cli)) w
      in LOG_INFO (lit ''Press Ctrl+C to disconnect.'') w)"

definition client_log_startup_checklist :: "client_t \<Rightarrow> world \<Rightarrow> world" where
  "client_log_startup_checklist cli w =
     (let w = LOG_INFO (lit ''Startup checklist:'') w;
          w = LOG_INFO (lit ''Connected to server '' @ ip_to_str_buf (sin_addr (cli_server_addr cli)) TUND_IP_STR_LEN @
                lit '':'' @ fmt_u (unat (ntohs (sin_port (cli_server_addr cli)))) @ lit ''.'') w;
          w = LOG_INFO (lit ''Virtual IP assigned: '' @ ip_to_str_buf (cli_virt_ip cli) TUND_IP_STR_LEN @ lit '' on '' @
                c_str (tun_ifname (cli_tun cli)) @ lit ''.'') w;
          w = LOG_INFO (lit ''Shared key accepted by server.'') w
      in LOG_INFO (lit ''Waiting for peer updates and tunnel traffic.'') w)"

section \<open>Keepalive thread\<close>

definition client_keepalive_pass :: "client_t \<Rightarrow> world \<Rightarrow> bool \<times> world" where
  "client_keepalive_pass cli w =
     (let (now, w) = time_now w
      in if client_server_timed_out cli now
         then (False, tund_request_stop (LOG_WARN (lit ''Server timed out after '' @ fmt_u (unat TUND_SERVER_TIMEOUT) @
                        lit '' seconds without a response.'') w))
         else
           let (ms, w) = now_ms w;
               (len, buf, w) = proto_build_keepalive (zeros TUND_MAX_PKT) ms w;
               (r, w) = net_send buf len (cli_server_addr cli) w
           in (True, if r < 0 then LOG_WARN (lit ''Keepalive send failed'') w else w))"

definition client_keepalive_iter :: "nat \<Rightarrow> client_t \<Rightarrow> world \<Rightarrow> bool \<times> nat \<times> world" where
  "client_keepalive_iter slept cli w =
     (if \<not> (tund_is_running w \<and> \<not> cli_ka_quit cli) then (False, slept, w)
      else
        let slept = slept + 1
        in if slept < TUND_KEEPALIVE_INTERVAL then (True, slept, w)
           else if \<not> tund_is_running w \<or> cli_ka_quit cli then (False, 0, w)
           else let (go, w) = client_keepalive_pass cli w in (go, 0, w))"

section \<open>TUN thread\<close>

definition client_tun_packet :: "client_t \<Rightarrow> bytes \<Rightarrow> int \<Rightarrow> world \<Rightarrow> client_t \<times> world" where
  "client_tun_packet cli pkt_buf n w =
     (let len16 = of_int n :: u16;
          validation = proto_validate_ipv4_packet pkt_buf len16
      in if validation \<noteq> TUND_IPV4_OK
         then (cli, LOG_DEBUG (lit ''Dropped invalid TUN packet: '' @ proto_ipv4_validation_error validation) w)
         else
           let (msg_len, msg_buf, w) = proto_build_data (zeros TUND_MAX_PKT) pkt_buf len16 w;
               (r, w) = net_send msg_buf msg_len (cli_server_addr cli) w
           in if r < 0 then (cli, LOG_WARN (lit ''Failed to send TUN data to server'') w)
              else
                let dst_ip = proto_get_dst_ip pkt_buf len16
                in if dst_ip = htonl (TUND_SUBNET OR NOT TUND_NETMASK)
                   then (client_add_broadcast_traffic cli (of_int n), w)
                   else (client_add_peer_traffic cli dst_ip 0 (of_int n), w))"

definition client_tun_iter :: "client_t \<Rightarrow> world \<Rightarrow> bool \<times> client_t \<times> world" where
  "client_tun_iter cli w =
     (if \<not> (tund_is_running w \<and> \<not> cli_tun_quit cli) then (False, cli, w)
      else
        let (n, pkt_buf, w) = tun_read (cli_tun cli) TUND_MAX_PLAINTEXT w
        in if n \<le> 0
           then (if \<not> tund_is_running w \<or> cli_tun_quit cli then (False, cli, w) else (True, cli, w))
           else let (cli, w) = client_tun_packet cli pkt_buf n w in (True, cli, w))"

section \<open>Life cycle\<close>

text \<open>The fields that \<open>client_init\<close> sets before it does anything else.\<close>

definition client0 :: "config_t \<Rightarrow> client_t" where
  "client0 cfg =
     \<lparr>cli_sockfd = -1, cli_tun = tun_device0\<lparr>tun_fd := -1\<rparr>, cli_server_addr = sockaddr0, cli_virt_ip = 0,
      cli_netmask = 0, cli_server_rtt_ms = 0, cli_has_server_rtt = False, cli_last_server_seen = 0,
      cli_server_replay = proto_replay_reset,
      cli_name = snprintf (zeros TUND_NAME_LEN) TUND_NAME_LEN (c_str (cfg_client_name cfg)),
      cli_peers = replicate TUND_MAX_PEERS peer0, cli_peer_count = 0, cli_ka_started = False,
      cli_tun_started = False, cli_ka_quit = False, cli_tun_quit = False\<rparr>"

definition client_init :: "bytes \<Rightarrow> sockaddr_in \<Rightarrow> config_t \<Rightarrow> world \<Rightarrow> int \<times> client_t \<times> world" where
  "client_init buf from cfg w =
     (let cli = client0 cfg;
          (r, addr, w) = net_resolve (cfg_server_ip cfg) (cfg_port cfg) (cli_server_addr cli) w;
          cli = cli\<lparr>cli_server_addr := addr\<rparr>
      in if r < 0 then (-1, cli, w)
         else
           let (fd, w) = net_create_socket 0 w;
               cli = cli\<lparr>cli_sockfd := fd\<rparr>
           in if \<not> sock_valid fd then (-1, cli, w)
              else
                let (r, cli, w) = client_register buf from cli w
                in if r < 0 then (-1, cli, sock_close fd w)
                   else
                     let (cli, w) = client_mark_server_seen cli w;
                         (r, tun, w) = tun_open (cli_tun cli) w;
                         cli = cli\<lparr>cli_tun := tun\<rparr>
                     in if r < 0 then (-1, cli, sock_close fd w)
                        else
                          let (r, w) = tun_set_ip (cli_tun cli) (cli_virt_ip cli) (cli_netmask cli) w
                          in if r < 0
                             then let (tun, w) = tun_close (cli_tun cli) w in (-1, cli\<lparr>cli_tun := tun\<rparr>, sock_close fd w)
                             else
                               let (r, tun, w) = tun_set_mtu (cli_tun cli) (int TUND_TUN_MTU) w;
                                   cli = cli\<lparr>cli_tun := tun\<rparr>
                               in if r < 0
                                  then let (tun, w) = tun_close (cli_tun cli) w
                                       in (-1, cli\<lparr>cli_tun := tun\<rparr>, sock_close fd w)
                                  else (0, cli, w))"

text \<open>\<open>client_run\<close> up to its loop; the flag tells whether the loop is entered.\<close>

definition client_run_start :: "client_t \<Rightarrow> world \<Rightarrow> bool \<times> client_t \<times> world" where
  "client_run_start cli w =
     (let w = client_log_banner cli w;
          cli = cli\<lparr>cli_ka_quit := False, cli_tun_quit := False\<rparr>;
          (r, w) = syscall sys_pthread_create w
      in if r \<noteq> 0 then (False, cli, tund_request_stop (LOG_ERROR (lit ''Failed to create keepalive thread'') w))
         else
           let cli = cli\<lparr>cli_ka_started := True\<rparr>;
               (r, w) = syscall sys_pthread_create w
           in if r \<noteq> 0
              then (False, cli\<lparr>cli_ka_quit := True, cli_ka_started := False\<rparr>,
                    tund_request_stop (LOG_ERROR (lit ''Failed to create TUN thread'') w))
              else
                let cli = cli\<lparr>cli_tun_started := True\<rparr>;
                    w = (if g_tui_active w then tui_init w else w)
                in (True, cli, client_log_startup_checklist cli w))"

text \<open>The local variables of \<open>client_run\<close>, uninitialised in C.\<close>

record client_locals =
  cl_buf :: bytes
  cl_from :: sockaddr_in
  cl_tui_peers :: "tui_peer_t list"
  cl_npeers :: nat

definition client_run_iter ::
    "client_locals \<Rightarrow> client_t \<Rightarrow> world \<Rightarrow> bool \<times> client_locals \<times> client_t \<times> world" where
  "client_run_iter l cli w =
     (if \<not> tund_is_running w then (False, l, cli, w)
      else
        let (ret, tui_peers, npeers, w) = net_poll_peers (cli_peers cli) (cl_tui_peers l) (cl_npeers l) w;
            l = l\<lparr>cl_tui_peers := tui_peers, cl_npeers := npeers\<rparr>
        in if ret < 0 then (False, l, cli, w)
           else if ret = 0
           then (True, l, cli,
                 if g_tui_active w
                 then tui_render_client (inet_ntop (sin_addr (cli_server_addr cli))) (ntohs (sin_port (cli_server_addr cli)))
                        (tun_ifname (cli_tun cli)) (cli_virt_ip cli) (cli_netmask cli) (cli_has_server_rtt cli)
                        (cli_server_rtt_ms cli) (g_start_time w) (int npeers) tui_peers npeers w
                 else w)
           else
             let (n, buf, from, w) = net_recv (cl_buf l) (cl_from l) w;
                 l = l\<lparr>cl_buf := buf, cl_from := from\<rparr>
             in if n \<le> 0 \<or> \<not> net_addr_equal from (cli_server_addr cli) then (True, l, cli, w)
                else let (cli, w) = client_handle_server_packet cli buf n w in (True, l, cli, w))"

fun client_run_loop :: "nat \<Rightarrow> client_locals \<Rightarrow> client_t \<Rightarrow> world \<Rightarrow> (client_t \<times> world) option" where
  "client_run_loop 0 l cli w = None"
| "client_run_loop (Suc fuel) l cli w =
     (case client_run_iter l cli w of
        (False, _, cli, w) \<Rightarrow> Some (cli, w)
      | (True, l, cli, w) \<Rightarrow> client_run_loop fuel l cli w)"

definition client_run :: "nat \<Rightarrow> client_locals \<Rightarrow> client_t \<Rightarrow> world \<Rightarrow> (client_t \<times> world) option" where
  "client_run fuel l cli w =
     (case client_run_start cli w of
        (False, cli, w) \<Rightarrow> Some (cli, w)
      | (True, cli, w) \<Rightarrow> client_run_loop fuel l cli w)"

definition client_shutdown :: "client_t \<Rightarrow> world \<Rightarrow> client_t \<times> world" where
  "client_shutdown cli w =
     (let w = LOG_INFO (lit ''Disconnecting...'') w;
          cli = cli\<lparr>cli_ka_quit := True, cli_tun_quit := True\<rparr>;
          (len, buf, w) = proto_build_disconnect (zeros TUND_MAX_PKT) w;
          (r, w) = net_send buf len (cli_server_addr cli) w;
          (tun, w) = tun_close (cli_tun cli) w;
          cli = cli\<lparr>cli_tun := tun\<rparr>;
          w = (if g_tui_active w then tui_shutdown w else w);
          (cli, w) = (if sock_valid (cli_sockfd cli)
                      then (cli\<lparr>cli_sockfd := -1\<rparr>, sock_close (cli_sockfd cli) w) else (cli, w))
      in (cli, LOG_INFO (lit ''Disconnected cleanly.'') w))"

end
