(* ===== verification/Server_Peers.thy ===== *)
theory Server_Peers
  imports Sending
begin

text \<open>
  The server's state (\<open>src/core/server/server.h\<close>, \<open>internal.h\<close>) and the operations on its peer table
  (\<open>peers.c\<close>). The table is guarded by \<open>peers_lock\<close>; the operations named \<open>_locked\<close> and the
  searches run inside a critical section of their caller. An index of -1 is \<open>None\<close>.
\<close>

record server_t =
  srv_sockfd :: int
  srv_tun :: tun_device_t
  srv_peers :: "peer_t list"
  srv_peer_count :: int
  srv_port :: u16
  srv_timeout_started :: bool
  srv_tun_started :: bool
  srv_timeout_quit :: bool
  srv_tun_quit :: bool

record server_peer_snapshot_t =
  snap_idx :: int
  snap_virt_ip :: u32
  snap_name :: bytes
  snap_real_addr :: sockaddr_in

section \<open>Searching and allocating\<close>

definition server_ip_taken :: "server_t \<Rightarrow> u32 \<Rightarrow> bool" where
  "server_ip_taken srv ip_n \<longleftrightarrow>
     first_idx (\<lambda>p. peer_active p \<and> peer_virt_ip p = ip_n) (srv_peers srv) \<noteq> None"

text \<open>The loop \<open>for (ip_h = TUND_IP_START; ip_h <= TUND_IP_END; ip_h++)\<close> from \<open>ip_h\<close> on.\<close>

function server_alloc_ip_loop :: "server_t \<Rightarrow> u32 \<Rightarrow> u32" where
  "server_alloc_ip_loop srv ip_h =
     (if ip_h \<le> TUND_IP_END
      then if \<not> server_ip_taken srv (htonl ip_h) then htonl ip_h else server_alloc_ip_loop srv (ip_h + 1)
      else 0)"
  by pat_completeness auto
termination
proof (relation "measure (\<lambda>(srv, ip_h). 0x0A0900FF - unat ip_h)")
  fix srv :: server_t and ip_h :: u32
  assume "ip_h \<le> TUND_IP_END"
  then have le: "unat ip_h \<le> 0x0A0900FE" by (simp add: word_le_nat_alt)
  then have "unat (ip_h + 1) = unat ip_h + 1" using unat_add_lem [of ip_h 1] by simp
  with le show "((srv, ip_h + 1), (srv, ip_h)) \<in> measure (\<lambda>(srv, ip_h). 0x0A0900FF - unat ip_h)" by simp
qed simp

declare server_alloc_ip_loop.simps [simp del]

definition server_alloc_ip :: "server_t \<Rightarrow> u32" where
  "server_alloc_ip srv = server_alloc_ip_loop srv TUND_IP_START"

definition server_find_peer_by_vip :: "server_t \<Rightarrow> u32 \<Rightarrow> nat option" where
  "server_find_peer_by_vip srv virt_ip =
     first_idx (\<lambda>p. peer_active p \<and> peer_virt_ip p = virt_ip) (srv_peers srv)"

definition server_find_peer_by_addr :: "server_t \<Rightarrow> sockaddr_in \<Rightarrow> nat option" where
  "server_find_peer_by_addr srv addr =
     first_idx (\<lambda>p. peer_active p \<and> sin_addr (peer_real_addr p) = sin_addr addr \<and>
                    sin_port (peer_real_addr p) = sin_port addr) (srv_peers srv)"

definition server_find_free_slot :: "server_t \<Rightarrow> nat option" where
  "server_find_free_slot srv = first_idx (\<lambda>p. \<not> peer_active p) (srv_peers srv)"

section \<open>Snapshots\<close>

definition server_snapshot_peer_locked :: "peer_t \<Rightarrow> nat \<Rightarrow> server_peer_snapshot_t" where
  "server_snapshot_peer_locked peer idx =
     \<lparr>snap_idx = int idx, snap_virt_ip = peer_virt_ip peer,
      snap_name = snprintf (zeros TUND_NAME_LEN) TUND_NAME_LEN (c_str (peer_name peer)),
      snap_real_addr = peer_real_addr peer\<rparr>"

definition server_snapshot_broadcast_locked :: "server_t \<Rightarrow> nat \<Rightarrow> int \<Rightarrow> server_peer_snapshot_t list" where
  "server_snapshot_broadcast_locked srv max_peers exclude_idx =
     take max_peers
       (map (\<lambda>i. server_snapshot_peer_locked (srv_peers srv ! i) i)
         (filter (\<lambda>i. peer_active (srv_peers srv ! i) \<and> int i \<noteq> exclude_idx) [0..<length (srv_peers srv)]))"

definition server_snapshot_peer_by_vip_locked :: "server_t \<Rightarrow> u32 \<Rightarrow> server_peer_snapshot_t option" where
  "server_snapshot_peer_by_vip_locked srv virt_ip =
     map_option (\<lambda>idx. server_snapshot_peer_locked (srv_peers srv ! idx) idx) (server_find_peer_by_vip srv virt_ip)"

definition server_add_peer_bytes_out :: "server_t \<Rightarrow> server_peer_snapshot_t \<Rightarrow> u64 \<Rightarrow> server_t" where
  "server_add_peer_bytes_out srv peer bytes_out =
     (if bytes_out = 0 then srv
      else if 0 \<le> snap_idx peer \<and> snap_idx peer < int TUND_MAX_PEERS
      then let i = nat (snap_idx peer); current = srv_peers srv ! i
           in if peer_active current \<and> peer_virt_ip current = snap_virt_ip peer \<and>
                 sin_addr (peer_real_addr current) = sin_addr (snap_real_addr peer) \<and>
                 sin_port (peer_real_addr current) = sin_port (snap_real_addr peer)
              then srv\<lparr>srv_peers := (srv_peers srv)[i := current\<lparr>peer_bytes_out := peer_bytes_out current + bytes_out\<rparr>]\<rparr>
              else srv
      else srv)"

section \<open>Sending to peers\<close>

text \<open>
  Both loops over snapshots (\<open>server_send_peer_snapshots\<close> and the one of \<open>server_broadcast\<close>) differ only
  in the text of the warning.
\<close>

fun server_send_loop :: "string \<Rightarrow> server_peer_snapshot_t list \<Rightarrow> bytes \<Rightarrow> int \<Rightarrow> u64 \<Rightarrow> server_t \<Rightarrow> world
    \<Rightarrow> server_t \<times> world" where
  "server_send_loop what [] buf len bytes_out srv w = (srv, w)"
| "server_send_loop what (p # ps) buf len bytes_out srv w =
     (let (r, w) = net_send buf len (snap_real_addr p) w
      in if r < 0
         then server_send_loop what ps buf len bytes_out srv
                (LOG_WARN (lit what @ c_str (snap_name p) @ lit '' ('' @
                   ip_to_str_buf (snap_virt_ip p) TUND_IP_STR_LEN @ lit '') failed'') w)
         else server_send_loop what ps buf len bytes_out (server_add_peer_bytes_out srv p bytes_out) w)"

definition server_send_peer_snapshots ::
    "server_t \<Rightarrow> server_peer_snapshot_t list \<Rightarrow> bytes \<Rightarrow> int \<Rightarrow> u64 \<Rightarrow> world \<Rightarrow> server_t \<times> world" where
  "server_send_peer_snapshots srv peers buf len bytes_out w =
     server_send_loop ''Send to '' peers buf len bytes_out srv w"

definition server_broadcast :: "server_t \<Rightarrow> bytes \<Rightarrow> int \<Rightarrow> int \<Rightarrow> u64 \<Rightarrow> world \<Rightarrow> server_t \<times> world" where
  "server_broadcast srv buf len exclude_idx bytes_out w =
     (let peers = server_snapshot_broadcast_locked srv TUND_MAX_PEERS exclude_idx
      in server_send_loop ''Broadcast to '' peers buf len bytes_out srv w)"

text \<open>
  The loop that fills a peer list: the packet buffer, the offset into its payload and the number of
  entries so far. It stops at the first entry that does not fit.
\<close>

fun peer_list_loop :: "bytes \<Rightarrow> nat \<Rightarrow> nat \<Rightarrow> (u32 \<times> bytes) list \<Rightarrow> bytes \<times> nat \<times> nat" where
  "peer_list_loop buf offset count [] = (buf, offset, count)"
| "peer_list_loop buf offset count ((virt_ip, name) # entries) =
     (case proto_write_peer_entry (drop (TUND_HDR_SIZE + offset) buf) (TUND_MAX_PLAINTEXT - offset)
             virt_ip (Some name) True of
        None \<Rightarrow> (buf, offset, count)
      | Some out \<Rightarrow>
          peer_list_loop (take (TUND_HDR_SIZE + offset) buf @ out) (offset + TUND_PEER_ENTRY_SIZE) (count + 1) entries)"

definition server_send_peer_list :: "server_t \<Rightarrow> int \<Rightarrow> world \<Rightarrow> world" where
  "server_send_peer_list srv peer_idx w =
     (let target = (if 0 \<le> peer_idx \<and> peer_idx < int TUND_MAX_PEERS \<and> peer_active (srv_peers srv ! nat peer_idx)
                    then Some (server_snapshot_peer_locked (srv_peers srv ! nat peer_idx) (nat peer_idx))
                    else None);
          others = map (\<lambda>i. (peer_virt_ip (srv_peers srv ! i), peer_name (srv_peers srv ! i)))
                     (filter (\<lambda>i. peer_active (srv_peers srv ! i) \<and> int i \<noteq> peer_idx) [0..<length (srv_peers srv)]);
          (buf, offset, count) = peer_list_loop (zeros TUND_MAX_PKT) 0 0 others
      in case target of
           None \<Rightarrow> w
         | Some target \<Rightarrow>
             let (_, buf, w) = proto_write_hdr buf MSG_PEER_LIST (of_nat offset) w;
                 (r, w) = net_send buf (int (TUND_HDR_SIZE + offset)) (snap_real_addr target) w
             in if r < 0
                then LOG_WARN (lit ''Failed to send peer list to '' @ c_str (snap_name target)) w
                else LOG_DEBUG (lit ''Sent peer list ('' @ fmt_u count @ lit '' peers) to '' @
                                c_str (snap_name target)) w)"

end
