(* ===== verification/Server_Handlers.thy ===== *)
theory Server_Handlers
  imports Server_Peers
begin

text \<open>
  The server's message handlers (\<open>src/core/server/handlers.c\<close>, \<open>data.c\<close>, \<open>keepalive.c\<close>). Each handler is
  a critical section on the peer table, a definition of its own named after the handler, followed by
  the sending that the code does after releasing the lock; the second part touches the table again
  only through \<open>server_add_peer_bytes_out\<close>. The theory \<open>Server_System\<close> interleaves these sections.
\<close>

section \<open>Registration\<close>

text \<open>How the critical section of \<open>server_handle_register\<close> ends.\<close>

datatype register_result =
    RegReplayed bytes
  | RegTableFull
  | RegPoolExhausted
  | RegReconnect u32 bytes sockaddr_in
  | RegNew u32 bytes sockaddr_in "server_peer_snapshot_t list" "sockaddr_in list"

definition server_peer_name :: "bytes \<Rightarrow> u16 \<Rightarrow> nat \<Rightarrow> bytes" where
  "server_peer_name payload plen idx =
     (if 0 < plen
      then memcpy_at 0 (take (if unat plen < TUND_NAME_LEN - 1 then unat plen else TUND_NAME_LEN - 1) payload)
             (zeros TUND_NAME_LEN)
      else snprintf (zeros TUND_NAME_LEN) TUND_NAME_LEN (lit ''peer-'' @ fmt_u idx))"

definition server_new_peer :: "nat \<Rightarrow> u32 \<Rightarrow> bytes \<Rightarrow> u16 \<Rightarrow> sockaddr_in \<Rightarrow> u64 \<Rightarrow> int \<Rightarrow> peer_t" where
  "server_new_peer idx vip payload plen from sequence now =
     \<lparr>peer_active = True, peer_virt_ip = vip, peer_name = server_peer_name payload plen idx,
      peer_real_addr = from, peer_last_seen = now, peer_bytes_in = 0, peer_bytes_out = 0, peer_rtt_ms = 0,
      peer_has_rtt = False, peer_replay = snd (proto_replay_accept proto_replay_reset sequence)\<rparr>"

definition server_register_locked ::
    "server_t \<Rightarrow> bytes \<Rightarrow> u16 \<Rightarrow> sockaddr_in \<Rightarrow> u64 \<Rightarrow> world \<Rightarrow> register_result \<times> server_t \<times> world" where
  "server_register_locked srv payload plen from sequence w =
     (case server_find_peer_by_addr srv from of
        Some idx \<Rightarrow>
          let p = srv_peers srv ! idx;
              (ok, replay) = proto_replay_accept (peer_replay p) sequence;
              pname = snprintf (zeros TUND_NAME_LEN) TUND_NAME_LEN (c_str (peer_name p))
          in if \<not> ok then (RegReplayed pname, srv, w)
             else let (now, w) = time_now w
                  in (RegReconnect (peer_virt_ip p) pname (peer_real_addr p),
                      srv\<lparr>srv_peers := (srv_peers srv)[idx := p\<lparr>peer_replay := replay, peer_last_seen := now\<rparr>]\<rparr>, w)
      | None \<Rightarrow>
          (case server_find_free_slot srv of
             None \<Rightarrow> (RegTableFull, srv, w)
           | Some idx \<Rightarrow>
               let vip = server_alloc_ip srv
               in if vip = 0 then (RegPoolExhausted, srv, w)
                  else
                    let (now, w) = time_now w;
                        p = server_new_peer idx vip payload plen from sequence now;
                        srv = srv\<lparr>srv_peers := (srv_peers srv)[idx := p], srv_peer_count := srv_peer_count srv + 1\<rparr>;
                        others = filter (\<lambda>i. peer_active (srv_peers srv ! i) \<and> i \<noteq> idx) [0..<length (srv_peers srv)]
                    in (RegNew vip (snprintf (zeros TUND_NAME_LEN) TUND_NAME_LEN (c_str (peer_name p))) (peer_real_addr p)
                          (map (\<lambda>i. server_snapshot_peer_locked (srv_peers srv ! i) i) others)
                          (map (\<lambda>i. peer_real_addr (srv_peers srv ! i)) others),
                        srv, w)))"

definition build_peer_list_from_snapshot ::
    "bytes \<Rightarrow> server_peer_snapshot_t list \<Rightarrow> world \<Rightarrow> int \<times> nat \<times> bytes \<times> world" where
  "build_peer_list_from_snapshot buf entries w =
     (let (buf, offset, count) = peer_list_loop buf 0 0 (map (\<lambda>e. (snap_virt_ip e, snap_name e)) entries);
          (_, buf, w) = proto_write_hdr buf MSG_PEER_LIST (of_nat offset) w
      in (int (TUND_HDR_SIZE + offset), count, buf, w))"

fun server_send_joins :: "bytes \<Rightarrow> int \<Rightarrow> bytes \<Rightarrow> sockaddr_in list \<Rightarrow> world \<Rightarrow> world" where
  "server_send_joins buf len pname [] w = w"
| "server_send_joins buf len pname (d # dests) w =
     (let (r, w) = net_send buf len d w
      in server_send_joins buf len pname dests
           (if r < 0 then LOG_WARN (lit ''Peer join broadcast for '' @ c_str pname @ lit '' failed'') w else w))"

text \<open>What follows the critical section; \<open>buf\<close> is the handler's packet buffer.\<close>

definition server_register_reply :: "register_result \<Rightarrow> sockaddr_in \<Rightarrow> world \<Rightarrow> world" where
  "server_register_reply res from w =
     (case res of
        RegReplayed pname \<Rightarrow> LOG_DEBUG (lit ''Dropped replayed REGISTER from '' @ c_str pname) w
      | RegTableFull \<Rightarrow> LOG_WARN (lit ''Peer table full, rejecting connection'') w
      | RegPoolExhausted \<Rightarrow> LOG_WARN (lit ''IP pool exhausted, rejecting connection'') w
      | RegReconnect vip pname peer_addr \<Rightarrow>
          let (len, buf, w) = proto_build_assign (zeros TUND_MAX_PKT) vip (htonl TUND_NETMASK) (of_nat TUND_TUN_MTU) w;
              (r, w) = net_send buf len peer_addr w;
              w = (if r < 0 then LOG_WARN (lit ''Failed to send ASSIGN to reconnecting peer '' @ c_str pname) w else w)
          in LOG_INFO (lit ''Peer '' @ c_str pname @ lit '' reconnected (refreshed)'') w
      | RegNew vip pname peer_addr entries dests \<Rightarrow>
          let (len, buf, w) = proto_build_assign (zeros TUND_MAX_PKT) vip (htonl TUND_NETMASK) (of_nat TUND_TUN_MTU) w;
              (r, w) = net_send buf len peer_addr w;
              w = (if r < 0 then LOG_WARN (lit ''Failed to send ASSIGN to new peer '' @ c_str pname) w else w);
              w = LOG_INFO ([0xE2, 0x98, 0x85] @ lit '' New peer: '' @ c_str pname @ [32, 0xE2, 0x86, 0x92, 32] @
                    ip_to_str_buf vip TUND_IP_STR_LEN @ lit '' ['' @ ip_to_str_buf (sin_addr from) TUND_IP_STR_LEN @
                    lit '':'' @ fmt_u (unat (ntohs (sin_port from))) @ lit '']'') w;
              w = app_event_peer_join pname vip peer_addr w;
              (len, sent_peer_count, buf, w) = build_peer_list_from_snapshot buf entries w;
              (r, w) = net_send buf len peer_addr w;
              w = (if r < 0 then LOG_WARN (lit ''Failed to send peer list to '' @ c_str pname) w
                   else LOG_DEBUG (lit ''Sent peer list ('' @ fmt_u sent_peer_count @ lit '' peers) to '' @
                                   c_str pname) w);
              (len, buf, w) = proto_build_peer_join buf vip pname w
          in server_send_joins buf len pname dests w)"

definition server_handle_register ::
    "server_t \<Rightarrow> bytes \<Rightarrow> u16 \<Rightarrow> sockaddr_in \<Rightarrow> u64 \<Rightarrow> world \<Rightarrow> server_t \<times> world" where
  "server_handle_register srv payload plen from sequence w =
     (let (res, srv, w) = server_register_locked srv payload plen from sequence w
      in (srv, server_register_reply res from w))"

section \<open>Replay check and disconnection\<close>

definition server_accept_locked :: "server_t \<Rightarrow> sockaddr_in \<Rightarrow> u64 \<Rightarrow> bool \<times> bytes option \<times> server_t" where
  "server_accept_locked srv from sequence =
     (case server_find_peer_by_addr srv from of
        None \<Rightarrow> (True, None, srv)
      | Some idx \<Rightarrow>
          let p = srv_peers srv ! idx;
              (accepted, replay) = proto_replay_accept (peer_replay p) sequence
          in (accepted, Some (snprintf (zeros TUND_NAME_LEN) TUND_NAME_LEN (c_str (peer_name p))),
              srv\<lparr>srv_peers := (srv_peers srv)[idx := p\<lparr>peer_replay := replay\<rparr>]\<rparr>))"

definition server_accept_registered_sequence ::
    "server_t \<Rightarrow> sockaddr_in \<Rightarrow> u64 \<Rightarrow> world \<Rightarrow> bool \<times> server_t \<times> world" where
  "server_accept_registered_sequence srv from sequence w =
     (let (accepted, known, srv) = server_accept_locked srv from sequence
      in (accepted, srv,
          case known of
            Some pname \<Rightarrow>
              if \<not> accepted then LOG_DEBUG (lit ''Dropped replayed packet from '' @ c_str pname) w else w
          | None \<Rightarrow> w))"

definition server_disconnect_locked ::
    "server_t \<Rightarrow> sockaddr_in \<Rightarrow> world \<Rightarrow> (u32 \<times> server_peer_snapshot_t list) option \<times> server_t \<times> world" where
  "server_disconnect_locked srv from w =
     (case server_find_peer_by_addr srv from of
        None \<Rightarrow> (None, srv, w)
      | Some idx \<Rightarrow>
          let p = srv_peers srv ! idx;
              w = LOG_INFO ([0xE2, 0x9C, 0xA6] @ lit '' Peer disconnected: '' @ c_str (peer_name p) @ lit '' ('' @
                    ip_to_str_buf (peer_virt_ip p) TUND_IP_STR_LEN @ lit '')'') w;
              srv = srv\<lparr>srv_peers := (srv_peers srv)[idx := p\<lparr>peer_active := False\<rparr>],
                        srv_peer_count := srv_peer_count srv - 1\<rparr>
          in (Some (peer_virt_ip p, server_snapshot_broadcast_locked srv TUND_MAX_PEERS (-1)), srv, w))"

definition server_handle_disconnect :: "server_t \<Rightarrow> sockaddr_in \<Rightarrow> world \<Rightarrow> server_t \<times> world" where
  "server_handle_disconnect srv from w =
     (case server_disconnect_locked srv from w of
        (None, srv, w) \<Rightarrow> (srv, w)
      | (Some (vip, leave_peers), srv, w) \<Rightarrow>
          let (len, buf, w) = proto_build_peer_leave (zeros TUND_MAX_PKT) vip w;
              (srv, w) = server_send_peer_snapshots srv leave_peers buf len 0 w
          in (srv, app_event_peer_leave vip (lit ''disconnect'') w))"

section \<open>Data\<close>

text \<open>How the critical section of \<open>server_handle_data\<close> ends.\<close>

datatype data_result =
    DataUnregistered
  | DataSpoofed
  | DataForServer
  | DataBroadcast "server_peer_snapshot_t list"
  | DataNoPeer
  | DataUnicast server_peer_snapshot_t

definition server_data_locked ::
    "server_t \<Rightarrow> u32 \<Rightarrow> u32 \<Rightarrow> u16 \<Rightarrow> sockaddr_in \<Rightarrow> world \<Rightarrow> data_result \<times> server_t \<times> world" where
  "server_data_locked srv src_ip dst_ip plen from w =
     (case server_find_peer_by_addr srv from of
        None \<Rightarrow> (DataUnregistered, srv, w)
      | Some sender_idx \<Rightarrow>
          let p = srv_peers srv ! sender_idx
          in if src_ip \<noteq> peer_virt_ip p
             then (DataSpoofed, srv,
                   LOG_WARN (lit ''Dropped DATA with spoofed source '' @ ip_to_str_buf src_ip TUND_IP_STR_LEN @
                     lit '' from peer '' @ c_str (peer_name p) @ lit '' ('' @
                     ip_to_str_buf (peer_virt_ip p) TUND_IP_STR_LEN @ lit '')'') w)
             else
               let srv = srv\<lparr>srv_peers := (srv_peers srv)[sender_idx := p\<lparr>peer_bytes_in := peer_bytes_in p + ucast plen\<rparr>]\<rparr>
               in if dst_ip = htonl TUND_SERVER_IP then (DataForServer, srv, w)
                  else if dst_ip = htonl (TUND_SUBNET OR NOT TUND_NETMASK)
                  then (DataBroadcast (server_snapshot_broadcast_locked srv TUND_MAX_PEERS (int sender_idx)), srv, w)
                  else case server_snapshot_peer_by_vip_locked srv dst_ip of
                         None \<Rightarrow> (DataNoPeer, srv, w)
                       | Some dst_peer \<Rightarrow> (DataUnicast dst_peer, srv, w))"

definition server_data_forward ::
    "server_t \<Rightarrow> data_result \<Rightarrow> bytes \<Rightarrow> u16 \<Rightarrow> u32 \<Rightarrow> world \<Rightarrow> server_t \<times> world" where
  "server_data_forward srv res payload plen dst_ip w =
     (case res of
        DataUnregistered \<Rightarrow> (srv, LOG_WARN (lit ''Dropped DATA from an unregistered endpoint'') w)
      | DataSpoofed \<Rightarrow> (srv, w)
      | DataForServer \<Rightarrow> (srv, snd (tun_write (srv_tun srv) payload (unat plen) w))
      | DataNoPeer \<Rightarrow>
          (srv, LOG_DEBUG (lit ''No peer for '' @ ip_to_str_buf dst_ip TUND_IP_STR_LEN @ lit '', dropping packet'') w)
      | DataBroadcast peers \<Rightarrow>
          let (len, buf, w) = proto_build_data (zeros TUND_MAX_PKT) payload plen w;
              (srv, w) = server_send_loop ''Broadcast to '' peers buf len (ucast plen) srv w
          in (srv, snd (tun_write (srv_tun srv) payload (unat plen) w))
      | DataUnicast dst_peer \<Rightarrow>
          let (len, buf, w) = proto_build_data (zeros TUND_MAX_PKT) payload plen w;
              (r, w) = net_send buf len (snap_real_addr dst_peer) w
          in if r < 0 then (srv, LOG_WARN (lit ''Failed to forward data to '' @ c_str (snap_name dst_peer)) w)
             else (server_add_peer_bytes_out srv dst_peer (ucast plen), w))"

definition server_handle_data ::
    "server_t \<Rightarrow> bytes \<Rightarrow> u16 \<Rightarrow> sockaddr_in \<Rightarrow> world \<Rightarrow> server_t \<times> world" where
  "server_handle_data srv payload plen from w =
     (let validation = proto_validate_ipv4_packet payload plen
      in if validation \<noteq> TUND_IPV4_OK
         then (srv, LOG_DEBUG (lit ''Dropped invalid DATA packet: '' @ proto_ipv4_validation_error validation) w)
         else
           let src_ip = proto_get_src_ip payload plen;
               dst_ip = proto_get_dst_ip payload plen;
               (res, srv, w) = server_data_locked srv src_ip dst_ip plen from w
           in server_data_forward srv res payload plen dst_ip w)"

section \<open>Keepalives\<close>

definition server_keepalive_locked :: "server_t \<Rightarrow> sockaddr_in \<Rightarrow> world \<Rightarrow> bytes option \<times> server_t \<times> world" where
  "server_keepalive_locked srv from w =
     (case server_find_peer_by_addr srv from of
        None \<Rightarrow> (None, srv, w)
      | Some idx \<Rightarrow>
          let p = srv_peers srv ! idx; (now, w) = time_now w
          in (Some (snprintf (zeros TUND_NAME_LEN) TUND_NAME_LEN (c_str (peer_name p))),
              srv\<lparr>srv_peers := (srv_peers srv)[idx := p\<lparr>peer_last_seen := now\<rparr>]\<rparr>, w))"

definition server_handle_keepalive ::
    "server_t \<Rightarrow> bytes \<Rightarrow> u16 \<Rightarrow> sockaddr_in \<Rightarrow> world \<Rightarrow> server_t \<times> world" where
  "server_handle_keepalive srv payload plen from w =
     (case proto_read_keepalive_timestamp payload plen of
        None \<Rightarrow> (srv, LOG_DEBUG (lit ''Ignoring malformed keepalive'') w)
      | Some sent_at \<Rightarrow>
          (case server_keepalive_locked srv from w of
             (None, srv, w) \<Rightarrow> (srv, w)
           | (Some pname, srv, w) \<Rightarrow>
               let (len, buf, w) = proto_build_keepalive_ack (zeros TUND_MAX_PKT) sent_at w;
                   (r, w) = net_send buf len from w
               in (srv, if r < 0 then LOG_WARN (lit ''Keepalive reply to '' @ c_str pname @ lit '' failed'') w
                        else w)))"

definition server_keepalive_ack_locked :: "server_t \<Rightarrow> sockaddr_in \<Rightarrow> u64 \<Rightarrow> world \<Rightarrow> server_t \<times> world" where
  "server_keepalive_ack_locked srv from sample w =
     (case server_find_peer_by_addr srv from of
        None \<Rightarrow> (srv, w)
      | Some idx \<Rightarrow>
          let p = srv_peers srv ! idx; (now, w) = time_now w
          in (srv\<lparr>srv_peers := (srv_peers srv)[idx :=
                p\<lparr>peer_last_seen := now, peer_rtt_ms := smooth_rtt_ms (peer_rtt_ms p) sample (peer_has_rtt p),
                  peer_has_rtt := True\<rparr>]\<rparr>, w))"

definition server_handle_keepalive_ack ::
    "server_t \<Rightarrow> bytes \<Rightarrow> u16 \<Rightarrow> sockaddr_in \<Rightarrow> world \<Rightarrow> server_t \<times> world" where
  "server_handle_keepalive_ack srv payload plen from w =
     (case proto_read_keepalive_timestamp payload plen of
        None \<Rightarrow> (srv, w)
      | Some sent_at \<Rightarrow>
          let (now, w) = now_ms w
          in if now < sent_at then (srv, w)
             else server_keepalive_ack_locked srv from (now - sent_at) w)"

section \<open>Dispatch\<close>

definition server_handle_packet :: "server_t \<Rightarrow> bytes \<Rightarrow> int \<Rightarrow> sockaddr_in \<Rightarrow> world \<Rightarrow> server_t \<times> world" where
  "server_handle_packet srv buf len from w =
     (let invalid = (srv, LOG_DEBUG (lit ''Invalid packet from '' @ ip_to_str_buf (sin_addr from) TUND_IP_STR_LEN @
                            lit '':'' @ fmt_u (unat (ntohs (sin_port from)))) w)
      in case proto_read_hdr buf of
        Inl _ \<Rightarrow> invalid
      | Inr (type, payload_len) \<Rightarrow>
          if len < int TUND_HDR_SIZE + uint payload_len then invalid
          else case proto_read_sequence buf of
            None \<Rightarrow> invalid
          | Some sequence \<Rightarrow>
              let payload = drop TUND_HDR_SIZE buf
              in if type = MSG_REGISTER then server_handle_register srv payload payload_len from sequence w
                 else
                   let (accepted, srv, w) = server_accept_registered_sequence srv from sequence w
                   in if \<not> accepted then (srv, w)
                      else if type = MSG_DATA then server_handle_data srv payload payload_len from w
                      else if type = MSG_KEEPALIVE then server_handle_keepalive srv payload payload_len from w
                      else if type = MSG_KEEPALIVE_ACK then server_handle_keepalive_ack srv payload payload_len from w
                      else if type = MSG_DISCONNECT then server_handle_disconnect srv from w
                      else (srv, LOG_DEBUG (lit ''Unknown message type 0x'' @ fmt_02X type) w))"

end
