(* ===== verification/Server_Threads.thy ===== *)
theory Server_Threads
  imports Server_Handlers Ui
begin

text \<open>
  The server's threads and life cycle (\<open>src/core/server/threads.c\<close>, \<open>server.c\<close>, \<open>log.c\<close>). One definition
  per loop iteration; an iteration returns whether the loop goes on. The loops themselves run as long
  as the stop flags allow, so they take a bound on the number of iterations.
\<close>

section \<open>Timeout thread\<close>

definition server_peer_expired :: "int \<Rightarrow> peer_t \<Rightarrow> bool" where
  "server_peer_expired now p \<longleftrightarrow> peer_active p \<and> TUND_PEER_TIMEOUT < now - peer_last_seen p"

text \<open>
  The loop over the table: the updated table, the peers that timed out and the peers to probe.
\<close>

fun server_timeout_scan :: "int \<Rightarrow> nat \<Rightarrow> peer_t list
    \<Rightarrow> peer_t list \<times> server_peer_snapshot_t list \<times> server_peer_snapshot_t list" where
  "server_timeout_scan now i [] = ([], [], [])"
| "server_timeout_scan now i (p # ps) =
     (let (ps', timed_out, keepalive) = server_timeout_scan now (i + 1) ps
      in if server_peer_expired now p
         then (p\<lparr>peer_active := False\<rparr> # ps', server_snapshot_peer_locked p i # timed_out, keepalive)
         else if peer_active p then (p # ps', timed_out, server_snapshot_peer_locked p i # keepalive)
         else (p # ps', timed_out, keepalive))"

definition server_timeout_locked :: "server_t \<Rightarrow> int
    \<Rightarrow> server_peer_snapshot_t list \<times> server_peer_snapshot_t list \<times> server_peer_snapshot_t list \<times> server_t" where
  "server_timeout_locked srv now =
     (let (peers, timed_out, keepalive) = server_timeout_scan now 0 (srv_peers srv);
          srv = srv\<lparr>srv_peers := peers, srv_peer_count := srv_peer_count srv - int (length timed_out)\<rparr>;
          leave = (if 0 < length timed_out then server_snapshot_broadcast_locked srv TUND_MAX_PEERS (-1) else [])
      in (timed_out, leave, keepalive, srv))"

fun server_announce_timeouts :: "server_peer_snapshot_t list \<Rightarrow> server_peer_snapshot_t list \<Rightarrow> server_t \<Rightarrow> world
    \<Rightarrow> server_t \<times> world" where
  "server_announce_timeouts [] leave srv w = (srv, w)"
| "server_announce_timeouts (p # timed_out) leave srv w =
     (let w = LOG_WARN ([0xE2, 0x9C, 0xA6] @ lit '' Peer timed out: '' @ c_str (snap_name p) @ lit '' ('' @
                ip_to_str_buf (snap_virt_ip p) TUND_IP_STR_LEN @ lit '')'') w;
          w = app_event_peer_leave (snap_virt_ip p) (lit ''timeout'') w;
          (len, buf, w) = proto_build_peer_leave (zeros TUND_MAX_PKT) (snap_virt_ip p) w;
          (srv, w) = server_send_peer_snapshots srv leave buf len 0 w
      in server_announce_timeouts timed_out leave srv w)"

fun server_send_probes :: "server_peer_snapshot_t list \<Rightarrow> bytes \<Rightarrow> int \<Rightarrow> world \<Rightarrow> world" where
  "server_send_probes [] buf len w = w"
| "server_send_probes (p # ps) buf len w =
     (let (r, w) = net_send buf len (snap_real_addr p) w
      in server_send_probes ps buf len
           (if r < 0 then LOG_WARN (lit ''Keepalive probe to '' @ c_str (snap_name p) @ lit '' failed'') w else w))"

text \<open>What the thread does every ten seconds.\<close>

definition server_timeout_pass :: "server_t \<Rightarrow> world \<Rightarrow> server_t \<times> world" where
  "server_timeout_pass srv w =
     (let (now, w) = time_now w;
          (ms, w) = now_ms w;
          (keepalive_len, keepalive_buf, w) = proto_build_keepalive (zeros TUND_MAX_PKT) ms w;
          (timed_out, leave, keepalive, srv) = server_timeout_locked srv now;
          (srv, w) = server_announce_timeouts timed_out leave srv w
      in (srv, server_send_probes keepalive keepalive_buf keepalive_len w))"

definition server_timeout_iter :: "nat \<Rightarrow> server_t \<Rightarrow> world \<Rightarrow> bool \<times> nat \<times> server_t \<times> world" where
  "server_timeout_iter slept srv w =
     (if \<not> (tund_is_running w \<and> \<not> srv_timeout_quit srv) then (False, slept, srv, w)
      else
        let slept = slept + 1
        in if slept < TUND_KEEPALIVE_INTERVAL then (True, slept, srv, w)
           else if \<not> tund_is_running w \<or> srv_timeout_quit srv then (False, 0, srv, w)
           else let (srv, w) = server_timeout_pass srv w in (True, 0, srv, w))"

section \<open>TUN thread\<close>

datatype tun_route = TunBroadcast "server_peer_snapshot_t list" | TunUnicast server_peer_snapshot_t | TunNone

definition server_tun_locked :: "server_t \<Rightarrow> u32 \<Rightarrow> tun_route" where
  "server_tun_locked srv dst_ip =
     (if dst_ip = htonl (TUND_SUBNET OR NOT TUND_NETMASK)
      then TunBroadcast (server_snapshot_broadcast_locked srv TUND_MAX_PEERS (-1))
      else case server_snapshot_peer_by_vip_locked srv dst_ip of
             Some dst_peer \<Rightarrow> TunUnicast dst_peer | None \<Rightarrow> TunNone)"

definition server_tun_packet :: "server_t \<Rightarrow> bytes \<Rightarrow> int \<Rightarrow> world \<Rightarrow> server_t \<times> world" where
  "server_tun_packet srv pkt_buf n w =
     (let len16 = of_int n :: u16;
          validation = proto_validate_ipv4_packet pkt_buf len16
      in if validation \<noteq> TUND_IPV4_OK
         then (srv, LOG_DEBUG (lit ''Dropped invalid TUN packet: '' @ proto_ipv4_validation_error validation) w)
         else
           let dst_ip = proto_get_dst_ip pkt_buf len16;
               (msg_len, msg_buf, w) = proto_build_data (zeros TUND_MAX_PKT) pkt_buf len16 w
           in case server_tun_locked srv dst_ip of
                TunBroadcast peers \<Rightarrow> server_send_peer_snapshots srv peers msg_buf msg_len (of_int n) w
              | TunUnicast dst_peer \<Rightarrow>
                  (let (r, w) = net_send msg_buf msg_len (snap_real_addr dst_peer) w
                   in if r < 0
                      then (srv, LOG_WARN (lit ''Failed to forward TUN packet to '' @ c_str (snap_name dst_peer)) w)
                      else (server_add_peer_bytes_out srv dst_peer (of_int n), w))
              | TunNone \<Rightarrow> (srv, w))"

definition server_tun_iter :: "server_t \<Rightarrow> world \<Rightarrow> bool \<times> server_t \<times> world" where
  "server_tun_iter srv w =
     (if \<not> (tund_is_running w \<and> \<not> srv_tun_quit srv) then (False, srv, w)
      else
        let (n, pkt_buf, w) = tun_read (srv_tun srv) TUND_MAX_PLAINTEXT w
        in if n \<le> 0
           then (if \<not> tund_is_running w \<or> srv_tun_quit srv then (False, srv, w) else (True, srv, w))
           else let (srv, w) = server_tun_packet srv pkt_buf n w in (True, srv, w))"

section \<open>Life cycle\<close>

definition server_log_banner :: "server_t \<Rightarrow> world \<Rightarrow> world" where
  "server_log_banner srv w =
     (let w = LOG_INFO (lit ''TunD Server v'' @ lit TUND_VERSION) w;
          w = LOG_INFO (lit ''Listening on UDP port '' @ fmt_u (unat (srv_port srv))) w;
          w = LOG_INFO (lit ''Virtual IP: '' @ ip_to_str_buf (htonl TUND_SERVER_IP) TUND_IP_STR_LEN) w;
          w = LOG_INFO (lit ''Subnet: 10.9.0.0/24'') w
      in LOG_INFO (lit ''TUN: '' @ c_str (tun_ifname (srv_tun srv))) w)"

definition server_log_startup_checklist :: "server_t \<Rightarrow> world \<Rightarrow> world" where
  "server_log_startup_checklist srv w =
     (let w = LOG_INFO (lit ''Startup checklist:'') w;
          w = LOG_INFO (lit ''Virtual LAN ready: '' @ ip_to_str_buf (htonl TUND_SERVER_IP) TUND_IP_STR_LEN @ lit ''/24 on '' @
                c_str (tun_ifname (srv_tun srv)) @ lit ''.'') w;
          w = LOG_INFO (lit ''Listening for clients on UDP '' @ fmt_u (unat (srv_port srv)) @ lit ''.'') w;
          w = LOG_INFO (lit ''Use the same shared key on every client.'') w;
          w = LOG_INFO (lit ''Allow inbound UDP '' @ fmt_u (unat (srv_port srv)) @
                lit '' on this server if clients cannot connect.'') w
      in LOG_INFO (lit ''Waiting for peers...'') w)"

definition server_init :: "config_t \<Rightarrow> world \<Rightarrow> int \<times> server_t \<times> world" where
  "server_init cfg w =
     (let srv = \<lparr>srv_sockfd = -1, srv_tun = tun_device0\<lparr>tun_fd := -1\<rparr>, srv_peers = replicate TUND_MAX_PEERS peer0,
                 srv_peer_count = 0, srv_port = cfg_port cfg, srv_timeout_started = False, srv_tun_started = False,
                 srv_timeout_quit = False, srv_tun_quit = False\<rparr>;
          (fd, w) = net_create_socket (cfg_port cfg) w;
          srv = srv\<lparr>srv_sockfd := fd\<rparr>
      in if \<not> sock_valid fd then (-1, srv, w)
         else
           let (r, tun, w) = tun_open (srv_tun srv) w;
               srv = srv\<lparr>srv_tun := tun\<rparr>
           in if r < 0 then (-1, srv, sock_close fd w)
              else
                let (r, w) = tun_set_ip (srv_tun srv) (htonl TUND_SERVER_IP) (htonl TUND_NETMASK) w
                in if r < 0
                   then let (tun, w) = tun_close (srv_tun srv) w in (-1, srv\<lparr>srv_tun := tun\<rparr>, sock_close fd w)
                   else
                     let (r, tun, w) = tun_set_mtu (srv_tun srv) (int TUND_TUN_MTU) w;
                         srv = srv\<lparr>srv_tun := tun\<rparr>
                     in if r < 0
                        then let (tun, w) = tun_close (srv_tun srv) w in (-1, srv\<lparr>srv_tun := tun\<rparr>, sock_close fd w)
                        else (0, srv, w))"

text \<open>\<open>server_run\<close> up to its loop; the flag tells whether the loop is entered.\<close>

definition server_run_start :: "server_t \<Rightarrow> world \<Rightarrow> bool \<times> server_t \<times> world" where
  "server_run_start srv w =
     (let w = server_log_banner srv w;
          srv = srv\<lparr>srv_timeout_quit := False, srv_tun_quit := False\<rparr>;
          (r, w) = syscall sys_pthread_create w
      in if r \<noteq> 0 then (False, srv, tund_request_stop (LOG_ERROR (lit ''Failed to create timeout thread'') w))
         else
           let srv = srv\<lparr>srv_timeout_started := True\<rparr>;
               (r, w) = syscall sys_pthread_create w
           in if r \<noteq> 0
              then (False, srv\<lparr>srv_timeout_quit := True, srv_timeout_started := False\<rparr>,
                    tund_request_stop (LOG_ERROR (lit ''Failed to create TUN thread'') w))
              else
                let srv = srv\<lparr>srv_tun_started := True\<rparr>;
                    w = (if g_tui_active w then tui_init w else w)
                in (True, srv, server_log_startup_checklist srv w))"

text \<open>
  The local variables of \<open>server_run\<close> that live across iterations. The C code does not initialise
  them, so that the loop starts with an arbitrary value of this record.
\<close>

record run_locals =
  rl_buf :: bytes
  rl_from :: sockaddr_in
  rl_tui_peers :: "tui_peer_t list"
  rl_npeers :: nat

definition server_run_iter ::
    "run_locals \<Rightarrow> server_t \<Rightarrow> world \<Rightarrow> bool \<times> run_locals \<times> server_t \<times> world" where
  "server_run_iter l srv w =
     (if \<not> tund_is_running w then (False, l, srv, w)
      else
        let (ret, tui_peers, npeers, w) = net_poll_peers (srv_peers srv) (rl_tui_peers l) (rl_npeers l) w;
            l = l\<lparr>rl_tui_peers := tui_peers, rl_npeers := npeers\<rparr>
        in if ret < 0 then (False, l, srv, w)
           else if ret = 0
           then (True, l, srv,
                 if g_tui_active w
                 then tui_render_server (srv_port srv) (tun_ifname (srv_tun srv)) (htonl TUND_SERVER_IP)
                        (htonl TUND_NETMASK) (g_start_time w) (int npeers) tui_peers npeers w
                 else w)
           else
             let (n, buf, from, w) = net_recv (rl_buf l) (rl_from l) w;
                 l = l\<lparr>rl_buf := buf, rl_from := from\<rparr>
             in if 0 < n
                then let (srv, w) = server_handle_packet srv buf n from w in (True, l, srv, w)
                else (True, l, srv, w))"

fun server_run_loop :: "nat \<Rightarrow> run_locals \<Rightarrow> server_t \<Rightarrow> world \<Rightarrow> (server_t \<times> world) option" where
  "server_run_loop 0 l srv w = None"
| "server_run_loop (Suc fuel) l srv w =
     (case server_run_iter l srv w of
        (False, _, srv, w) \<Rightarrow> Some (srv, w)
      | (True, l, srv, w) \<Rightarrow> server_run_loop fuel l srv w)"

definition server_run :: "nat \<Rightarrow> run_locals \<Rightarrow> server_t \<Rightarrow> world \<Rightarrow> (server_t \<times> world) option" where
  "server_run fuel l srv w =
     (case server_run_start srv w of
        (False, srv, w) \<Rightarrow> Some (srv, w)
      | (True, srv, w) \<Rightarrow> server_run_loop fuel l srv w)"

definition server_shutdown :: "server_t \<Rightarrow> world \<Rightarrow> server_t \<times> world" where
  "server_shutdown srv w =
     (let w = LOG_INFO (lit ''Shutting down server...'') w;
          srv = srv\<lparr>srv_timeout_quit := True, srv_tun_quit := True\<rparr>;
          peers = server_snapshot_broadcast_locked srv TUND_MAX_PEERS (-1);
          (len, buf, w) = proto_build_disconnect (zeros TUND_MAX_PKT) w;
          (srv, w) = server_send_peer_snapshots srv peers buf len 0 w;
          (tun, w) = tun_close (srv_tun srv) w;
          srv = srv\<lparr>srv_tun := tun\<rparr>;
          w = (if g_tui_active w then tui_shutdown w else w);
          (srv, w) = (if sock_valid (srv_sockfd srv)
                      then (srv\<lparr>srv_sockfd := -1\<rparr>, sock_close (srv_sockfd srv) w) else (srv, w))
      in (srv, LOG_INFO (lit ''Server shut down cleanly.'') w))"

end
