(* ===== verification/App_Main.thy ===== *)
theory App_Main
  imports App_Cli Client_Run Server_Threads
begin

text \<open>
  The start of the process (\<open>src/app/main.c\<close>, the POSIX part of \<open>src/app/platform.c\<close>): privileges, signals,
  the control thread on standard input, and \<open>main\<close>, which runs the server or the client between the
  derivation of the network key and its erasure. \<open>main\<close> is the main thread of the process: the threads
  beside it are the iterations of the theories \<open>Server_Threads\<close> and \<open>Client_Run\<close>, which \<open>Server_System\<close>
  and \<open>Client_System\<close> interleave. The fuel bounds the iterations of its loop.
\<close>

section \<open>platform.c\<close>

datatype app_startup_result_t = APP_STARTUP_OK | APP_STARTUP_EXIT_OK | APP_STARTUP_EXIT_ERROR

definition app_stderr_is_tty :: "world \<Rightarrow> bool" where
  "app_stderr_is_tty w = sys_stderr_tty (w_env w)"

definition app_stdin_is_tty :: "app_env \<Rightarrow> bool" where
  "app_stdin_is_tty e = ae_stdin_tty e"

definition app_prepare_runtime :: "app_env \<Rightarrow> bytes list \<Rightarrow> world \<Rightarrow> app_startup_result_t \<times> world" where
  "app_prepare_runtime e argv w =
     (if ae_geteuid e = 0 then (APP_STARTUP_OK, w)
      else
        let mode = (if 1 < length argv then argv ! 1 else []);
            warning = lit ''Warning: TunD requires root privileges for TUN interface.'' @ [10] @
              lit ''Run with: sudo '' @ c_str (argv ! 0) @ lit '' '' @ c_str mode @ lit '' ...''
        in (APP_STARTUP_EXIT_ERROR,
            if app_stderr_is_tty w
            then fput_stderr (27 # lit ''[33m'' @ warning @ 27 # lit ''[0m'' @ [10, 10]) w
            else fput_stderr (warning @ [10, 10]) w))"

definition signal_handler :: "world \<Rightarrow> world" where
  "signal_handler w = tund_request_stop w"

abbreviation (input) SIGINT :: nat where "SIGINT \<equiv> 2"
abbreviation (input) SIGPIPE :: nat where "SIGPIPE \<equiv> 13"
abbreviation (input) SIGTERM :: nat where "SIGTERM \<equiv> 15"

text \<open>The dispositions of the signals, the latest first.\<close>

definition app_setup_signals :: "app_io \<Rightarrow> app_io" where
  "app_setup_signals io =
     (let io = io\<lparr>io_signals := (SIGINT, SigRequestStop) # io_signals io\<rparr>;
          io = io\<lparr>io_signals := (SIGTERM, SigRequestStop) # io_signals io\<rparr>
      in io\<lparr>io_signals := (SIGPIPE, SigIgnore) # io_signals io\<rparr>)"

definition stop_command :: "bytes \<Rightarrow> bool" where
  "stop_command line \<longleftrightarrow> c_str line = lit ''stop'' \<or> c_str line = lit ''quit'' \<or> c_str line = lit ''exit''"

lemma fgets_shorter: "fgets sz s = (Some line, s') \<Longrightarrow> 1 < sz \<Longrightarrow> length (st_data s') < length (st_data s)"
  by (auto simp: fgets_def Let_def split: if_splits)

function stdin_control_thread :: "stream \<Rightarrow> world \<Rightarrow> stream \<times> world" where
  "stdin_control_thread s w =
     (case fgets 32 s of
        (None, s) \<Rightarrow> (s, w)
      | (Some line, s) \<Rightarrow>
          if stop_command (trim_line_end (line @ [0])) then (s, tund_request_stop w)
          else stdin_control_thread s w)"
  by pat_completeness auto
termination by (relation "measure (\<lambda>(s, w). length (st_data s))") (auto simp: fgets_shorter [OF sym])

declare stdin_control_thread.simps [simp del]

text \<open>Whether the control thread runs; it is detached, nothing else depends on the answer.\<close>

definition app_setup_stdin_control :: "app_env \<Rightarrow> world \<Rightarrow> bool \<times> world" where
  "app_setup_stdin_control e w =
     (if app_stdin_is_tty e then (False, w)
      else let (r, w) = syscall sys_pthread_create w in (r = 0, w))"

section \<open>main.c\<close>

text \<open>Local variables of the functions that \<open>main\<close> calls, uninitialised in C.\<close>

record main_locals =
  ml_key :: bytes
  ml_server :: run_locals
  ml_reg_buf :: bytes
  ml_reg_from :: sockaddr_in
  ml_client :: client_locals

definition wipe_crypto_key :: "world \<Rightarrow> world" where
  "wipe_crypto_key w = w\<lparr>g_crypto_key := tund_wipe_secret (g_crypto_key w) TUND_KEY_SIZE\<rparr>"

definition main_server :: "nat \<Rightarrow> main_locals \<Rightarrow> config_t \<Rightarrow> world \<Rightarrow> (int \<times> world) option" where
  "main_server fuel l cfg w =
     (case server_init cfg w of (r, srv, w) \<Rightarrow>
        if r < 0 then Some (1, wipe_crypto_key (LOG_ERROR (lit ''Failed to initialize server'') w))
        else (case server_run fuel (ml_server l) srv w of
                None \<Rightarrow> None
              | Some (srv, w) \<Rightarrow>
                  let (srv, w) = server_shutdown srv w
                  in Some (0, LOG_INFO (lit ''TunD terminated.'') (wipe_crypto_key w))))"

definition main_client :: "nat \<Rightarrow> main_locals \<Rightarrow> config_t \<Rightarrow> world \<Rightarrow> (int \<times> world) option" where
  "main_client fuel l cfg w =
     (case client_init (ml_reg_buf l) (ml_reg_from l) cfg w of (r, cli, w) \<Rightarrow>
        if r < 0 then Some (1, wipe_crypto_key (LOG_ERROR (lit ''Failed to initialize client'') w))
        else (case client_run fuel (ml_client l) cli w of
                None \<Rightarrow> None
              | Some (cli, w) \<Rightarrow>
                  let (cli, w) = client_shutdown cli w
                  in Some (0, LOG_INFO (lit ''TunD terminated.'') (wipe_crypto_key w))))"

text \<open>The globals that \<open>main\<close> sets from the configuration, and the terminal UI's fallback.\<close>

definition main_globals :: "config_t \<Rightarrow> world \<Rightarrow> config_t \<times> world" where
  "main_globals cfg w =
     (let w = w\<lparr>g_log_level := cfg_log_level cfg, g_tui_active := cfg_tui_mode cfg, g_json_events_active := cfg_json_events cfg\<rparr>;
          (t, w) = time_now w;
          w = w\<lparr>g_start_time := t\<rparr>;
          w = w\<lparr>g_crypto_key := proto_key_from_passphrase (cfg_access_key cfg)\<rparr>;
          cfg = cfg\<lparr>cfg_access_key := tund_wipe_secret (cfg_access_key cfg) ACCESS_KEY_SIZE\<rparr>
      in if cfg_tui_mode cfg \<and> \<not> app_stderr_is_tty w
         then (cfg\<lparr>cfg_tui_mode := False\<rparr>,
               LOG_INFO (lit ''Terminal UI disabled because stderr is not interactive.'') (w\<lparr>g_tui_active := False\<rparr>))
         else (cfg, w))"

definition main ::
    "nat \<Rightarrow> main_locals \<Rightarrow> (bytes list \<Rightarrow> (nat \<times> bytes) list) \<Rightarrow> app_env \<Rightarrow> bytes list \<Rightarrow> app_io \<Rightarrow> world \<Rightarrow>
     (int \<times> config_t \<times> app_io \<times> world) option" where
  "main fuel l getopt_long e argv io w =
     (let (cli_result, cfg, io, w) = cli_parse getopt_long e (ml_key l) argv io w
      in if cli_result = CLI_EXIT_OK then Some (0, cfg, io, w)
         else if cli_result = CLI_EXIT_ERROR then Some (1, cfg, io, w)
         else
           let (cfg, w) = main_globals cfg w;
               (platform_result, w) = app_prepare_runtime e argv w
           in if platform_result = APP_STARTUP_EXIT_OK then Some (0, cfg, io, wipe_crypto_key w)
              else if platform_result = APP_STARTUP_EXIT_ERROR then Some (1, cfg, io, wipe_crypto_key w)
              else
                let io = app_setup_signals io;
                    (_, w) = app_setup_stdin_control e w
                in map_option (\<lambda>(r, w). (r, cfg, io, w))
                     (case cfg_mode cfg of MODE_SERVER \<Rightarrow> main_server fuel l cfg w | MODE_CLIENT \<Rightarrow> main_client fuel l cfg w))"

section \<open>The control thread\<close>

lemma stop_command_iff: "0 \<notin> set l \<Longrightarrow> stop_command l \<longleftrightarrow> l \<in> {lit ''stop'', lit ''quit'', lit ''exit''}"
  by (simp add: stop_command_def c_str_idem)

lemma stdin_control_line:
  assumes "st_data s = l @ eol @ rest" "eol = [10] \<or> eol = [13, 10]" "set l \<inter> {0, 10, 13} = {}" "length l \<le> 29"
  shows "stdin_control_thread s w =
    (if l \<in> {lit ''stop'', lit ''quit'', lit ''exit''} then (s\<lparr>st_data := rest\<rparr>, tund_request_stop w)
     else stdin_control_thread (s\<lparr>st_data := rest\<rparr>) w)"
proof -
  have le: "line_end s eol rest" using assms(2) by (auto simp: line_end_def)
  have nz: "0 \<notin> set l" "10 \<notin> set l" using assms(3) by auto
  have "fgets 32 s = (Some (l @ eol), s\<lparr>st_data := rest\<rparr>)"
    using fgets_line(1) [OF assms(1) le nz(2), of 32] assms(2,4) by auto
  moreover have "c_str (trim_line_end (l @ eol @ [0])) = l" by (rule trim_line_end_str [OF assms(3) le])
  ultimately show ?thesis
    using stop_command_iff [OF nz(1)] by (subst stdin_control_thread.simps) (simp add: stop_command_def c_str_idem nz)
qed

text \<open>
  The control thread obeys whole lines: for an input of lines of at most 29 characters, ended as on
  any platform, it stops the process exactly when one of them is \<open>stop\<close>, \<open>quit\<close> or \<open>exit\<close>, and
  otherwise ends at the end of the input without touching anything.
\<close>

theorem stdin_control_obeys_commands:
  assumes "st_data s = concat (map (\<lambda>(l, eol). l @ eol) ls)"
    and "\<forall>(l, eol) \<in> set ls. (eol = [10] \<or> eol = [13, 10]) \<and> set l \<inter> {0, 10, 13} = {} \<and> length l \<le> 29"
  shows "snd (stdin_control_thread s w) =
    (if fst ` set ls \<inter> {lit ''stop'', lit ''quit'', lit ''exit''} = {} then w else tund_request_stop w)"
  using assms
proof (induction ls arbitrary: s)
  case Nil
  then show ?case by (subst stdin_control_thread.simps) (auto simp: fgets_def)
next
  case (Cons le ls)
  obtain l eol where le: "le = (l, eol)" by fastforce
  have "st_data s = l @ eol @ concat (map (\<lambda>(l, eol). l @ eol) ls)" using Cons.prems(1) le by simp
  from stdin_control_line [OF this] Cons.prems(2) le Cons.IH [of "s\<lparr>st_data := concat (map (\<lambda>(l, eol). l @ eol) ls)\<rparr>"]
  show ?case by (simp add: image_iff)
qed

theorem stdin_control_obeys_commands_witness:
  "snd (stdin_control_thread \<lparr>st_data = lit ''hello'' @ [10] @ lit ''quit'' @ [13, 10], st_error = False, st_eof = False\<rparr> demo_world) =
     tund_request_stop demo_world"
proof -
  let ?ls = "[(lit ''hello'', [10]), (lit ''quit'', [13, 10])] :: (bytes \<times> bytes) list"
  have "list_all (\<lambda>(l, eol). (eol = [10] \<or> eol = [13, 10]) \<and> list_all (\<lambda>b. b \<notin> {0, 10, 13}) l \<and> length l \<le> 29) ?ls" by code_simp
  then have "\<forall>(l, eol) \<in> set ?ls. (eol = [10] \<or> eol = [13, 10]) \<and> set l \<inter> {0, 10, 13} = {} \<and> length l \<le> 29"
    by (auto simp: list_all_iff)
  from stdin_control_obeys_commands [OF _ this] show ?thesis by auto
qed

section \<open>The secrets of the process\<close>

lemma wipe_zero: "list_all (\<lambda>b. b = 0) (take n (tund_wipe_secret k n))"
  by (induction k n rule: tund_wipe_secret.induct) auto

lemma wiped: "list_all (\<lambda>b. b = 0) (take 32 (g_crypto_key (wipe_crypto_key w)))"
  by (simp add: wipe_crypto_key_def wipe_zero)

lemma main_server_wipes:
  assumes "main_server fuel l cfg w = Some (r, w')"
  shows "list_all (\<lambda>b. b = 0) (take 32 (g_crypto_key w'))" "r \<in> {0, 1}"
  using assms wiped by (auto simp: main_server_def split: prod.splits if_splits option.splits)

lemma main_client_wipes:
  assumes "main_client fuel l cfg w = Some (r, w')"
  shows "list_all (\<lambda>b. b = 0) (take 32 (g_crypto_key w'))" "r \<in> {0, 1}"
  using assms wiped by (auto simp: main_client_def split: prod.splits if_splits option.splits)

lemma main_globals_spec:
  assumes "main_globals cfg w = (cfg', w')" "length (cfg_access_key cfg) = 128"
  shows "cfg_access_key cfg' = zeros 128" "g_crypto_key w' = proto_key_from_passphrase (cfg_access_key cfg)"
    "w_open_fds w' = w_open_fds w" "w_sent w' = w_sent w" "g_log_level w' = cfg_log_level cfg" "cfg_mode cfg' = cfg_mode cfg"
    "g_tui_active w' \<longleftrightarrow> cfg_tui_mode cfg \<and> app_stderr_is_tty w"
  using assms tund_wipe_secret_all [of "cfg_access_key cfg"]
  by (auto simp: main_globals_def syscall_def app_stderr_is_tty_def Let_def split: if_splits)

lemma app_prepare_runtime_spec:
  assumes "app_prepare_runtime e argv w = (r, w')"
  shows "r = (if ae_geteuid e = 0 then APP_STARTUP_OK else APP_STARTUP_EXIT_ERROR)"
    "w_open_fds w' = w_open_fds w" "w_sent w' = w_sent w"
  using assms by (auto simp: app_prepare_runtime_def Let_def fput_stderr_def split: if_splits)

text \<open>
  C36: the secrets do not outlive their use. Whenever \<open>main\<close> returns after an accepted command line, in
  either mode and on every path, the access key of the configuration and the network key are zero
  and the exit status is 0 or 1. Without root privileges it returns 1 at once, having opened and
  sent nothing and installed no signal handler.
\<close>

theorem main_wipes_keys:
  assumes "cli_parse getopt_long e (ml_key l) argv io w = (CLI_OK, cfg, io1, w1)"
  shows "case main fuel l getopt_long e argv io w of
      None \<Rightarrow> ae_geteuid e = 0
    | Some (r, cfg', io', w') \<Rightarrow>
        cfg_access_key cfg' = zeros 128 \<and> list_all (\<lambda>b. b = 0) (take 32 (g_crypto_key w')) \<and> r \<in> {0, 1} \<and>
        (ae_geteuid e \<noteq> 0 \<longrightarrow> r = 1 \<and> w_open_fds w' = w_open_fds w1 \<and> w_sent w' = w_sent w1 \<and> io' = io1)"
proof -
  obtain cfg2 w2 where g: "main_globals cfg w1 = (cfg2, w2)" by fastforce
  obtain pr w3 where p: "app_prepare_runtime e argv w2 = (pr, w3)" by fastforce
  obtain b w4 where c: "app_setup_stdin_control e w3 = (b, w4)" by fastforce
  have "length (cfg_access_key cfg) = 128" using cli_parse_valid(3) [OF assms] by (simp add: cfg_ok_def)
  note sg = main_globals_spec [OF g this] and sp = app_prepare_runtime_spec [OF p]
  let ?run = "case cfg_mode cfg2 of MODE_SERVER \<Rightarrow> main_server fuel l cfg2 w4 | MODE_CLIENT \<Rightarrow> main_client fuel l cfg2 w4"
  have eq: "main fuel l getopt_long e argv io w =
      (if ae_geteuid e \<noteq> 0 then Some (1, cfg2, io1, wipe_crypto_key w3)
       else map_option (\<lambda>(r, w). (r, cfg2, app_setup_signals io1, w)) ?run)"
    using sp(1) unfolding main_def assms by (simp add: g p c)
  have run: "list_all (\<lambda>b. b = 0) (take 32 (g_crypto_key w'))" "r \<in> {0, 1}" if "?run = Some (r, w')" for r w'
    using that main_server_wipes main_client_wipes by (auto split: tund_mode_t.splits)
  show ?thesis
  proof (cases "ae_geteuid e = 0")
    case True
    then show ?thesis unfolding eq using run sg(1) by (cases ?run) auto
  next
    case False
    then show ?thesis unfolding eq using sg sp wiped [of w3] by (simp add: wipe_crypto_key_def)
  qed
qed

definition demo_main_locals :: main_locals where
  "demo_main_locals =
     \<lparr>ml_key = zeros 130, ml_server = \<lparr>rl_buf = zeros 1653, rl_from = sockaddr0, rl_tui_peers = [], rl_npeers = 0\<rparr>,
      ml_reg_buf = zeros 1653, ml_reg_from = sockaddr0,
      ml_client = \<lparr>cl_buf = zeros 1653, cl_from = sockaddr0, cl_tui_peers = [], cl_npeers = 0\<rparr>\<rparr>"

theorem main_wipes_keys_witness:
  "case main 0 demo_main_locals demo_getopt (demo_app_env\<lparr>ae_geteuid := 1000\<rparr>) demo_argv (demo_io []) demo_world of
     None \<Rightarrow> False
   | Some (r, cfg', io', w') \<Rightarrow> r = 1 \<and> cfg_access_key cfg' = zeros 128 \<and> list_all (\<lambda>b. b = 0) (take 32 (g_crypto_key w'))"
proof -
  let ?e = "demo_app_env\<lparr>ae_geteuid := 1000\<rparr>"
  have "fst (cli_parse demo_getopt ?e (ml_key demo_main_locals) demo_argv (demo_io []) demo_world) = CLI_OK" by code_simp
  then obtain cfg io1 w1 where "cli_parse demo_getopt ?e (ml_key demo_main_locals) demo_argv (demo_io []) demo_world = (CLI_OK, cfg, io1, w1)"
    by (metis prod.collapse)
  from main_wipes_keys [OF this, of 0] show ?thesis by (auto split: option.splits)
qed

end
