(* ===== verification/Command_Line.thy ===== *)
theory Command_Line
  imports Prelude
begin

text \<open>
  Command lines on Windows: the reference reader and the quoting of arguments, for characters of any type,
  since the command-line program quotes bytes (\<open>app/win_runtime.c\<close>) and the graphical front end 16-bit characters
  (\<open>gui/windows/runner/utils.cpp\<close>). What a quoted line reads back as is shown once, for every character type in
  which the characters that matter differ.
\<close>

section \<open>Reading and quoting\<close>

text \<open>
  The arguments of a command line by the rules of the Microsoft C runtime: arguments are separated by
  blanks outside quotes; a quote preceded by \<open>2n\<close> backslashes gives \<open>n\<close> backslashes and opens or closes
  a quoted part, one preceded by \<open>2n + 1\<close> gives \<open>n\<close> backslashes and a quote character; backslashes
  before anything else stand for themselves; a doubled quote inside a quoted part is a quote character.
  \<open>q\<close>: inside a quoted part; \<open>n\<close>: the backslashes just read; \<open>cur\<close>: the argument being read, if any.
\<close>

fun cmdline_args :: "bool \<Rightarrow> nat \<Rightarrow> 'c :: numeral list option \<Rightarrow> 'c list \<Rightarrow> 'c list list" where
  "cmdline_args q n cur [] = (case cur of None \<Rightarrow> [] | Some a \<Rightarrow> [a @ replicate n 92])"
| "cmdline_args q n cur (ch # s) =
     (let a = (case cur of None \<Rightarrow> [] | Some a \<Rightarrow> a)
      in if ch = 92 then cmdline_args q (n + 1) (Some a) s
         else if ch = 34 then
           (if odd n then cmdline_args q 0 (Some (a @ replicate (n div 2) 92 @ [34])) s
            else if q \<and> s \<noteq> [] \<and> hd s = 34
            then cmdline_args q 0 (Some (a @ replicate (n div 2) 92 @ [34])) (tl s)
            else cmdline_args (\<not> q) 0 (Some (a @ replicate (n div 2) 92)) s)
         else if \<not> q \<and> (ch = 32 \<or> ch = 9)
         then (case cur of None \<Rightarrow> cmdline_args q 0 None s | Some a \<Rightarrow> (a @ replicate n 92) # cmdline_args q 0 None s)
         else cmdline_args q 0 (Some (a @ replicate n 92 @ [ch])) s)"

definition cmdline_to_argv :: "'c :: numeral list option \<Rightarrow> 'c list list" where
  "cmdline_to_argv params = (case params of None \<Rightarrow> [] | Some s \<Rightarrow> cmdline_args False 0 None s)"

text \<open>The quoted form of an argument and the command line of several, as texts.\<close>

fun quote_chars :: "nat \<Rightarrow> 'c :: numeral list \<Rightarrow> 'c list" where
  "quote_chars n [] = replicate (n * 2) 92"
| "quote_chars n (ch # p) =
     (if ch = 92 then quote_chars (n + 1) p
      else if ch = 34 then replicate (n * 2) 92 @ [92, 34] @ quote_chars 0 p
      else replicate n 92 @ [ch] @ quote_chars 0 p)"

definition quote_arg :: "'c :: numeral list \<Rightarrow> 'c list" where
  "quote_arg a = [34] @ quote_chars 0 a @ [34]"

fun quote_args :: "nat \<Rightarrow> 'c :: numeral list list \<Rightarrow> 'c list" where
  "quote_args i [] = []"
| "quote_args i (a # as) = (if 1 < i then [32] else []) @ quote_arg a @ quote_args (i + 1) as"

section \<open>Reading back what was quoted\<close>

locale command_chars =
  fixes nul :: "'c :: numeral"
  assumes chars: "(92 :: 'c) \<noteq> 34" "(92 :: 'c) \<noteq> 32" "(34 :: 'c) \<noteq> 32" "(92 :: 'c) \<noteq> 9" "(34 :: 'c) \<noteq> 9"
    and nul: "nul \<noteq> 92" "nul \<noteq> 34" "nul \<noteq> 32"
begin

lemmas distinct_chars [simp] = chars chars [symmetric] nul nul [symmetric]

lemma cmdline_slashes [simp]:
  "cmdline_args q m (Some a) (replicate k 92 @ s :: 'c list) = cmdline_args q (m + k) (Some a) s"
  by (induction k arbitrary: m) auto

lemma cmdline_quote_chars:
  assumes "rest = [] \<or> hd rest \<noteq> (34 :: 'c)"
  shows "cmdline_args True 0 (Some a) (quote_chars n p @ 34 # rest) =
         cmdline_args False 0 (Some (a @ replicate n 92 @ p)) rest"
proof (induction p arbitrary: a n)
  case Nil
  then show ?case using assms by (auto simp: Let_def)
next
  case (Cons ch p)
  have e: "odd (n * 2 + 1)" "(n * 2 + 1) div 2 = n" by auto
  show ?case
  proof (cases "ch = 92")
    case True
    then show ?thesis using Cons.IH [of a "n + 1"] by (simp add: replicate_app_Cons_same)
  next
    case False
    then show ?thesis using Cons.IH [of "a @ replicate n 92 @ [ch]" 0] e
      by (auto simp: Let_def simp del: cmdline_args.simps(1))
  qed
qed

lemma quote_args_hd: "1 < i \<Longrightarrow> quote_args i as = [] \<or> hd (quote_args i as) \<noteq> (34 :: 'c)"
  by (cases as) auto

lemma cmdline_more_args:
  "1 < i \<Longrightarrow> cmdline_args False 0 (Some b) (quote_args i as) = b # (as :: 'c list list)"
proof (induction as arbitrary: i b)
  case (Cons a as)
  then show ?case using cmdline_quote_chars [OF quote_args_hd [of "i + 1"], of "[]" 0 a as]
    by (simp add: quote_arg_def Let_def)
qed simp

lemma cmdline_quote_args: "cmdline_args False 0 None (quote_args (Suc 0) as) = (as :: 'c list list)"
proof (cases as)
  case (Cons a as')
  have "cmdline_args True 0 (Some []) (quote_chars 0 a @ 34 # quote_args (Suc (Suc 0)) as') = a # as'"
    using cmdline_more_args [of "Suc (Suc 0)" a as']
      cmdline_quote_chars [OF quote_args_hd [of "Suc (Suc 0)" as'], of "[]" 0 a] by simp
  then show ?thesis by (simp add: Cons quote_arg_def Let_def)
qed simp

lemma quote_args_no_nul: "\<forall>a \<in> set as. nul \<notin> set a \<Longrightarrow> nul \<notin> set (quote_args i as)"
proof (induction as arbitrary: i)
  case (Cons a as)
  have "nul \<notin> set p \<Longrightarrow> nul \<notin> set (quote_chars n p)" for n p by (induction n p rule: quote_chars.induct) auto
  with Cons show ?case by (auto simp: quote_arg_def)
qed simp

end

interpretation byte_line: command_chars "0 :: 8 word"
  by unfold_locales simp_all

interpretation wide_line: command_chars "0 :: 16 word"
  by unfold_locales simp_all

end
