(* ===== verification/Win_Runtime.thy ===== *)
theory Win_Runtime
  imports App_Main Command_Line
begin

text \<open>
  The process on Windows (\<open>src/app/win_runtime.c\<close>, the Windows part of \<open>src/app/platform.c\<close>): privileges, the
  elevated relaunch with a rebuilt command line, the crash log, the console and the control handler.
  What the Win32 functions answer is the record \<open>win_env\<close>; what they change is the record \<open>win_io\<close>.
  The quoting is compared with the reference reader of \<open>Command_Line\<close>, which follows the documented rules
  of the Microsoft C runtime.
\<close>

section \<open>The Win32 functions and what they change\<close>

text \<open>
  \<open>we_module_file_name\<close> is \<open>GetModuleFileNameA\<close>: from the size of the buffer and its contents, the
  value returned and the new contents. \<open>we_shell_execute\<close> is the \<open>INT_PTR\<close> that \<open>ShellExecuteA\<close> returns.
\<close>

record win_env =
  we_alloc_sid :: bool
  we_token_member :: bool
  we_module_file_name :: "nat \<Rightarrow> bytes \<Rightarrow> nat \<times> bytes"
  we_shell_execute :: "bytes \<Rightarrow> bytes option \<Rightarrow> int"
  we_fopen_w :: "bytes \<Rightarrow> bool"
  we_std_handle :: "int \<Rightarrow> int"
  we_set_console_mode :: "int \<Rightarrow> u32 \<Rightarrow> bool"

text \<open>\<open>wi_console_mode\<close> gives the mode of a handle when it is a console.\<close>

record win_io =
  wi_launched :: "(bytes \<times> bytes option) list"
  wi_files :: "(bytes \<times> bytes) list"
  wi_dialogs :: "(bytes \<times> bytes) list"
  wi_crash_filter :: bool
  wi_output_cp :: nat
  wi_input_cp :: nat
  wi_console_mode :: "int \<Rightarrow> u32 option"
  wi_ctrl_handler :: bool

abbreviation (input) MAX_PATH :: nat where "MAX_PATH \<equiv> 260"
abbreviation (input) CP_UTF8 :: nat where "CP_UTF8 \<equiv> 65001"
abbreviation (input) STD_INPUT_HANDLE :: int where "STD_INPUT_HANDLE \<equiv> -10"
abbreviation (input) STD_ERROR_HANDLE :: int where "STD_ERROR_HANDLE \<equiv> -12"
abbreviation (input) INVALID_HANDLE_VALUE :: int where "INVALID_HANDLE_VALUE \<equiv> -1"
abbreviation (input) ENABLE_VIRTUAL_TERMINAL_PROCESSING :: u32 where "ENABLE_VIRTUAL_TERMINAL_PROCESSING \<equiv> 4"

section \<open>win_runtime.c: privileges and the relaunch\<close>

definition console_handler :: "world \<Rightarrow> bool \<times> world" where
  "console_handler w = (True, tund_request_stop w)"

definition win_runtime_is_admin :: "win_env \<Rightarrow> bool" where
  "win_runtime_is_admin e =
     (let is_admin = False;
          is_admin = (if we_alloc_sid e then we_token_member e else is_admin)
      in is_admin)"

text \<open>A buffer being filled: its contents and the position of its terminating NUL.\<close>

type_synonym text_buf = "bytes \<times> nat"

definition append_text :: "nat \<Rightarrow> bytes \<Rightarrow> text_buf \<Rightarrow> bool \<times> text_buf" where
  "append_text bufsize text b =
     (case b of (buf, pos) \<Rightarrow>
        let len = c_strlen text
        in if bufsize \<le> pos + len then (False, buf, pos)
           else (True, (memcpy_at pos (take len text) buf)[pos + len := 0], pos + len))"

text \<open>\<open>if (!f) return false; g\<close>\<close>

definition and_then :: "('b \<Rightarrow> bool \<times> 'b) \<Rightarrow> ('b \<Rightarrow> bool \<times> 'b) \<Rightarrow> 'b \<Rightarrow> bool \<times> 'b" where
  "and_then f g b = (case f b of (False, b) \<Rightarrow> (False, b) | (True, b) \<Rightarrow> g b)"

text \<open>\<open>for (i = 0; i < n; i++) if (!append_text(..., text)) return false;\<close>\<close>

fun append_times :: "nat \<Rightarrow> nat \<Rightarrow> bytes \<Rightarrow> text_buf \<Rightarrow> bool \<times> text_buf" where
  "append_times bufsize 0 text b = (True, b)"
| "append_times bufsize (Suc n) text b =
     and_then (append_text bufsize text) (append_times bufsize n text) b"

text \<open>The loop of \<open>append_quoted_arg\<close>, from the character \<open>p\<close> points at; the empty list is the NUL.\<close>

fun append_quoted_chars :: "nat \<Rightarrow> nat \<Rightarrow> bytes \<Rightarrow> text_buf \<Rightarrow> bool \<times> text_buf" where
  "append_quoted_chars bufsize slashes [] b = append_times bufsize (slashes * 2) [92] b"
| "append_quoted_chars bufsize slashes (ch # p) b =
     (if ch = 92 then append_quoted_chars bufsize (slashes + 1) p b
      else if ch = 34
      then and_then (append_times bufsize (slashes * 2) [92])
             (and_then (append_text bufsize [92, 34]) (append_quoted_chars bufsize 0 p)) b
      else and_then (append_times bufsize slashes [92])
             (and_then (append_text bufsize [ch, 0]) (append_quoted_chars bufsize 0 p)) b)"

definition append_quoted_arg :: "nat \<Rightarrow> bytes \<Rightarrow> text_buf \<Rightarrow> bool \<times> text_buf" where
  "append_quoted_arg bufsize arg =
     and_then (append_text bufsize [34])
       (and_then (append_quoted_chars bufsize 0 (c_str arg)) (append_text bufsize [34]))"

text \<open>The loop of \<open>build_relaunch_params\<close>, from the argument \<open>i\<close> on.\<close>

fun append_args :: "nat \<Rightarrow> nat \<Rightarrow> bytes list \<Rightarrow> text_buf \<Rightarrow> bool \<times> text_buf" where
  "append_args bufsize i [] b = (True, b)"
| "append_args bufsize i (arg # args) b =
     and_then (if 1 < i then append_text bufsize [32] else Pair True)
       (and_then (append_quoted_arg bufsize arg) (append_args bufsize (i + 1) args)) b"

definition build_relaunch_params :: "bytes list \<Rightarrow> bytes \<Rightarrow> nat \<Rightarrow> bool \<times> bytes" where
  "build_relaunch_params argv buf bufsize =
     (let pos = 0;
          buf = buf[0 := 0];
          (ok, buf, pos) = append_args bufsize 1 (drop 1 argv) (buf, pos)
      in (ok, buf))"

text \<open>\<open>path0\<close> and \<open>params0\<close> are the uninitialised arrays \<open>exe_path\<close> and \<open>params\<close>.\<close>

definition win_runtime_relaunch_as_admin ::
    "win_env \<Rightarrow> bytes \<Rightarrow> bytes \<Rightarrow> bytes list \<Rightarrow> win_io \<Rightarrow> world \<Rightarrow> bool \<times> win_io \<times> world" where
  "win_runtime_relaunch_as_admin e path0 params0 argv io w =
     (let (len, exe_path) = we_module_file_name e MAX_PATH path0
      in if len = 0 \<or> MAX_PATH \<le> len
         then (False, io, fput_stderr (lit ''Error: cannot determine executable path for UAC relaunch.'' @ [10]) w)
         else
           let (ok, params) = build_relaunch_params argv params0 8192
           in if \<not> ok
              then (False, io, fput_stderr (lit ''Error: command line is too long for UAC relaunch.'' @ [10]) w)
              else
                let arg = (if params ! 0 \<noteq> 0 then Some (c_str params) else None);
                    result = we_shell_execute e (c_str exe_path) arg
                in if result \<le> 32
                   then (False, io, fput_stderr (lit ''Error: UAC relaunch failed or was cancelled (code '' @
                           fmt_d result @ lit '').'' @ [10]) w)
                   else (True, io\<lparr>wi_launched := wi_launched io @ [(c_str exe_path, arg)]\<rparr>,
                         fput_stderr (lit ''TunD is relaunching with Administrator privileges...'' @ [10]) w))"

section \<open>win_runtime.c: the crash log\<close>

text \<open>The index of the last occurrence, as \<open>strrchr\<close> finds it.\<close>

definition strrchr :: "u8 \<Rightarrow> bytes \<Rightarrow> nat option" where
  "strrchr c s = (let n = length (takeWhile (\<lambda>b. b \<noteq> c) (rev (c_str s)))
                  in if n < c_strlen s then Some (c_strlen s - 1 - n) else None)"

text \<open>\<open>strncat(dst, src, n)\<close> into an array that has room for the result.\<close>

definition strncat :: "bytes \<Rightarrow> bytes \<Rightarrow> nat \<Rightarrow> bytes" where
  "strncat dst src n = memcpy_at (c_strlen dst) (take n (c_str src) @ [0]) dst"

definition log_to_exe_dir :: "win_env \<Rightarrow> bytes \<Rightarrow> bytes \<Rightarrow> win_io \<Rightarrow> win_io" where
  "log_to_exe_dir e filename msg io =
     (let logpath = zeros MAX_PATH;
          (len, logpath) = we_module_file_name e MAX_PATH logpath;
          logpath =
            (if 0 < len \<and> len < MAX_PATH
             then (case strrchr 92 logpath of
                     None \<Rightarrow> logpath
                   | Some p \<Rightarrow>
                       let logpath = logpath[p + 1 := 0]
                       in strncat logpath filename (MAX_PATH - c_strlen logpath - 1))
             else strncpy logpath filename (MAX_PATH - 1))
      in if we_fopen_w e (c_str logpath)
         then io\<lparr>wi_files := wi_files io @ [(c_str logpath, c_str msg @ [10])]\<rparr>
         else io)"

definition crash_handler :: "win_env \<Rightarrow> win_io \<Rightarrow> int \<times> win_io" where
  "crash_handler e io =
     (let io = log_to_exe_dir e (lit ''tund_crash.log'') (lit ''TunD - Fatal error (access violation)'') io;
          text = concat (map (\<lambda>l. l @ [10])
            [lit ''TunD encountered a fatal error.'', [], lit ''Possible causes:'',
             lit ''  - wintun.dll missing, damaged, or incompatible'',
             lit ''  - Stack overflow in the network thread'',
             lit ''  - Wintun driver not installed correctly'', [],
             lit ''Make sure you are running as Administrator and that wintun.dll'',
             lit ''is in the same directory as tund-cli.exe.'', []]) @
            lit ''Details saved to: tund_crash.log''
      in (1, io\<lparr>wi_dialogs := wi_dialogs io @ [(lit ''TunD - Fatal Error'', text)]\<rparr>))"

section \<open>win_runtime.c: the console\<close>

definition win_runtime_init_early :: "win_io \<Rightarrow> win_io" where
  "win_runtime_init_early io = io\<lparr>wi_crash_filter := True, wi_output_cp := CP_UTF8, wi_input_cp := CP_UTF8\<rparr>"

definition win_runtime_stderr_is_tty :: "win_env \<Rightarrow> win_io \<Rightarrow> bool" where
  "win_runtime_stderr_is_tty e io =
     (let herr = we_std_handle e STD_ERROR_HANDLE
      in herr \<noteq> INVALID_HANDLE_VALUE \<and> wi_console_mode io herr \<noteq> None)"

definition win_runtime_stdin_is_tty :: "win_env \<Rightarrow> win_io \<Rightarrow> bool" where
  "win_runtime_stdin_is_tty e io =
     (let hin = we_std_handle e STD_INPUT_HANDLE
      in hin \<noteq> INVALID_HANDLE_VALUE \<and> wi_console_mode io hin \<noteq> None)"

definition win_runtime_enable_tui_console :: "win_env \<Rightarrow> win_io \<Rightarrow> win_io" where
  "win_runtime_enable_tui_console e io =
     (let hOut = we_std_handle e STD_ERROR_HANDLE
      in case wi_console_mode io hOut of
           None \<Rightarrow> io
         | Some mode \<Rightarrow>
             let mode = mode OR ENABLE_VIRTUAL_TERMINAL_PROCESSING
             in if we_set_console_mode e hOut mode
                then io\<lparr>wi_console_mode := (wi_console_mode io)(hOut \<mapsto> mode)\<rparr>
                else io)"

definition win_runtime_setup_signals :: "win_io \<Rightarrow> win_io" where
  "win_runtime_setup_signals io = io\<lparr>wi_ctrl_handler := True\<rparr>"

text \<open>The Windows branch of \<open>read_key_from_terminal\<close> (\<open>src/app/cli.c\<close>): the console mode without echo while the key is read.\<close>

abbreviation (input) ENABLE_ECHO_INPUT :: u32 where "ENABLE_ECHO_INPUT \<equiv> 4"

definition win_set_console_mode :: "win_env \<Rightarrow> int \<Rightarrow> u32 \<Rightarrow> win_io \<Rightarrow> bool \<times> win_io" where
  "win_set_console_mode e h mode io =
     (if we_set_console_mode e h mode then (True, io\<lparr>wi_console_mode := (wi_console_mode io)(h \<mapsto> mode)\<rparr>) else (False, io))"

definition win_read_key_from_terminal ::
    "win_env \<Rightarrow> bytes \<Rightarrow> config_t \<Rightarrow> stream \<Rightarrow> win_io \<Rightarrow> world \<Rightarrow> cli_result_t \<times> config_t \<times> stream \<times> win_io \<times> world" where
  "win_read_key_from_terminal e key cfg stdin io w =
     (let w = fput_stderr (lit ''Network key: '') w;
          input = we_std_handle e STD_INPUT_HANDLE;
          (mode, hidden, io) =
            (if input \<noteq> INVALID_HANDLE_VALUE
             then case wi_console_mode io input of
                    Some mode \<Rightarrow> (mode, win_set_console_mode e input (mode AND NOT ENABLE_ECHO_INPUT) io)
                  | None \<Rightarrow> (0, False, io)
             else (0, False, io));
          (result, cfg, stdin, w, key) = read_key_line key cfg stdin (lit ''stdin'') w;
          io = (if hidden then snd (win_set_console_mode e input mode io) else io)
      in (result, cfg, stdin, io, if hidden then fput_stderr [10] w else w))"

text \<open>Whatever line comes in, the console has the mode it had before, unless the system refuses to set it back.\<close>

lemma win_key_restores_console:
  assumes "win_read_key_from_terminal e key cfg stdin io w = (result, cfg', stdin', io', w')"
    and "\<And>h mode. wi_console_mode io h = Some mode \<Longrightarrow> we_set_console_mode e h mode"
  shows "wi_console_mode io' = wi_console_mode io"
  using assms
  by (auto simp: win_read_key_from_terminal_def win_set_console_mode_def Let_def fun_upd_idem split: prod.splits option.splits if_splits)

section \<open>platform.c on Windows\<close>

definition win_app_init_early :: "win_io \<Rightarrow> win_io" where
  "win_app_init_early io = win_runtime_init_early io"

definition win_app_stderr_is_tty :: "win_env \<Rightarrow> win_io \<Rightarrow> bool" where
  "win_app_stderr_is_tty e io = win_runtime_stderr_is_tty e io"

definition win_app_stdin_is_tty :: "win_env \<Rightarrow> win_io \<Rightarrow> bool" where
  "win_app_stdin_is_tty e io = win_runtime_stdin_is_tty e io"

definition win_app_prepare_runtime ::
    "win_env \<Rightarrow> bytes \<Rightarrow> bytes \<Rightarrow> bytes list \<Rightarrow> config_t \<Rightarrow> win_io \<Rightarrow> world \<Rightarrow>
     app_startup_result_t \<times> win_io \<times> world" where
  "win_app_prepare_runtime e path0 params0 argv cfg io w =
     (if \<not> win_runtime_is_admin e then
        if cfg_key_from_stdin cfg
        then (APP_STARTUP_EXIT_ERROR, io, fput_stderr
                (lit ''TunD cannot relaunch with Administrator privileges while reading the key from stdin.'' @ [10] @
                 lit ''Run from an Administrator terminal, or use --key-file.'' @ [10, 10]) w)
        else
          let w = fput_stderr (lit ''TunD requires Administrator privileges for the TUN interface.'' @ [10]) w;
              (ok, io, w) = win_runtime_relaunch_as_admin e path0 params0 argv io w
          in if ok then (APP_STARTUP_EXIT_OK, io, w)
             else (APP_STARTUP_EXIT_ERROR, io,
                   fput_stderr (lit ''Run the same command from an Administrator terminal.'' @ [10, 10]) w)
      else (APP_STARTUP_OK, if cfg_tui_mode cfg then win_runtime_enable_tui_console e io else io, w))"

definition win_app_setup_signals :: "win_io \<Rightarrow> win_io" where
  "win_app_setup_signals io = win_runtime_setup_signals io"

section \<open>Filling the buffer\<close>

text \<open>The buffer holds the text \<open>s\<close>, terminated inside its bounds.\<close>

definition holds_text :: "nat \<Rightarrow> text_buf \<Rightarrow> bytes \<Rightarrow> bool" where
  "holds_text bufsize b s \<longleftrightarrow>
     length (fst b) = bufsize \<and> snd b = length s \<and> length s < bufsize \<and>
     take (length s) (fst b) = s \<and> fst b ! length s = 0"

text \<open>
  What every routine of the family does: it appends its text when that fits with its NUL, and otherwise
  reports failure and leaves a terminated buffer.
\<close>

definition appends :: "nat \<Rightarrow> (text_buf \<Rightarrow> bool \<times> text_buf) \<Rightarrow> bytes \<Rightarrow> bool" where
  "appends bufsize f t \<longleftrightarrow>
     (\<forall>b s. holds_text bufsize b s \<longrightarrow>
        (fst (f b) \<longleftrightarrow> length s + length t < bufsize) \<and>
        (if fst (f b) then holds_text bufsize (snd (f b)) (s @ t) else (\<exists>s'. holds_text bufsize (snd (f b)) s')))"

lemma appends_skip: "appends bufsize (Pair True) []"
  by (auto simp: appends_def holds_text_def)

lemma appends_text:
  assumes "0 \<notin> set t" "text = t \<or> text = t @ [0]"
  shows "appends bufsize (append_text bufsize text) t"
proof -
  have l: "c_strlen text = length t" "take (length t) text = t"
    using assms by (auto simp: c_strlen_def c_str_idem)
  have "holds_text bufsize ((memcpy_at pos t buf)[pos + length t := 0], pos + length t) (s @ t)"
    if "holds_text bufsize (buf, pos) s" "pos + length t < bufsize" for buf pos s
  proof -
    have "length buf = bufsize" "pos = length s" "take pos buf = s" using that(1) by (auto simp: holds_text_def)
    then show ?thesis using that(2) by (auto simp: holds_text_def memcpy_at_def nth_append)
  qed
  then show ?thesis
    by (auto simp: appends_def append_text_def l Let_def holds_text_def not_le)
qed

lemma appends_then:
  assumes "appends bufsize f t" "appends bufsize g u"
  shows "appends bufsize (and_then f g) (t @ u)"
  unfolding appends_def
proof (intro allI impI)
  fix b s assume h: "holds_text bufsize b s"
  note F = assms(1) [unfolded appends_def, rule_format, OF h]
  show "(fst (and_then f g b) \<longleftrightarrow> length s + length (t @ u) < bufsize) \<and>
        (if fst (and_then f g b) then holds_text bufsize (snd (and_then f g b)) (s @ t @ u)
         else (\<exists>s'. holds_text bufsize (snd (and_then f g b)) s'))"
  proof (cases "fst (f b)")
    case True
    then have h1: "holds_text bufsize (snd (f b)) (s @ t)" using F by simp
    have e: "and_then f g b = g (snd (f b))" using True by (auto simp: and_then_def split: prod.splits bool.splits)
    show ?thesis unfolding e using assms(2) [unfolded appends_def, rule_format, OF h1] by (auto simp: add.assoc)
  next
    case False
    have e: "and_then f g b = (False, snd (f b))" using False by (auto simp: and_then_def split: prod.splits bool.splits)
    show ?thesis unfolding e using F False by auto
  qed
qed

lemma appends_times: "appends bufsize (append_times bufsize n [92]) (replicate n 92)"
proof (induction n)
  case 0
  then show ?case using appends_skip by (simp add: appends_def)
next
  case (Suc n)
  have "append_times bufsize (Suc n) [92] = and_then (append_text bufsize [92]) (append_times bufsize n [92])"
    by (rule ext) simp
  then show ?case using appends_then [OF appends_text [of "[92]"] Suc] by simp
qed

lemma appends_quoted_chars:
  "0 \<notin> set p \<Longrightarrow> appends bufsize (append_quoted_chars bufsize n p) (quote_chars n p)"
proof (induction p arbitrary: n)
  case Nil
  have "append_quoted_chars bufsize n [] = append_times bufsize (n * 2) [92]" by (rule ext) simp
  then show ?case using appends_times by simp
next
  case (Cons ch p)
  have z: "ch \<noteq> 0" "0 \<notin> set p" using Cons.prems by auto
  note IH = Cons.IH [OF z(2)]
  have q: "appends bufsize (and_then (append_times bufsize m [92]) (and_then (append_text bufsize tx)
      (append_quoted_chars bufsize 0 p))) (replicate m 92 @ t @ quote_chars 0 p)"
    if "0 \<notin> set t" "tx = t \<or> tx = t @ [0]" for m t tx
    by (intro appends_then appends_times appends_text that IH)
  consider "ch = 92" | "ch = 34" | "ch \<noteq> 92" "ch \<noteq> 34" by blast
  then show ?case
  proof cases
    case 1
    then have "append_quoted_chars bufsize n (ch # p) = append_quoted_chars bufsize (n + 1) p" by (intro ext) simp
    then show ?thesis using IH [of "n + 1"] 1 by simp
  next
    case 2
    then have "append_quoted_chars bufsize n (ch # p) = and_then (append_times bufsize (n * 2) [92])
        (and_then (append_text bufsize [92, 34]) (append_quoted_chars bufsize 0 p))" by (intro ext) simp
    then show ?thesis using q [of "[92, 34]" "[92, 34]" "n * 2"] 2 by simp
  next
    case 3
    then have "append_quoted_chars bufsize n (ch # p) = and_then (append_times bufsize n [92])
        (and_then (append_text bufsize [ch, 0]) (append_quoted_chars bufsize 0 p))" by (intro ext) simp
    then show ?thesis using q [of "[ch]" "[ch, 0]" n] 3 z(1) by simp
  qed
qed

lemma appends_quoted_arg: "0 \<notin> set a \<Longrightarrow> appends bufsize (append_quoted_arg bufsize a) (quote_arg a)"
  unfolding append_quoted_arg_def quote_arg_def
  using appends_then [OF appends_text [of "[34]"] appends_then [OF appends_quoted_chars [of a] appends_text [of "[34]"]], of "[34]" "[34]" bufsize 0]
  by (simp add: c_str_idem)

lemma appends_args:
  "\<forall>a \<in> set as. 0 \<notin> set a \<Longrightarrow> appends bufsize (append_args bufsize i as) (quote_args i as)"
proof (induction as arbitrary: i)
  case Nil
  have "append_args bufsize i [] = Pair True" by (rule ext) simp
  then show ?case using appends_skip by simp
next
  case (Cons a as)
  have e: "append_args bufsize i (a # as) = and_then (if 1 < i then append_text bufsize [32] else Pair True)
      (and_then (append_quoted_arg bufsize a) (append_args bufsize (i + 1) as))" by (rule ext) simp
  have sep: "appends bufsize (if 1 < i then append_text bufsize [32] else Pair True) (if 1 < i then [32] else [])"
    using appends_text [of "[32]" "[32]"] appends_skip by simp
  from appends_then [OF sep appends_then [OF appends_quoted_arg Cons.IH [of "i + 1"]]] Cons.prems
  show ?case unfolding e by simp
qed

lemma holds_text_c_str: "holds_text bufsize b s \<Longrightarrow> 0 \<notin> set s \<Longrightarrow> c_str (fst b) = s"
proof -
  assume h: "holds_text bufsize b s" and z: "0 \<notin> set s"
  then have "fst b = s @ 0 # drop (Suc (length s)) (fst b)"
    using id_take_nth_drop [of "length s" "fst b"] by (simp add: holds_text_def)
  then show ?thesis using c_str_append_nul [OF z] by metis
qed

text \<open>The rebuilt command line: it succeeds exactly when the quoted text and its NUL fit.\<close>

lemma build_relaunch_params_spec:
  assumes "\<forall>a \<in> set (drop 1 argv). 0 \<notin> set a" "length buf = n" "0 < n"
    "build_relaunch_params argv buf n = (ok, buf')"
  shows "ok \<longleftrightarrow> length (quote_args 1 (drop 1 argv)) < n" "length buf' = n" "terminated buf'"
    "ok \<Longrightarrow> c_str buf' = quote_args 1 (drop 1 argv)"
proof -
  let ?t = "quote_args 1 (drop 1 argv)" and ?r = "append_args n 1 (drop 1 argv) (buf[0 := 0], 0)"
  have h: "holds_text n (buf[0 := 0], 0) []" using assms by (simp add: holds_text_def)
  have r: "ok = fst ?r" "buf' = fst (snd ?r)"
    using assms(4) by (auto simp: build_relaunch_params_def split_beta Let_def)
  note A = appends_args [OF assms(1), of n 1, unfolded appends_def, rule_format, OF h]
  show ok: "ok \<longleftrightarrow> length ?t < n" using A r by simp
  obtain s where s: "holds_text n (snd ?r) s" using A by (metis (full_types))
  then show "length buf' = n" "terminated buf'"
    using r nth_mem [of "length s" buf'] by (auto simp: holds_text_def terminated_def)
  show "c_str buf' = ?t" if ok
  proof -
    have "holds_text n (snd ?r) ?t" using A r that by (auto split: if_splits)
    from holds_text_c_str [OF this byte_line.quote_args_no_nul [OF assms(1)]] show ?thesis unfolding r .
  qed
qed

section \<open>Start-up on Windows\<close>

lemma fput_stderr_launch [simp]: "wi_launched (win_runtime_enable_tui_console e io) = wi_launched io"
  by (simp add: win_runtime_enable_tui_console_def Let_def split: option.splits)

lemma relaunch_spec:
  assumes "\<forall>a \<in> set (drop 1 argv). 0 \<notin> set a" "length params0 = 8192"
    "win_runtime_relaunch_as_admin e path0 params0 argv io w = (ok, io', w')"
    "we_module_file_name e 260 path0 = (len, exe)"
  defines "line \<equiv> quote_args 1 (drop 1 argv)"
  defines "arg \<equiv> if line = [] then None else Some line"
  shows "ok \<longleftrightarrow> 0 < len \<and> len < 260 \<and> length line < 8192 \<and> 32 < we_shell_execute e (c_str exe) arg"
    "wi_launched io' = wi_launched io @ (if ok then [(c_str exe, arg)] else [])"
    "cmdline_to_argv arg = drop 1 argv"
proof -
  obtain b params where b: "build_relaunch_params argv params0 8192 = (b, params)" by fastforce
  note B = build_relaunch_params_spec [OF assms(1,2) _ b, folded line_def]
  have p0: "params ! 0 \<noteq> 0 \<longleftrightarrow> line \<noteq> []" if b
  proof -
    have "c_str params = line" "params \<noteq> []" using B that by auto
    then show ?thesis by (cases params) (auto simp: c_str_def split: if_splits)
  qed
  have a: "(if params ! 0 \<noteq> 0 then Some (c_str params) else None) = arg" if b
    using p0 B(4) that by (auto simp: arg_def)
  show "ok \<longleftrightarrow> 0 < len \<and> len < 260 \<and> length line < 8192 \<and> 32 < we_shell_execute e (c_str exe) arg"
    "wi_launched io' = wi_launched io @ (if ok then [(c_str exe, arg)] else [])"
    using assms(3) a B(1)
    by (auto simp: win_runtime_relaunch_as_admin_def assms(4) b Let_def not_le split: if_splits)
  show "cmdline_to_argv arg = drop 1 argv"
    using byte_line.cmdline_quote_args [of "drop 1 argv"]
    by (auto simp: arg_def line_def cmdline_to_argv_def)
qed

text \<open>
  C26: start-up on Windows. The program goes on only as Administrator. Otherwise it either hands exactly
  one relaunch to the shell, whose command line reads back as exactly the program's own arguments
  whatever blanks, quotes and backslashes they hold, or it launches nothing and fails; it fails exactly
  when the key comes from standard input, the path of the program is unknown, the quoted arguments
  do not fit the buffer or the shell refuses.
\<close>

theorem windows_relaunch_keeps_arguments:
  assumes "\<forall>a \<in> set (drop 1 argv). 0 \<notin> set a" "length params0 = 8192"
    and "win_app_prepare_runtime e path0 params0 argv cfg io w = (r, io', w')"
    and "we_module_file_name e 260 path0 = (len, exe)"
  shows "(r = APP_STARTUP_OK \<longleftrightarrow> win_runtime_is_admin e) \<and>
    (\<exists>params. cmdline_to_argv params = drop 1 argv \<and>
       wi_launched io' = wi_launched io @ (if r = APP_STARTUP_EXIT_OK then [(c_str exe, params)] else []) \<and>
       (r = APP_STARTUP_EXIT_ERROR \<longleftrightarrow>
          \<not> win_runtime_is_admin e \<and>
          (cfg_key_from_stdin cfg \<or> len = 0 \<or> 260 \<le> len \<or> 8192 \<le> length (quote_args 1 (drop 1 argv)) \<or>
           we_shell_execute e (c_str exe) params \<le> 32)))"
proof -
  let ?w = "fput_stderr (lit ''TunD requires Administrator privileges for the TUN interface.'' @ [10]) w"
  let ?line = "quote_args 1 (drop 1 argv)"
  obtain ok io1 w1 where l: "win_runtime_relaunch_as_admin e path0 params0 argv io ?w = (ok, io1, w1)"
    using prod_cases3 by blast
  note L = relaunch_spec [OF assms(1,2) l assms(4)]
  have "r = (if win_runtime_is_admin e then APP_STARTUP_OK
             else if \<not> cfg_key_from_stdin cfg \<and> ok then APP_STARTUP_EXIT_OK else APP_STARTUP_EXIT_ERROR)"
    and "wi_launched io' = (if win_runtime_is_admin e \<or> cfg_key_from_stdin cfg then wi_launched io else wi_launched io1)"
    using assms(3) l by (auto simp: win_app_prepare_runtime_def Let_def split: if_splits)
  with L show ?thesis
    by (intro conjI exI [of _ "if ?line = [] then None else Some ?line"]) (simp_all, auto)
qed

definition demo_win_env :: win_env where
  "demo_win_env =
     \<lparr>we_alloc_sid = True, we_token_member = False,
      we_module_file_name = (\<lambda>n buf. (11, lit ''C:'' @ [92] @ lit ''tund.exe'' @ zeros (n - 11))),
      we_shell_execute = (\<lambda>_ _. 42), we_fopen_w = (\<lambda>_. True), we_std_handle = (\<lambda>_. 7),
      we_set_console_mode = (\<lambda>_ _. True)\<rparr>"

definition demo_win_io :: win_io where
  "demo_win_io =
     \<lparr>wi_launched = [], wi_files = [], wi_dialogs = [], wi_crash_filter = False, wi_output_cp = 437, wi_input_cp = 437,
      wi_console_mode = Map.empty, wi_ctrl_handler = False\<rparr>"

definition demo_win_argv :: "bytes list" where
  "demo_win_argv = [lit ''tund'', lit ''client'', lit ''-n'', lit ''My PC'' @ [92]]"

definition demo_win_cfg :: config_t where
  "demo_win_cfg =
     \<lparr>cfg_mode = MODE_CLIENT, cfg_port = 9909, cfg_server_ip = zeros 256, cfg_client_name = zeros 32,
      cfg_access_key = zeros 128, cfg_log_level = 1, cfg_key_from_stdin = False, cfg_json_events = False,
      cfg_tui_mode = True\<rparr>"

theorem windows_relaunch_keeps_arguments_witness:
  "\<exists>io' w' params.
     win_app_prepare_runtime demo_win_env (zeros 260) (zeros 8192) demo_win_argv demo_win_cfg demo_win_io demo_world =
       (APP_STARTUP_EXIT_OK, io', w') \<and>
     wi_launched io' = [(lit ''C:'' @ [92] @ lit ''tund.exe'', params)] \<and>
     cmdline_to_argv params = [lit ''client'', lit ''-n'', lit ''My PC'' @ [92]]"
proof -
  obtain r io' w' where r: "win_app_prepare_runtime demo_win_env (zeros 260) (zeros 8192) demo_win_argv demo_win_cfg demo_win_io demo_world = (r, io', w')"
    using prod_cases3 by blast
  let ?exe = "lit ''C:'' @ [92] @ lit ''tund.exe'' @ zeros 249"
  have m: "we_module_file_name demo_win_env 260 (zeros 260) = (11, ?exe)" by (simp add: demo_win_env_def)
  have e: "\<not> win_runtime_is_admin demo_win_env" "we_shell_execute demo_win_env x y = 42"
    "\<not> cfg_key_from_stdin demo_win_cfg" "length (quote_args 1 (drop 1 demo_win_argv)) < 8192"
    "\<forall>a \<in> set (drop 1 demo_win_argv). 0 \<notin> set a" "c_str ?exe = lit ''C:'' @ [92] @ lit ''tund.exe''"
    "drop 1 demo_win_argv = [lit ''client'', lit ''-n'', lit ''My PC'' @ [92]]" "wi_launched demo_win_io = []" for x y
    by (simp_all add: win_runtime_is_admin_def demo_win_env_def demo_win_cfg_def demo_win_argv_def demo_win_io_def
        lit_def quote_arg_def c_str_def)
  from windows_relaunch_keeps_arguments [OF e(5) _ r m] e
  obtain params where "r = APP_STARTUP_EXIT_OK" "cmdline_to_argv params = drop 1 demo_win_argv"
    "wi_launched io' = [(c_str ?exe, params)]"
    by (cases r) auto
  then show ?thesis using r e(6,7) by auto
qed

section \<open>The crash log\<close>

lemma strrchr_split: "0 \<notin> set d \<Longrightarrow> 0 \<notin> set f \<Longrightarrow> c \<notin> set f \<Longrightarrow> c \<noteq> 0 \<Longrightarrow> strrchr c (d @ c # f @ 0 # t) = Some (length d)"
proof -
  assume z: "0 \<notin> set d" "0 \<notin> set f" "c \<notin> set f" "c \<noteq> 0"
  have "c_str (d @ c # f @ 0 # t) = d @ c # f" using c_str_append_nul [of "d @ c # f" t] z by simp
  moreover have "takeWhile (\<lambda>b. b \<noteq> c) (rev f @ c # rev d) = rev f" using z by (subst takeWhile_append2) auto
  ultimately show ?thesis by (simp add: strrchr_def c_strlen_def Let_def)
qed

text \<open>The log is a file of the program's own directory, under its name cut to the room that \<open>MAX_PATH\<close> leaves.\<close>

lemma log_to_exe_dir_path:
  assumes "we_module_file_name e 260 (zeros 260) = (len, d @ 92 # f @ 0 # t)" "0 < len" "len < 260"
    and "length (d @ 92 # f @ 0 # t) = 260" "0 \<notin> set d" "0 \<notin> set f" "92 \<notin> set f" "0 \<notin> set filename" "we_fopen_w e = (\<lambda>_. True)"
  shows "wi_files (log_to_exe_dir e filename msg io) =
    wi_files io @ [(d @ [92] @ take (258 - length d) filename, c_str msg @ [10])]"
proof -
  let ?p = "d @ 92 # f @ 0 # t"
  have u: "?p[length d + 1 := 0] = (d @ [92]) @ 0 # tl (f @ 0 # t)"
    by (cases f) (simp_all add: list_update_append)
  have s: "c_str ((d @ [92]) @ 0 # tl (f @ 0 # t)) = d @ [92]" using assms by (intro c_str_append_nul) simp
  have m: "memcpy_at (Suc (length d)) x ((d @ [92]) @ y) = d @ [92] @ x @ drop (length x) y" for x y
    by (simp add: memcpy_at_def)
  have c: "c_str ((d @ [92]) @ take n filename @ 0 # y) = d @ [92] @ take n filename" for n y
    using c_str_append_nul [of "(d @ [92]) @ take n filename" y] assms take_no_nul [of filename n] by simp
  have "strncat ((d @ [92]) @ 0 # tl (f @ 0 # t)) filename n =
      (d @ [92]) @ take n filename @ 0 # drop (length (take n filename @ [0])) (0 # tl (f @ 0 # t))" for n
    using m [of "take n filename @ [0]" "0 # tl (f @ 0 # t)"] s
    by (simp add: strncat_def c_strlen_def c_str_idem assms)
  then show ?thesis
    using strrchr_split [of d f 92 t] assms c u s
    by (simp add: log_to_exe_dir_def Let_def c_strlen_def)
qed
end
