(* ===== verification/Wintun.thy ===== *)
theory Wintun
  imports Tun_Linux "HOL-Library.Multiset"
begin

text \<open>
  What the TUN device on Windows is built on (\<open>src/tun/windows/\<close>): commands run in a child process
  (\<open>process.c\<close>) and the Wintun library with its function pointers (\<open>wintun_loader.c\<close>).

  The Win32, IP Helper and Wintun functions are the record \<open>wintun_env\<close>, functions of the tick as in
  \<open>World\<close>; pointers and handles are integers, 0 the null pointer. The state \<open>wstate\<close> puts the library's
  pointers and the open handles beside the world; \<open>ws_null_call\<close> records a call through a pointer that
  was never loaded.
\<close>

section \<open>Environment and state\<close>

record mib_unicast_row =
  ur_luid :: u64
  ur_family :: u16
  ur_addr :: u32
  ur_prefix_len :: u8

record mib_forward_row =
  fr_luid :: u64
  fr_index :: u32
  fr_family :: u16
  fr_prefix :: u32
  fr_prefix_len :: u8
  fr_hop_family :: u16
  fr_next_hop :: u32
  fr_metric :: u32

text \<open>A table query gives an error status or the rows.\<close>

record wintun_env =
  wv_last_error :: "nat \<Rightarrow> u32"
  wv_format_message :: "u32 \<Rightarrow> bytes \<Rightarrow> bytes"
  wv_create_process :: "nat \<Rightarrow> bytes \<Rightarrow> (int \<times> int) option"
  wv_wait_failed :: "nat \<Rightarrow> bool"
  wv_exit_code :: "nat \<Rightarrow> u32 option"
  wv_load_library :: "nat \<Rightarrow> bool"
  wv_get_proc :: "bytes \<Rightarrow> bool"
  wv_open_adapter :: "nat \<Rightarrow> int"
  wv_create_adapter :: "nat \<Rightarrow> int"
  wv_start_session :: "nat \<Rightarrow> int"
  wv_read_event :: "nat \<Rightarrow> int"
  wv_adapter_luid :: "nat \<Rightarrow> u64"
  wv_luid_to_name :: "u64 \<Rightarrow> u32 \<times> u16 list"
  wv_wide_to_utf8 :: "u16 list \<Rightarrow> bytes"
  wv_receive :: "nat \<Rightarrow> bytes option"
  wv_allocate :: "nat \<Rightarrow> nat \<Rightarrow> bool"
  wv_stop_requested :: "nat \<Rightarrow> bool"
  wv_unicast_table :: "nat \<Rightarrow> u32 + mib_unicast_row list"
  wv_forward_table :: "nat \<Rightarrow> u32 + mib_forward_row list"
  wv_forward_row0 :: mib_forward_row
  wv_luid_to_index :: "u64 \<Rightarrow> u32 \<Rightarrow> u32"
  wv_create_forward :: "nat \<Rightarrow> mib_forward_row \<Rightarrow> u32"
  wv_ip_interface :: "nat \<Rightarrow> u64 \<Rightarrow> u32 + u32"

record wstate =
  ws_w :: world
  ws_env :: wintun_env
  ws_dll :: bool
  ws_procs :: "bytes list"
  ws_null_call :: bool
  ws_adapters :: "int list"
  ws_sessions :: "int list"
  ws_handles :: "int multiset"
  ws_tables :: int
  ws_packets :: int
  ws_errbuf :: bytes
  ws_commands :: "bytes list"

record win_tun_device_t = tun_device_t +
  wd_adapter :: int
  wd_session :: int
  wd_read_event :: int
  wd_luid :: u64
  wd_has_luid :: bool

definition wcall :: "(wintun_env \<Rightarrow> nat \<Rightarrow> 'a) \<Rightarrow> wstate \<Rightarrow> 'a \<times> wstate" where
  "wcall f s = (let (v, w) = syscall (\<lambda>_ t. f (ws_env s) t) (ws_w s) in (v, s\<lparr>ws_w := w\<rparr>))"

definition wlog :: "nat \<Rightarrow> bytes \<Rightarrow> wstate \<Rightarrow> wstate" where
  "wlog level msg s = s\<lparr>ws_w := log_msg level msg (ws_w s)\<rparr>"

abbreviation "GetLastError \<equiv> wcall wv_last_error"
abbreviation (input) NO_ERROR :: u32 where "NO_ERROR \<equiv> 0"
abbreviation (input) ERROR_NO_MORE_ITEMS :: u32 where "ERROR_NO_MORE_ITEMS \<equiv> 259"
abbreviation (input) ERROR_OBJECT_ALREADY_EXISTS :: u32 where "ERROR_OBJECT_ALREADY_EXISTS \<equiv> 5010"

definition fmt_lu :: "u32 \<Rightarrow> bytes" where
  "fmt_lu x = fmt_u (unat x)"

section \<open>process.c\<close>

text \<open>\<open>while (n > 0 && ...) buf[--n] = '\0';\<close>\<close>

fun trim_error_text :: "nat \<Rightarrow> bytes \<Rightarrow> bytes" where
  "trim_error_text 0 buf = buf"
| "trim_error_text (Suc n) buf =
     (if buf ! n = 10 \<or> buf ! n = 13 \<or> buf ! n = 46 then trim_error_text n (buf[n := 0]) else buf)"

definition win32_errstr :: "u32 \<Rightarrow> wstate \<Rightarrow> bytes \<times> wstate" where
  "win32_errstr err s =
     (let buf = (ws_errbuf s)[0 := 0];
          buf = wv_format_message (ws_env s) err buf;
          buf = (if buf ! 0 = 0 then snprintf buf 256 (lit ''Windows error '' @ fmt_lu err) else buf);
          buf = trim_error_text (c_strlen buf) buf
      in (c_str buf, s\<lparr>ws_errbuf := buf\<rparr>))"

text \<open>\<open>DWORD err = GetLastError(); LOG_ERROR("... '%s': %s (error %lu)", full, win32_errstr(err), err);\<close>\<close>

definition log_command_error :: "bytes \<Rightarrow> bytes \<Rightarrow> wstate \<Rightarrow> wstate" where
  "log_command_error what full s =
     (let (err, s) = GetLastError s;
          (msg, s) = win32_errstr err s
      in wlog LOG_LEVEL_ERROR (what @ [39] @ full @ [39] @ lit '': '' @ msg @ lit '' (error '' @ fmt_lu err @ lit '')'') s)"

definition close_handle :: "int \<Rightarrow> wstate \<Rightarrow> wstate" where
  "close_handle h s = s\<lparr>ws_handles := ws_handles s - {#h#}\<rparr>"

text \<open>The text \<open>full\<close> before the length check.\<close>

definition cmd_text :: "bytes \<Rightarrow> bytes \<Rightarrow> bytes" where
  "cmd_text exe args =
     (if 32 \<in> set (c_str exe) \<or> 9 \<in> set (c_str exe)
      then [34] @ c_str exe @ [34, 32] @ c_str args else c_str exe @ [32] @ c_str args)"

definition run_cmd :: "bytes \<Rightarrow> bytes \<Rightarrow> wstate \<Rightarrow> int \<times> wstate" where
  "run_cmd exe args s =
     (let full = cmd_text exe args
      in if 4096 \<le> length full then (-1, wlog LOG_LEVEL_ERROR (lit ''Command line too long for '' @ c_str exe) s)
         else
           let s = wlog LOG_LEVEL_DEBUG (lit ''Running command: '' @ full) s;
               (pi, s) = wcall (\<lambda>e t. wv_create_process e t full) s
           in case pi of
                None \<Rightarrow> (-1, log_command_error (lit ''Failed to start command '') full s)
              | Some (hProcess, hThread) \<Rightarrow>
                  let s = s\<lparr>ws_handles := ws_handles s + {#hProcess, hThread#}, ws_commands := ws_commands s @ [full]\<rparr>;
                      (failed, s) = wcall wv_wait_failed s
                  in if failed
                     then (-1, close_handle hThread (close_handle hProcess
                                 (log_command_error (lit ''Failed while waiting for command '') full s)))
                     else
                       let (code, s) = wcall wv_exit_code s
                       in case code of
                            None \<Rightarrow> (-1, close_handle hThread (close_handle hProcess
                                      (log_command_error (lit ''Could not read exit code for command '') full s)))
                          | Some code \<Rightarrow>
                              let s = close_handle hThread (close_handle hProcess s)
                              in if code \<noteq> 0
                                 then (-1, wlog LOG_LEVEL_ERROR (lit ''Command failed with exit code '' @ fmt_lu code @
                                             lit '': '' @ full) s)
                                 else (0, wlog LOG_LEVEL_DEBUG (lit ''Command completed successfully: '' @ full) s))"

section \<open>wintun_loader.c\<close>

definition wintun_symbols :: "bytes list" where
  "wintun_symbols = map lit
     [''WintunCreateAdapter'', ''WintunCloseAdapter'', ''WintunOpenAdapter'', ''WintunGetAdapterLUID'',
      ''WintunStartSession'', ''WintunEndSession'', ''WintunGetReadWaitEvent'', ''WintunReceivePacket'',
      ''WintunReleaseReceivePacket'', ''WintunAllocateSendPacket'', ''WintunSendPacket'']"

text \<open>The sequence of \<open>WINTUN_LOAD\<close> expansions.\<close>

fun wintun_load_symbols :: "bytes list \<Rightarrow> wstate \<Rightarrow> int \<times> wstate" where
  "wintun_load_symbols [] s = (0, wlog LOG_LEVEL_INFO (lit ''Wintun loaded successfully'') s)"
| "wintun_load_symbols (name # names) s =
     (if \<not> wv_get_proc (ws_env s) name then (-1, wlog LOG_LEVEL_ERROR (lit ''Missing symbol: '' @ name) s)
      else wintun_load_symbols names (s\<lparr>ws_procs := ws_procs s @ [name]\<rparr>))"

definition wintun_load :: "wstate \<Rightarrow> int \<times> wstate" where
  "wintun_load s =
     (if ws_dll s then (0, s)
      else
        let (dll, s) = wcall wv_load_library s;
            s = s\<lparr>ws_dll := dll\<rparr>
        in if \<not> dll
           then let (err, s) = GetLastError s
                in (-1, wlog LOG_LEVEL_ERROR (lit ''Failed to load wintun.dll (error '' @ fmt_lu err @
                          lit ''); keep wintun.dll next to tund-cli.exe or use the bundled Windows release.'') s)
           else wintun_load_symbols wintun_symbols s)"

text \<open>A call through the pointer of a symbol.\<close>

definition through :: "string \<Rightarrow> wstate \<Rightarrow> wstate" where
  "through name s = s\<lparr>ws_null_call := (ws_null_call s \<or> lit name \<notin> set (ws_procs s))\<rparr>"

definition wintun_open_adapter :: "wstate \<Rightarrow> int \<times> wstate" where
  "wintun_open_adapter s =
     (let (h, s) = wcall wv_open_adapter (through ''WintunOpenAdapter'' s)
      in (h, if h \<noteq> 0 then s\<lparr>ws_adapters := ws_adapters s @ [h]\<rparr> else s))"

definition wintun_create_adapter :: "wstate \<Rightarrow> int \<times> wstate" where
  "wintun_create_adapter s =
     (let (h, s) = wcall wv_create_adapter (through ''WintunCreateAdapter'' s)
      in (h, if h \<noteq> 0 then s\<lparr>ws_adapters := ws_adapters s @ [h]\<rparr> else s))"

definition wintun_close_adapter :: "int \<Rightarrow> wstate \<Rightarrow> wstate" where
  "wintun_close_adapter adapter s =
     (let s = through ''WintunCloseAdapter'' s in s\<lparr>ws_adapters := removeAll adapter (ws_adapters s)\<rparr>)"

definition wintun_get_adapter_luid :: "wstate \<Rightarrow> bool \<times> u64 \<times> wstate" where
  "wintun_get_adapter_luid s =
     (let (luid, s) = wcall wv_adapter_luid (through ''WintunGetAdapterLUID'' s) in (True, luid, s))"

definition wintun_start_session :: "wstate \<Rightarrow> int \<times> wstate" where
  "wintun_start_session s =
     (let (h, s) = wcall wv_start_session (through ''WintunStartSession'' s)
      in (h, if h \<noteq> 0 then s\<lparr>ws_sessions := ws_sessions s @ [h]\<rparr> else s))"

definition wintun_end_session :: "int \<Rightarrow> wstate \<Rightarrow> wstate" where
  "wintun_end_session session s =
     (let s = through ''WintunEndSession'' s in s\<lparr>ws_sessions := removeAll session (ws_sessions s)\<rparr>)"

definition wintun_get_read_wait_event :: "wstate \<Rightarrow> int \<times> wstate" where
  "wintun_get_read_wait_event s = wcall wv_read_event (through ''WintunGetReadWaitEvent'' s)"

definition wintun_receive_packet :: "wstate \<Rightarrow> bytes option \<times> wstate" where
  "wintun_receive_packet s =
     (let (p, s) = wcall wv_receive (through ''WintunReceivePacket'' s)
      in (p, if p \<noteq> None then s\<lparr>ws_packets := ws_packets s + 1\<rparr> else s))"

definition wintun_release_receive_packet :: "wstate \<Rightarrow> wstate" where
  "wintun_release_receive_packet s =
     (let s = through ''WintunReleaseReceivePacket'' s in s\<lparr>ws_packets := ws_packets s - 1\<rparr>)"

definition wintun_allocate_send_packet :: "nat \<Rightarrow> wstate \<Rightarrow> bool \<times> wstate" where
  "wintun_allocate_send_packet len s =
     wcall (\<lambda>e t. wv_allocate e t len) (through ''WintunAllocateSendPacket'' s)"

text \<open>The packet handed to the driver.\<close>

definition wintun_send_packet :: "bytes \<Rightarrow> wstate \<Rightarrow> wstate" where
  "wintun_send_packet packet s =
     (let s = through ''WintunSendPacket'' s
      in s\<lparr>ws_w := (ws_w s)\<lparr>w_tun_out := w_tun_out (ws_w s) @ [packet]\<rparr>\<rparr>)"

section \<open>What the calls leave alone\<close>

text \<open>All but the tick, the diagnostics and the commands run.\<close>

definition ws_core :: "wstate \<Rightarrow> wstate" where
  "ws_core s = s\<lparr>ws_w := w_core (ws_w s), ws_errbuf := [], ws_commands := []\<rparr>"

lemma ws_core_cong:
  assumes "ws_core s = ws_core s'"
  shows "ws_env s = ws_env s'" "ws_dll s = ws_dll s'" "ws_procs s = ws_procs s'" "ws_null_call s = ws_null_call s'"
    "ws_adapters s = ws_adapters s'" "ws_sessions s = ws_sessions s'" "ws_handles s = ws_handles s'"
    "ws_tables s = ws_tables s'" "ws_packets s = ws_packets s'" "w_core (ws_w s) = w_core (ws_w s')"
  using arg_cong [OF assms, of ws_env] arg_cong [OF assms, of ws_dll] arg_cong [OF assms, of ws_procs]
    arg_cong [OF assms, of ws_null_call] arg_cong [OF assms, of ws_adapters] arg_cong [OF assms, of ws_sessions]
    arg_cong [OF assms, of ws_handles] arg_cong [OF assms, of ws_tables] arg_cong [OF assms, of ws_packets]
    arg_cong [OF assms, of ws_w]
  by (simp_all add: ws_core_def)

lemma ws_core_wlog [simp, frame]: "ws_core (wlog l m s) = ws_core s"
  by (simp add: ws_core_def wlog_def)

lemma ws_core_wcall [simp, frame]: "ws_core (snd (wcall f s)) = ws_core s"
  by (simp add: ws_core_def wcall_def split_beta)

lemma ws_core_log_command [simp, frame]: "ws_core (log_command_error a b s) = ws_core s"
proof -
  have "ws_core (snd (win32_errstr e s)) = ws_core s" for e s by (simp add: win32_errstr_def ws_core_def Let_def)
  then show ?thesis by (simp add: log_command_error_def split_beta Let_def)
qed

lemmas wlog_frame [simp, frame] = ws_core_cong [OF ws_core_wlog]
lemmas wcall_frame [simp, frame] = ws_core_cong [OF ws_core_wcall]
lemmas log_command_frame [simp, frame] = ws_core_cong [OF ws_core_log_command]

lemma wcall_val [simp]: "fst (wcall f s) = f (ws_env s) (w_tick (ws_w s))"
  by (simp add: wcall_def syscall_def)

lemma close_handle_core [simp]: "ws_core (close_handle h s) = (ws_core s)\<lparr>ws_handles := ws_handles s - {#h#}\<rparr>"
  by (simp add: close_handle_def ws_core_def)

text \<open>
  A command leaves no process handle open on any path, and reports success only when the child ran the
  command line and ended with code 0.
\<close>

lemma ws_core_handles:
  "ws_core (s\<lparr>ws_handles := H, ws_commands := cs\<rparr>) = (ws_core s)\<lparr>ws_handles := H\<rparr>"
  "(ws_core s)\<lparr>ws_handles := ws_handles s\<rparr> = ws_core s"
  by (simp_all add: ws_core_def)

lemma run_cmd_post:
  assumes "run_cmd exe args s = (r, s')"
  shows "ws_core s' = ws_core s" "r = 0 \<or> r = -1"
    "r = 0 \<Longrightarrow> (\<exists>t. wv_exit_code (ws_env s) t = Some 0) \<and> ws_commands s' = ws_commands s @ [cmd_text exe args]"
proof -
  have cm: "ws_commands (close_handle h s) = ws_commands s" "ws_commands (wlog l m s) = ws_commands s"
    "ws_commands (snd (wcall f s)) = ws_commands s" for h s l m and f :: "wintun_env \<Rightarrow> nat \<Rightarrow> 'a"
    by (simp_all add: close_handle_def wlog_def wcall_def split_beta)
  have hd: "ws_handles (close_handle h s) = ws_handles s - {#h#}" for h s by (simp add: close_handle_def)
  show "ws_core s' = ws_core s" "r = 0 \<or> r = -1"
    using assms by (auto simp: run_cmd_def split_beta Let_def ws_core_handles hd split: if_splits option.splits)
  show "(\<exists>t. wv_exit_code (ws_env s) t = Some 0) \<and> ws_commands s' = ws_commands s @ [cmd_text exe args]" if "r = 0"
    using assms that by (auto simp: run_cmd_def split_beta Let_def cm split: if_splits option.splits)
qed

end
