(* ===== verification/Win_Socket.thy ===== *)
theory Win_Socket
  imports Wintun
begin

text \<open>
  The Windows variants of the socket, clock and random helpers: \<open>tund.h\<close>, \<open>ensure_winsock\<close> of \<open>network.c\<close> and
  the Windows branch of \<open>proto_random_bytes\<close>. The error text of a socket call and that of \<open>process.c\<close> are trimmed
  by the same loop, which is shown to strip exactly the line ends and full stops at the end.
\<close>

section \<open>tund.h\<close>

abbreviation (input) INVALID_SOCKET :: u64 where "INVALID_SOCKET \<equiv> 0xFFFFFFFFFFFFFFFF"

definition win_sock_valid :: "u64 \<Rightarrow> bool" where
  "win_sock_valid s \<longleftrightarrow> s \<noteq> INVALID_SOCKET"

text \<open>\<open>format_message\<close> is \<open>FormatMessageA\<close>; the static buffer of 256 bytes is passed in and out.\<close>

definition win_sock_errstr :: "(u32 \<Rightarrow> bytes \<Rightarrow> bytes) \<Rightarrow> int \<Rightarrow> bytes \<Rightarrow> bytes \<times> bytes" where
  "win_sock_errstr format_message err buf =
     (let buf = buf[0 := 0];
          buf = format_message (word_of_int err) buf;
          buf = (if buf ! 0 = 0 then snprintf buf 256 (lit ''WSA error '' @ fmt_d err) else buf);
          buf = trim_error_text (c_strlen buf) buf
      in (c_str buf, buf))"

text \<open>
  The counters are signed 64-bit numbers; the product overflows, which C leaves undefined, where the
  result is \<open>None\<close>.
\<close>

definition win_now_ms :: "int \<Rightarrow> int \<Rightarrow> u64 option" where
  "win_now_ms cnt freq = (if cnt * 1000 < 2 ^ 63 then Some (word_of_int (cnt * 1000 div freq)) else None)"

text \<open>The time limit handed to \<open>select\<close>, in seconds and microseconds; every caller passes a positive number.\<close>

definition win_poll_timeval :: "int \<Rightarrow> int \<times> int" where
  "win_poll_timeval timeout_ms = (timeout_ms div 1000, (timeout_ms mod 1000) * 1000)"

section \<open>network.c and protocol.c\<close>

text \<open>\<open>initialized\<close> is the static variable, \<open>startup\<close> what \<open>WSAStartup\<close> returns if it is called.\<close>

definition ensure_winsock :: "int \<Rightarrow> bool \<Rightarrow> world \<Rightarrow> int \<times> bool \<times> world" where
  "ensure_winsock startup initialized w =
     (if initialized then (0, initialized, w)
      else if startup \<noteq> 0 then (-1, initialized, LOG_ERROR (lit ''WSAStartup failed'') w)
      else (0, True, w))"

text \<open>\<open>random_buffer\<close> is \<open>SystemFunction036\<close>: the bytes, or \<open>None\<close> for \<open>FALSE\<close>.\<close>

definition win_proto_random_bytes :: "(nat \<Rightarrow> bytes option) \<Rightarrow> nat \<Rightarrow> bytes option" where
  "win_proto_random_bytes random_buffer len = (if 0xFFFFFFFF < len then None else random_buffer len)"

section \<open>Lemmas\<close>

definition error_end :: "u8 \<Rightarrow> bool" where
  "error_end c \<longleftrightarrow> c = 10 \<or> c = 13 \<or> c = 46"

definition strip_end :: "bytes \<Rightarrow> bytes" where
  "strip_end s = rev (dropWhile error_end (rev s))"

lemma trim_error_text_strips:
  assumes "0 \<notin> set s" "c_str (s @ r) = s"
  shows "c_str (trim_error_text (length s) (s @ r)) = strip_end s"
  using assms
proof (induction s arbitrary: r rule: rev_induct)
  case (snoc x xs)
  show ?case
  proof (cases "error_end x")
    case True
    have "trim_error_text (length (xs @ [x])) ((xs @ [x]) @ r) = trim_error_text (length xs) (xs @ 0 # r)"
      using True by (simp add: error_end_def nth_append list_update_append)
    then show ?thesis using snoc.IH [of "0 # r"] snoc.prems(1) True by (simp add: strip_end_def)
  next
    case False
    then have "trim_error_text (length (xs @ [x])) ((xs @ [x]) @ r) = (xs @ [x]) @ r"
      by (simp add: error_end_def nth_append)
    then show ?thesis using snoc.prems(2) False by (simp add: strip_end_def)
  qed
qed (simp add: strip_end_def c_str_def)

lemma trim_error_text_buf: "c_str (trim_error_text (c_strlen buf) buf) = strip_end (c_str buf)"
proof -
  obtain r where r: "buf = c_str buf @ r" unfolding c_str_def by (metis takeWhile_dropWhile_id)
  then show ?thesis
    using trim_error_text_strips [of "c_str buf" r] by (metis c_str_no_nul c_strlen_def)
qed

text \<open>Both error texts: what the system says, or the number when it says nothing, stripped.\<close>

lemma fmt_u_no_nul: "0 \<notin> set (fmt_u n)"
proof (induction n rule: fmt_u.induct)
  case (1 n)
  have "unat (digit k) = 48 + k" if "k < 10" for k
    using that by (simp add: digit_def unat_of_nat del: of_nat_add)
  then have "digit k \<noteq> 0" if "k < 10" for k using that by fastforce
  then show ?case using 1 by (subst fmt_u.simps) auto
qed

lemma win_sock_errstr_text:
  assumes "length buf = 256" "\<And>e b. length (format_message e b) = length b" "format_message (word_of_int err) (buf[0 := 0]) = b"
  shows "fst (win_sock_errstr format_message err buf) =
    strip_end (if c_str b = [] then take 255 (lit ''WSA error '' @ fmt_d err) else c_str b)"
proof -
  have b: "length b = 256" using assms(1-3) by (metis length_list_update)
  then have e: "c_str b = [] \<longleftrightarrow> b ! 0 = 0" by (cases b) (auto simp: c_str_def)
  have "0 \<notin> set (lit ''WSA error '')" "0 \<notin> set (lit ''-'')" by code_simp+
  then have "0 \<notin> set (lit ''WSA error '' @ fmt_d err)" using fmt_u_no_nul by (simp add: fmt_d_def)
  then have "c_str (snprintf b 256 (lit ''WSA error '' @ fmt_d err)) = take 255 (lit ''WSA error '' @ fmt_d err)"
    using c_str_snprintf [of 256] by simp
  then show ?thesis using e assms(3) by (simp add: win_sock_errstr_def trim_error_text_buf Let_def)
qed

lemma win_now_ms_mono:
  assumes "0 < freq" "0 \<le> a" "a \<le> b" "win_now_ms b freq = Some tb"
  shows "\<exists>ta. win_now_ms a freq = Some ta \<and> ta \<le> tb"
proof -
  have b: "b * 1000 < 2 ^ 63" "tb = word_of_int (b * 1000 div freq)"
    using assms(4) by (auto simp: win_now_ms_def split: if_splits)
  have d: "a * 1000 div freq \<le> b * 1000 div freq" "0 \<le> a * 1000 div freq" "b * 1000 div freq \<le> b * 1000"
    using assms(1-3) zdiv_mono2 [of "b * 1000" 1 freq] by (auto simp: zdiv_mono1 pos_imp_zdiv_nonneg_iff)
  then have "(word_of_int (a * 1000 div freq) :: u64) \<le> word_of_int (b * 1000 div freq)"
    using b(1) by (simp add: word_le_def uint_word_of_int_eq take_bit_int_eq_self)
  then show ?thesis using assms(3) b by (simp add: win_now_ms_def)
qed

lemma win_poll_timeval_exact:
  assumes "0 \<le> t" "win_poll_timeval t = (sec, usec)"
  shows "sec * 1000000 + usec = t * 1000" "0 \<le> usec" "usec < 1000000"
  using assms mult_div_mod_eq [of 1000 t] by (auto simp: win_poll_timeval_def)

text \<open>\<open>WSAStartup\<close> is called until it succeeds and never again.\<close>

lemma ensure_winsock_once:
  assumes "ensure_winsock startup i w = (r, i', w')"
  shows "r = 0 \<longleftrightarrow> i'" "i \<Longrightarrow> i' \<and> w' = w" "i' \<Longrightarrow> ensure_winsock any i' v = (0, True, v)" "w_core w' = w_core w"
  using assms by (auto simp: ensure_winsock_def split: if_splits)

end
