(* ===== verification/Gui_Windows.thy ===== *)
theory Gui_Windows
  imports Command_Line C_Lib
begin

text \<open>
  The start of the graphical front end on Windows (\<open>gui/windows/runner/utils.cpp\<close>): elevation, the relaunch with a
  rebuilt command line and the arguments handed to the Flutter engine. The Win32 functions are the record
  \<open>gui_env\<close>; what they change is the record \<open>gui_io\<close>. A wide string is the list of its characters before the NUL.
\<close>

section \<open>Environment and state\<close>

text \<open>
  \<open>ge_argv\<close> is \<open>CommandLineToArgvW(GetCommandLineW(), ...)\<close>, \<open>None\<close> the null pointer; \<open>ge_utf8\<close> the bytes that
  \<open>WideCharToMultiByte\<close> makes of a string, none if it is not valid.
\<close>

type_synonym wstring = "16 word list"

record gui_env =
  ge_alloc_sid :: bool
  ge_token_member :: bool
  ge_module_file_name :: "nat \<Rightarrow> nat \<times> wstring"
  ge_argv :: "wstring list option"
  ge_shell_execute :: "wstring \<Rightarrow> wstring option \<Rightarrow> int"
  ge_utf8 :: "wstring \<Rightarrow> bytes"
  ge_attach_console :: bool
  ge_debugger :: bool
  ge_alloc_console :: bool
  ge_freopen :: "nat \<Rightarrow> int"

record gui_io =
  gi_launched :: "(wstring \<times> wstring option) list"
  gi_dialogs :: "(bytes \<times> bytes) list"
  gi_argv_blocks :: nat
  gi_console :: bool
  gi_redirected :: "nat list"
  gi_dups :: "(nat \<times> nat) list"
  gi_resynced :: bool
  gi_com :: int
  gi_entry_args :: "bytes list option"

section \<open>utils.cpp\<close>

text \<open>
  \<open>freopen_s\<close> returns 0 on success: then the stream writes to the console. The descriptors are duplicated when it
  fails. Descriptor 1 is that of \<open>stdout\<close>, 2 that of \<open>stderr\<close>.
\<close>

definition reopen_stream :: "gui_env \<Rightarrow> nat \<Rightarrow> gui_io \<Rightarrow> gui_io" where
  "reopen_stream e fd io =
     (if ge_freopen e fd \<noteq> 0 then io\<lparr>gi_dups := gi_dups io @ [(1, fd)]\<rparr> else io\<lparr>gi_redirected := gi_redirected io @ [fd]\<rparr>)"

definition CreateAndAttachConsole :: "gui_env \<Rightarrow> gui_io \<Rightarrow> gui_io" where
  "CreateAndAttachConsole e io =
     (if ge_alloc_console e
      then let io = io\<lparr>gi_console := True\<rparr>;
               io = reopen_stream e 1 io;
               io = reopen_stream e 2 io
           in io\<lparr>gi_resynced := True\<rparr>
      else io)"

definition IsRunningAsAdministrator :: "gui_env \<Rightarrow> bool" where
  "IsRunningAsAdministrator e =
     (let is_admin = False;
          is_admin = (if ge_alloc_sid e then ge_token_member e else is_admin)
      in is_admin)"

text \<open>The loop of \<open>QuoteArgument\<close> from the character \<open>ch\<close> points at; the empty list is the NUL.\<close>

fun QuoteArgument_loop :: "nat \<Rightarrow> wstring \<Rightarrow> wstring \<Rightarrow> wstring" where
  "QuoteArgument_loop slashes [] quoted = quoted @ replicate (slashes * 2) 92"
| "QuoteArgument_loop slashes (ch # s) quoted =
     (if ch = 92 then QuoteArgument_loop (slashes + 1) s quoted
      else if ch = 34
      then let quoted = quoted @ replicate (slashes * 2) 92;
               quoted = quoted @ [92, 34]
           in QuoteArgument_loop 0 s quoted
      else let quoted = quoted @ replicate slashes 92;
               quoted = quoted @ [ch]
           in QuoteArgument_loop 0 s quoted)"

definition QuoteArgument :: "wstring \<Rightarrow> wstring" where
  "QuoteArgument argument = (let quoted = QuoteArgument_loop 0 argument [34] in quoted @ [34])"

text \<open>The loop that joins the arguments.\<close>

fun relaunch_parameters :: "wstring list \<Rightarrow> wstring \<Rightarrow> wstring" where
  "relaunch_parameters [] parameters = parameters"
| "relaunch_parameters (arg # argv) parameters =
     (let parameters = (if parameters \<noteq> [] then parameters @ [32] else parameters)
      in relaunch_parameters argv (parameters @ QuoteArgument arg))"

definition CommandLineToArgvW :: "gui_env \<Rightarrow> gui_io \<Rightarrow> wstring list option \<times> gui_io" where
  "CommandLineToArgvW e io =
     (ge_argv e, if ge_argv e = None then io else io\<lparr>gi_argv_blocks := gi_argv_blocks io + 1\<rparr>)"

definition LocalFree :: "gui_io \<Rightarrow> gui_io" where
  "LocalFree io = io\<lparr>gi_argv_blocks := gi_argv_blocks io - 1\<rparr>"

definition RelaunchAsAdministrator :: "gui_env \<Rightarrow> gui_io \<Rightarrow> bool \<times> gui_io" where
  "RelaunchAsAdministrator e io =
     (let (path_length, exe_path) = ge_module_file_name e 260
      in if path_length = 0 \<or> 260 \<le> path_length then (False, io)
         else
           case CommandLineToArgvW e io of
             (None, io) \<Rightarrow> (False, io)
           | (Some argv, io) \<Rightarrow>
               let parameters = relaunch_parameters (drop 1 argv) [];
                   io = LocalFree io;
                   param = (if parameters = [] then None else Some parameters);
                   result = ge_shell_execute e exe_path param;
                   io = (if 32 < result then io\<lparr>gi_launched := gi_launched io @ [(exe_path, param)]\<rparr> else io)
               in (32 < result, io))"

text \<open>
  The length given to both calls of \<open>WideCharToMultiByte\<close> is bounded by \<open>UNICODE_STRING_MAX_CHARS\<close>; a result of
  length 0 is a failed conversion or an empty string.
\<close>

definition Utf8FromUtf16 :: "gui_env \<Rightarrow> wstring option \<Rightarrow> bytes" where
  "Utf8FromUtf16 e utf16_string =
     (case utf16_string of
        None \<Rightarrow> []
      | Some s \<Rightarrow>
          let input_length = min (length s) 32767;
              target_length = length (ge_utf8 e (take input_length s))
          in if target_length = 0 then []
             else take target_length (ge_utf8 e (take input_length s)))"

definition GetCommandLineArguments :: "gui_env \<Rightarrow> gui_io \<Rightarrow> bytes list \<times> gui_io" where
  "GetCommandLineArguments e io =
     (case CommandLineToArgvW e io of
        (None, io) \<Rightarrow> ([], io)
      | (Some argv, io) \<Rightarrow> (map (\<lambda>a. Utf8FromUtf16 e (Some a)) (drop 1 argv), LocalFree io))"

section \<open>Lemmas\<close>

lemma QuoteArgument_loop_quotes: "QuoteArgument_loop n s quoted = quoted @ quote_chars n s"
  by (induction n s quoted rule: QuoteArgument_loop.induct) (auto simp: Let_def)

lemma QuoteArgument_quotes: "QuoteArgument a = quote_arg a"
  by (simp add: QuoteArgument_def quote_arg_def QuoteArgument_loop_quotes)

lemma relaunch_parameters_more:
  "parameters \<noteq> [] \<Longrightarrow> 1 < i \<Longrightarrow> relaunch_parameters as parameters = parameters @ quote_args i as"
proof (induction as arbitrary: parameters i)
  case (Cons a as)
  then show ?case using Cons.IH [of "parameters @ 32 # quote_arg a" "Suc i"] by (simp add: QuoteArgument_quotes Let_def)
qed simp

lemma relaunch_parameters_quotes: "relaunch_parameters as [] = quote_args 1 as"
proof (cases as)
  case (Cons a as')
  have "quote_arg a \<noteq> []" by (simp add: quote_arg_def)
  then show ?thesis using relaunch_parameters_more [of "quote_arg a" 2 as'] Cons
    by (simp add: QuoteArgument_quotes Let_def numeral_2_eq_2)
qed simp

lemma relaunch_reads_back:
  assumes "param = (if relaunch_parameters as [] = [] then None else Some (relaunch_parameters as []))"
  shows "cmdline_to_argv param = as"
  using wide_line.cmdline_quote_args [of as] assms by (auto simp: cmdline_to_argv_def relaunch_parameters_quotes)

lemma relaunch_cases:
  assumes "RelaunchAsAdministrator e io = (ok, io')"
  shows "if ok
    then \<exists>argv params. ge_argv e = Some argv \<and> cmdline_to_argv params = drop 1 argv \<and>
      io' = io\<lparr>gi_launched := gi_launched io @ [(snd (ge_module_file_name e 260), params)]\<rparr>
    else io' = io"
proof (cases "ge_argv e")
  case (Some argv)
  let ?p = "if relaunch_parameters (drop 1 argv) [] = [] then None else Some (relaunch_parameters (drop 1 argv) [])"
  have "CommandLineToArgvW e io = (Some argv, io\<lparr>gi_argv_blocks := gi_argv_blocks io + 1\<rparr>)"
    using Some by (simp add: CommandLineToArgvW_def)
  then have "io' = (if ok then io\<lparr>gi_launched := gi_launched io @ [(snd (ge_module_file_name e 260), ?p)]\<rparr> else io)"
    using assms by (auto simp: RelaunchAsAdministrator_def LocalFree_def Let_def split: prod.splits if_splits)
  then show ?thesis using relaunch_reads_back [OF refl, of "drop 1 argv"] Some by auto
qed (use assms in \<open>auto simp: RelaunchAsAdministrator_def CommandLineToArgvW_def split: prod.splits if_splits\<close>)

lemma entry_arguments:
  "GetCommandLineArguments e io =
     (case ge_argv e of None \<Rightarrow> [] | Some argv \<Rightarrow> map (\<lambda>a. Utf8FromUtf16 e (Some a)) (drop 1 argv), io)"
  by (simp add: GetCommandLineArguments_def CommandLineToArgvW_def LocalFree_def split: option.splits)

end
