(* ===== verification/Gui_Window.thy ===== *)
theory Gui_Window
  imports Gui_Windows
begin

text \<open>
  The windows of the graphical front end (\<open>gui/windows/runner/win32_window.cpp\<close>, \<open>flutter_window.cpp\<close>): the registrar
  of the window class, the class \<open>Win32Window\<close> and its subclass \<open>FlutterWindow\<close>. The objects live in a store, by
  address; the window manager keeps the windows and, for each of them, the address that \<open>WM_NCCREATE\<close> puts in
  its user data. Destroying a window sends \<open>WM_DESTROY\<close> to the window procedure, which finds the object again and
  runs its handler: the recursion through the window manager is written out. Flutter's engine and the window
  manager are the record \<open>desk_env\<close>.
\<close>

section \<open>Messages and windows\<close>

type_synonym hwnd = nat
type_synonym address = nat

record win_rect =
  rc_left :: int
  rc_top :: int
  rc_right :: int
  rc_bottom :: int

text \<open>The messages the handlers name, with what \<open>lparam\<close> points to; every other one is \<open>WM_OTHER\<close>.\<close>

datatype win_message =
    WM_NCCREATE address
  | WM_DESTROY
  | WM_CLOSE
  | WM_DPICHANGED win_rect
  | WM_SIZE
  | WM_ACTIVATE
  | WM_DWMCOLORIZATIONCOLORCHANGED
  | WM_FONTCHANGE
  | WM_OTHER nat

record win_point =
  pt_x :: "32 word"
  pt_y :: "32 word"

record win_size =
  sz_width :: "32 word"
  sz_height :: "32 word"

text \<open>
  The controller that \<open>FlutterWindow\<close> owns: whether its engine and its view exist, the native window of the view,
  and whether a callback for the next frame is registered.
\<close>

record flutter_controller =
  fc_engine :: bool
  fc_view :: bool
  fc_native :: hwnd
  fc_next_frame :: bool

text \<open>An object: its most derived class so far, which decides the virtual calls, and its fields.\<close>

datatype win_class = Win32Window | FlutterWindow

record win_object =
  wo_class :: win_class
  wo_quit_on_close :: bool
  wo_window_handle :: "hwnd option"
  wo_child_content :: "hwnd option"
  wo_flutter_controller :: "flutter_controller option"

text \<open>A window: its user data, and whether its destruction has begun.\<close>

record os_window =
  ow_user_data :: "address option"
  ow_dying :: bool

text \<open>The calls that only show on the screen or in the engine, in their order.\<close>

datatype ui_call =
    ShowWindow "hwnd option"
  | SetWindowPos hwnd int int int int
  | MoveWindow hwnd int int int int
  | SetFocus hwnd
  | SetParent hwnd "hwnd option"
  | DwmSetWindowAttribute hwnd bool
  | EnableNonClientDpiScaling hwnd
  | CreateWindowAt wstring int int int int
  | CreateController int int
  | RegisterPlugins
  | ForceRedraw
  | ReloadSystemFonts

text \<open>
  The window manager and the engine. \<open>de_create_ok\<close> is whether \<open>CreateWindow\<close> succeeds, \<open>de_nccreate\<close> whether a call that
  fails has sent \<open>WM_NCCREATE\<close> before; \<open>de_top_level\<close> what \<open>HandleTopLevelWindowProc\<close> returns; \<open>de_def_proc\<close> the result of the default
  procedure; \<open>de_light_mode\<close> the registry value, if it can be read.
\<close>

record desk_env =
  de_user32 :: bool
  de_dpi_scaling :: bool
  de_register_class :: bool
  de_dpi :: nat
  de_create_ok :: bool
  de_nccreate :: bool
  de_client_rect :: "hwnd option \<Rightarrow> win_rect"
  de_light_mode :: "nat option"
  de_show :: bool
  de_engine :: bool
  de_view :: bool
  de_native :: hwnd
  de_top_level :: "win_message \<Rightarrow> int option"
  de_def_proc :: "win_message \<Rightarrow> int"

record desktop =
  dk_env :: desk_env
  dk_objects :: "address \<Rightarrow> win_object option"
  dk_windows :: "(hwnd \<times> os_window) list"
  dk_next_hwnd :: hwnd
  g_active_window_count :: int
  dk_registrar :: bool
  dk_class_registered :: bool
  dk_os_class :: bool
  dk_quits :: "int list"
  dk_calls :: "ui_call list"
  dk_fault :: bool

text \<open>Reading and writing the fields of an object; a null or freed object is a fault.\<close>

definition this_of :: "address \<Rightarrow> desktop \<Rightarrow> win_object" where
  "this_of p d = (case dk_objects d p of Some ob \<Rightarrow> ob
     | None \<Rightarrow> \<lparr>wo_class = Win32Window, wo_quit_on_close = False, wo_window_handle = None, wo_child_content = None, wo_flutter_controller = None\<rparr>)"

definition on_this :: "address \<Rightarrow> (win_object \<Rightarrow> win_object) \<Rightarrow> desktop \<Rightarrow> desktop" where
  "on_this p f d = (case dk_objects d p of Some ob \<Rightarrow> d\<lparr>dk_objects := (dk_objects d)(p \<mapsto> f ob)\<rparr> | None \<Rightarrow> d\<lparr>dk_fault := True\<rparr>)"

definition ui :: "ui_call \<Rightarrow> desktop \<Rightarrow> desktop" where
  "ui c d = d\<lparr>dk_calls := dk_calls d @ [c]\<rparr>"

section \<open>win32_window.cpp: helpers and the registrar\<close>

text \<open>
  \<open>scale_factor\<close> is \<open>dpi / 96.0\<close>, a \<open>double\<close> that is exact for the scale factors of Windows, which are multiples of
  a quarter; the conversion to \<open>int\<close> truncates towards zero.
\<close>

definition Scale :: "int \<Rightarrow> nat \<Rightarrow> int" where
  "Scale source dpi = (if 0 \<le> source then source * int dpi div 96 else - (- source * int dpi div 96))"

definition EnableFullDpiSupportIfAvailable :: "hwnd \<Rightarrow> desktop \<Rightarrow> desktop" where
  "EnableFullDpiSupportIfAvailable hwnd d =
     (if \<not> de_user32 (dk_env d) then d
      else if de_dpi_scaling (dk_env d) then ui (EnableNonClientDpiScaling hwnd) d
      else d)"

definition GetInstance :: "desktop \<Rightarrow> desktop" where
  "GetInstance d = (if \<not> dk_registrar d then d\<lparr>dk_registrar := True, dk_class_registered := False\<rparr> else d)"

definition GetWindowClass :: "desktop \<Rightarrow> desktop" where
  "GetWindowClass d =
     (if \<not> dk_class_registered d
      then let d = d\<lparr>dk_os_class := dk_os_class d \<or> de_register_class (dk_env d)\<rparr> in d\<lparr>dk_class_registered := True\<rparr>
      else d)"

text \<open>\<open>UnregisterClass\<close> fails while a window of the class exists.\<close>

definition UnregisterWindowClass :: "desktop \<Rightarrow> desktop" where
  "UnregisterWindowClass d =
     (let d = (if dk_windows d = [] then d\<lparr>dk_os_class := False\<rparr> else d) in d\<lparr>dk_class_registered := False\<rparr>)"

definition UpdateTheme :: "hwnd \<Rightarrow> desktop \<Rightarrow> desktop" where
  "UpdateTheme window d =
     (case de_light_mode (dk_env d) of
        Some light_mode \<Rightarrow> ui (DwmSetWindowAttribute window (light_mode = 0)) d
      | None \<Rightarrow> d)"

definition GetClientArea :: "address \<Rightarrow> desktop \<Rightarrow> win_rect" where
  "GetClientArea this d = de_client_rect (dk_env d) (wo_window_handle (this_of this d))"

definition GetHandle :: "address \<Rightarrow> desktop \<Rightarrow> hwnd option" where
  "GetHandle this d = wo_window_handle (this_of this d)"

definition SetQuitOnClose :: "address \<Rightarrow> bool \<Rightarrow> desktop \<Rightarrow> desktop" where
  "SetQuitOnClose this quit_on_close d = on_this this (\<lambda>ob. ob\<lparr>wo_quit_on_close := quit_on_close\<rparr>) d"

definition Show :: "address \<Rightarrow> desktop \<Rightarrow> bool \<times> desktop" where
  "Show this d = (de_show (dk_env d), ui (ShowWindow (wo_window_handle (this_of this d))) d)"

definition SetChildContent :: "address \<Rightarrow> hwnd \<Rightarrow> desktop \<Rightarrow> desktop" where
  "SetChildContent this content d =
     (let d = on_this this (\<lambda>ob. ob\<lparr>wo_child_content := Some content\<rparr>) d;
          d = ui (SetParent content (wo_window_handle (this_of this d))) d;
          frame = GetClientArea this d;
          d = ui (MoveWindow content (rc_left frame) (rc_top frame) (rc_right frame - rc_left frame) (rc_bottom frame - rc_top frame)) d
      in ui (SetFocus content) d)"

definition GetThisFromHandle :: "hwnd \<Rightarrow> desktop \<Rightarrow> address option" where
  "GetThisFromHandle window d = (case map_of (dk_windows d) window of Some x \<Rightarrow> ow_user_data x | None \<Rightarrow> None)"

definition win32_OnCreate :: "address \<Rightarrow> desktop \<Rightarrow> bool \<times> desktop" where
  "win32_OnCreate this d = (True, d)"

definition win32_OnDestroy :: "address \<Rightarrow> desktop \<Rightarrow> desktop" where
  "win32_OnDestroy this d = d"

section \<open>flutter_window.cpp: creation and destruction\<close>

definition flutter_OnCreate :: "address \<Rightarrow> desktop \<Rightarrow> bool \<times> desktop" where
  "flutter_OnCreate this d =
     (let (ok, d) = win32_OnCreate this d
      in if \<not> ok then (False, d)
         else
           let frame = GetClientArea this d;
               controller = \<lparr>fc_engine = de_engine (dk_env d), fc_view = de_view (dk_env d), fc_native = de_native (dk_env d), fc_next_frame = False\<rparr>;
               d = ui (CreateController (rc_right frame - rc_left frame) (rc_bottom frame - rc_top frame)) d;
               d = on_this this (\<lambda>ob. ob\<lparr>wo_flutter_controller := Some controller\<rparr>) d
           in if \<not> fc_engine controller \<or> \<not> fc_view controller then (False, d)
              else
                let d = ui RegisterPlugins d;
                    d = SetChildContent this (fc_native controller) d;
                    d = on_this this (\<lambda>ob. ob\<lparr>wo_flutter_controller := Some (controller\<lparr>fc_next_frame := True\<rparr>)\<rparr>) d;
                    d = ui ForceRedraw d
                in (True, d))"

definition flutter_OnDestroy :: "address \<Rightarrow> desktop \<Rightarrow> desktop" where
  "flutter_OnDestroy this d =
     (let d = (if wo_flutter_controller (this_of this d) \<noteq> None
               then on_this this (\<lambda>ob. ob\<lparr>wo_flutter_controller := None\<rparr>) d else d)
      in win32_OnDestroy this d)"

text \<open>The virtual calls.\<close>

definition OnCreate :: "address \<Rightarrow> desktop \<Rightarrow> bool \<times> desktop" where
  "OnCreate this d = (case wo_class (this_of this d) of FlutterWindow \<Rightarrow> flutter_OnCreate this d | Win32Window \<Rightarrow> win32_OnCreate this d)"

definition OnDestroy :: "address \<Rightarrow> desktop \<Rightarrow> desktop" where
  "OnDestroy this d = (case wo_class (this_of this d) of FlutterWindow \<Rightarrow> flutter_OnDestroy this d | Win32Window \<Rightarrow> win32_OnDestroy this d)"

text \<open>The part of \<open>FlutterWindow::MessageHandler\<close> before the call of the base class: a result of Flutter ends it.\<close>

definition flutter_first :: "address \<Rightarrow> win_message \<Rightarrow> desktop \<Rightarrow> int option \<times> desktop" where
  "flutter_first this message d =
     (let controller = wo_flutter_controller (this_of this d);
          result = (if controller \<noteq> None then de_top_level (dk_env d) message else None)
      in case result of
           Some r \<Rightarrow> (Some r, d)
         | None \<Rightarrow>
             (None,
              if message = WM_FONTCHANGE
              then (case controller of
                      Some c \<Rightarrow> (if fc_engine c then ui ReloadSystemFonts d else d\<lparr>dk_fault := True\<rparr>)
                    | None \<Rightarrow> d\<lparr>dk_fault := True\<rparr>)
              else d))"

section \<open>win32_window.cpp: the recursion through the window manager\<close>

definition live_windows :: "desktop \<Rightarrow> nat" where
  "live_windows d = length (filter (\<lambda>w. \<not> ow_dying (snd w)) (dk_windows d))"

definition window_lives :: "hwnd \<Rightarrow> desktop \<Rightarrow> bool" where
  "window_lives h d = (case map_of (dk_windows d) h of Some x \<Rightarrow> \<not> ow_dying x | None \<Rightarrow> False)"

definition begin_destroy :: "hwnd \<Rightarrow> desktop \<Rightarrow> desktop" where
  "begin_destroy h d = d\<lparr>dk_windows := map (\<lambda>w. if fst w = h then (h, (snd w)\<lparr>ow_dying := True\<rparr>) else w) (dk_windows d)\<rparr>"

definition end_destroy :: "hwnd \<Rightarrow> desktop \<Rightarrow> desktop" where
  "end_destroy h d = d\<lparr>dk_windows := filter (\<lambda>w. fst w \<noteq> h) (dk_windows d)\<rparr>"

definition set_user_data :: "hwnd \<Rightarrow> address \<Rightarrow> desktop \<Rightarrow> desktop" where
  "set_user_data h p d =
     d\<lparr>dk_windows := map (\<lambda>w. if fst w = h then (h, (snd w)\<lparr>ow_user_data := Some p\<rparr>) else w) (dk_windows d)\<rparr>"

text \<open>Only the window manager changes the windows.\<close>

named_theorems desk_simps

lemma desk_ui [desk_simps]: "dk_windows (ui c d) = dk_windows d" "dk_objects (ui c d) = dk_objects d"
  "g_active_window_count (ui c d) = g_active_window_count d" "dk_quits (ui c d) = dk_quits d" "dk_fault (ui c d) = dk_fault d"
  "dk_env (ui c d) = dk_env d" "dk_os_class (ui c d) = dk_os_class d" "dk_class_registered (ui c d) = dk_class_registered d"
  "dk_registrar (ui c d) = dk_registrar d" "dk_next_hwnd (ui c d) = dk_next_hwnd d"
  by (simp_all add: ui_def)

lemma desk_on_this [desk_simps]: "dk_windows (on_this p f d) = dk_windows d"
  "g_active_window_count (on_this p f d) = g_active_window_count d" "dk_quits (on_this p f d) = dk_quits d"
  "dk_env (on_this p f d) = dk_env d" "dk_os_class (on_this p f d) = dk_os_class d"
  "dk_class_registered (on_this p f d) = dk_class_registered d" "dk_registrar (on_this p f d) = dk_registrar d"
  "dk_next_hwnd (on_this p f d) = dk_next_hwnd d"
  by (simp_all add: on_this_def split: option.splits)

lemma windows_kept [simp]:
  "live_windows (on_this p f d) = live_windows d" "live_windows (ui c d) = live_windows d"
  "live_windows (OnDestroy p d) = live_windows d" "live_windows (EnableFullDpiSupportIfAvailable h d) = live_windows d"
  "live_windows (snd (flutter_first p m d)) = live_windows d" "live_windows (set_user_data h p d) = live_windows d"
  by (auto simp: live_windows_def OnDestroy_def flutter_OnDestroy_def win32_OnDestroy_def EnableFullDpiSupportIfAvailable_def
      flutter_first_def set_user_data_def desk_simps Let_def filter_map comp_def if_distrib [of snd] cong: if_cong split: win_class.splits option.splits)

lemma flutter_first_live: "flutter_first p m d = (r, d') \<Longrightarrow> live_windows d' = live_windows d"
  using windows_kept(5) [of p m d] by simp

lemma begin_destroy_fewer:
  assumes "window_lives h d"
  shows "live_windows (begin_destroy h d) < live_windows d"
proof -
  let ?mark = "\<lambda>w. if fst w = h then (h, (snd w)\<lparr>ow_dying := True\<rparr>) else w" and ?live = "\<lambda>w. \<not> ow_dying (snd w)"
  have le: "length (filter ?live (map ?mark ws)) \<le> length (filter ?live ws)" for ws by (induction ws) auto
  have "length (filter ?live (map ?mark ws)) < length (filter ?live ws)" if "map_of ws h = Some x" "\<not> ow_dying x" for ws x
    using that
  proof (induction ws)
    case (Cons w ws)
    then show ?case using le [of ws] by (cases w) (auto split: if_splits)
  qed simp
  then show ?thesis using assms by (auto simp: window_lives_def live_windows_def begin_destroy_def split: option.splits)
qed

text \<open>What \<open>lparam\<close> of a message gives the window procedure: the address that \<open>CreateWindow\<close> was called with.\<close>

definition create_params :: "win_message \<Rightarrow> address option" where
  "create_params message = (case message of WM_NCCREATE that \<Rightarrow> Some that | _ \<Rightarrow> None)"

text \<open>
  \<open>DestroyWindow\<close> sends \<open>WM_DESTROY\<close> to the window procedure and then removes the window; it does nothing to a
  window that is gone or is being destroyed. \<open>DefWindowProc\<close> destroys the window on \<open>WM_CLOSE\<close>.
\<close>

function (sequential)
  Destroy :: "address \<Rightarrow> desktop \<Rightarrow> desktop"
  and DestroyWindow :: "hwnd \<Rightarrow> desktop \<Rightarrow> desktop"
  and WndProc :: "hwnd \<Rightarrow> win_message \<Rightarrow> desktop \<Rightarrow> int \<times> desktop"
  and MessageHandler :: "address \<Rightarrow> hwnd \<Rightarrow> win_message \<Rightarrow> desktop \<Rightarrow> int \<times> desktop"
  and win32_MessageHandler :: "address \<Rightarrow> hwnd \<Rightarrow> win_message \<Rightarrow> desktop \<Rightarrow> int \<times> desktop"
  and DefWindowProc :: "hwnd option \<Rightarrow> win_message \<Rightarrow> desktop \<Rightarrow> int \<times> desktop"
where
  "Destroy this d =
     (let d = OnDestroy this d;
          d = (case wo_window_handle (this_of this d) of
                 Some h \<Rightarrow> let d = DestroyWindow h d in on_this this (\<lambda>ob. ob\<lparr>wo_window_handle := None\<rparr>) d
               | None \<Rightarrow> d)
      in if g_active_window_count d = 0 then UnregisterWindowClass (GetInstance d) else d)"
| "DestroyWindow h d =
     (if window_lives h d then end_destroy h (snd (WndProc h WM_DESTROY (begin_destroy h d))) else d)"
| "WndProc window message d =
     (case create_params message of
        Some that \<Rightarrow>
          let d = set_user_data window that d;
              d = EnableFullDpiSupportIfAvailable window d;
              d = on_this that (\<lambda>ob. ob\<lparr>wo_window_handle := Some window\<rparr>) d
          in DefWindowProc (Some window) message d
      | None \<Rightarrow>
          (case GetThisFromHandle window d of
             Some that \<Rightarrow> MessageHandler that window message d
           | None \<Rightarrow> DefWindowProc (Some window) message d))"
| "MessageHandler this hwnd message d =
     (case wo_class (this_of this d) of
        FlutterWindow \<Rightarrow>
          (case flutter_first this message d of
             (Some result, d) \<Rightarrow> (result, d)
           | (None, d) \<Rightarrow> win32_MessageHandler this hwnd message d)
      | Win32Window \<Rightarrow> win32_MessageHandler this hwnd message d)"
| "win32_MessageHandler this hwnd message d =
     (case message of
        WM_DESTROY \<Rightarrow>
          let d = on_this this (\<lambda>ob. ob\<lparr>wo_window_handle := None\<rparr>) d;
              d = Destroy this d
          in (0, if wo_quit_on_close (this_of this d) then d\<lparr>dk_quits := dk_quits d @ [0]\<rparr> else d)
      | WM_DPICHANGED newRectSize \<Rightarrow>
          let newWidth = rc_right newRectSize - rc_left newRectSize;
              newHeight = rc_bottom newRectSize - rc_top newRectSize
          in (0, ui (SetWindowPos hwnd (rc_left newRectSize) (rc_top newRectSize) newWidth newHeight) d)
      | WM_SIZE \<Rightarrow>
          let rect = GetClientArea this d
          in (0, case wo_child_content (this_of this d) of
                   Some child \<Rightarrow>
                     ui (MoveWindow child (rc_left rect) (rc_top rect) (rc_right rect - rc_left rect) (rc_bottom rect - rc_top rect)) d
                 | None \<Rightarrow> d)
      | WM_ACTIVATE \<Rightarrow>
          (0, case wo_child_content (this_of this d) of Some child \<Rightarrow> ui (SetFocus child) d | None \<Rightarrow> d)
      | WM_DWMCOLORIZATIONCOLORCHANGED \<Rightarrow> (0, UpdateTheme hwnd d)
      | _ \<Rightarrow> DefWindowProc (wo_window_handle (this_of this d)) message d)"
| "DefWindowProc window message d =
     (de_def_proc (dk_env d) message,
      case window of Some h \<Rightarrow> (if message = WM_CLOSE then DestroyWindow h d else d) | None \<Rightarrow> d)"
  by pat_completeness auto
termination
  by (relation "measure (case_sum (case_sum (\<lambda>(_, d). 6 * live_windows d + 2)
        (case_sum (\<lambda>(_, d). 6 * live_windows d + 1) (\<lambda>(_, _, d). 6 * live_windows d + 5)))
      (case_sum (\<lambda>(_, _, _, d). 6 * live_windows d + 4)
        (case_sum (\<lambda>(_, _, _, d). 6 * live_windows d + 3) (\<lambda>(_, _, d). 6 * live_windows d + 2))))")
    (auto dest: begin_destroy_fewer flutter_first_live [OF sym])

section \<open>win32_window.cpp: creation and life cycle\<close>

text \<open>
  \<open>CreateWindow\<close> needs the class; it makes the window, with no user data, and sends it \<open>WM_NCCREATE\<close> with the address
  of the object. The other messages it sends find an object without a controller, whose handlers leave them
  to the default procedure.
\<close>

definition CreateWindow :: "wstring \<Rightarrow> int \<Rightarrow> int \<Rightarrow> int \<Rightarrow> int \<Rightarrow> address \<Rightarrow> desktop \<Rightarrow> hwnd option \<times> desktop" where
  "CreateWindow title x y width height this d =
     (let h = dk_next_hwnd d;
          d = ui (CreateWindowAt title x y width height) d;
          made = d\<lparr>dk_windows := dk_windows d @ [(h, \<lparr>ow_user_data = None, ow_dying = False\<rparr>)], dk_next_hwnd := h + 1\<rparr>
      in if \<not> dk_os_class d then (None, d)
         else if de_create_ok (dk_env d) then (Some h, snd (WndProc h (WM_NCCREATE this) made))
         else if de_nccreate (dk_env d) then (None, end_destroy h (snd (WndProc h (WM_NCCREATE this) made)))
         else (None, d))"

definition Create :: "address \<Rightarrow> wstring \<Rightarrow> win_point \<Rightarrow> win_size \<Rightarrow> desktop \<Rightarrow> bool \<times> desktop" where
  "Create this title origin wsize d =
     (let d = Destroy this d;
          d = GetWindowClass (GetInstance d);
          dpi = de_dpi (dk_env d);
          (window, d) = CreateWindow title (Scale (sint (pt_x origin)) dpi) (Scale (sint (pt_y origin)) dpi)
                          (Scale (sint (sz_width wsize)) dpi) (Scale (sint (sz_height wsize)) dpi) this d
      in case window of
           None \<Rightarrow> (False, d)
         | Some h \<Rightarrow> OnCreate this (UpdateTheme h d))"

text \<open>
  The constructors: the base class counts the object and sets its fields, then the object is of the
  derived class. The destructors run the other way round: the members of the derived class go first,
  and the virtual calls of \<open>Win32Window\<close>'s destructor are those of the base class.
\<close>

definition new_Win32Window :: "address \<Rightarrow> desktop \<Rightarrow> desktop" where
  "new_Win32Window this d =
     d\<lparr>g_active_window_count := g_active_window_count d + 1,
       dk_objects := (dk_objects d)(this \<mapsto> \<lparr>wo_class = Win32Window, wo_quit_on_close = False, wo_window_handle = None,
         wo_child_content = None, wo_flutter_controller = None\<rparr>)\<rparr>"

definition new_FlutterWindow :: "address \<Rightarrow> desktop \<Rightarrow> desktop" where
  "new_FlutterWindow this d = on_this this (\<lambda>ob. ob\<lparr>wo_class := FlutterWindow\<rparr>) (new_Win32Window this d)"

definition delete_Win32Window :: "address \<Rightarrow> desktop \<Rightarrow> desktop" where
  "delete_Win32Window this d =
     (let d = d\<lparr>g_active_window_count := g_active_window_count d - 1\<rparr>;
          d = Destroy this d
      in d\<lparr>dk_objects := (dk_objects d)(this := None)\<rparr>)"

definition delete_FlutterWindow :: "address \<Rightarrow> desktop \<Rightarrow> desktop" where
  "delete_FlutterWindow this d =
     delete_Win32Window this (on_this this (\<lambda>ob. ob\<lparr>wo_flutter_controller := None, wo_class := Win32Window\<rparr>) d)"

text \<open>The engine runs the callback of the next frame, once; the callback of \<open>FlutterWindow::OnCreate\<close> shows the window.\<close>

definition frame_rendered :: "address \<Rightarrow> desktop \<Rightarrow> desktop" where
  "frame_rendered this d =
     (case wo_flutter_controller (this_of this d) of
        Some c \<Rightarrow>
          (if fc_next_frame c
           then snd (Show this (on_this this (\<lambda>ob. ob\<lparr>wo_flutter_controller := Some (c\<lparr>fc_next_frame := False\<rparr>)\<rparr>) d))
           else d)
      | None \<Rightarrow> d)"

section \<open>The recursion ends after one round\<close>

definition clear_handle :: "address \<Rightarrow> desktop \<Rightarrow> desktop" where
  "clear_handle p d = on_this p (\<lambda>ob. ob\<lparr>wo_window_handle := None\<rparr>) d"

definition drop_class :: "desktop \<Rightarrow> desktop" where
  "drop_class d = (if g_active_window_count d = 0 then UnregisterWindowClass (GetInstance d) else d)"

definition post_quit :: "address \<Rightarrow> desktop \<Rightarrow> desktop" where
  "post_quit p d = (if wo_quit_on_close (this_of p d) then d\<lparr>dk_quits := dk_quits d @ [0]\<rparr> else d)"

lemma cleared_handle: "wo_window_handle (this_of p (OnDestroy p (clear_handle p d))) = None"
  by (auto simp: OnDestroy_def flutter_OnDestroy_def win32_OnDestroy_def clear_handle_def on_this_def this_of_def Let_def
      split: win_class.splits option.splits)

lemma Destroy_no_handle: "wo_window_handle (this_of p (OnDestroy p d)) = None \<Longrightarrow> Destroy p d = drop_class (OnDestroy p d)"
  by (simp add: drop_class_def Let_def)

lemma wm_destroy: "win32_MessageHandler p h WM_DESTROY d = (0, post_quit p (drop_class (OnDestroy p (clear_handle p d))))"
  unfolding win32_MessageHandler.simps [of p h WM_DESTROY d] win_message.case
  using Destroy_no_handle [OF cleared_handle, of p d]
  by (simp add: Let_def post_quit_def clear_handle_def del: Destroy.simps)

lemmas desk_procs = Destroy.simps DestroyWindow.simps WndProc.simps MessageHandler.simps win32_MessageHandler.simps DefWindowProc.simps
declare desk_procs [simp del]

text \<open>Flutter takes a message for itself only while there is a controller.\<close>

definition flutter_claims :: "address \<Rightarrow> win_message \<Rightarrow> desktop \<Rightarrow> bool" where
  "flutter_claims p m d \<longleftrightarrow>
     wo_class (this_of p d) = FlutterWindow \<and> wo_flutter_controller (this_of p d) \<noteq> None \<and> de_top_level (dk_env d) m \<noteq> None"

lemma handler_destroy:
  "\<exists>r. MessageHandler p h WM_DESTROY d =
     (r, if flutter_claims p WM_DESTROY d then d else post_quit p (drop_class (OnDestroy p (clear_handle p d))))"
  by (cases "wo_class (this_of p d)")
    (auto simp: MessageHandler.simps flutter_claims_def flutter_first_def wm_destroy Let_def split: option.splits)

lemma procedure_destroy:
  "snd (WndProc h WM_DESTROY d) =
     (case GetThisFromHandle h d of
        None \<Rightarrow> d
      | Some p \<Rightarrow> if flutter_claims p WM_DESTROY d then d else post_quit p (drop_class (OnDestroy p (clear_handle p d))))"
  using handler_destroy [of "the (GetThisFromHandle h d)" h d]
  by (auto simp: WndProc.simps DefWindowProc.simps create_params_def split: option.splits)

section \<open>What the parts change\<close>

lemma desk_marks [desk_simps]:
  "dk_objects (begin_destroy h d) = dk_objects d" "dk_objects (end_destroy h d) = dk_objects d"
  "g_active_window_count (begin_destroy h d) = g_active_window_count d" "g_active_window_count (end_destroy h d) = g_active_window_count d"
  "dk_quits (begin_destroy h d) = dk_quits d" "dk_quits (end_destroy h d) = dk_quits d"
  "dk_fault (begin_destroy h d) = dk_fault d" "dk_fault (end_destroy h d) = dk_fault d"
  "dk_env (begin_destroy h d) = dk_env d" "dk_env (end_destroy h d) = dk_env d"
  "dk_os_class (begin_destroy h d) = dk_os_class d" "dk_os_class (end_destroy h d) = dk_os_class d"
  "dk_class_registered (begin_destroy h d) = dk_class_registered d" "dk_class_registered (end_destroy h d) = dk_class_registered d"
  "dk_next_hwnd (begin_destroy h d) = dk_next_hwnd d" "dk_next_hwnd (end_destroy h d) = dk_next_hwnd d"
  "dk_windows (end_destroy h d) = filter (\<lambda>w. fst w \<noteq> h) (dk_windows d)"
  by (simp_all add: begin_destroy_def end_destroy_def)

lemma begin_destroy_others [desk_simps]:
  "filter (\<lambda>w. fst w \<noteq> h) (dk_windows (begin_destroy h d)) = filter (\<lambda>w. fst w \<noteq> h) (dk_windows d)"
proof -
  have "filter (\<lambda>w. fst w \<noteq> h) (map (\<lambda>w. if fst w = h then (h, (snd w)\<lparr>ow_dying := True\<rparr>) else w) ws) = filter (\<lambda>w. fst w \<noteq> h) ws" for ws
    by (induction ws) auto
  then show ?thesis by (simp add: begin_destroy_def)
qed

lemma desk_quit [desk_simps]:
  "dk_objects (post_quit p d) = dk_objects d" "dk_windows (post_quit p d) = dk_windows d"
  "g_active_window_count (post_quit p d) = g_active_window_count d" "dk_fault (post_quit p d) = dk_fault d"
  "dk_env (post_quit p d) = dk_env d" "dk_os_class (post_quit p d) = dk_os_class d"
  "dk_class_registered (post_quit p d) = dk_class_registered d" "dk_next_hwnd (post_quit p d) = dk_next_hwnd d"
  "dk_quits (post_quit p d) = dk_quits d @ (if wo_quit_on_close (this_of p d) then [0] else [])"
  by (simp_all add: post_quit_def)

lemma desk_drop [desk_simps]:
  "dk_objects (drop_class d) = dk_objects d" "dk_windows (drop_class d) = dk_windows d"
  "g_active_window_count (drop_class d) = g_active_window_count d" "dk_fault (drop_class d) = dk_fault d"
  "dk_env (drop_class d) = dk_env d" "dk_quits (drop_class d) = dk_quits d" "dk_next_hwnd (drop_class d) = dk_next_hwnd d"
  "this_of p (drop_class d) = this_of p d"
  "dk_os_class (drop_class d) = (dk_os_class d \<and> \<not> (g_active_window_count d = 0 \<and> dk_windows d = []))"
  "dk_class_registered (drop_class d) = (if g_active_window_count d = 0 then False else dk_class_registered d)"
  by (simp_all add: drop_class_def UnregisterWindowClass_def GetInstance_def this_of_def Let_def)

text \<open>The fields of an object that exists.\<close>

definition released :: "win_object \<Rightarrow> win_object" where
  "released ob = (if wo_class ob = FlutterWindow then ob\<lparr>wo_flutter_controller := None\<rparr> else ob)"

lemma on_this_exists [desk_simps]:
  assumes "dk_objects d p = Some ob"
  shows "this_of p d = ob" "dk_objects (on_this p f d) = (dk_objects d)(p \<mapsto> f ob)" "dk_fault (on_this p f d) = dk_fault d"
  using assms by (simp_all add: this_of_def on_this_def)

lemma desk_OnDestroy [desk_simps]:
  "dk_windows (OnDestroy p d) = dk_windows d" "g_active_window_count (OnDestroy p d) = g_active_window_count d"
  "dk_env (OnDestroy p d) = dk_env d" "dk_quits (OnDestroy p d) = dk_quits d" "dk_next_hwnd (OnDestroy p d) = dk_next_hwnd d"
  "dk_os_class (OnDestroy p d) = dk_os_class d" "dk_class_registered (OnDestroy p d) = dk_class_registered d"
  by (simp_all add: OnDestroy_def flutter_OnDestroy_def win32_OnDestroy_def desk_simps Let_def split: win_class.splits)

lemma OnDestroy_object [desk_simps]:
  assumes "dk_objects d p = Some ob"
  shows "dk_objects (OnDestroy p d) = (dk_objects d)(p \<mapsto> released ob)" "dk_fault (OnDestroy p d) = dk_fault d"
proof -
  have "(dk_objects d)(p \<mapsto> ob) = dk_objects d" using assms by auto
  then show "dk_objects (OnDestroy p d) = (dk_objects d)(p \<mapsto> released ob)" "dk_fault (OnDestroy p d) = dk_fault d"
    using assms
    by (auto simp: OnDestroy_def flutter_OnDestroy_def win32_OnDestroy_def released_def desk_simps Let_def split: win_class.splits)
qed

lemma released_fields [simp]:
  "wo_window_handle (released ob) = wo_window_handle ob" "wo_quit_on_close (released ob) = wo_quit_on_close ob"
  "wo_class (released ob) = wo_class ob" "wo_child_content (released ob) = wo_child_content ob"
  "released (released ob) = released ob" "released (ob\<lparr>wo_window_handle := h\<rparr>) = (released ob)\<lparr>wo_window_handle := h\<rparr>"
  "wo_class ob = FlutterWindow \<Longrightarrow> wo_flutter_controller (released ob) = None"
  by (simp_all add: released_def)

section \<open>Closing and destroying\<close>

lemma begin_destroy_found:
  assumes "map_of (dk_windows d) h = Some x"
  shows "GetThisFromHandle h (begin_destroy h d) = ow_user_data x" "dk_windows (begin_destroy h d) \<noteq> []"
proof -
  have "map_of (map (\<lambda>w. if fst w = h then (h, (snd w)\<lparr>ow_dying := True\<rparr>) else w) ws) h = map_option (\<lambda>x. x\<lparr>ow_dying := True\<rparr>) (map_of ws h)"
    for ws :: "(hwnd \<times> os_window) list"
    by (induction ws) auto
  then show "GetThisFromHandle h (begin_destroy h d) = ow_user_data x"
    using assms by (simp add: GetThisFromHandle_def begin_destroy_def)
  show "dk_windows (begin_destroy h d) \<noteq> []" using assms by (auto simp: begin_destroy_def)
qed

text \<open>The state after the window \<open>h\<close> of the object \<open>p\<close> was closed.\<close>

definition closed_state :: "hwnd \<Rightarrow> address \<Rightarrow> win_object \<Rightarrow> desktop \<Rightarrow> desktop \<Rightarrow> bool" where
  "closed_state h p ob d d' \<longleftrightarrow>
     dk_windows d' = filter (\<lambda>w. fst w \<noteq> h) (dk_windows d) \<and>
     dk_objects d' = (dk_objects d)(p \<mapsto> (released ob)\<lparr>wo_window_handle := None\<rparr>) \<and>
     dk_quits d' = dk_quits d @ (if wo_quit_on_close ob then [0] else []) \<and>
     g_active_window_count d' = g_active_window_count d \<and> dk_env d' = dk_env d \<and> dk_fault d' = dk_fault d \<and>
     dk_next_hwnd d' = dk_next_hwnd d \<and> dk_os_class d' = dk_os_class d \<and>
     dk_class_registered d' = (g_active_window_count d \<noteq> 0 \<and> dk_class_registered d)"

lemma DestroyWindow_owned:
  assumes w: "map_of (dk_windows d) h = Some x" "\<not> ow_dying x" "ow_user_data x = Some p" and ob: "dk_objects d p = Some ob"
    and c: "\<not> flutter_claims p WM_DESTROY d"
  shows "closed_state h p ob d (DestroyWindow h d)"
proof -
  let ?b = "begin_destroy h d"
  have "\<not> flutter_claims p WM_DESTROY ?b" using c by (simp add: flutter_claims_def this_of_def desk_simps)
  then have e: "DestroyWindow h d = end_destroy h (post_quit p (drop_class (OnDestroy p (clear_handle p ?b))))"
    using w begin_destroy_found(1) [OF w(1)]
    by (simp add: DestroyWindow.simps window_lives_def procedure_destroy)
  have obb: "dk_objects ?b p = Some ob" using ob by (simp add: desk_simps)
  note c1 = on_this_exists(2,3) [OF obb, of "\<lambda>ob. ob\<lparr>wo_window_handle := None\<rparr>", folded clear_handle_def]
  have obc: "dk_objects (clear_handle p ?b) p = Some (ob\<lparr>wo_window_handle := None\<rparr>)" using c1(1) by simp
  note c2 = OnDestroy_object [OF obc]
  have "wo_quit_on_close (this_of p (OnDestroy p (clear_handle p ?b))) = wo_quit_on_close ob"
    using c2(1) by (simp add: this_of_def)
  then show ?thesis
    unfolding closed_state_def e using c1 c2 begin_destroy_found(2) [OF w(1)]
    by (simp add: desk_simps) (simp add: clear_handle_def desk_simps)
qed

text \<open>What \<open>Destroy\<close> leaves behind, whether the object has a window or not.\<close>

lemma Destroy_object:
  assumes ob: "dk_objects d p = Some ob" and h: "wo_window_handle ob = None"
  shows "Destroy p d = drop_class (OnDestroy p d)"
  using Destroy_no_handle [of p d] OnDestroy_object(1) [OF ob] h by (simp add: this_of_def)

lemma Destroy_owned:
  assumes ob: "dk_objects d p = Some ob" "wo_window_handle ob = Some h"
    and w: "map_of (dk_windows d) h = Some x" "\<not> ow_dying x" "ow_user_data x = Some p"
  shows "\<exists>d1. closed_state h p (released ob) (OnDestroy p d) d1 \<and> Destroy p d = drop_class (clear_handle p d1)"
proof -
  let ?d = "OnDestroy p d"
  have obd: "dk_objects ?d p = Some (released ob)" using OnDestroy_object [OF ob(1)] by simp
  have "\<not> flutter_claims p WM_DESTROY ?d" using obd by (auto simp: flutter_claims_def this_of_def)
  from DestroyWindow_owned [OF _ w(2,3) obd this, of h] w(1)
  have "closed_state h p (released ob) ?d (DestroyWindow h ?d)" by (simp add: desk_simps)
  moreover have "wo_window_handle (this_of p ?d) = Some h" using obd ob(2) by (simp add: this_of_def)
  then have "Destroy p d = drop_class (clear_handle p (DestroyWindow h ?d))"
    by (simp add: Destroy.simps drop_class_def clear_handle_def Let_def)
  ultimately show ?thesis by blast
qed

lemma Destroy_stale:
  assumes ob: "dk_objects d p = Some ob" "wo_window_handle ob = Some h" and w: "map_of (dk_windows d) h = None"
  shows "Destroy p d = drop_class (clear_handle p (OnDestroy p d))"
proof -
  let ?d = "OnDestroy p d"
  have obd: "dk_objects ?d p = Some (released ob)" using OnDestroy_object [OF ob(1)] by simp
  have "wo_window_handle (this_of p ?d) = Some h" using obd ob(2) by (simp add: this_of_def)
  moreover have "DestroyWindow h ?d = ?d" using w by (simp add: DestroyWindow.simps window_lives_def desk_simps)
  ultimately show ?thesis by (simp add: Destroy.simps drop_class_def clear_handle_def Let_def)
qed

section \<open>The invariant\<close>

text \<open>
  Every window is alive and belongs to an object of the store that knows it; no two objects share a
  handle; and, if Flutter's engine starts, an object with a window has a controller with an engine.
\<close>

definition good_controller :: "desk_env \<Rightarrow> win_object \<Rightarrow> bool" where
  "good_controller e ob \<longleftrightarrow>
     (de_engine e \<longrightarrow> wo_class ob = FlutterWindow \<longrightarrow> (\<exists>c. wo_flutter_controller ob = Some c \<and> fc_engine c))"

definition window_owned :: "desktop \<Rightarrow> hwnd \<times> os_window \<Rightarrow> bool" where
  "window_owned d w \<longleftrightarrow> fst w < dk_next_hwnd d \<and> \<not> ow_dying (snd w) \<and>
     (\<exists>p ob. ow_user_data (snd w) = Some p \<and> dk_objects d p = Some ob \<and> wo_window_handle ob = Some (fst w) \<and> good_controller (dk_env d) ob)"

definition handles_ok :: "desktop \<Rightarrow> bool" where
  "handles_ok d \<longleftrightarrow>
     (\<forall>p ob h. dk_objects d p = Some ob \<longrightarrow> wo_window_handle ob = Some h \<longrightarrow>
        h < dk_next_hwnd d \<and> (\<forall>q ob'. dk_objects d q = Some ob' \<longrightarrow> wo_window_handle ob' = Some h \<longrightarrow> q = p))"

definition desk_wf :: "desktop \<Rightarrow> bool" where
  "desk_wf d \<longleftrightarrow> distinct (map fst (dk_windows d)) \<and> (\<forall>w \<in> set (dk_windows d). window_owned d w) \<and> handles_ok d"

text \<open>
  The counter is the number of the objects, and the window class is registered as long as it is needed: with
  every window, and not without any object.
\<close>

definition class_ok :: "desktop \<Rightarrow> bool" where
  "class_ok d \<longleftrightarrow> (dk_windows d \<noteq> [] \<longrightarrow> dk_os_class d) \<and> (dk_os_class d \<longrightarrow> dk_class_registered d) \<and>
     (dk_objects d = Map.empty \<longrightarrow> \<not> dk_class_registered d)"

definition desk_inv :: "desktop \<Rightarrow> bool" where
  "desk_inv d \<longleftrightarrow> desk_wf d \<and> finite (dom (dk_objects d)) \<and> g_active_window_count d = int (card (dom (dk_objects d))) \<and>
     class_ok d \<and> (de_engine (dk_env d) \<longrightarrow> \<not> dk_fault d)"

text \<open>The state after \<open>Destroy\<close>.\<close>

definition destroyed_state :: "address \<Rightarrow> win_object \<Rightarrow> desktop \<Rightarrow> desktop \<Rightarrow> bool" where
  "destroyed_state p ob d d' \<longleftrightarrow>
     dk_windows d' = filter (\<lambda>w. Some (fst w) \<noteq> wo_window_handle ob) (dk_windows d) \<and>
     dk_objects d' = (dk_objects d)(p \<mapsto> (released ob)\<lparr>wo_window_handle := None\<rparr>) \<and>
     dk_quits d' = dk_quits d @ (if wo_quit_on_close ob \<and> wo_window_handle ob \<in> Some ` fst ` set (dk_windows d) then [0] else []) \<and>
     g_active_window_count d' = g_active_window_count d \<and> dk_env d' = dk_env d \<and> dk_fault d' = dk_fault d \<and>
     dk_next_hwnd d' = dk_next_hwnd d \<and> dk_os_class d' = (dk_os_class d \<and> \<not> (g_active_window_count d = 0 \<and> dk_windows d' = [])) \<and>
     dk_class_registered d' = (g_active_window_count d \<noteq> 0 \<and> dk_class_registered d)"

lemma found_window: "GetThisFromHandle h d = Some p \<Longrightarrow> \<exists>x. (h, x) \<in> set (dk_windows d)"
  by (auto simp: GetThisFromHandle_def dest: map_of_SomeD split: option.splits)

lemma desk_wf_owner:
  assumes "desk_wf d" "(h, x) \<in> set (dk_windows d)"
  obtains p ob where "map_of (dk_windows d) h = Some x" "ow_user_data x = Some p" "dk_objects d p = Some ob"
    "wo_window_handle ob = Some h" "\<not> ow_dying x" "good_controller (dk_env d) ob" "GetThisFromHandle h d = Some p"
proof -
  have "window_owned d (h, x)" using assms by (auto simp: desk_wf_def)
  moreover have "map_of (dk_windows d) h = Some x" using assms by (auto simp: desk_wf_def)
  ultimately show thesis using that by (auto simp: window_owned_def GetThisFromHandle_def)
qed

lemma Destroy_effect:
  assumes wf: "desk_wf d" and ob: "dk_objects d p = Some ob"
  shows "destroyed_state p ob d (Destroy p d)"
proof -
  note o = OnDestroy_object [OF ob]
  consider (none) "wo_window_handle ob = None" | (stale) h where "wo_window_handle ob = Some h" "h \<notin> fst ` set (dk_windows d)"
    | (owned) h x where "wo_window_handle ob = Some h" "(h, x) \<in> set (dk_windows d)"
    by force
  then show ?thesis
  proof cases
    case none
    then have r: "(released ob)\<lparr>wo_window_handle := None\<rparr> = released ob" by (simp add: released_def)
    show ?thesis using none o by (simp add: Destroy_object [OF ob none] destroyed_state_def desk_simps) (simp only: r)
  next
    case stale
    have "map_of (dk_windows d) h = None" using stale(2) by (simp add: map_of_eq_None_iff)
    note e = Destroy_stale [OF ob stale(1) this]
    have "dk_objects (OnDestroy p d) p = Some (released ob)" using o by simp
    note c = on_this_exists(2,3) [OF this, of "\<lambda>ob. ob\<lparr>wo_window_handle := None\<rparr>", folded clear_handle_def]
    have "filter (\<lambda>w. Some (fst w) \<noteq> wo_window_handle ob) (dk_windows d) = dk_windows d"
      using stale by (auto simp: filter_id_conv)
    then show ?thesis
      using stale o c unfolding e by (simp add: destroyed_state_def desk_simps) (auto simp: clear_handle_def desk_simps)
  next
    case owned
    obtain q ob' where q: "map_of (dk_windows d) h = Some x" "ow_user_data x = Some q" "dk_objects d q = Some ob'"
        "wo_window_handle ob' = Some h" "\<not> ow_dying x"
      by (rule desk_wf_owner [OF wf owned(2)])
    have "q = p" using wf owned(1) ob q(3,4) unfolding desk_wf_def handles_ok_def by blast
    then obtain d1 where d1: "closed_state h p (released ob) (OnDestroy p d) d1" "Destroy p d = drop_class (clear_handle p d1)"
      using Destroy_owned [OF ob owned(1) q(1,5)] q(2) by blast
    have "dk_objects d1 p = Some ((released ob)\<lparr>wo_window_handle := None\<rparr>)" using d1(1) by (simp add: closed_state_def)
    note c = on_this_exists(2,3) [OF this, of "\<lambda>ob. ob\<lparr>wo_window_handle := None\<rparr>", folded clear_handle_def]
    have "Some h \<in> Some ` fst ` set (dk_windows d)" using owned(2) by force
    then show ?thesis
      using d1(1) owned(1) o c unfolding d1(2)
      by (simp add: destroyed_state_def closed_state_def desk_simps) (auto simp: clear_handle_def desk_simps)
  qed
qed

lemma handles_okD:
  assumes "handles_ok d" "dk_objects d p = Some ob" "wo_window_handle ob = Some h"
  shows "h < dk_next_hwnd d" "dk_objects d q = Some ob' \<Longrightarrow> wo_window_handle ob' = Some h \<Longrightarrow> q = p"
  using assms unfolding handles_ok_def by blast+

lemma handles_frame:
  assumes "handles_ok d" "dk_next_hwnd d \<le> dk_next_hwnd d'"
    and "\<And>q ob h. dk_objects d' q = Some ob \<Longrightarrow> wo_window_handle ob = Some h \<Longrightarrow>
      \<exists>ob0. dk_objects d q = Some ob0 \<and> wo_window_handle ob0 = Some h"
  shows "handles_ok d'"
  unfolding handles_ok_def
proof (intro allI impI conjI)
  fix q ob h assume a: "dk_objects d' q = Some ob" "wo_window_handle ob = Some h"
  then obtain ob0 where o: "dk_objects d q = Some ob0" "wo_window_handle ob0 = Some h" using assms(3) by blast
  then have "h < dk_next_hwnd d" using assms(1) unfolding handles_ok_def by blast
  then show "h < dk_next_hwnd d'" using assms(2) by simp
  fix r ob' assume "dk_objects d' r = Some ob'" "wo_window_handle ob' = Some h"
  then obtain ob1 where "dk_objects d r = Some ob1" "wo_window_handle ob1 = Some h" using assms(3) by blast
  then show "r = q" using o assms(1) unfolding handles_ok_def by blast
qed

lemma destroyed_wf:
  assumes wf: "desk_wf d" and ob: "dk_objects d p = Some ob" and e: "destroyed_state p ob d d'"
  shows "desk_wf d'" "\<And>w. w \<in> set (dk_windows d') \<Longrightarrow> ow_user_data (snd w) \<noteq> Some p"
proof -
  have own: "window_owned d' w \<and> ow_user_data (snd w) \<noteq> Some p" if "w \<in> set (dk_windows d')" for w
  proof -
    have w: "w \<in> set (dk_windows d)" "wo_window_handle ob \<noteq> Some (fst w)" using that e by (auto simp: destroyed_state_def)
    then have "window_owned d w" using wf by (simp add: desk_wf_def)
    then obtain q ob' where q: "fst w < dk_next_hwnd d" "\<not> ow_dying (snd w)" "ow_user_data (snd w) = Some q" "dk_objects d q = Some ob'"
        "wo_window_handle ob' = Some (fst w)" "good_controller (dk_env d) ob'"
      by (auto simp: window_owned_def)
    then have "q \<noteq> p" using w(2) ob by auto
    then show ?thesis using q e by (auto simp: window_owned_def destroyed_state_def)
  qed
  have "distinct (map fst (dk_windows d'))" using wf e by (simp add: desk_wf_def destroyed_state_def distinct_map_filter)
  moreover have hk: "handles_ok d" and o: "dk_objects d' = (dk_objects d)(p \<mapsto> (released ob)\<lparr>wo_window_handle := None\<rparr>)"
      "dk_next_hwnd d' = dk_next_hwnd d"
    using wf e by (simp_all add: desk_wf_def destroyed_state_def)
  have "handles_ok d'" by (rule handles_frame [OF hk]) (auto simp: o split: if_splits)
  ultimately show "desk_wf d'" using own by (simp add: desk_wf_def)
  show "\<And>w. w \<in> set (dk_windows d') \<Longrightarrow> ow_user_data (snd w) \<noteq> Some p" using own by blast
qed

section \<open>The operations keep the invariant\<close>

text \<open>Operations that change neither the windows nor the objects, and those that change one object but not its handle.\<close>

definition same_desk :: "desktop \<Rightarrow> desktop \<Rightarrow> bool" where
  "same_desk d d' \<longleftrightarrow> (\<exists>cs. d' = d\<lparr>dk_calls := cs\<rparr>)"

lemma same_desk_inv:
  assumes "same_desk d d'" "desk_inv d"
  shows "desk_inv d'"
proof -
  obtain cs where d': "d' = d\<lparr>dk_calls := cs\<rparr>" using assms(1) by (auto simp: same_desk_def)
  have "window_owned d' = window_owned d" "handles_ok d' = handles_ok d" by (simp_all add: d' window_owned_def handles_ok_def fun_eq_iff)
  then show ?thesis using assms(2) by (simp add: desk_inv_def desk_wf_def class_ok_def d')
qed

lemma same_desk_refl: "same_desk d d"
proof -
  have "d = d\<lparr>dk_calls := dk_calls d\<rparr>" by simp
  then show ?thesis unfolding same_desk_def by blast
qed

lemma same_desk_ui: "same_desk d (ui c d)"
  by (auto simp: same_desk_def ui_def)

lemma same_desk_trans: "same_desk d d1 \<Longrightarrow> same_desk d1 d2 \<Longrightarrow> same_desk d d2"
  by (auto simp: same_desk_def)

lemma same_desk_theme: "same_desk d (UpdateTheme h d)" "same_desk d (EnableFullDpiSupportIfAvailable h d)"
  by (simp_all add: UpdateTheme_def EnableFullDpiSupportIfAvailable_def same_desk_refl same_desk_ui split: option.splits)

lemma on_this_inv:
  assumes inv: "desk_inv d" and ob: "dk_objects d p = Some ob"
    and f: "wo_window_handle (f ob) = wo_window_handle ob" "good_controller (dk_env d) ob \<Longrightarrow> good_controller (dk_env d) (f ob)"
  shows "desk_inv (on_this p f d)"
proof -
  note e = on_this_exists(2,3) [OF ob, of f]
  have dm: "dom (dk_objects (on_this p f d)) = dom (dk_objects d)" using e(1) ob by auto
  have hk: "handles_ok d" using inv by (simp add: desk_inv_def desk_wf_def)
  have "handles_ok (on_this p f d)"
    by (rule handles_frame [OF hk]) (auto simp: desk_on_this e(1) ob f(1) split: if_splits)
  moreover have "window_owned (on_this p f d) w" if "window_owned d w" for w
    using that e(1) ob f unfolding window_owned_def desk_on_this by (auto split: if_splits)
  ultimately have "desk_wf (on_this p f d)" using inv by (simp add: desk_inv_def desk_wf_def desk_simps)
  moreover have "class_ok (on_this p f d)" using inv e(1) ob by (auto simp: desk_inv_def class_ok_def desk_simps fun_eq_iff)
  ultimately show ?thesis using inv dm e(2) by (simp add: desk_inv_def desk_simps)
qed

lemma count_objects: "desk_inv d \<Longrightarrow> dk_objects d p = Some ob \<Longrightarrow> 0 < g_active_window_count d"
  by (auto simp: desk_inv_def card_gt_0_iff dom_def)

lemma destroyed_inv:
  assumes inv: "desk_inv d" and ob: "dk_objects d p = Some ob" and e: "destroyed_state p ob d d'"
  shows "desk_inv d'"
proof -
  have wf: "desk_wf d" using inv by (simp add: desk_inv_def)
  have n: "g_active_window_count d \<noteq> 0" using count_objects [OF inv ob] by simp
  have dm: "dom (dk_objects d') = dom (dk_objects d)" "dk_objects d' \<noteq> Map.empty" using e ob by (auto simp: destroyed_state_def)
  have "class_ok d'" using e n dm(2) inv by (auto simp: destroyed_state_def class_ok_def desk_inv_def filter_empty_conv)
  then show ?thesis using destroyed_wf(1) [OF wf ob e] e dm inv by (simp add: desk_inv_def destroyed_state_def)
qed

lemma Destroy_inv: "desk_inv d \<Longrightarrow> dk_objects d p = Some ob \<Longrightarrow> desk_inv (Destroy p d)"
  by (rule destroyed_inv [OF _ _ Destroy_effect]) (simp_all add: desk_inv_def)

lemma new_inv:
  assumes inv: "desk_inv d" and p: "dk_objects d p = None" and ob: "wo_window_handle ob = None"
    and d': "d' = d\<lparr>g_active_window_count := g_active_window_count d + 1, dk_objects := (dk_objects d)(p \<mapsto> ob)\<rparr>"
  shows "desk_inv d'"
proof -
  have wf: "desk_wf d" using inv by (simp add: desk_inv_def)
  then have hk: "handles_ok d" by (simp add: desk_wf_def)
  have "handles_ok d'" by (rule handles_frame [OF hk]) (use ob in \<open>auto simp: d' split: if_splits\<close>)
  moreover have "window_owned d' w" if "window_owned d w" for w
    using that p unfolding window_owned_def by (auto simp: d')
  ultimately have "desk_wf d'" using wf by (simp add: desk_wf_def d')
  moreover have "card (dom (dk_objects d')) = Suc (card (dom (dk_objects d)))"
    using inv p by (simp add: d' desk_inv_def domIff)
  ultimately show ?thesis using inv by (simp add: desk_inv_def class_ok_def d')
qed

lemma new_objects_inv:
  assumes "desk_inv d" "dk_objects d p = None"
  shows "desk_inv (new_Win32Window p d)" "desk_inv (new_FlutterWindow p d)"
  by (rule new_inv [OF assms]; simp add: new_FlutterWindow_def new_Win32Window_def on_this_def)+

text \<open>A window whose owner is gone does not exist, so an object that nothing belongs to can go.\<close>

lemma remove_wf:
  assumes wf: "desk_wf d" and free: "\<And>w. w \<in> set (dk_windows d) \<Longrightarrow> ow_user_data (snd w) \<noteq> Some p"
    and d': "d' = d\<lparr>dk_objects := (dk_objects d)(p := None)\<rparr>"
  shows "desk_wf d'"
proof -
  have "window_owned d' w" if "w \<in> set (dk_windows d)" for w
  proof -
    have "window_owned d w" using wf that by (simp add: desk_wf_def)
    then show ?thesis using free [OF that] unfolding window_owned_def by (auto simp: d')
  qed
  moreover have hk: "handles_ok d" using wf by (simp add: desk_wf_def)
  have "handles_ok d'" by (rule handles_frame [OF hk]) (auto simp: d' split: if_splits)
  ultimately show ?thesis using wf by (simp add: desk_wf_def d')
qed

lemma wf_no_objects: "desk_wf d \<Longrightarrow> dk_objects d = Map.empty \<Longrightarrow> dk_windows d = []"
  by (cases "dk_windows d") (auto simp: desk_wf_def window_owned_def)

lemma card_objects:
  assumes "desk_inv d" "dk_objects d p = Some ob"
  shows "int (card (dom (dk_objects d) - {p})) = g_active_window_count d - 1"
proof -
  have "finite (dom (dk_objects d))" "p \<in> dom (dk_objects d)" using assms by (auto simp: desk_inv_def)
  then have "Suc (card (dom (dk_objects d) - {p})) = card (dom (dk_objects d))" by (rule card_Suc_Diff1)
  then show ?thesis using assms(1) by (simp add: desk_inv_def)
qed

lemma delete_inv:
  assumes inv: "desk_inv d" and ob: "dk_objects d p = Some ob"
  shows "desk_inv (delete_FlutterWindow p d)" "dk_objects (delete_FlutterWindow p d) = (dk_objects d)(p := None)"
    "dk_windows d = [] \<Longrightarrow> dk_quits (delete_FlutterWindow p d) = dk_quits d"
proof -
  define f where "f = (\<lambda>ob. ob\<lparr>wo_flutter_controller := None, wo_class := Win32Window\<rparr> :: win_object)"
  define d1 where "d1 = on_this p f d"
  define d2 where "d2 = d1\<lparr>g_active_window_count := g_active_window_count d1 - 1\<rparr>"
  define d3 where "d3 = Destroy p d2"
  define d4 where "d4 = d3\<lparr>dk_objects := (dk_objects d3)(p := None)\<rparr>"
  have e4: "delete_FlutterWindow p d = d4"
    by (simp add: delete_FlutterWindow_def delete_Win32Window_def Let_def d4_def d3_def d2_def d1_def f_def)
  have inv1: "desk_inv d1" unfolding d1_def by (rule on_this_inv [OF inv ob]) (simp_all add: good_controller_def f_def)
  have o1: "dk_objects d1 = (dk_objects d)(p \<mapsto> f ob)" "g_active_window_count d1 = g_active_window_count d" "dk_env d1 = dk_env d"
    using ob by (simp_all add: d1_def desk_simps)
  have "window_owned d2 = window_owned d1" "handles_ok d2 = handles_ok d1" by (simp_all add: d2_def window_owned_def handles_ok_def fun_eq_iff)
  then have wf2: "desk_wf d2" using inv1 by (simp add: desk_inv_def desk_wf_def d2_def)
  have ob2: "dk_objects d2 p = Some (f ob)" using o1 by (simp add: d2_def)
  note e = Destroy_effect [OF wf2 ob2, folded d3_def]
  note wf3 = destroyed_wf [OF wf2 ob2 e]
  note wf4 = remove_wf [OF wf3 d4_def]
  have o4: "dk_objects d4 = (dk_objects d)(p := None)" using e o1 by (simp add: d4_def d2_def destroyed_state_def)
  then show "dk_objects (delete_FlutterWindow p d) = (dk_objects d)(p := None)" using e4 by simp
  show "dk_quits (delete_FlutterWindow p d) = dk_quits d" if "dk_windows d = []"
    using e that unfolding e4 by (simp add: d4_def d2_def d1_def destroyed_state_def desk_on_this)
  have c4: "g_active_window_count d4 = g_active_window_count d - 1" "dk_env d4 = dk_env d" "dk_fault d4 = dk_fault d1"
      "dk_windows d4 = filter (\<lambda>w. Some (fst w) \<noteq> wo_window_handle (f ob)) (dk_windows d1)"
      "dk_os_class d4 = (dk_os_class d1 \<and> \<not> (g_active_window_count d4 = 0 \<and> dk_windows d4 = []))"
      "dk_class_registered d4 = (g_active_window_count d4 \<noteq> 0 \<and> dk_class_registered d1)"
    using e o1 by (simp_all add: d4_def d2_def destroyed_state_def)
  have dm: "dom (dk_objects d4) = dom (dk_objects d) - {p}" using o4 by auto
  have n: "g_active_window_count d4 = int (card (dom (dk_objects d4)))" using card_objects [OF inv ob] c4(1) dm by simp
  have fin: "finite (dom (dk_objects d4))" using inv dm by (simp add: desk_inv_def)
  have empty: "dk_objects d4 = Map.empty \<longleftrightarrow> g_active_window_count d4 = 0" using n card_0_eq [OF fin] by simp
  have "class_ok d1" using inv1 by (simp add: desk_inv_def)
  then have "class_ok d4"
    using wf_no_objects [OF wf4] empty c4(4-6) unfolding class_ok_def by (cases "g_active_window_count d4 = 0") (auto simp: filter_empty_conv)
  then show "desk_inv (delete_FlutterWindow p d)" using wf4 n fin inv1 c4 o1 unfolding e4 by (simp add: desk_inv_def)
qed

text \<open>Closing a window: as its destruction, or without a word to the object if Flutter takes \<open>WM_DESTROY\<close> for itself.\<close>

lemma DestroyWindow_effect:
  assumes inv: "desk_inv d" and w: "(h, x) \<in> set (dk_windows d)" and p: "GetThisFromHandle h d = Some p"
    and c: "\<not> flutter_claims p WM_DESTROY d"
  shows "\<exists>ob. dk_objects d p = Some ob \<and> wo_window_handle ob = Some h \<and> destroyed_state p ob d (DestroyWindow h d)"
proof -
  have wf: "desk_wf d" using inv by (simp add: desk_inv_def)
  obtain q ob where o: "map_of (dk_windows d) h = Some x" "ow_user_data x = Some q" "dk_objects d q = Some ob"
    "wo_window_handle ob = Some h" "\<not> ow_dying x" "GetThisFromHandle h d = Some q"
    by (rule desk_wf_owner [OF wf w])
  have "q = p" using o(6) p by simp
  with o have o: "map_of (dk_windows d) h = Some x" "ow_user_data x = Some p" "dk_objects d p = Some ob"
    "wo_window_handle ob = Some h" "\<not> ow_dying x" by simp_all
  have "g_active_window_count d \<noteq> 0" using count_objects [OF inv o(3)] by simp
  moreover have "Some h \<in> Some ` fst ` set (dk_windows d)" using w by force
  ultimately have "destroyed_state p ob d (DestroyWindow h d)"
    using DestroyWindow_owned [OF o(1,5,2,3) c] o(4) by (simp add: closed_state_def destroyed_state_def)
  then show ?thesis using o(3,4) by blast
qed

lemma DestroyWindow_inv:
  assumes inv: "desk_inv d"
  shows "desk_inv (DestroyWindow h d)"
proof (cases "\<exists>x. (h, x) \<in> set (dk_windows d)")
  case False
  then have "map_of (dk_windows d) h = None" by (force simp: map_of_eq_None_iff)
  then show ?thesis using inv by (simp add: DestroyWindow.simps window_lives_def)
next
  case True
  then obtain x where w: "(h, x) \<in> set (dk_windows d)" by blast
  have wf: "desk_wf d" using inv by (simp add: desk_inv_def)
  obtain p ob where o: "map_of (dk_windows d) h = Some x" "ow_user_data x = Some p" "\<not> ow_dying x" "GetThisFromHandle h d = Some p"
    by (rule desk_wf_owner [OF wf w])
  show ?thesis
  proof (cases "flutter_claims p WM_DESTROY d")
    case c: True
    let ?d = "end_destroy h (begin_destroy h d)"
    have "flutter_claims p WM_DESTROY (begin_destroy h d)" using c by (simp add: flutter_claims_def this_of_def desk_simps)
    then have e: "DestroyWindow h d = ?d"
      using o begin_destroy_found(1) [OF o(1)] by (simp add: DestroyWindow.simps window_lives_def procedure_destroy)
    have "window_owned ?d = window_owned d" "handles_ok ?d = handles_ok d"
      by (simp_all add: window_owned_def handles_ok_def desk_simps fun_eq_iff)
    then have "desk_wf ?d" using wf by (simp add: desk_wf_def desk_simps distinct_map_filter)
    then show ?thesis using inv unfolding e by (auto simp: desk_inv_def class_ok_def desk_simps)
  qed (use DestroyWindow_effect [OF inv w o(4)] destroyed_inv [OF inv] in blast)
qed

text \<open>A message that the window manager takes from the queue or sends: never one of creation or destruction.\<close>

lemma win32_handler_inv:
  assumes inv: "desk_inv d" and m: "m \<noteq> WM_DESTROY"
  shows "desk_inv (snd (win32_MessageHandler p h m d))"
proof -
  have "same_desk d (snd (win32_MessageHandler p h m d)) \<or> (\<exists>k. snd (win32_MessageHandler p h m d) = DestroyWindow k d)"
    using m same_desk_refl same_desk_ui same_desk_theme
    by (cases m) (auto simp: win32_MessageHandler.simps DefWindowProc.simps Let_def split: option.splits)
  then show ?thesis using same_desk_inv [OF _ inv] DestroyWindow_inv [OF inv] by metis
qed

lemma message_inv:
  assumes inv: "desk_inv d" and m: "m \<noteq> WM_DESTROY" "create_params m = None"
  shows "desk_inv (snd (WndProc h m d))"
proof (cases "GetThisFromHandle h d")
  case None
  then show ?thesis using m inv DestroyWindow_inv [OF inv] by (simp add: WndProc.simps DefWindowProc.simps)
next
  case (Some p)
  then obtain x where x: "(h, x) \<in> set (dk_windows d)" using found_window by blast
  have wf: "desk_wf d" using inv by (simp add: desk_inv_def)
  obtain q ob where o: "GetThisFromHandle h d = Some q" "dk_objects d q = Some ob" "good_controller (dk_env d) ob"
    by (rule desk_wf_owner [OF wf x])
  have "q = p" using o(1) Some by simp
  with o have o: "this_of p d = ob" "good_controller (dk_env d) ob" by (simp_all add: this_of_def)
  have e: "snd (WndProc h m d) = snd (MessageHandler p h m d)" using Some m by (simp add: WndProc.simps)
  show ?thesis
  proof (cases "wo_class ob")
    case Win32Window
    then show ?thesis using win32_handler_inv [OF inv m(1)] o unfolding e by (simp add: MessageHandler.simps)
  next
    case FlutterWindow
    obtain r d1 where f: "flutter_first p m d = (r, d1)" by fastforce
    have "desk_inv d1"
    proof (cases "same_desk d d1")
      case False
      then have "\<not> de_engine (dk_env d)" "d1 = d\<lparr>dk_fault := True\<rparr>"
        using f o FlutterWindow same_desk_refl [of d] same_desk_ui [of d]
        by (auto simp: flutter_first_def good_controller_def Let_def split: option.splits if_splits)
      moreover have "window_owned (d\<lparr>dk_fault := True\<rparr>) = window_owned d" "handles_ok (d\<lparr>dk_fault := True\<rparr>) = handles_ok d"
        by (simp_all add: window_owned_def handles_ok_def fun_eq_iff)
      ultimately show ?thesis using inv by (simp add: desk_inv_def desk_wf_def class_ok_def)
    qed (rule same_desk_inv [OF _ inv])
    then show ?thesis using win32_handler_inv [OF _ m(1)] FlutterWindow o f unfolding e
      by (simp add: MessageHandler.simps split: option.splits)
  qed
qed

lemma frame_inv:
  assumes "desk_inv d" "dk_objects d p = Some ob"
  shows "desk_inv (frame_rendered p d)"
proof (cases "wo_flutter_controller ob")
  case (Some c)
  let ?f = "\<lambda>ob. ob\<lparr>wo_flutter_controller := Some (c\<lparr>fc_next_frame := False\<rparr>)\<rparr>"
  have "desk_inv (on_this p ?f d)" by (rule on_this_inv [OF assms]) (use Some in \<open>auto simp: good_controller_def\<close>)
  then show ?thesis
    using assms Some same_desk_inv [OF same_desk_ui] by (simp add: frame_rendered_def this_of_def Show_def)
qed (use assms in \<open>simp add: frame_rendered_def this_of_def\<close>)

lemma quit_inv: "desk_inv d \<Longrightarrow> dk_objects d p = Some ob \<Longrightarrow> desk_inv (SetQuitOnClose p q d)"
  unfolding SetQuitOnClose_def by (rule on_this_inv) (auto simp: good_controller_def)

section \<open>Creation keeps the invariant\<close>

lemma class_registered_inv:
  assumes inv: "desk_inv d" and ob: "dk_objects d p = Some ob"
  shows "desk_inv (GetWindowClass (GetInstance d))"
proof -
  let ?d = "GetWindowClass (GetInstance d)"
  have f: "dk_windows ?d = dk_windows d" "dk_objects ?d = dk_objects d" "g_active_window_count ?d = g_active_window_count d"
    "dk_next_hwnd ?d = dk_next_hwnd d" "dk_env ?d = dk_env d" "dk_fault ?d = dk_fault d" "dk_class_registered ?d"
    "dk_os_class d \<longrightarrow> dk_os_class ?d"
    by (auto simp: GetWindowClass_def GetInstance_def)
  have "window_owned ?d = window_owned d" "handles_ok ?d = handles_ok d" by (simp_all add: window_owned_def handles_ok_def f fun_eq_iff)
  then show ?thesis using inv ob f by (auto simp: desk_inv_def desk_wf_def class_ok_def)
qed

text \<open>The object gets the new window, with its address in the user data; then \<open>OnCreate\<close> gives it a controller.\<close>

definition with_window :: "hwnd \<Rightarrow> address \<Rightarrow> win_object \<Rightarrow> desktop \<Rightarrow> desktop \<Rightarrow> bool" where
  "with_window h p ob d d' \<longleftrightarrow>
     dk_windows d' = dk_windows d @ [(h, \<lparr>ow_user_data = Some p, ow_dying = False\<rparr>)] \<and> dk_next_hwnd d' = h + 1 \<and>
     dk_objects d' = (dk_objects d)(p \<mapsto> ob) \<and> g_active_window_count d' = g_active_window_count d \<and> dk_env d' = dk_env d \<and>
     dk_fault d' = dk_fault d \<and> dk_os_class d' = dk_os_class d \<and> dk_class_registered d' = dk_class_registered d \<and> dk_quits d' = dk_quits d"

lemma nccreate_effect:
  assumes wf: "desk_wf d" and ob: "dk_objects d p = Some ob" and h: "h = dk_next_hwnd d"
    and made: "made = (ui c d)\<lparr>dk_windows := dk_windows (ui c d) @ [(h, \<lparr>ow_user_data = None, ow_dying = False\<rparr>)], dk_next_hwnd := h + 1\<rparr>"
  shows "with_window h p (ob\<lparr>wo_window_handle := Some h\<rparr>) d (snd (WndProc h (WM_NCCREATE p) made))"
proof -
  have new: "fst w \<noteq> h" if "w \<in> set (dk_windows d)" for w
    using wf that h by (force simp: desk_wf_def window_owned_def)
  then have "map (\<lambda>w. if fst w = h then (h, (snd w)\<lparr>ow_user_data := Some p\<rparr>) else w) (dk_windows d) = dk_windows d"
    by (simp add: map_idI)
  then show ?thesis
    using ob by (auto simp: WndProc.simps DefWindowProc.simps create_params_def set_user_data_def EnableFullDpiSupportIfAvailable_def
        made with_window_def on_this_def ui_def Let_def)
qed

text \<open>A fresh handle for one object.\<close>

lemma handles_new:
  assumes hk: "handles_ok d" and f: "dk_objects d' = (dk_objects d)(p \<mapsto> ob)" "dk_next_hwnd d' = h + 1"
    and h: "h = dk_next_hwnd d" "wo_window_handle ob = Some h"
  shows "handles_ok d'"
  unfolding handles_ok_def
proof (intro allI impI conjI)
  have old: "k < h \<and> dk_objects d r = Some ob1" if "dk_objects d' r = Some ob1" "wo_window_handle ob1 = Some k" "r \<noteq> p" for r ob1 k
    using that handles_okD(1) [OF hk, of r ob1 k] h(1) by (simp add: f)
  fix r ob1 k assume r: "dk_objects d' r = Some ob1" "wo_window_handle ob1 = Some k"
  show "k < dk_next_hwnd d'" using r h(2) old [OF r] by (cases "r = p") (auto simp: f)
  fix q ob' assume q: "dk_objects d' q = Some ob'" "wo_window_handle ob' = Some k"
  show "q = r"
  proof (cases "q = p \<or> r = p")
    case True
    show ?thesis
    proof (rule ccontr)
      assume "q \<noteq> r"
      with True consider "r = p" "q \<noteq> p" | "q = p" "r \<noteq> p" by blast
      then show False using r q h(2) old [OF r] old [OF q] by cases (simp_all add: f)
    qed
  next
    case False
    then show ?thesis using handles_okD(2) [OF hk _ r(2) _ q(2)] old [OF r] old [OF q] by blast
  qed
qed

lemma with_window_wf:
  assumes wf: "desk_wf d" and ob: "dk_objects d p = Some ob0" "wo_window_handle ob0 = None" and w: "with_window h p ob d d'"
    and h: "h = dk_next_hwnd d" "wo_window_handle ob = Some h" and g: "good_controller (dk_env d) ob"
  shows "desk_wf d'"
proof -
  have f: "dk_windows d' = dk_windows d @ [(h, \<lparr>ow_user_data = Some p, ow_dying = False\<rparr>)]" "dk_next_hwnd d' = h + 1"
    "dk_objects d' = (dk_objects d)(p \<mapsto> ob)" "dk_env d' = dk_env d"
    using w by (simp_all add: with_window_def)
  have old: "window_owned d w" "fst w \<noteq> h" if "w \<in> set (dk_windows d)" for w
    using wf that h(1) by (auto simp: desk_wf_def window_owned_def)
  have "window_owned d' w" if "window_owned d w" for w
    using that ob h(1) unfolding window_owned_def by (auto simp: f)
  moreover have "window_owned d' (h, \<lparr>ow_user_data = Some p, ow_dying = False\<rparr>)" using h g by (simp add: window_owned_def f)
  moreover have hk: "handles_ok d" using wf by (simp add: desk_wf_def)
  have "handles_ok d'" by (rule handles_new [OF hk f(3,2) h])
  moreover have "h \<notin> fst ` set (dk_windows d)" using old(2) by blast
  ultimately show ?thesis using wf old(1) unfolding desk_wf_def f by auto
qed

lemma with_window_on_this: "with_window h p ob d d' \<Longrightarrow> with_window h p (f ob) d (on_this p f d')"
  by (simp add: with_window_def on_this_def)

lemma with_window_ui: "with_window h p ob d d' \<Longrightarrow> with_window h p ob d (ui c d')"
  by (simp add: with_window_def ui_def)

lemma with_window_child:
  "with_window h p ob d d' \<Longrightarrow> with_window h p (ob\<lparr>wo_child_content := Some c\<rparr>) d (SetChildContent p c d')"
  unfolding SetChildContent_def Let_def by (intro with_window_ui with_window_on_this)

text \<open>What \<open>OnCreate\<close> makes of the object; it succeeds if the engine and the view are there.\<close>

definition started :: "desk_env \<Rightarrow> win_object \<Rightarrow> win_object" where
  "started e ob =
     (let c = \<lparr>fc_engine = de_engine e, fc_view = de_view e, fc_native = de_native e, fc_next_frame = False\<rparr>
      in if wo_class ob = Win32Window then ob
         else if de_engine e \<and> de_view e
         then ob\<lparr>wo_child_content := Some (de_native e), wo_flutter_controller := Some (c\<lparr>fc_next_frame := True\<rparr>)\<rparr>
         else ob\<lparr>wo_flutter_controller := Some c\<rparr>)"

lemma started_fields [simp]:
  "wo_window_handle (started e ob) = wo_window_handle ob" "wo_class (started e ob) = wo_class ob"
  "wo_quit_on_close (started e ob) = wo_quit_on_close ob" "good_controller e (started e ob)"
  by (auto simp: started_def good_controller_def Let_def)

lemma OnCreate_effect:
  assumes w: "with_window h p ob d d1"
  shows "\<exists>d2. OnCreate p d1 = (wo_class ob = Win32Window \<or> de_engine (dk_env d) \<and> de_view (dk_env d), d2) \<and>
    with_window h p (started (dk_env d) ob) d d2"
proof -
  have th: "this_of p d1 = ob" and en: "dk_env d1 = dk_env d" using w by (simp_all add: with_window_def this_of_def)
  show ?thesis
  proof (cases "wo_class ob")
    case Win32Window
    then show ?thesis using w th by (simp add: OnCreate_def win32_OnCreate_def started_def)
  next
    case FlutterWindow
    let ?c = "\<lparr>fc_engine = de_engine (dk_env d), fc_view = de_view (dk_env d), fc_native = de_native (dk_env d), fc_next_frame = False\<rparr>"
    define d2 where "d2 = on_this p (\<lambda>ob. ob\<lparr>wo_flutter_controller := Some ?c\<rparr>) (ui (CreateController
        (rc_right (GetClientArea p d1) - rc_left (GetClientArea p d1)) (rc_bottom (GetClientArea p d1) - rc_top (GetClientArea p d1))) d1)"
    have w2: "with_window h p (ob\<lparr>wo_flutter_controller := Some ?c\<rparr>) d d2"
      unfolding d2_def by (intro with_window_on_this with_window_ui w)
    have d3: "with_window h p (ob\<lparr>wo_flutter_controller := Some ?c, wo_child_content := Some (de_native (dk_env d)),
        wo_flutter_controller := Some (?c\<lparr>fc_next_frame := True\<rparr>)\<rparr>) d
        (ui ForceRedraw (on_this p (\<lambda>ob. ob\<lparr>wo_flutter_controller := Some (?c\<lparr>fc_next_frame := True\<rparr>)\<rparr>)
          (SetChildContent p (de_native (dk_env d)) (ui RegisterPlugins d2))))"
      by (intro with_window_on_this with_window_ui with_window_child w2)
    have "OnCreate p d1 = (if \<not> de_engine (dk_env d) \<or> \<not> de_view (dk_env d) then (False, d2)
        else (True, ui ForceRedraw (on_this p (\<lambda>ob. ob\<lparr>wo_flutter_controller := Some (?c\<lparr>fc_next_frame := True\<rparr>)\<rparr>)
          (SetChildContent p (de_native (dk_env d)) (ui RegisterPlugins d2)))))"
      using FlutterWindow th en by (simp add: OnCreate_def flutter_OnCreate_def win32_OnCreate_def d2_def Let_def desk_simps)
    then show ?thesis using FlutterWindow w2 d3 by (auto simp: started_def Let_def)
  qed
qed

lemma with_window_inv:
  assumes inv: "desk_inv d" and ob: "dk_objects d p = Some ob0" "wo_window_handle ob0 = None" and w: "with_window h p ob d d'"
    and h: "h = dk_next_hwnd d" "wo_window_handle ob = Some h" and g: "good_controller (dk_env d) ob" and c: "dk_os_class d"
  shows "desk_inv d'"
proof -
  have "desk_wf d" using inv by (simp add: desk_inv_def)
  then have "desk_wf d'" using with_window_wf [OF _ ob w h g] by simp
  moreover have "dom (dk_objects d') = dom (dk_objects d)" using w ob by (auto simp: with_window_def)
  moreover have "class_ok d'" using inv c w by (auto simp: desk_inv_def class_ok_def with_window_def)
  ultimately show ?thesis using inv w by (simp add: desk_inv_def with_window_def)
qed

text \<open>
  A creation, from the state \<open>d1\<close> in which the object has no window and the class is registered: it fails, and
  leaves the windows as they are, or the object has the new window and its controller.
\<close>

lemma Create_effect:
  assumes inv: "desk_inv d" and ob: "dk_objects d p = Some ob" and c: "Create p title origin wsize d = (ok, d')"
  obtains d1 where "d1 = GetWindowClass (GetInstance (Destroy p d))" "desk_inv d1"
    "dk_objects d1 p = Some ((released ob)\<lparr>wo_window_handle := None\<rparr>)"
    "if dk_os_class d1 \<and> de_create_ok (dk_env d)
     then ok = (wo_class ob = Win32Window \<or> de_engine (dk_env d) \<and> de_view (dk_env d)) \<and>
       with_window (dk_next_hwnd d1) p (started (dk_env d) ((released ob)\<lparr>wo_window_handle := Some (dk_next_hwnd d1)\<rparr>)) d1 d'
     else \<not> ok \<and> (same_desk d1 d' \<or> (\<exists>d2. d' = end_destroy (dk_next_hwnd d1) d2 \<and>
       with_window (dk_next_hwnd d1) p ((released ob)\<lparr>wo_window_handle := Some (dk_next_hwnd d1)\<rparr>) d1 d2))"
proof -
  have wf: "desk_wf d" using inv by (simp add: desk_inv_def)
  note e = Destroy_effect [OF wf ob]
  define d1 where "d1 = GetWindowClass (GetInstance (Destroy p d))"
  have o1: "dk_objects d1 = (dk_objects d)(p \<mapsto> (released ob)\<lparr>wo_window_handle := None\<rparr>)" "dk_env d1 = dk_env d"
    using e by (simp_all add: d1_def GetWindowClass_def GetInstance_def destroyed_state_def)
  then have ob1: "dk_objects d1 p = Some ((released ob)\<lparr>wo_window_handle := None\<rparr>)" by simp
  have inv1: "desk_inv d1"
    unfolding d1_def using e
    by (intro class_registered_inv [OF Destroy_inv [OF inv ob], of p "(released ob)\<lparr>wo_window_handle := None\<rparr>"]) (simp add: destroyed_state_def)
  then have wf1: "desk_wf d1" by (simp add: desk_inv_def)
  let ?h = "dk_next_hwnd d1"
  let ?c = "CreateWindowAt title (Scale (sint (pt_x origin)) (de_dpi (dk_env d))) (Scale (sint (pt_y origin)) (de_dpi (dk_env d)))
    (Scale (sint (sz_width wsize)) (de_dpi (dk_env d))) (Scale (sint (sz_height wsize)) (de_dpi (dk_env d)))"
  define made where "made = (ui ?c d1)\<lparr>dk_windows := dk_windows (ui ?c d1) @ [(?h, \<lparr>ow_user_data = None, ow_dying = False\<rparr>)], dk_next_hwnd := ?h + 1\<rparr>"
  note w = nccreate_effect [OF wf1 ob1 refl made_def]
  have cr: "(ok, d') = (if \<not> dk_os_class d1 then (False, ui ?c d1)
      else if de_create_ok (dk_env d) then OnCreate p (UpdateTheme ?h (snd (WndProc ?h (WM_NCCREATE p) made)))
      else if de_nccreate (dk_env d) then (False, end_destroy ?h (snd (WndProc ?h (WM_NCCREATE p) made))) else (False, ui ?c d1))"
    using c o1(2) by (auto simp: Create_def CreateWindow_def Let_def desk_ui made_def d1_def [symmetric] split: if_splits)
  have "with_window ?h p ((released ob)\<lparr>wo_window_handle := Some ?h\<rparr>) d1 (UpdateTheme ?h (snd (WndProc ?h (WM_NCCREATE p) made)))"
    using w with_window_ui by (simp add: UpdateTheme_def split: option.splits)
  note oc = OnCreate_effect [OF this, unfolded o1(2)]
  show thesis
  proof (rule that [OF d1_def inv1 ob1], cases "dk_os_class d1 \<and> de_create_ok (dk_env d)", goal_cases)
    case 1
    then show ?case using cr oc by auto
  next
    case 2
    then show ?case using cr w same_desk_ui by (auto split: if_splits)
  qed
qed

lemma stale_handle_inv:
  assumes inv: "desk_inv d" and ob: "dk_objects d p = Some ob0" "wo_window_handle ob0 = None"
    and w: "with_window h p ob d d2" and h: "h = dk_next_hwnd d" "wo_window_handle ob = Some h"
  shows "desk_inv (end_destroy h d2)"
proof -
  let ?d = "end_destroy h d2"
  have wf: "desk_wf d" and hk: "handles_ok d" using inv by (simp_all add: desk_inv_def desk_wf_def)
  have old: "window_owned d w" "fst w \<noteq> h" if "w \<in> set (dk_windows d)" for w
    using wf that h(1) by (auto simp: desk_wf_def window_owned_def)
  have "filter (\<lambda>w. fst w \<noteq> h) (dk_windows d) = dk_windows d" using old(2) by (simp add: filter_id_conv)
  then have f: "dk_windows ?d = dk_windows d" "dk_next_hwnd ?d = h + 1" "dk_objects ?d = (dk_objects d)(p \<mapsto> ob)" "dk_env ?d = dk_env d"
    using w by (simp_all add: with_window_def desk_simps)
  have "window_owned ?d w" if "window_owned d w" for w using that ob h(1) unfolding window_owned_def f by auto
  moreover have "handles_ok ?d" by (rule handles_new [OF hk f(3,2) h])
  ultimately have "desk_wf ?d" using wf by (simp add: desk_wf_def f)
  moreover have "dom (dk_objects ?d) = dom (dk_objects d)" "dk_objects ?d \<noteq> Map.empty" using ob by (auto simp: f)
  moreover have "class_ok ?d" using inv w f by (auto simp: desk_inv_def class_ok_def with_window_def desk_simps)
  ultimately show ?thesis using inv w by (simp add: desk_inv_def with_window_def desk_simps)
qed

lemma Create_inv:
  assumes inv: "desk_inv d" and ob: "dk_objects d p = Some ob" and c: "Create p title origin wsize d = (ok, d')"
  shows "desk_inv d'"
proof -
  obtain d1 where d1: "d1 = GetWindowClass (GetInstance (Destroy p d))" "desk_inv d1"
    "dk_objects d1 p = Some ((released ob)\<lparr>wo_window_handle := None\<rparr>)"
    "if dk_os_class d1 \<and> de_create_ok (dk_env d)
     then ok = (wo_class ob = Win32Window \<or> de_engine (dk_env d) \<and> de_view (dk_env d)) \<and>
       with_window (dk_next_hwnd d1) p (started (dk_env d) ((released ob)\<lparr>wo_window_handle := Some (dk_next_hwnd d1)\<rparr>)) d1 d'
     else \<not> ok \<and> (same_desk d1 d' \<or> (\<exists>d2. d' = end_destroy (dk_next_hwnd d1) d2 \<and>
       with_window (dk_next_hwnd d1) p ((released ob)\<lparr>wo_window_handle := Some (dk_next_hwnd d1)\<rparr>) d1 d2))"
    by (rule Create_effect [OF inv ob c])
  have wf: "desk_wf d" using inv by (simp add: desk_inv_def)
  have en: "dk_env d1 = dk_env d"
    using Destroy_effect [OF wf ob] by (simp add: d1(1) GetWindowClass_def GetInstance_def destroyed_state_def)
  show ?thesis
  proof (cases "dk_os_class d1 \<and> de_create_ok (dk_env d)")
    case True
    then have "with_window (dk_next_hwnd d1) p (started (dk_env d) ((released ob)\<lparr>wo_window_handle := Some (dk_next_hwnd d1)\<rparr>)) d1 d'"
      using d1(4) by simp
    from with_window_inv [OF d1(2,3) _ this refl] True show ?thesis by (simp add: en)
  next
    case False
    then consider "same_desk d1 d'" | d2 where "d' = end_destroy (dk_next_hwnd d1) d2"
        "with_window (dk_next_hwnd d1) p ((released ob)\<lparr>wo_window_handle := Some (dk_next_hwnd d1)\<rparr>) d1 d2"
      using d1(4) by auto
    then show ?thesis
    proof cases
      case 1
      then show ?thesis using same_desk_inv d1(2) by blast
    next
      case 2
      from stale_handle_inv [OF d1(2,3) _ 2(2) refl] 2(1) show ?thesis by simp
    qed
  qed
qed

section \<open>Runs\<close>

text \<open>
  What the program and the window manager can do, in any order: objects come and go, windows are created,
  shown and destroyed, messages are delivered to any handle, and frames are rendered.
\<close>

inductive desk_step :: "desktop \<Rightarrow> desktop \<Rightarrow> bool" where
  step_new: "dk_objects d p = None \<Longrightarrow> desk_step d (new_FlutterWindow p d)"
| step_create: "dk_objects d p = Some ob \<Longrightarrow> Create p title origin wsize d = (ok, d') \<Longrightarrow> desk_step d d'"
| step_quit_on_close: "dk_objects d p = Some ob \<Longrightarrow> desk_step d (SetQuitOnClose p q d)"
| step_show: "dk_objects d p = Some ob \<Longrightarrow> desk_step d (snd (Show p d))"
| step_frame: "dk_objects d p = Some ob \<Longrightarrow> desk_step d (frame_rendered p d)"
| step_message: "m \<noteq> WM_DESTROY \<Longrightarrow> create_params m = None \<Longrightarrow> desk_step d (snd (WndProc h m d))"
| step_destroy_object: "dk_objects d p = Some ob \<Longrightarrow> desk_step d (Destroy p d)"
| step_delete: "dk_objects d p = Some ob \<Longrightarrow> desk_step d (delete_FlutterWindow p d)"

inductive_cases desk_step_cases [elim]: "desk_step d d'"

lemma desk_step_inv: "desk_step d d' \<Longrightarrow> desk_inv d \<Longrightarrow> desk_inv d'"
  by (induction rule: desk_step.induct)
    (auto simp: Show_def intro: new_objects_inv(2) Create_inv quit_inv same_desk_inv [OF same_desk_ui] frame_inv message_inv
      Destroy_inv delete_inv(1))

definition desktop0 :: "desk_env \<Rightarrow> desktop" where
  "desktop0 e =
     \<lparr>dk_env = e, dk_objects = Map.empty, dk_windows = [], dk_next_hwnd = 1, g_active_window_count = 0, dk_registrar = False,
      dk_class_registered = False, dk_os_class = False, dk_quits = [], dk_calls = [], dk_fault = False\<rparr>"

lemma desktop0_inv: "desk_inv (desktop0 e)"
  by (simp add: desktop0_def desk_inv_def desk_wf_def handles_ok_def class_ok_def)

lemma desk_steps_inv: "desk_step\<^sup>*\<^sup>* d d' \<Longrightarrow> desk_inv d \<Longrightarrow> desk_inv d'"
  by (induction rule: rtranclp_induct) (auto intro: desk_step_inv)

text \<open>The environment never changes.\<close>

lemma desk_env_parts [simp]:
  "dk_env (ui c d) = dk_env d" "dk_env (on_this p f d) = dk_env d" "dk_env (OnDestroy p d) = dk_env d" "dk_env (drop_class d) = dk_env d"
  "dk_env (begin_destroy h d) = dk_env d" "dk_env (end_destroy h d) = dk_env d" "dk_env (set_user_data h p d) = dk_env d"
  "dk_env (EnableFullDpiSupportIfAvailable h d) = dk_env d" "dk_env (UpdateTheme h d) = dk_env d"
  "dk_env (GetWindowClass d) = dk_env d" "dk_env (GetInstance d) = dk_env d" "dk_env (UnregisterWindowClass d) = dk_env d"
  "dk_env (SetChildContent p h d) = dk_env d" "dk_env (SetQuitOnClose p q d) = dk_env d" "dk_env (frame_rendered p d) = dk_env d"
  "dk_env (snd (Show p d)) = dk_env d" "dk_env (snd (flutter_first p m d)) = dk_env d" "dk_env (snd (OnCreate p d)) = dk_env d"
  "dk_env (new_FlutterWindow p d) = dk_env d"
  by (simp_all add: desk_simps set_user_data_def EnableFullDpiSupportIfAvailable_def UpdateTheme_def GetWindowClass_def GetInstance_def
      UnregisterWindowClass_def SetChildContent_def SetQuitOnClose_def frame_rendered_def Show_def flutter_first_def OnCreate_def
      flutter_OnCreate_def win32_OnCreate_def new_FlutterWindow_def new_Win32Window_def Let_def split: option.splits win_class.splits)

lemma flutter_first_env: "flutter_first p m d = (r, d') \<Longrightarrow> dk_env d' = dk_env d"
  using desk_env_parts(17) [of p m d] by simp

lemma desk_env_procs [simp]:
  "dk_env (Destroy p d) = dk_env d" "dk_env (DestroyWindow h d) = dk_env d" "dk_env (snd (WndProc h m d)) = dk_env d"
  "dk_env (snd (MessageHandler p h m d)) = dk_env d" "dk_env (snd (win32_MessageHandler p h m d)) = dk_env d"
  "dk_env (snd (DefWindowProc w m d)) = dk_env d"
proof (induction p d and h d and h m d and p h m d and p h m d and w m d
    rule: Destroy_DestroyWindow_WndProc_MessageHandler_win32_MessageHandler_DefWindowProc.induct)
  case (1 this d)
  then show ?case by (auto simp: Destroy.simps Let_def split: option.splits)
next
  case (2 h d)
  then show ?case by (simp add: DestroyWindow.simps)
next
  case (3 window message d)
  then show ?case by (auto simp: WndProc.simps Let_def split: option.splits)
next
  case (4 this hwnd message d)
  then show ?case by (auto simp: MessageHandler.simps dest: flutter_first_env split: option.splits win_class.splits prod.splits)
next
  case (5 this hwnd message d)
  then show ?case by (auto simp: win32_MessageHandler.simps Let_def split: option.splits win_message.splits)
next
  case (6 window message d)
  then show ?case by (auto simp: DefWindowProc.simps split: option.splits)
qed

lemma desk_step_env: "desk_step d d' \<Longrightarrow> dk_env d' = dk_env d"
proof (induction rule: desk_step.induct)
  case (step_create d p ob title origin wsize ok d')
  then have "d' = snd (Create p title origin wsize d)" by simp
  then show ?case by (auto simp: Create_def CreateWindow_def Let_def split: option.splits prod.splits if_splits)
qed (simp_all add: delete_FlutterWindow_def delete_Win32Window_def Let_def)

lemma desk_steps_env: "desk_step\<^sup>*\<^sup>* d d' \<Longrightarrow> dk_env d' = dk_env d"
  by (induction rule: rtranclp_induct) (auto dest: desk_step_env)


definition demo_desk_env :: desk_env where
  "demo_desk_env =
     \<lparr>de_user32 = True, de_dpi_scaling = True, de_register_class = True, de_dpi = 144, de_create_ok = True, de_nccreate = True,
      de_client_rect = (\<lambda>_. \<lparr>rc_left = 0, rc_top = 0, rc_right = 1920, rc_bottom = 1080\<rparr>), de_light_mode = Some 0, de_show = False,
      de_engine = True, de_view = True, de_native = 77, de_top_level = (\<lambda>m. if m = WM_ACTIVATE then Some 0 else None), de_def_proc = (\<lambda>_. 0)\<rparr>"

definition demo_desktop :: desktop where
  "demo_desktop = snd (Create 1 [84] \<lparr>pt_x = 10, pt_y = 10\<rparr> \<lparr>sz_width = 1280, sz_height = 720\<rparr> (new_FlutterWindow 1 (desktop0 demo_desk_env)))"

lemma demo_desktop_eval:
  "GetThisFromHandle 1 demo_desktop = Some 1" "g_active_window_count demo_desktop = 1"
  "GetThisFromHandle 1 (snd (WndProc 1 WM_CLOSE demo_desktop)) = None"
  "dk_calls demo_desktop =
     [CreateWindowAt [84] 15 15 1920 1080, EnableNonClientDpiScaling 1, DwmSetWindowAttribute 1 True, CreateController 1920 1080,
      RegisterPlugins, SetParent 77 (Some 1), MoveWindow 77 0 0 1920 1080, SetFocus 77, ForceRedraw]"
  by code_simp+


end
