(* ===== verification/Gui_Main.thy ===== *)
theory Gui_Main
  imports Gui_Window
begin

text \<open>
  The main program of the graphical front end on Windows (\<open>gui/windows/runner/main.cpp\<close>): elevation, the Flutter window on
  the stack, the message loop and the destructors at the end. The queue of the thread is part of the environment: what
  \<open>GetMessage\<close> finds at its calls in turn.
\<close>

section \<open>main.cpp\<close>

text \<open>
  A message for a window, or the engine's next frame; nothing means that the queue is empty, and then
  \<open>GetMessage\<close> returns 0 if a quit was posted and waits otherwise.
\<close>

datatype gui_event = Deliver hwnd win_message | Frame address

fun message_loop :: "nat \<Rightarrow> nat \<Rightarrow> (nat \<Rightarrow> gui_event option) \<Rightarrow> desktop \<Rightarrow> desktop option" where
  "message_loop 0 k queue d = None"
| "message_loop (Suc fuel) k queue d =
     (case queue k of
        Some (Deliver h m) \<Rightarrow> message_loop fuel (k + 1) queue (snd (WndProc h m d))
      | Some (Frame p) \<Rightarrow> message_loop fuel (k + 1) queue (frame_rendered p d)
      | None \<Rightarrow> if dk_quits d \<noteq> [] then Some d else message_loop fuel (k + 1) queue d)"

abbreviation (input) EXIT_SUCCESS :: int where "EXIT_SUCCESS \<equiv> 0"
abbreviation (input) EXIT_FAILURE :: int where "EXIT_FAILURE \<equiv> 1"

text \<open>The address of the local variable \<open>window\<close>, and its title.\<close>

abbreviation (input) window_var :: address where "window_var \<equiv> 1"

definition window_title :: wstring where
  "window_title = map (\<lambda>b. ucast (b :: u8)) (lit ''TunD GUI'')"

text \<open>
  The part of \<open>wWinMain\<close> with the window: its scope ends with the destructor on both returns. A failed creation
  returns without \<open>CoUninitialize\<close>.
\<close>

definition run_window :: "nat \<Rightarrow> (nat \<Rightarrow> gui_event option) \<Rightarrow> gui_io \<Rightarrow> desktop \<Rightarrow> (int \<times> gui_io \<times> desktop) option" where
  "run_window fuel queue io d =
     (let d = new_FlutterWindow window_var d;
          origin = \<lparr>pt_x = 10, pt_y = 10\<rparr>;
          wsize = \<lparr>sz_width = 1280, sz_height = 720\<rparr>;
          (ok, d) = Create window_var window_title origin wsize d
      in if \<not> ok then Some (EXIT_FAILURE, io, delete_FlutterWindow window_var d)
         else
           let d = SetQuitOnClose window_var True d
           in map_option (\<lambda>d. (EXIT_SUCCESS, io\<lparr>gi_com := gi_com io - 1\<rparr>, delete_FlutterWindow window_var d))
                (message_loop fuel 0 queue d))"

definition wWinMain ::
    "nat \<Rightarrow> gui_env \<Rightarrow> (nat \<Rightarrow> gui_event option) \<Rightarrow> gui_io \<Rightarrow> desktop \<Rightarrow> (int \<times> gui_io \<times> desktop) option" where
  "wWinMain fuel e queue io d =
     (if \<not> IsRunningAsAdministrator e
      then case RelaunchAsAdministrator e io of
             (True, io) \<Rightarrow> Some (EXIT_SUCCESS, io, d)
           | (False, io) \<Rightarrow>
               Some (EXIT_FAILURE,
                     io\<lparr>gi_dialogs := gi_dialogs io @ [(lit ''TunD'', lit ''TunD GUI requires Administrator privileges.'')]\<rparr>, d)
      else
        let io = (if \<not> ge_attach_console e \<and> ge_debugger e then CreateAndAttachConsole e io else io);
            io = io\<lparr>gi_com := gi_com io + 1\<rparr>;
            (command_line_arguments, io) = GetCommandLineArguments e io;
            io = io\<lparr>gi_entry_args := Some command_line_arguments\<rparr>
        in run_window fuel queue io d)"

section \<open>The loop\<close>

text \<open>
  The states of the loop: one object, the Flutter window that quits on close, whose window is open and no quit
  was posted, or closed and exactly one was.
\<close>

definition loop_open :: "desktop \<Rightarrow> bool" where
  "loop_open d \<longleftrightarrow> dk_quits d = [] \<and> (\<exists>ob x. dk_objects d = [window_var \<mapsto> ob] \<and> wo_quit_on_close ob \<and> wo_window_handle ob = Some 1 \<and>
     dk_windows d = [(1, x)])"

definition loop_closed :: "desktop \<Rightarrow> bool" where
  "loop_closed d \<longleftrightarrow> dk_quits d = [0] \<and> (\<exists>ob. dk_objects d = [window_var \<mapsto> ob] \<and> wo_window_handle ob = None) \<and> dk_windows d = []"

definition passes_destroy :: "desk_env \<Rightarrow> bool" where
  "passes_destroy e \<longleftrightarrow> de_top_level e WM_DESTROY = None \<and> de_top_level e WM_CLOSE = None"

definition loop_inv :: "desk_env \<Rightarrow> desktop \<Rightarrow> bool" where
  "loop_inv e d \<longleftrightarrow> desk_inv d \<and> dk_env d = e \<and> (loop_open d \<or> loop_closed d)"

lemma single_object [simp]: "[k \<mapsto> a] = [k \<mapsto> b] \<longleftrightarrow> a = b"
  by (metis fun_upd_same option.inject)

lemma loop_same: "same_desk d d' \<Longrightarrow> loop_inv e d \<Longrightarrow> loop_inv e d' \<and> (loop_closed d \<longrightarrow> loop_closed d')"
  using same_desk_inv [of d d'] by (auto simp: loop_inv_def loop_open_def loop_closed_def same_desk_def)

lemma loop_close:
  assumes l: "loop_inv e d" and o: "loop_open d" and e: "passes_destroy e"
  shows "loop_inv e (DestroyWindow 1 d) \<and> loop_closed (DestroyWindow 1 d)"
proof -
  have inv: "desk_inv d" and wf: "desk_wf d" and en: "dk_env d = e" using l by (simp_all add: loop_inv_def desk_inv_def)
  obtain ob x where ob: "dk_quits d = []" "dk_objects d = [window_var \<mapsto> ob]" "wo_quit_on_close ob" "wo_window_handle ob = Some 1"
      "dk_windows d = [(1, x)]"
    using o by (auto simp: loop_open_def)
  have w: "(1, x) \<in> set (dk_windows d)" using ob by simp
  obtain q ob' where q: "GetThisFromHandle 1 d = Some q" "dk_objects d q = Some ob'" by (rule desk_wf_owner [OF wf w])
  have q1: "q = window_var" using q(2) ob(2) by (simp split: if_splits)
  have "\<not> flutter_claims q WM_DESTROY d" using e en by (simp add: flutter_claims_def passes_destroy_def)
  from DestroyWindow_effect [OF inv w q(1) this] have e: "destroyed_state window_var ob d (DestroyWindow 1 d)"
    using ob(2) q1 by simp
  have "desk_inv (DestroyWindow 1 d)" by (rule DestroyWindow_inv [OF inv])
  moreover have "loop_closed (DestroyWindow 1 d)"
    unfolding loop_closed_def using e ob
    by (intro conjI exI [of _ "(released ob)\<lparr>wo_window_handle := None\<rparr>"]) (simp_all add: destroyed_state_def)
  ultimately show ?thesis using e en by (simp add: loop_inv_def destroyed_state_def)
qed

text \<open>A message in the queue: never \<open>WM_NCCREATE\<close> nor \<open>WM_DESTROY\<close>, which the window manager sends itself.\<close>

definition queued_ok :: "gui_event option \<Rightarrow> bool" where
  "queued_ok ev \<longleftrightarrow> (case ev of Some (Deliver h m) \<Rightarrow> m \<noteq> WM_DESTROY \<and> create_params m = None | Some (Frame p) \<Rightarrow> p = window_var | None \<Rightarrow> True)"

lemma loop_message:
  assumes l: "loop_inv e d" and e: "passes_destroy e" and m: "m \<noteq> WM_DESTROY" "create_params m = None" and en: "de_engine e"
  shows "loop_inv e (snd (WndProc h m d)) \<and> (loop_closed d \<or> (h = 1 \<and> m = WM_CLOSE) \<longrightarrow> loop_closed (snd (WndProc h m d)))"
proof (cases "loop_open d \<and> h = 1")
  case False
  then have "GetThisFromHandle h d = None" "\<not> window_lives h d"
    using l by (auto simp: loop_inv_def loop_open_def loop_closed_def GetThisFromHandle_def window_lives_def)
  then have "snd (WndProc h m d) = d" using m by (simp add: WndProc.simps DefWindowProc.simps DestroyWindow.simps)
  then show ?thesis using l False by (auto simp: loop_inv_def)
next
  case True
  then have o: "loop_open d" and h: "h = 1" by simp_all
  have wf: "desk_wf d" using l by (simp add: loop_inv_def desk_inv_def)
  obtain ob x where ob: "dk_quits d = []" "dk_objects d = [window_var \<mapsto> ob]" "wo_window_handle ob = Some 1" "dk_windows d = [(1, x)]"
    using o by (auto simp: loop_open_def)
  have w: "(1, x) \<in> set (dk_windows d)" using ob by simp
  obtain q ob' where q: "GetThisFromHandle 1 d = Some q" "dk_objects d q = Some ob'" "good_controller (dk_env d) ob'"
    by (rule desk_wf_owner [OF wf w])
  have t: "q = window_var" "ob' = ob" using q(2) ob(2) by (simp_all split: if_splits)
  have env: "dk_env d = e" using l by (simp add: loop_inv_def)
  have base: "same_desk d1 (snd (win32_MessageHandler window_var 1 m d1)) \<or> m = WM_CLOSE \<and> snd (win32_MessageHandler window_var 1 m d1) = DestroyWindow 1 d1"
    if "this_of window_var d1 = ob" for d1
    using m that ob(3) same_desk_refl same_desk_ui same_desk_theme
    by (cases m) (auto simp: win32_MessageHandler.simps DefWindowProc.simps create_params_def Let_def split: option.splits)
  have wp: "snd (WndProc h m d) = snd (MessageHandler window_var 1 m d)" using m q(1) t h by (simp add: WndProc.simps)
  obtain r d1 where f: "flutter_first window_var m d = (r, d1)" by fastforce
  have s1: "same_desk d d1" "m = WM_CLOSE \<Longrightarrow> r = None \<and> d1 = d" if "wo_class ob = FlutterWindow"
    using f q(3) t env en that ob(2) e same_desk_refl same_desk_ui
    by (auto simp: flutter_first_def good_controller_def this_of_def passes_destroy_def Let_def split: option.splits if_splits)
  have step: "loop_inv e (snd (win32_MessageHandler window_var 1 m d1)) \<and> (m = WM_CLOSE \<longrightarrow> loop_closed (snd (win32_MessageHandler window_var 1 m d1)))"
    if s: "same_desk d d1" for d1
  proof -
    have l1: "loop_inv e d1" using loop_same [OF s l] by simp
    have o1: "loop_open d1" using o s by (auto simp: same_desk_def loop_open_def)
    have t1: "this_of window_var d1 = ob" using s ob(2) by (auto simp: same_desk_def this_of_def)
    have close: "m = WM_CLOSE \<Longrightarrow> snd (win32_MessageHandler window_var 1 m d1) = DestroyWindow 1 d1"
      using t1 ob(3) by (simp add: win32_MessageHandler.simps DefWindowProc.simps)
    show ?thesis using base [OF t1] loop_same [OF _ l1] loop_close [OF l1 o1 e] close by metis
  qed
  have nc: "\<not> loop_closed d" using o by (auto simp: loop_open_def loop_closed_def)
  show ?thesis
  proof (cases "wo_class ob")
    case Win32Window
    then have "snd (WndProc h m d) = snd (win32_MessageHandler window_var 1 m d)"
      using wp ob(2) by (simp add: MessageHandler.simps this_of_def)
    then show ?thesis using step [OF same_desk_refl] nc by auto
  next
    case FlutterWindow
    then have mh: "snd (WndProc h m d) = (case r of Some _ \<Rightarrow> d1 | None \<Rightarrow> snd (win32_MessageHandler window_var 1 m d1))"
      using wp f ob(2) by (simp add: MessageHandler.simps this_of_def split: option.splits)
    show ?thesis
    proof (cases r)
      case None
      then show ?thesis using mh step [OF s1(1) [OF FlutterWindow]] nc by auto
    next
      case (Some v)
      then show ?thesis using mh loop_same [OF s1(1) [OF FlutterWindow] l] s1(2) [OF FlutterWindow] nc by auto
    qed
  qed
qed

lemma loop_frame:
  assumes l: "loop_inv e d"
  shows "loop_inv e (frame_rendered window_var d) \<and> (loop_closed d \<longrightarrow> loop_closed (frame_rendered window_var d))"
proof -
  obtain ob where ob: "dk_objects d = [window_var \<mapsto> ob]" using l by (auto simp: loop_inv_def loop_open_def loop_closed_def)
  have inv: "desk_inv d" using l by (simp add: loop_inv_def)
  have i: "desk_inv (frame_rendered window_var d)" by (rule frame_inv [OF inv, of _ ob]) (simp add: ob)
  show ?thesis
  proof (cases "\<exists>c. wo_flutter_controller ob = Some c \<and> fc_next_frame c")
    case True
    then obtain c where c: "wo_flutter_controller ob = Some c" "fc_next_frame c" by blast
    let ?ob = "ob\<lparr>wo_flutter_controller := Some (c\<lparr>fc_next_frame := False\<rparr>)\<rparr>" and ?d = "frame_rendered window_var d"
    have f: "dk_objects ?d = [window_var \<mapsto> ?ob]" "dk_windows ?d = dk_windows d" "dk_quits ?d = dk_quits d" "dk_env ?d = dk_env d"
      using c ob by (simp_all add: frame_rendered_def this_of_def Show_def desk_ui on_this_def)
    have "loop_open d \<Longrightarrow> loop_open ?d"
      unfolding loop_open_def f ob by (elim conjE exE, intro conjI exI [of _ ?ob]) auto
    moreover have "loop_closed d \<Longrightarrow> loop_closed ?d"
      unfolding loop_closed_def f ob by (elim conjE exE, intro conjI exI [of _ ?ob]) auto
    ultimately show ?thesis using l i f(4) by (auto simp: loop_inv_def)
  next
    case False
    then have "frame_rendered window_var d = d" using ob by (auto simp: frame_rendered_def this_of_def split: option.splits)
    then show ?thesis using l by simp
  qed
qed

lemma message_loop_ends:
  assumes "loop_inv e d" "passes_destroy e" "de_engine e" "\<And>k. queued_ok (queue k)" "queue n = None" "k \<le> n" "n - k < fuel"
    and "loop_closed d \<or> (\<exists>c. k \<le> c \<and> c < n \<and> queue c = Some (Deliver 1 WM_CLOSE))"
  shows "\<exists>d'. message_loop fuel k queue d = Some d' \<and> loop_inv e d' \<and> loop_closed d'"
  using assms(1,6,7,8)
proof (induction fuel arbitrary: k d)
  case (Suc fuel)
  note IH = Suc.IH [of _ "k + 1"]
  have closed_quits: "loop_closed d \<longleftrightarrow> dk_quits d \<noteq> []"
    using Suc.prems(1) by (auto simp: loop_inv_def loop_open_def loop_closed_def)
  have later: "(\<exists>c. k + 1 \<le> c \<and> c < n \<and> queue c = Some (Deliver 1 WM_CLOSE)) \<or> queue k = Some (Deliver 1 WM_CLOSE) \<or> loop_closed d"
    using Suc.prems(4) by (metis Suc_eq_plus1 Suc_leI le_neq_implies_less)
  show ?case
  proof (cases "queue k")
    case None
    show ?thesis
    proof (cases "loop_closed d")
      case True
      then show ?thesis using None closed_quits Suc.prems(1) by simp
    next
      case False
      moreover from this None have "k \<noteq> n" using Suc.prems(4) by auto
      ultimately show ?thesis using None closed_quits IH [OF Suc.prems(1)] Suc.prems later by simp
    qed
  next
    case (Some ev)
    then have kn: "k \<noteq> n" using assms(5) by auto
    show ?thesis
    proof (cases ev)
      case (Deliver h m)
      have m: "m \<noteq> WM_DESTROY" "create_params m = None" using assms(4) [of k] Some Deliver by (simp_all add: queued_ok_def)
      note s = loop_message [OF Suc.prems(1) assms(2) m assms(3), of h]
      have "loop_closed (snd (WndProc h m d)) \<or> (\<exists>c. k + 1 \<le> c \<and> c < n \<and> queue c = Some (Deliver 1 WM_CLOSE))"
        using s later Some Deliver by auto
      then show ?thesis using IH [of "snd (WndProc h m d)"] s Some Deliver kn Suc.prems(2,3) by simp
    next
      case (Frame p)
      have p: "p = window_var" using assms(4) [of k] Some Frame by (simp add: queued_ok_def)
      note s = loop_frame [OF Suc.prems(1)]
      have "loop_closed (frame_rendered p d) \<or> (\<exists>c. k + 1 \<le> c \<and> c < n \<and> queue c = Some (Deliver 1 WM_CLOSE))"
        using s later Some Frame p by auto
      then show ?thesis using IH [of "frame_rendered p d"] s Some Frame p kn Suc.prems(2,3) by simp
    qed
  qed
qed simp

section \<open>The life of the process\<close>

text \<open>What the creation of the window in \<open>wWinMain\<close> needs of the system.\<close>

definition can_create :: "desk_env \<Rightarrow> bool" where
  "can_create e \<longleftrightarrow> de_register_class e \<and> de_create_ok e \<and> de_engine e \<and> de_view e"

lemma main_created:
  assumes c: "Create window_var title origin wsize (new_FlutterWindow window_var (desktop0 e)) = (ok, d)"
  shows "ok \<longleftrightarrow> can_create e" "desk_inv d" "dk_env d = e" "\<exists>ob. dk_objects d = [window_var \<mapsto> ob]"
    "ok \<Longrightarrow> loop_inv e (SetQuitOnClose window_var True d) \<and> loop_open (SetQuitOnClose window_var True d)"
proof -
  define ob where "ob = \<lparr>wo_class = FlutterWindow, wo_quit_on_close = False, wo_window_handle = None, wo_child_content = None,
      wo_flutter_controller = None\<rparr>"
  define d0 where "d0 = new_FlutterWindow window_var (desktop0 e)"
  have d0: "dk_objects d0 = [window_var \<mapsto> ob]" "dk_windows d0 = []" "dk_quits d0 = []" "dk_next_hwnd d0 = 1" "dk_env d0 = e"
      "g_active_window_count d0 = 1" "\<not> dk_class_registered d0" "\<not> dk_os_class d0"
    by (simp_all add: d0_def ob_def new_FlutterWindow_def new_Win32Window_def on_this_def desktop0_def)
  have inv0: "desk_inv d0" unfolding d0_def by (rule new_objects_inv(2) [OF desktop0_inv]) (simp add: desktop0_def)
  have ob0: "dk_objects d0 window_var = Some ob" using d0(1) by simp
  have rel: "released ob = ob" "(released ob)\<lparr>wo_window_handle := None\<rparr> = ob" by (simp_all add: released_def ob_def)
  have wf0: "desk_wf d0" using inv0 by (simp add: desk_inv_def)
  obtain d1 where d1: "d1 = GetWindowClass (GetInstance (Destroy window_var d0))" "desk_inv d1"
    "if dk_os_class d1 \<and> de_create_ok (dk_env d0)
     then ok = (wo_class ob = Win32Window \<or> de_engine (dk_env d0) \<and> de_view (dk_env d0)) \<and>
       with_window (dk_next_hwnd d1) window_var (started (dk_env d0) ((released ob)\<lparr>wo_window_handle := Some (dk_next_hwnd d1)\<rparr>)) d1 d
     else \<not> ok \<and> (same_desk d1 d \<or> (\<exists>d2. d = end_destroy (dk_next_hwnd d1) d2 \<and>
       with_window (dk_next_hwnd d1) window_var ((released ob)\<lparr>wo_window_handle := Some (dk_next_hwnd d1)\<rparr>) d1 d2))"
    by (rule Create_effect [OF inv0 ob0 c [folded d0_def]])
  have e1: "dk_objects d1 = [window_var \<mapsto> ob]" "dk_windows d1 = []" "dk_quits d1 = []" "dk_next_hwnd d1 = 1"
      "dk_os_class d1 = de_register_class e" "dk_env d1 = e"
    using Destroy_effect [OF wf0 ob0] d0 rel unfolding d1(1) destroyed_state_def
    by (simp_all add: GetWindowClass_def GetInstance_def)
  show ok: "ok \<longleftrightarrow> can_create e" using d1(3) e1(5) d0(5) by (auto simp: can_create_def ob_def split: if_splits)
  show inv: "desk_inv d" by (rule Create_inv [OF inv0 ob0 c [folded d0_def]])
  show "dk_env d = e" using d1(3) e1(6) by (auto simp: with_window_def same_desk_def split: if_splits)
  show "\<exists>ob. dk_objects d = [window_var \<mapsto> ob]"
    using d1(3) e1(1) by (auto simp: with_window_def same_desk_def desk_marks split: if_splits)
  assume ok
  let ?ob = "started e (ob\<lparr>wo_window_handle := Some 1\<rparr>)"
  have w: "with_window 1 window_var ?ob d1 d" using d1(3) \<open>ok\<close> e1(4) d0(5) rel(1) by (auto split: if_splits)
  then have o: "dk_objects d = [window_var \<mapsto> ?ob]" "dk_windows d = [(1, \<lparr>ow_user_data = Some window_var, ow_dying = False\<rparr>)]"
      "dk_quits d = []" "dk_env d = e"
    using e1 by (simp_all add: with_window_def)
  then have "dk_objects d window_var = Some ?ob" by simp
  note q = on_this_exists(2) [OF this, of "\<lambda>ob. ob\<lparr>wo_quit_on_close := True\<rparr>", folded SetQuitOnClose_def]
  have "loop_open (SetQuitOnClose window_var True d)"
    unfolding loop_open_def using q o by (auto simp: SetQuitOnClose_def desk_on_this)
  moreover have "desk_inv (SetQuitOnClose window_var True d)" by (rule quit_inv [OF inv]) (simp add: o)
  ultimately show "loop_inv e (SetQuitOnClose window_var True d) \<and> loop_open (SetQuitOnClose window_var True d)"
    using o(4) by (simp add: loop_inv_def)
qed

text \<open>Nothing of the window is left.\<close>

definition desk_clean :: "desktop \<Rightarrow> bool" where
  "desk_clean d \<longleftrightarrow> dk_objects d = Map.empty \<and> dk_windows d = [] \<and> \<not> dk_os_class d \<and> \<not> dk_class_registered d \<and> g_active_window_count d = 0"

lemma delete_clean:
  assumes inv: "desk_inv d" and ob: "dk_objects d = [window_var \<mapsto> ob]"
  shows "desk_clean (delete_FlutterWindow window_var d)"
proof -
  have o: "dk_objects d window_var = Some ob" using ob by simp
  note del = delete_inv(1,2) [OF inv o]
  have "desk_wf (delete_FlutterWindow window_var d)" using del(1) by (simp add: desk_inv_def)
  then show ?thesis using del ob wf_no_objects by (auto simp: desk_clean_def desk_inv_def class_ok_def)
qed

lemma run_window_ends:
  assumes q: "\<And>k. queued_ok (queue k)" "queue c = Some (Deliver 1 WM_CLOSE)" "c < n" "queue n = None" "n < fuel" and e: "passes_destroy e"
  shows "\<exists>r io' d'. run_window fuel queue io (desktop0 e) = Some (r, io', d') \<and> desk_clean d' \<and> (r = 0 \<longleftrightarrow> can_create e) \<and>
    (if r = 0 then dk_quits d' = [0] \<and> \<not> dk_fault d' \<and> io' = io\<lparr>gi_com := gi_com io - 1\<rparr> else r = 1 \<and> io' = io)"
proof -
  obtain ok d where c: "Create window_var window_title \<lparr>pt_x = 10, pt_y = 10\<rparr> \<lparr>sz_width = 1280, sz_height = 720\<rparr>
      (new_FlutterWindow window_var (desktop0 e)) = (ok, d)" by fastforce
  note m = main_created [OF c]
  show ?thesis
  proof (cases ok)
    case False
    then show ?thesis using c m(1) m(4) delete_clean [OF m(2)] by (auto simp: run_window_def Let_def)
  next
    case True
    let ?d = "SetQuitOnClose window_var True d"
    have en: "de_engine e" using True m(1) by (simp add: can_create_def)
    have "loop_inv e ?d" using m(5) True by simp
    then obtain d1 where l: "message_loop fuel 0 queue ?d = Some d1" "loop_inv e d1" "loop_closed d1"
      using message_loop_ends [of e ?d queue n 0 fuel] e en q by auto
    obtain ob where ob: "dk_objects d1 = [window_var \<mapsto> ob]" "dk_windows d1 = []" "dk_quits d1 = [0]"
      using l(3) by (auto simp: loop_closed_def)
    have inv1: "desk_inv d1" "dk_env d1 = e" using l(2) by (simp_all add: loop_inv_def)
    have o1: "dk_objects d1 window_var = Some ob" using ob by simp
    note del = delete_inv [OF inv1(1) o1]
    have "dk_env (delete_FlutterWindow window_var d1) = e" using desk_step_env [OF step_delete [OF o1]] inv1(2) by simp
    then have "\<not> dk_fault (delete_FlutterWindow window_var d1)" using del(1) en by (simp add: desk_inv_def)
    then show ?thesis
      using c True l(1) m(1) delete_clean [OF inv1(1) ob(1)] del(3) [OF ob(2)] ob(3) by (simp add: run_window_def Let_def)
  qed
qed


definition demo_gui_env :: gui_env where
  "demo_gui_env =
     \<lparr>ge_alloc_sid = True, ge_token_member = True, ge_module_file_name = (\<lambda>_. (1, [65])), ge_argv = Some [[65], [66]],
      ge_shell_execute = (\<lambda>_ _. 42), ge_utf8 = map ucast, ge_attach_console = True, ge_debugger = False, ge_alloc_console = False, ge_freopen = (\<lambda>_. 0)\<rparr>"

definition demo_gui_io :: gui_io where
  "demo_gui_io =
     \<lparr>gi_launched = [], gi_dialogs = [], gi_argv_blocks = 0, gi_console = False, gi_redirected = [], gi_dups = [], gi_resynced = False, gi_com = 0, gi_entry_args = None\<rparr>"

definition demo_queue :: "nat \<Rightarrow> gui_event option" where
  "demo_queue k = (if k = 0 then Some (Frame window_var) else if k = 1 then Some (Deliver 1 WM_CLOSE) else None)"


end
