(* ===== verification/Gui_Linux.thy ===== *)
theory Gui_Linux
  imports C_Lib
begin

text \<open>
  The runner of the graphical front end on Linux (\<open>gui/linux/runner/main.cc\<close>, \<open>my_application.cc\<close>): a \<open>GtkApplication\<close> that
  registers, opens one window with a Flutter view and hands the command line to the Dart program. GTK, the desktop and
  Flutter are the record \<open>gtk_env\<close> and the documented order in which GLib calls the virtual functions of the
  class.
\<close>

section \<open>Environment and state\<close>

text \<open>
  \<open>ke_x11\<close> is \<open>GDK_IS_X11_SCREEN\<close>, \<open>ke_wm_name\<close> the name of the window manager, which may be null, \<open>ke_register\<close> the result of
  \<open>g_application_register\<close>, with the message of the error.
\<close>

record gtk_env =
  ke_x11 :: bool
  ke_wm_name :: "bytes option"
  ke_register :: "unit + bytes"

record fl_view =
  fv_arguments :: "bytes list option"
  fv_background :: bytes
  fv_visible :: bool
  fv_first_frame :: bool
  fv_realized :: bool
  fv_plugins :: bool
  fv_focus :: bool

text \<open>A window: the title of its header bar, if it has one, or its own; and the view in it.\<close>

record gtk_window =
  gw_header_bar :: "(bytes \<times> bool) option"
  gw_title :: "bytes option"
  gw_default_size :: "int \<times> int"
  gw_view :: "fl_view option"
  gw_visible :: bool

text \<open>
  \<open>struct _MyApplication\<close> and what GLib keeps of it: \<open>ga_vectors\<close> counts the string vectors that are allocated,
  \<open>ga_closed\<close> keeps the windows that were closed.
\<close>

record my_application =
  ga_application_id :: bytes
  ga_prgname :: bytes
  ga_arguments :: "bytes list option"
  ga_vectors :: nat
  ga_registered :: bool
  ga_started :: bool
  ga_shut_down :: bool
  ga_windows :: "gtk_window list"
  ga_closed :: "gtk_window list"
  ga_warnings :: "bytes list"
  ga_disposed :: bool
  ga_fault :: bool

abbreviation (input) APPLICATION_ID :: bytes where "APPLICATION_ID \<equiv> lit ''io.github.danterolle.tund.gui''"

section \<open>my_application.cc\<close>

text \<open>Shows the toplevel window of the view.\<close>

definition first_frame_cb :: "nat \<Rightarrow> my_application \<Rightarrow> my_application" where
  "first_frame_cb i app = app\<lparr>ga_windows := (ga_windows app)[i := (ga_windows app ! i)\<lparr>gw_visible := True\<rparr>]\<rparr>"

definition use_header_bar :: "gtk_env \<Rightarrow> bool" where
  "use_header_bar e =
     (let use_header_bar = True
      in if ke_x11 e
         then (if ke_wm_name e \<noteq> Some (lit ''GNOME Shell'') then False else use_header_bar)
         else use_header_bar)"

definition my_application_activate :: "gtk_env \<Rightarrow> my_application \<Rightarrow> my_application" where
  "my_application_activate e app =
     (let window = \<lparr>gw_header_bar = None, gw_title = None, gw_default_size = (-1, -1), gw_view = None, gw_visible = False\<rparr>;
          window = (if use_header_bar e then window\<lparr>gw_header_bar := Some (lit ''Tund GUI'', True)\<rparr>
                    else window\<lparr>gw_title := Some (lit ''Tund GUI'')\<rparr>);
          window = window\<lparr>gw_default_size := (1280, 720)\<rparr>;
          view = \<lparr>fv_arguments = ga_arguments app, fv_background = [], fv_visible = False, fv_first_frame = False, fv_realized = False,
                   fv_plugins = False, fv_focus = False\<rparr>;
          view = view\<lparr>fv_background := lit ''#000000''\<rparr>;
          view = view\<lparr>fv_visible := True\<rparr>;
          view = view\<lparr>fv_first_frame := True\<rparr>;
          view = view\<lparr>fv_realized := True\<rparr>;
          view = view\<lparr>fv_plugins := True\<rparr>;
          view = view\<lparr>fv_focus := True\<rparr>;
          window = window\<lparr>gw_view := Some view\<rparr>
      in app\<lparr>ga_windows := ga_windows app @ [window]\<rparr>)"

definition my_application_startup :: "my_application \<Rightarrow> my_application" where
  "my_application_startup app = app\<lparr>ga_started := True\<rparr>"

definition my_application_shutdown :: "my_application \<Rightarrow> my_application" where
  "my_application_shutdown app = app\<lparr>ga_shut_down := True\<rparr>"

text \<open>Registration of a non-unique application starts it; a failure leaves it as it is.\<close>

definition g_application_register :: "gtk_env \<Rightarrow> my_application \<Rightarrow> bytes option \<times> my_application" where
  "g_application_register e app =
     (case ke_register e of
        Inl _ \<Rightarrow> (None, my_application_startup (app\<lparr>ga_registered := True\<rparr>))
      | Inr message \<Rightarrow> (Some message, app))"

text \<open>\<open>*arguments + 1\<close> is past the end of an empty vector.\<close>

definition my_application_local_command_line :: "gtk_env \<Rightarrow> bytes list \<Rightarrow> my_application \<Rightarrow> int \<times> my_application" where
  "my_application_local_command_line e arguments app =
     (let app = (if arguments = [] then app\<lparr>ga_fault := True\<rparr>
                 else app\<lparr>ga_arguments := Some (drop 1 arguments), ga_vectors := ga_vectors app + 1\<rparr>)
      in case g_application_register e app of
           (Some message, app) \<Rightarrow> (1, app\<lparr>ga_warnings := ga_warnings app @ [lit ''Failed to register: '' @ message]\<rparr>)
         | (None, app) \<Rightarrow> (0, my_application_activate e app))"

definition my_application_dispose :: "my_application \<Rightarrow> my_application" where
  "my_application_dispose app =
     (let app = (if ga_arguments app \<noteq> None then app\<lparr>ga_arguments := None, ga_vectors := ga_vectors app - 1\<rparr> else app)
      in app\<lparr>ga_disposed := True\<rparr>)"

definition my_application_new :: "my_application" where
  "my_application_new =
     \<lparr>ga_application_id = APPLICATION_ID, ga_prgname = APPLICATION_ID, ga_arguments = None, ga_vectors = 0, ga_registered = False,
      ga_started = False, ga_shut_down = False, ga_windows = [], ga_closed = [], ga_warnings = [], ga_disposed = False, ga_fault = False\<rparr>"

section \<open>main.cc\<close>

text \<open>What happens to the windows while the main loop runs.\<close>

datatype gtk_event = FirstFrame nat | CloseWindow nat

definition gtk_handle :: "gtk_event \<Rightarrow> my_application \<Rightarrow> my_application" where
  "gtk_handle ev app =
     (case ev of
        FirstFrame i \<Rightarrow>
          (if i < length (ga_windows app) \<and> (case gw_view (ga_windows app ! i) of Some v \<Rightarrow> fv_first_frame v | None \<Rightarrow> False)
           then first_frame_cb i app else app)
      | CloseWindow i \<Rightarrow>
          (if i < length (ga_windows app)
           then app\<lparr>ga_windows := take i (ga_windows app) @ drop (Suc i) (ga_windows app), ga_closed := ga_closed app @ [ga_windows app ! i]\<rparr>
           else app))"

text \<open>The loop runs as long as the application has a window; \<open>None\<close> means that it still runs after the events.\<close>

fun gtk_main_loop :: "gtk_event list \<Rightarrow> my_application \<Rightarrow> my_application option" where
  "gtk_main_loop [] app = (if ga_windows app = [] then Some app else None)"
| "gtk_main_loop (ev # evs) app = (if ga_windows app = [] then Some app else gtk_main_loop evs (gtk_handle ev app))"

definition g_application_run :: "gtk_env \<Rightarrow> bytes list \<Rightarrow> gtk_event list \<Rightarrow> my_application \<Rightarrow> (int \<times> my_application) option" where
  "g_application_run e argv evs app =
     (let (status, app) = my_application_local_command_line e argv app
      in map_option (\<lambda>app. (status, if ga_registered app then my_application_shutdown app else app)) (gtk_main_loop evs app))"

definition gtk_main :: "gtk_env \<Rightarrow> bytes list \<Rightarrow> gtk_event list \<Rightarrow> (int \<times> my_application) option" where
  "gtk_main e argv evs =
     (let app = my_application_new
      in map_option (\<lambda>(status, app). (status, my_application_dispose app)) (g_application_run e argv evs app))"

section \<open>Lemmas\<close>

lemma gtk_loop_empty: "ga_windows app = [] \<Longrightarrow> gtk_main_loop evs app = Some app"
  by (cases evs) simp_all

lemma gtk_loop_window:
  assumes "ga_windows app = [w]" "gw_view w = Some v" "fv_first_frame v"
  shows "gtk_main_loop evs app =
    (if CloseWindow 0 \<in> set evs
     then Some (app\<lparr>ga_windows := [], ga_closed := ga_closed app @
       [w\<lparr>gw_visible := (gw_visible w \<or> FirstFrame 0 \<in> set (takeWhile (\<lambda>ev. ev \<noteq> CloseWindow 0) evs))\<rparr>]\<rparr>)
     else None)"
  using assms(1,2)
proof (induction evs arbitrary: app w)
  case (Cons ev evs)
  show ?case
  proof (cases ev)
    case (FirstFrame i)
    show ?thesis
    proof (cases "i = 0")
      case True
      let ?app = "app\<lparr>ga_windows := [w\<lparr>gw_visible := True\<rparr>]\<rparr>"
      have h: "gtk_handle ev app = ?app" using True FirstFrame Cons.prems assms(3) by (simp add: gtk_handle_def first_frame_cb_def)
      have "gtk_main_loop evs ?app = (if CloseWindow 0 \<in> set evs
          then Some (?app\<lparr>ga_windows := [], ga_closed := ga_closed ?app @ [w\<lparr>gw_visible := True\<rparr>]\<rparr>) else None)"
        using Cons.IH [of ?app "w\<lparr>gw_visible := True\<rparr>"] Cons.prems by simp
      then show ?thesis using h True FirstFrame Cons.prems by simp
    next
      case False
      then have "gtk_handle ev app = app" using FirstFrame Cons.prems by (simp add: gtk_handle_def)
      then show ?thesis using Cons.IH [OF Cons.prems] FirstFrame False Cons.prems by simp
    qed
  next
    case (CloseWindow i)
    show ?thesis
    proof (cases "i = 0")
      case True
      have "gw_visible w = gw_visible w \<Longrightarrow> w\<lparr>gw_visible := gw_visible w\<rparr> = w" by simp
      then have "gtk_handle ev app = app\<lparr>ga_windows := [], ga_closed := ga_closed app @ [w]\<rparr>"
        using True CloseWindow Cons.prems by (simp add: gtk_handle_def)
      then show ?thesis using True CloseWindow Cons.prems by (simp add: gtk_loop_empty)
    next
      case False
      then have "gtk_handle ev app = app" using CloseWindow Cons.prems by (simp add: gtk_handle_def)
      then show ?thesis using Cons.IH [OF Cons.prems] CloseWindow False Cons.prems by simp
    qed
  qed
qed simp



end
