(* ===== verification/Tun_Darwin.thy ===== *)
theory Tun_Darwin
  imports Tun_Linux
begin

text \<open>
  The TUN device on macOS (\<open>src/tun/darwin/tun.c\<close>, \<open>src/tun/darwin/config.c\<close>): a utun control socket whose
  frames carry the address family in front of the packet. The calls the Linux variant makes too are
  those of the world; \<open>connect\<close>, \<open>getsockopt\<close> and \<open>fork\<close> are the record \<open>darwin_env\<close>. The addresses handed to
  the kernel and the commands run in a child are recorded in \<open>darwin_io\<close>.
\<close>

section \<open>Environment and state\<close>

text \<open>\<open>de_ifname\<close>: the result of \<open>getsockopt(UTUN_OPT_IFNAME)\<close> and the bytes it stores.\<close>

record darwin_env =
  de_connect :: "nat \<Rightarrow> int"
  de_ifname :: "nat \<Rightarrow> int \<times> bytes"
  de_fork :: "nat \<Rightarrow> bool"

text \<open>An accepted \<open>SIOCAIFADDR\<close> request: interface, address, peer address and mask.\<close>

record alias_req =
  ifra_name :: bytes
  ifra_addr :: u32
  ifra_broadaddr :: u32
  ifra_mask :: u32

record darwin_state =
  da_w :: world
  da_env :: darwin_env
  da_aliases :: "alias_req list"
  da_commands :: "bytes list list"

definition da_call :: "(darwin_env \<Rightarrow> nat \<Rightarrow> 'a) \<Rightarrow> darwin_state \<Rightarrow> 'a \<times> darwin_state" where
  "da_call f s = (let (v, w) = syscall (\<lambda>_ t. f (da_env s) t) (da_w s) in (v, s\<lparr>da_w := w\<rparr>))"

definition da_syscall :: "(sysenv \<Rightarrow> nat \<Rightarrow> 'a) \<Rightarrow> darwin_state \<Rightarrow> 'a \<times> darwin_state" where
  "da_syscall f s = (let (v, w) = syscall f (da_w s) in (v, s\<lparr>da_w := w\<rparr>))"

definition da_do :: "(world \<Rightarrow> world) \<Rightarrow> darwin_state \<Rightarrow> darwin_state" where
  "da_do f s = s\<lparr>da_w := f (da_w s)\<rparr>"

abbreviation (input) IFNAMSIZ :: nat where "IFNAMSIZ \<equiv> 16"

section \<open>tun.c\<close>

definition darwin_tun_open :: "tun_device_t \<Rightarrow> darwin_state \<Rightarrow> int \<times> tun_device_t \<times> darwin_state" where
  "darwin_tun_open dev s =
     (let (fd, s) = da_syscall sys_socket s
      in if fd < 0
         then (-1, dev, da_do (fail_errno (lit ''Cannot open macOS utun control socket: '')
                 (lit ''. Run with administrator privileges.'')) s)
         else
           let s = da_do (fd_open fd) s;
               (r, s) = da_syscall sys_ioctl s
           in if r < 0
              then (-1, dev, da_do (fd_close fd) (da_do (fail_errno (lit ''Cannot locate macOS utun control: '')
                     (lit ''. Check that utun support is available.'')) s))
              else
           let (r, s) = da_call de_connect s
           in if r < 0
              then (-1, dev, da_do (fd_close fd) (da_do (fail_errno (lit ''Cannot create macOS utun interface: '')
                     (lit ''. Run with administrator privileges and allow network configuration if prompted.'')) s))
              else
           let ((r, name), s) = da_call de_ifname s
           in if r < 0
              then (-1, dev, da_do (fd_close fd) (da_do (fail_errno (lit ''getsockopt(UTUN_OPT_IFNAME) failed: '') []) s))
              else
                let dev = dev\<lparr>tun_ifname := memcpy_at 0 (take 32 name) (tun_ifname dev), tun_fd := fd,
                              tun_mtu := int TUND_TUN_MTU\<rparr>
                in (0, dev, da_do (LOG_INFO (lit ''TUN interface created: '' @ c_str (tun_ifname dev) @ lit '' (fd='' @
                                     fmt_d (tun_fd dev) @ lit '')'')) s))"

definition darwin_tun_close :: "tun_device_t \<Rightarrow> darwin_state \<Rightarrow> tun_device_t \<times> darwin_state" where
  "darwin_tun_close dev s =
     (if 0 \<le> tun_fd dev
      then (dev\<lparr>tun_fd := -1\<rparr>,
            da_do (fd_close (tun_fd dev)) (da_do (LOG_INFO (lit ''Closing TUN interface: '' @ c_str (tun_ifname dev))) s))
      else (dev, s))"

text \<open>The temporary buffer has room for the largest plaintext and the address family.\<close>

definition darwin_tun_read :: "tun_device_t \<Rightarrow> nat \<Rightarrow> darwin_state \<Rightarrow> int \<times> bytes \<times> darwin_state" where
  "darwin_tun_read dev bufsize s =
     (let maxread = bufsize + 4;
          maxread = (if TUND_MAX_PLAINTEXT + 4 < maxread then TUND_MAX_PLAINTEXT + 4 else maxread);
          (ready, s) = da_syscall sys_poll s
      in if ready \<le> 0 then (0, [], s)
         else case da_syscall sys_tun_read s of
                (ReadData d, s) \<Rightarrow>
                  let tmp = take maxread d;
                      n = length tmp
                  in if n \<le> 4 then (-1, [], s)
                     else
                       let payload = n - 4;
                           payload = (if bufsize < payload then bufsize else payload)
                       in (int payload, take payload (drop 4 tmp), s)
              | (_, s) \<Rightarrow> (-1, [], s))"

definition darwin_tun_write :: "tun_device_t \<Rightarrow> bytes \<Rightarrow> nat \<Rightarrow> darwin_state \<Rightarrow> int \<times> darwin_state" where
  "darwin_tun_write dev buf len s =
     (if TUND_MAX_PLAINTEXT + 4 < len + 4 then (-1, s)
      else
        let af = htonl (ucast AF_INET);
            tmp = mem_of_u32 af @ take len buf;
            (n, s) = da_syscall (\<lambda>e t. sys_tun_write e t tmp) s;
            s = da_do (\<lambda>w. if n < 0 then w else w\<lparr>w_tun_out := w_tun_out w @ [take (nat n) tmp]\<rparr>) s
        in if n \<le> 4 then (-1, s) else (n - 4, s))"

section \<open>config.c\<close>

definition darwin_peer_addr :: "u32 \<Rightarrow> u32 \<Rightarrow> u32" where
  "darwin_peer_addr ip netmask =
     (let net = ntohl ip AND ntohl netmask;
          dst_addr = htonl (net OR 1)
      in if ip = dst_addr then htonl (net OR 2) else dst_addr)"

definition darwin_tun_set_ip :: "tun_device_t \<Rightarrow> u32 \<Rightarrow> u32 \<Rightarrow> darwin_state \<Rightarrow> int \<times> darwin_state" where
  "darwin_tun_set_ip dev ip netmask s =
     (let net = ntohl ip AND ntohl netmask;
          dst_addr = darwin_peer_addr ip netmask;
          ip_str = inet_ntop ip; dst_str = inet_ntop dst_addr; mask_str = inet_ntop netmask;
          (sock, s) = da_syscall sys_socket s
      in if sock < 0
         then (-1, da_do (fail_errno (lit ''Cannot open socket for macOS interface configuration: '') (lit ''.'')) s)
         else
           let s = da_do (fd_open sock) s;
               ifra = \<lparr>ifra_name = take (IFNAMSIZ - 1) (c_str (tun_ifname dev)), ifra_addr = ip,
                       ifra_broadaddr = dst_addr, ifra_mask = netmask\<rparr>;
               (r, s) = da_syscall sys_ioctl s
           in if r < 0
              then (-1, da_do (fd_close sock) (da_do (fail_errno (lit ''Cannot assign macOS TUN address on '' @
                      c_str (tun_ifname dev) @ lit '': '') (lit ''.'')) s))
              else
                let s = da_do (fd_close sock) (s\<lparr>da_aliases := da_aliases s @ [ifra]\<rparr>);
                    net_str = inet_ntop (htonl net);
                    (forked, s) = da_call de_fork s;
                    s = (if forked
                         then s\<lparr>da_commands := da_commands s @
                                [[lit ''/sbin/route'', lit ''add'', lit ''-net'', net_str, lit ''-netmask'', mask_str,
                                  lit ''-interface'', c_str (tun_ifname dev)]]\<rparr>
                         else da_do (\<lambda>w. let (err, w) = syscall sys_errno w
                                in LOG_WARN (lit ''fork() for route add failed: '' @ sys_strerror (w_env w) err) w) s)
                in (0, da_do (LOG_INFO (lit ''Configured '' @ c_str (tun_ifname dev) @ lit '': '' @ ip_str @ lit '' (peer '' @
                         dst_str @ lit '') netmask '' @ mask_str)) s))"

definition darwin_tun_set_mtu :: "tun_device_t \<Rightarrow> int \<Rightarrow> darwin_state \<Rightarrow> int \<times> tun_device_t \<times> darwin_state" where
  "darwin_tun_set_mtu dev mtu s =
     (let (sock, s) = da_syscall sys_socket s
      in if sock < 0
         then (-1, dev, da_do (fail_errno (lit ''Cannot open socket for macOS MTU configuration: '') (lit ''.'')) s)
         else
           let s = da_do (fd_open sock) s;
               (r, s) = da_syscall sys_ioctl s
           in if r < 0
              then (-1, dev, da_do (fd_close sock) (da_do (fail_errno (lit ''Cannot set macOS TUN MTU to '' @ fmt_d mtu @
                      lit '' on '' @ c_str (tun_ifname dev) @ lit '': '') (lit ''.'')) s))
              else
                let s = da_do (fd_close sock) s;
                    dev = dev\<lparr>tun_mtu := mtu\<rparr>
                in (0, dev, da_do (LOG_INFO (lit ''MTU set to '' @ fmt_d mtu @ lit '' on '' @ c_str (tun_ifname dev))) s))"

section \<open>The contract of tun.h on macOS\<close>

lemma da_simps [simp]:
  "fst (da_call f s) = f (da_env s) (w_tick (da_w s))" "da_w (snd (da_call f s)) = snd (syscall (\<lambda>_ t. f (da_env s) t) (da_w s))"
  "fst (da_syscall g s) = fst (syscall g (da_w s))" "da_w (snd (da_syscall g s)) = snd (syscall g (da_w s))"
  "da_w (da_do h s) = h (da_w s)"
  "da_env (snd (da_call f s)) = da_env s" "da_env (snd (da_syscall g s)) = da_env s" "da_env (da_do h s) = da_env s"
  "da_aliases (snd (da_call f s)) = da_aliases s" "da_aliases (snd (da_syscall g s)) = da_aliases s" "da_aliases (da_do h s) = da_aliases s"
  "da_commands (snd (da_call f s)) = da_commands s" "da_commands (snd (da_syscall g s)) = da_commands s" "da_commands (da_do h s) = da_commands s"
  by (simp_all add: da_call_def da_syscall_def da_do_def syscall_def)

definition darwin_tun_apply :: "tun_op \<Rightarrow> tun_device_t \<Rightarrow> darwin_state \<Rightarrow> (tun_device_t \<times> darwin_state) option" where
  "darwin_tun_apply x dev s =
     (case x of
        TunRead n \<Rightarrow> (case darwin_tun_read dev n s of (_, _, s) \<Rightarrow> Some (dev, s))
      | TunWrite buf n \<Rightarrow> (case darwin_tun_write dev buf n s of (_, s) \<Rightarrow> Some (dev, s))
      | TunSetIp ip netmask \<Rightarrow> (case darwin_tun_set_ip dev ip netmask s of (_, s) \<Rightarrow> Some (dev, s))
      | TunSetMtu mtu \<Rightarrow> (case darwin_tun_set_mtu dev mtu s of (_, dev, s) \<Rightarrow> Some (dev, s)))"

definition darwin_held :: "darwin_state \<Rightarrow> int set" where
  "darwin_held s = set (w_open_fds (da_w s))"

lemma darwin_open_held:
  assumes "darwin_tun_open d s = (r, d', s')"
  shows "r < 0 \<Longrightarrow> darwin_held s' \<subseteq> darwin_held s"
    "\<not> r < 0 \<Longrightarrow> darwin_held s' = darwin_held s \<union> fd_set (tun_fd d') \<and> fd_set (tun_fd d') \<noteq> {}"
  using assms by (auto simp: darwin_tun_open_def split_beta Let_def darwin_held_def fd_set_def split: if_splits)

lemma darwin_read_held: "darwin_tun_read d n s = (k, p, s') \<Longrightarrow> w_core (da_w s') = w_core (da_w s)"
  by (auto simp: darwin_tun_read_def split_beta Let_def split: if_splits read_result.splits prod.splits)

lemma darwin_config_held:
  "darwin_tun_write d b n s = (k, s') \<Longrightarrow> darwin_held s' = darwin_held s"
  "darwin_tun_set_ip d ip m s = (r, s') \<Longrightarrow> darwin_held s' \<subseteq> darwin_held s"
  "darwin_tun_set_mtu d mtu s = (r, d', s') \<Longrightarrow> darwin_held s' \<subseteq> darwin_held s \<and> tun_fd d' = tun_fd d"
  by (auto simp: darwin_tun_write_def darwin_tun_set_ip_def darwin_tun_set_mtu_def split_beta Let_def darwin_held_def
      split: if_splits)

lemma darwin_apply_held:
  assumes "darwin_tun_apply x d s = Some (d', s')"
  shows "darwin_held s' \<subseteq> darwin_held s" "tun_fd d' = tun_fd d"
  using assms darwin_config_held [of d] w_core_cong(13) [OF darwin_read_held [of d]]
  by (auto simp: darwin_tun_apply_def darwin_held_def split: tun_op.splits prod.splits)

interpretation darwin: tun_lifetime darwin_tun_open darwin_tun_close darwin_tun_apply darwin_held "\<lambda>dev. fd_set (tun_fd dev)"
proof unfold_locales
  fix x d d' s s' r
  show "darwin_tun_open d s = (r, d', s') \<Longrightarrow> r < 0 \<Longrightarrow> darwin_held s' \<subseteq> darwin_held s"
    "darwin_tun_open d s = (r, d', s') \<Longrightarrow> \<not> r < 0 \<Longrightarrow>
      darwin_held s' = darwin_held s \<union> fd_set (tun_fd d') \<and> fd_set (tun_fd d') \<noteq> {}"
    by (rule darwin_open_held; assumption)+
  show "darwin_tun_apply x d s = Some (d', s') \<Longrightarrow> darwin_held s' \<subseteq> darwin_held s \<and> fd_set (tun_fd d') = fd_set (tun_fd d)"
    using darwin_apply_held [of x d s d' s'] by simp
  show "darwin_tun_close d s = (d', s') \<Longrightarrow> darwin_held s' = darwin_held s - fd_set (tun_fd d)"
    by (auto simp: darwin_tun_close_def darwin_held_def fd_set_def split: if_splits)
qed

text \<open>The frame of a packet: the address family in network byte order, then the packet.\<close>

definition utun_frame :: "bytes \<Rightarrow> bytes" where
  "utun_frame p = [0, 0, 0, 2] @ p"

lemma af_inet_bytes: "mem_of_u32 (htonl 2) = [0, 0, 0, 2]"
  by code_simp

lemma darwin_read_post:
  assumes "darwin_tun_read d n s = (k, p, s')"
  shows "k \<le> int n" "0 < k \<Longrightarrow> int (length p) = k" "w_tun_out (da_w s') = w_tun_out (da_w s)"
  using assms w_core_cong(12) [OF darwin_read_held [OF assms]]
  by (auto simp: darwin_tun_read_def split_beta Let_def split: if_splits read_result.splits prod.splits)

lemma darwin_read_frame:
  assumes "tun_arriving (da_w s) (utun_frame p)" "0 < length p" "length p \<le> n" "n \<le> 1600"
  shows "\<exists>s'. darwin_tun_read d n s = (int (length p), p, s')"
  using assms
  by (simp add: darwin_tun_read_def da_syscall_def tun_arriving_def utun_frame_def syscall_def Let_def)

lemma darwin_write_frame:
  assumes "tun_write_ok (w_env (da_w s))" "0 < length p" "length p \<le> 1600"
  shows "\<exists>s'. darwin_tun_write d p (length p) s = (int (length p), s') \<and>
    w_tun_out (da_w s') = w_tun_out (da_w s) @ [utun_frame p]"
  using assms
  by (simp add: darwin_tun_write_def da_syscall_def da_do_def tun_write_ok_def af_inet_bytes utun_frame_def syscall_def Let_def)

interpretation darwin_io: tun_transfer "\<lambda>dev n s. Some (darwin_tun_read dev n s)" darwin_tun_write utun_frame
  "\<lambda>_ s. tun_arriving (da_w s)" "\<lambda>_ s. tun_write_ok (w_env (da_w s))" "\<lambda>s. w_tun_out (da_w s)" 1600
  by unfold_locales (use darwin_read_post darwin_read_frame darwin_write_frame in auto)

section \<open>The point-to-point address\<close>

text \<open>
  utun is a point-to-point device: its peer must be an address of the network other than the device's
  own. With a mask of at least two host bits it is, whatever the address.
\<close>

lemma darwin_peer_addr_distinct:
  assumes "ntohl netmask AND 3 = 0"
  shows "darwin_peer_addr ip netmask \<noteq> ip"
    "ntohl (darwin_peer_addr ip netmask) AND ntohl netmask = ntohl ip AND ntohl netmask"
proof -
  let ?net = "ntohl ip AND ntohl netmask"
  have m: "\<not> bit (ntohl netmask) 0" "\<not> bit (ntohl netmask) 1"
  proof -
    have "bit (ntohl netmask AND 3) 0 = False" "bit (ntohl netmask AND 3) 1 = False" using assms by simp_all
    then show "\<not> bit (ntohl netmask) 0" "\<not> bit (ntohl netmask) 1" by (simp_all add: bit_and_iff bit_numeral_rec)
  qed
  have ne: "?net OR 1 \<noteq> ?net OR 2"
  proof
    assume "?net OR 1 = ?net OR 2"
    then have "bit (?net OR 1) 0 = bit (?net OR 2) 0" by simp
    then show False using m by (simp add: bit_or_iff bit_and_iff)
  qed
  then have "htonl (?net OR 1) \<noteq> htonl (?net OR 2)" by simp
  moreover have "a \<noteq> b \<Longrightarrow> (if ip = a then b else a) \<noteq> ip" for a b by auto
  ultimately show "darwin_peer_addr ip netmask \<noteq> ip" unfolding darwin_peer_addr_def Let_def by blast
  have k: "(?net OR 1) AND ntohl netmask = ?net" "(?net OR 2) AND ntohl netmask = ?net"
    using m by (auto intro!: bit_word_eqI simp: bit_simps bit_1_iff bit_numeral_rec numeral_One split: nat.splits)
  show "ntohl (darwin_peer_addr ip netmask) AND ntohl netmask = ?net"
    using k by (simp add: darwin_peer_addr_def Let_def)
qed

text \<open>
  What a successful configuration told the kernel: the device's address with a distinct peer of the same
  network, and one route command for that network.
\<close>

lemma darwin_set_ip_spec:
  assumes "darwin_tun_set_ip dev ip netmask s = (r, s')"
  shows "r = 0 \<or> r = -1"
    "r = 0 \<Longrightarrow> da_aliases s' = da_aliases s @
       [\<lparr>ifra_name = take 15 (c_str (tun_ifname dev)), ifra_addr = ip, ifra_broadaddr = darwin_peer_addr ip netmask,
         ifra_mask = netmask\<rparr>]"
    "r = -1 \<Longrightarrow> da_aliases s' = da_aliases s \<and> da_commands s' = da_commands s"
    "da_commands s' = da_commands s \<or> da_commands s' = da_commands s @
       [[lit ''/sbin/route'', lit ''add'', lit ''-net'', inet_ntop (htonl (ntohl ip AND ntohl netmask)),
         lit ''-netmask'', inet_ntop netmask, lit ''-interface'', c_str (tun_ifname dev)]]"
  using assms by (auto simp: darwin_tun_set_ip_def split_beta Let_def split: if_splits)
end
