(* ===== verification/Tun_Windows.thy ===== *)
theory Tun_Windows
  imports Wintun
begin

text \<open>
  The TUN device on Windows: the address, the route and the MTU with their verification against the
  tables of the IP Helper API (\<open>src/tun/windows/config.c\<close>) and the device itself (\<open>src/tun/windows/tun.c\<close>). Its
  read loop waits for the driver as long as the process runs; the fuel bounds the rounds of that wait,
  in each of which the process may be asked to stop.
\<close>

section \<open>config.c\<close>

lemma and_top_bit: "(m :: u32) AND 0x80000000 \<noteq> 0 \<longleftrightarrow> bit m 31"
  using and_exp_eq_0_iff_not_bit [of m 31] by simp

lemma top_bit_shift_less:
  assumes "(m :: u32) AND 0x80000000 \<noteq> 0"
  shows "push_bit 1 m < m"
proof -
  have "bit m 31" using assms by (simp only: and_top_bit)
  then have "bit (unat m) 31" by (simp add: bit_unsigned_iff)
  then have "odd (unat m div 2 ^ 31)" unfolding bit_iff_odd .
  then have "2 ^ 31 \<le> unat m" by (metis div_less even_zero not_le)
  moreover have "unat m < 2 ^ 32" using unsigned_less [of m] by simp
  moreover have "unat (push_bit 1 m) = 2 * unat m mod 2 ^ 32"
    by (simp add: push_bit_eq_mult unat_word_ariths mult.commute)
  moreover have "2 * k mod 2 ^ 32 = 2 * k - 2 ^ 32" if "2 ^ 31 \<le> k" "k < 2 ^ 32" for k :: nat
    using that by (simp add: le_mod_geq)
  ultimately have "unat (push_bit 1 m) < unat m" by simp
  then show ?thesis by (simp add: word_less_nat_alt)
qed

text \<open>The loop of \<open>prefix_len_from_netmask\<close>, on the mask in host order.\<close>

function prefix_len_loop :: "u32 \<Rightarrow> u8 \<Rightarrow> u8" where
  "prefix_len_loop m prefix =
     (if m AND 0x80000000 \<noteq> 0 then prefix_len_loop (push_bit 1 m) (prefix + 1) else prefix)"
  by pat_completeness auto
termination
  by (relation "measure (\<lambda>(m, _). unat m)") (auto simp: top_bit_shift_less [unfolded word_less_nat_alt, simplified])

declare prefix_len_loop.simps [simp del]

definition prefix_len_from_netmask :: "u32 \<Rightarrow> u8" where
  "prefix_len_from_netmask netmask_nbo = prefix_len_loop (ntohl netmask_nbo) 0"

definition same_luid :: "u64 \<Rightarrow> u64 \<Rightarrow> bool" where
  "same_luid a b \<longleftrightarrow> a = b"

text \<open>\<open>GetUnicastIpAddressTable\<close> and \<open>GetIpForwardTable2\<close> allocate the table that \<open>FreeMibTable\<close> frees.\<close>

definition get_table :: "(wintun_env \<Rightarrow> nat \<Rightarrow> u32 + 'r list) \<Rightarrow> wstate \<Rightarrow> (u32 + 'r list) \<times> wstate" where
  "get_table f s =
     (let (res, s) = wcall f s
      in (res, case res of Inl _ \<Rightarrow> s | Inr _ \<Rightarrow> s\<lparr>ws_tables := ws_tables s + 1\<rparr>))"

definition free_mib_table :: "wstate \<Rightarrow> wstate" where
  "free_mib_table s = s\<lparr>ws_tables := ws_tables s - 1\<rparr>"

definition unicast_row_matches :: "win_tun_device_t \<Rightarrow> u32 \<Rightarrow> u8 \<Rightarrow> mib_unicast_row \<Rightarrow> bool" where
  "unicast_row_matches dev ip prefix row \<longleftrightarrow>
     same_luid (ur_luid row) (wd_luid dev) \<and> ur_family row = AF_INET \<and> ur_addr row = ip \<and> ur_prefix_len row = prefix"

definition windows_ip_config_applied :: "win_tun_device_t \<Rightarrow> u32 \<Rightarrow> u32 \<Rightarrow> wstate \<Rightarrow> bool \<times> wstate" where
  "windows_ip_config_applied dev ip netmask s =
     (if \<not> wd_has_luid dev then (False, s)
      else case get_table wv_unicast_table s of
             (Inl status, s) \<Rightarrow> (False, wlog LOG_LEVEL_DEBUG (lit ''GetUnicastIpAddressTable failed: '' @ fmt_lu status) s)
           | (Inr table, s) \<Rightarrow>
               let prefix = prefix_len_from_netmask netmask;
                   found = list_ex (unicast_row_matches dev ip prefix) table
               in (found, free_mib_table s))"

definition forward_row_matches :: "win_tun_device_t \<Rightarrow> u32 \<Rightarrow> u8 \<Rightarrow> mib_forward_row \<Rightarrow> bool" where
  "forward_row_matches dev network prefix row \<longleftrightarrow>
     same_luid (fr_luid row) (wd_luid dev) \<and> fr_family row = AF_INET \<and> fr_prefix row = network \<and> fr_prefix_len row = prefix"

definition windows_route_applied :: "win_tun_device_t \<Rightarrow> u32 \<Rightarrow> u32 \<Rightarrow> wstate \<Rightarrow> bool \<times> wstate" where
  "windows_route_applied dev network netmask s =
     (if \<not> wd_has_luid dev then (False, s)
      else case get_table wv_forward_table s of
             (Inl status, s) \<Rightarrow> (False, wlog LOG_LEVEL_DEBUG (lit ''GetIpForwardTable2 failed: '' @ fmt_lu status) s)
           | (Inr table, s) \<Rightarrow>
               let prefix = prefix_len_from_netmask netmask;
                   found = list_ex (forward_row_matches dev network prefix) table
               in (found, free_mib_table s))"

definition onlink_route_row :: "wintun_env \<Rightarrow> win_tun_device_t \<Rightarrow> u32 \<Rightarrow> u32 \<Rightarrow> mib_forward_row" where
  "onlink_route_row e dev network netmask =
     (let row = wv_forward_row0 e;
          row = row\<lparr>fr_luid := wd_luid dev\<rparr>;
          row = row\<lparr>fr_index := wv_luid_to_index e (wd_luid dev) (fr_index row)\<rparr>
      in row\<lparr>fr_family := AF_INET, fr_prefix := network, fr_prefix_len := prefix_len_from_netmask netmask,
             fr_hop_family := AF_INET, fr_next_hop := htonl 0, fr_metric := 2\<rparr>)"

definition windows_add_onlink_route :: "win_tun_device_t \<Rightarrow> u32 \<Rightarrow> u32 \<Rightarrow> wstate \<Rightarrow> bool \<times> wstate" where
  "windows_add_onlink_route dev network netmask s =
     (if \<not> wd_has_luid dev then (False, s)
      else
        let row = onlink_route_row (ws_env s) dev network netmask;
            (status, s) = wcall (\<lambda>e t. wv_create_forward e t row) s
        in if status = NO_ERROR \<or> status = ERROR_OBJECT_ALREADY_EXISTS then (True, s)
           else (False, wlog LOG_LEVEL_DEBUG (lit ''CreateIpForwardEntry2 failed: '' @ fmt_lu status) s))"

definition windows_mtu_applied :: "win_tun_device_t \<Rightarrow> int \<Rightarrow> wstate \<Rightarrow> bool \<times> wstate" where
  "windows_mtu_applied dev mtu s =
     (if \<not> wd_has_luid dev then (False, s)
      else case wcall (\<lambda>e t. wv_ip_interface e t (wd_luid dev)) s of
             (Inl status, s) \<Rightarrow> (False, wlog LOG_LEVEL_DEBUG (lit ''GetIpInterfaceEntry failed: '' @ fmt_lu status) s)
           | (Inr nl_mtu, s) \<Rightarrow> (nl_mtu = word_of_int mtu, s))"

text \<open>\<open>for (i = 0; i < n; i++) { if (check) return true; Sleep(100); } return false;\<close>\<close>

fun wait_until :: "nat \<Rightarrow> (wstate \<Rightarrow> bool \<times> wstate) \<Rightarrow> wstate \<Rightarrow> bool \<times> wstate" where
  "wait_until 0 check s = (False, s)"
| "wait_until (Suc n) check s =
     (case check s of
        (True, s) \<Rightarrow> (True, s)
      | (False, s) \<Rightarrow> let (_, s) = wcall (\<lambda>_ _. ()) s in wait_until n check s)"

definition wait_for_ip :: "win_tun_device_t \<Rightarrow> u32 \<Rightarrow> u32 \<Rightarrow> wstate \<Rightarrow> bool \<times> wstate" where
  "wait_for_ip dev ip m = wait_until 20 (windows_ip_config_applied dev ip m)"

definition wait_for_route :: "win_tun_device_t \<Rightarrow> u32 \<Rightarrow> u32 \<Rightarrow> wstate \<Rightarrow> bool \<times> wstate" where
  "wait_for_route dev network m = wait_until 20 (windows_route_applied dev network m)"

definition wait_for_mtu :: "win_tun_device_t \<Rightarrow> int \<Rightarrow> wstate \<Rightarrow> bool \<times> wstate" where
  "wait_for_mtu dev mtu = wait_until 20 (windows_mtu_applied dev mtu)"

text \<open>The second half of \<open>tun_set_ip\<close>: the on-link route of the network.\<close>

definition windows_set_route :: "win_tun_device_t \<Rightarrow> u32 \<Rightarrow> u32 \<Rightarrow> wstate \<Rightarrow> int \<times> wstate" where
  "windows_set_route dev network netmask s =
     (let net_s = inet_ntop network;
          net_text = net_s @ lit ''/'' @ fmt_u (unat (prefix_len_from_netmask netmask));
          (applied, s) = windows_route_applied dev network netmask s;
          (ready, s) = (if applied then (True, s) else windows_add_onlink_route dev network netmask s)
      in if \<not> ready
         then (-1, wlog LOG_LEVEL_ERROR (lit ''Failed to add the Windows route for '' @ net_text @ lit ''.'') s)
         else
           let (ok, s) = wait_for_route dev network netmask s
           in if \<not> ok
              then (-1, wlog LOG_LEVEL_ERROR (lit ''Windows did not report route '' @ net_text @ lit '' on '' @
                          c_str (tun_ifname dev) @ lit ''.'') s)
              else (0, s))"

definition set_ip_args :: "win_tun_device_t \<Rightarrow> u32 \<Rightarrow> u32 \<Rightarrow> bytes" where
  "set_ip_args dev ip netmask =
     take 2047 (lit ''interface ip set address name='' @ [34] @ c_str (tun_ifname dev) @ [34] @ lit '' static '' @
                inet_ntop ip @ lit '' '' @ inet_ntop netmask)"

definition win_tun_set_ip :: "win_tun_device_t \<Rightarrow> u32 \<Rightarrow> u32 \<Rightarrow> wstate \<Rightarrow> int \<times> wstate" where
  "win_tun_set_ip dev ip netmask s =
     (let buf = set_ip_args dev ip netmask;
          (r, s) = run_cmd (lit ''netsh'') buf s;
          (ok, s) = (if r < 0 then (False, s) else wait_for_ip dev ip netmask s)
      in if \<not> ok
         then (-1, wlog LOG_LEVEL_ERROR (lit ''Failed to configure the Wintun IP address on '' @
                     c_str (tun_ifname dev) @ lit ''.'') s)
         else
           let net = ntohl ip AND ntohl netmask;
               (r, s) = windows_set_route dev (htonl net) netmask s
           in if r < 0 then (-1, s)
              else (0, wlog LOG_LEVEL_INFO (lit ''Configured '' @ c_str (tun_ifname dev) @ lit '': '' @ inet_ntop ip @
                         lit ''/'' @ inet_ntop netmask) s))"

definition set_mtu_args :: "win_tun_device_t \<Rightarrow> int \<Rightarrow> bytes" where
  "set_mtu_args dev mtu =
     take 511 (lit ''interface ipv4 set subinterface '' @ [34] @ c_str (tun_ifname dev) @ [34] @ lit '' mtu='' @
               fmt_d mtu @ lit '' store=active'')"

definition win_tun_set_mtu :: "win_tun_device_t \<Rightarrow> int \<Rightarrow> wstate \<Rightarrow> int \<times> win_tun_device_t \<times> wstate" where
  "win_tun_set_mtu dev mtu s =
     (let buf = set_mtu_args dev mtu;
          (r, s) = run_cmd (lit ''netsh'') buf s;
          (ok, s) = (if r < 0 then (False, s) else wait_for_mtu dev mtu s)
      in if \<not> ok
         then (-1, dev, wlog LOG_LEVEL_ERROR (lit ''Failed to set Wintun MTU '' @ fmt_d mtu @ lit '' on '' @
                          c_str (tun_ifname dev) @ lit ''.'') s)
         else (0, dev\<lparr>tun_mtu := mtu\<rparr>,
               wlog LOG_LEVEL_INFO (lit ''MTU set to '' @ fmt_d mtu @ lit '' on '' @ c_str (tun_ifname dev)) s))"

section \<open>tun.c\<close>

text \<open>The interface's name in \<open>ifname_a\<close>: \<open>if (ConvertInterfaceLuidToNameW(...))\<close> is taken for a nonzero status.\<close>

definition win_ifname :: "wintun_env \<Rightarrow> (bool \<times> u64) \<Rightarrow> bytes" where
  "win_ifname e got =
     (let ifname_a = zeros 256;
          ifname_a = (case got of
              (True, luid) \<Rightarrow>
                (case wv_luid_to_name e luid of (status, ifname_w) \<Rightarrow>
                   if status \<noteq> 0 then wv_wide_to_utf8 e ifname_w else ifname_a)
            | (False, _) \<Rightarrow> ifname_a)
      in if ifname_a ! 0 = 0 then strncpy ifname_a (lit ''tund'') 255 else ifname_a)"

text \<open>\<open>LOG_ERROR("... (error %lu)...", GetLastError()); return -1;\<close>\<close>

definition win_fail :: "bytes \<Rightarrow> bytes \<Rightarrow> wstate \<Rightarrow> wstate" where
  "win_fail before after s =
     (let (err, s) = GetLastError s in wlog LOG_LEVEL_ERROR (before @ lit '' (error '' @ fmt_lu err @ lit '')'' @ after) s)"

text \<open>\<open>adapter = wintun_open_adapter(...); if (!adapter) adapter = wintun_create_adapter(...);\<close>\<close>

definition open_or_create_adapter :: "wstate \<Rightarrow> int \<times> wstate" where
  "open_or_create_adapter s =
     (let (adapter, s) = wintun_open_adapter s
      in if adapter = 0 then wintun_create_adapter s else (adapter, s))"

definition win_tun_open :: "win_tun_device_t \<Rightarrow> wstate \<Rightarrow> int \<times> win_tun_device_t \<times> wstate" where
  "win_tun_open dev s =
     (let dev = dev\<lparr>wd_adapter := 0, wd_session := 0, wd_read_event := 0, wd_has_luid := False\<rparr>;
          (r, s) = wintun_load s
      in if r < 0 then (-1, dev, s)
         else
           let (adapter, s) = open_or_create_adapter s
           in if adapter = 0
              then (-1, dev, win_fail (lit ''Cannot create/open Wintun adapter'') (lit ''. Accept the UAC prompt and try again.'') s)
              else
           let (session, s) = wintun_start_session s
           in if session = 0
              then (-1, dev, wintun_close_adapter adapter
                     (win_fail (lit ''Cannot start Wintun session'') (lit ''. Close other TunD instances and try again.'') s))
              else
           let (read_event, s) = wintun_get_read_wait_event s
           in if read_event = 0
              then (-1, dev, wintun_close_adapter adapter (wintun_end_session session
                     (win_fail (lit ''WintunGetReadWaitEvent failed'') [] s)))
              else
                let (got, luid, s) = wintun_get_adapter_luid s;
                    dev = (if got then dev\<lparr>wd_luid := luid, wd_has_luid := True\<rparr> else dev);
                    ifname_a = win_ifname (ws_env s) (got, luid);
                    dev = dev\<lparr>wd_adapter := adapter, wd_session := session, wd_read_event := read_event,
                              tun_ifname := snprintf (tun_ifname dev) 32 (c_str ifname_a), tun_mtu := int TUND_TUN_MTU\<rparr>
                in (0, dev, wlog LOG_LEVEL_INFO (lit ''TUN interface created: '' @ c_str (tun_ifname dev)) s))"

definition win_tun_close :: "win_tun_device_t \<Rightarrow> wstate \<Rightarrow> win_tun_device_t \<times> wstate" where
  "win_tun_close dev s =
     (let s = (if wd_session dev \<noteq> 0 then wintun_end_session (wd_session dev) s else s);
          s = (if wd_adapter dev \<noteq> 0 then wintun_close_adapter (wd_adapter dev) s else s)
      in (dev, wlog LOG_LEVEL_INFO (lit ''TUN interface closed: '' @ c_str (tun_ifname dev)) s))"

text \<open>\<open>WaitForSingleObject(re, 500)\<close>, during which other threads run: the process may be asked to stop.\<close>

definition wait_read_event :: "wstate \<Rightarrow> wstate" where
  "wait_read_event s =
     (let (stop, s) = wcall wv_stop_requested s
      in if stop then s\<lparr>ws_w := tund_request_stop (ws_w s)\<rparr> else s)"

fun win_tun_read_loop :: "nat \<Rightarrow> nat \<Rightarrow> wstate \<Rightarrow> (int \<times> bytes \<times> wstate) option" where
  "win_tun_read_loop 0 bufsize s = None"
| "win_tun_read_loop (Suc fuel) bufsize s =
     (case wintun_receive_packet s of
        (Some packet, s) \<Rightarrow>
          let n = (if length packet \<le> bufsize then length packet else bufsize)
          in Some (int n, take n packet, wintun_release_receive_packet s)
      | (None, s) \<Rightarrow>
          let (err, s) = GetLastError s
          in if err \<noteq> ERROR_NO_MORE_ITEMS
             then Some (-1, [], wlog LOG_LEVEL_WARN (lit ''WintunReceivePacket error '' @ fmt_lu err) s)
             else
               let s = wait_read_event s
               in if \<not> tund_is_running (ws_w s) then Some (-1, [], s) else win_tun_read_loop fuel bufsize s)"

definition win_tun_read :: "nat \<Rightarrow> win_tun_device_t \<Rightarrow> nat \<Rightarrow> wstate \<Rightarrow> (int \<times> bytes \<times> wstate) option" where
  "win_tun_read fuel dev bufsize s =
     (if wd_session dev = 0 then Some (-1, [], s) else win_tun_read_loop fuel bufsize s)"

definition win_tun_write :: "win_tun_device_t \<Rightarrow> bytes \<Rightarrow> nat \<Rightarrow> wstate \<Rightarrow> int \<times> wstate" where
  "win_tun_write dev buf len s =
     (if wd_session dev = 0 then (-1, s)
      else
        let (packet, s) = wintun_allocate_send_packet len s
        in if \<not> packet then (-1, s)
           else (int len, wintun_send_packet (take len buf) s))"

section \<open>Masks and prefixes\<close>

text \<open>The loop counts the leading ones; for a contiguous netmask they are its prefix.\<close>

lemma prefix_len_loop_leading:
  "n \<le> 32 \<Longrightarrow> (\<And>j. j < 32 \<Longrightarrow> bit m j \<longleftrightarrow> 32 - n \<le> j) \<Longrightarrow> prefix_len_loop m p = p + of_nat n"
proof (induction n arbitrary: m p)
  case 0
  then show ?case by (subst prefix_len_loop.simps) (simp add: and_top_bit)
next
  case (Suc n)
  have "bit (push_bit 1 m) j \<longleftrightarrow> 32 - n \<le> j" if "j < 32" for j
    using that Suc.prems(1) Suc.prems(2) [of "j - 1"] by (auto simp: bit_push_bit_iff simp del: push_bit_Suc)
  with Suc have "prefix_len_loop (push_bit 1 m) (p + 1) = p + 1 + of_nat n" by simp
  moreover have "m AND 0x80000000 \<noteq> 0" using Suc.prems(2) [of 31] unfolding and_top_bit by simp
  ultimately show ?case by (subst prefix_len_loop.simps) simp
qed

lemma prefix_len_of_netmask:
  assumes "n \<le> 32"
  shows "prefix_len_from_netmask (htonl (push_bit (32 - n) (mask n))) = of_nat n"
proof -
  have "bit (push_bit (32 - n) (mask n) :: u32) j \<longleftrightarrow> 32 - n \<le> j" if "j < 32" for j
    using that assms by (auto simp: bit_push_bit_iff bit_mask_iff)
  from prefix_len_loop_leading [OF assms this] show ?thesis by (simp add: prefix_len_from_netmask_def)
qed

section \<open>Verifying a configuration\<close>

abbreviation ws_tick :: "wstate \<Rightarrow> nat" where
  "ws_tick s \<equiv> w_tick (ws_w s)"

text \<open>\<open>P\<close> held of the environment at some moment between two states.\<close>

definition seen_between :: "(wintun_env \<Rightarrow> nat \<Rightarrow> bool) \<Rightarrow> wstate \<Rightarrow> wstate \<Rightarrow> bool" where
  "seen_between P s s' \<longleftrightarrow> (\<exists>t. ws_tick s \<le> t \<and> t < ws_tick s' \<and> P (ws_env s) t)"

lemma seen_now: "P (ws_env s) (ws_tick s) \<Longrightarrow> ws_tick s < ws_tick s' \<Longrightarrow> seen_between P s s'"
  by (auto simp: seen_between_def)

lemma seen_wider:
  "seen_between P s1 s2 \<Longrightarrow> ws_env s1 = ws_env s \<Longrightarrow> ws_tick s \<le> ws_tick s1 \<Longrightarrow> ws_tick s2 \<le> ws_tick s' \<Longrightarrow> seen_between P s s'"
  by (auto simp: seen_between_def intro: order_trans less_le_trans)

text \<open>
  The contract the three checks share: they change nothing but the tick and the log, and answer yes only
  when the system's table shows what was asked for.
\<close>

locale config_check =
  fixes check :: "wstate \<Rightarrow> bool \<times> wstate"
    and reported :: "wintun_env \<Rightarrow> nat \<Rightarrow> bool"
  assumes check_core: "check s = (b, s') \<Longrightarrow> ws_core s' = ws_core s \<and> ws_tick s \<le> ws_tick s'"
    and check_commands: "check s = (b, s') \<Longrightarrow> ws_commands s' = ws_commands s"
    and check_true: "check s = (True, s') \<Longrightarrow> seen_between reported s s'"
begin

lemma wait_sound:
  "wait_until n check s = (b, s') \<Longrightarrow>
     ws_core s' = ws_core s \<and> ws_tick s \<le> ws_tick s' \<and> ws_commands s' = ws_commands s \<and> (b \<longrightarrow> seen_between reported s s')"
proof (induction n arbitrary: s)
  case (Suc n)
  obtain c s1 where c: "check s = (c, s1)" by fastforce
  note C = check_core [OF c] check_commands [OF c]
  show ?case
  proof (cases c)
    case True
    then show ?thesis using Suc.prems c C check_true by auto
  next
    case False
    let ?s2 = "snd (wcall (\<lambda>_ _. ()) s1)"
    have "wait_until n check ?s2 = (b, s')" using Suc.prems c False by (simp add: split_beta Let_def)
    note W = Suc.IH [OF this]
    have t: "ws_tick ?s2 = Suc (ws_tick s1)" "ws_commands ?s2 = ws_commands s1"
      by (simp_all add: wcall_def syscall_def)
    have e: "ws_env ?s2 = ws_env s" using ws_core_cong(1) [of ?s2 s] C by simp
    have "seen_between reported ?s2 s' \<Longrightarrow> seen_between reported s s'"
      by (erule seen_wider) (use C t e in simp_all)
    with W C t show ?thesis by auto
  qed
qed simp

text \<open>If the table shows it when first asked, there is no wait.\<close>

lemma wait_immediate: "check s = (True, s') \<Longrightarrow> 0 < n \<Longrightarrow> wait_until n check s = (True, s')"
  by (cases n) simp_all

end

lemma log_msg_tick: "w_tick w \<le> w_tick (log_msg l m w)"
  by (simp add: log_msg_def syscall_def Let_def)

lemma wlog_tick [simp]: "ws_tick s \<le> ws_tick (wlog l m s)" "ws_commands (wlog l m s) = ws_commands s"
  by (simp_all add: wlog_def log_msg_tick)

lemma wcall_tick [simp]: "ws_tick (snd (wcall f s)) = Suc (ws_tick s)" "ws_commands (snd (wcall f s)) = ws_commands s"
  by (simp_all add: wcall_def syscall_def)

lemma wlog_after [simp]: "k \<le> ws_tick s \<Longrightarrow> k \<le> ws_tick (wlog l m s)"
  using wlog_tick(1) order_trans by blast

lemma ws_core_tables:
  "ws_core (s\<lparr>ws_tables := n\<rparr>) = (ws_core s)\<lparr>ws_tables := n\<rparr>" "(ws_core s)\<lparr>ws_tables := ws_tables s\<rparr> = ws_core s"
  by (simp_all add: ws_core_def)

definition ip_reported :: "win_tun_device_t \<Rightarrow> u32 \<Rightarrow> u32 \<Rightarrow> wintun_env \<Rightarrow> nat \<Rightarrow> bool" where
  "ip_reported dev ip netmask e t \<longleftrightarrow>
     (case wv_unicast_table e t of Inl _ \<Rightarrow> False
      | Inr rows \<Rightarrow> list_ex (unicast_row_matches dev ip (prefix_len_from_netmask netmask)) rows)"

definition route_reported :: "win_tun_device_t \<Rightarrow> u32 \<Rightarrow> u32 \<Rightarrow> wintun_env \<Rightarrow> nat \<Rightarrow> bool" where
  "route_reported dev network netmask e t \<longleftrightarrow>
     (case wv_forward_table e t of Inl _ \<Rightarrow> False
      | Inr rows \<Rightarrow> list_ex (forward_row_matches dev network (prefix_len_from_netmask netmask)) rows)"

definition mtu_reported :: "win_tun_device_t \<Rightarrow> int \<Rightarrow> wintun_env \<Rightarrow> nat \<Rightarrow> bool" where
  "mtu_reported dev mtu e t \<longleftrightarrow> wv_ip_interface e t (wd_luid dev) = Inr (word_of_int mtu)"

interpretation ip_check: config_check "windows_ip_config_applied dev ip netmask" "ip_reported dev ip netmask"
  for dev ip netmask
  by unfold_locales
    (auto simp: windows_ip_config_applied_def get_table_def free_mib_table_def split_beta Let_def ws_core_tables
      ip_reported_def intro!: seen_now split: if_splits sum.splits)

interpretation route_check: config_check "windows_route_applied dev network netmask" "route_reported dev network netmask"
  for dev network netmask
  by unfold_locales
    (auto simp: windows_route_applied_def get_table_def free_mib_table_def split_beta Let_def ws_core_tables
      route_reported_def intro!: seen_now split: if_splits sum.splits)

interpretation mtu_check: config_check "windows_mtu_applied dev mtu" "mtu_reported dev mtu"
  for dev mtu
  by unfold_locales
    (auto simp: windows_mtu_applied_def split_beta Let_def mtu_reported_def intro!: seen_now split: if_splits sum.splits)

lemma onlink_route_core:
  "windows_add_onlink_route dev network netmask s = (b, s') \<Longrightarrow>
     ws_core s' = ws_core s \<and> ws_tick s \<le> ws_tick s' \<and> ws_commands s' = ws_commands s"
  by (auto simp: windows_add_onlink_route_def split_beta Let_def split: if_splits)

lemma run_cmd_tick: "run_cmd exe args s = (r, s') \<Longrightarrow> ws_tick s \<le> ws_tick s'"
proof -
  have c: "ws_tick (close_handle h s) = ws_tick s" "ws_tick (snd (win32_errstr e s)) = ws_tick s" for h e s
    by (simp_all add: close_handle_def win32_errstr_def Let_def)
  have "ws_tick s \<le> ws_tick (log_command_error a b s)" for a b s
    by (simp add: log_command_error_def split_beta Let_def c)
  then have l: "k \<le> ws_tick s \<Longrightarrow> k \<le> ws_tick (log_command_error a b s)" for k a b s by (meson order_trans)
  show "run_cmd exe args s = (r, s') \<Longrightarrow> ws_tick s \<le> ws_tick s'"
    by (auto simp: run_cmd_def split_beta Let_def c intro!: l wlog_after le_SucI split: if_splits option.splits)
qed

lemma windows_set_route_sound:
  assumes "windows_set_route dev network netmask s = (r, s')"
  shows "ws_core s' = ws_core s" "ws_tick s \<le> ws_tick s'" "ws_commands s' = ws_commands s" "r = 0 \<or> r = -1"
    "r = 0 \<Longrightarrow> seen_between (route_reported dev network netmask) s s'"
proof -
  obtain a s1 where a: "windows_route_applied dev network netmask s = (a, s1)" by fastforce
  obtain b s2 where b: "(if a then (True, s1) else windows_add_onlink_route dev network netmask s1) = (b, s2)" by fastforce
  obtain c s3 where c: "wait_for_route dev network netmask s2 = (c, s3)" by fastforce
  note A = route_check.check_core [OF a] route_check.check_commands [OF a]
  have B: "ws_core s2 = ws_core s1 \<and> ws_tick s1 \<le> ws_tick s2 \<and> ws_commands s2 = ws_commands s1"
    using b onlink_route_core by (auto split: if_splits)
  note C = route_check.wait_sound [OF c [unfolded wait_for_route_def]]
  have r: "r = (if b \<and> c then 0 else -1)" "b \<and> c \<Longrightarrow> s' = s3"
    "ws_core s' = ws_core (if b then s3 else s2)" "ws_tick (if b then s3 else s2) \<le> ws_tick s'"
    "ws_commands s' = ws_commands (if b then s3 else s2)"
    using assms a b c by (auto simp: windows_set_route_def split_beta Let_def split: if_splits)
  show "ws_core s' = ws_core s" "ws_tick s \<le> ws_tick s'" "ws_commands s' = ws_commands s" "r = 0 \<or> r = -1"
    using r A B C by (auto split: if_splits)
  show "seen_between (route_reported dev network netmask) s s'" if "r = 0"
  proof (rule seen_wider [of _ s2 s3])
    show "seen_between (route_reported dev network netmask) s2 s3" using C r(1) that by (auto split: if_splits)
    show "ws_env s2 = ws_env s" using ws_core_cong(1) [of s2 s] A B by simp
    show "ws_tick s \<le> ws_tick s2" "ws_tick s3 \<le> ws_tick s'" using A B r(1,2) that by (auto split: if_splits)
  qed
qed

lemma windows_set_ip_parts:
  assumes "win_tun_set_ip dev ip netmask s = (r, s')"
  shows "ws_core s' = ws_core s" "r = 0 \<or> r = -1"
    "r = 0 \<Longrightarrow> (\<exists>t. wv_exit_code (ws_env s) t = Some 0) \<and>
       ws_commands s' = ws_commands s @ [cmd_text (lit ''netsh'') (set_ip_args dev ip netmask)]"
    "r = 0 \<Longrightarrow> seen_between (ip_reported dev ip netmask) s s' \<and>
       seen_between (route_reported dev (htonl (ntohl ip AND ntohl netmask)) netmask) s s'"
proof -
  let ?net = "htonl (ntohl ip AND ntohl netmask)"
  obtain q s1 where q: "run_cmd (lit ''netsh'') (set_ip_args dev ip netmask) s = (q, s1)" by fastforce
  obtain b s2 where b: "(if q < 0 then (False, s1) else wait_for_ip dev ip netmask s1) = (b, s2)" by fastforce
  obtain c s3 where c: "windows_set_route dev ?net netmask s2 = (c, s3)" by fastforce
  note Q = run_cmd_post [OF q] and Qt = run_cmd_tick [OF q] and C = windows_set_route_sound [OF c]
  have B: "ws_core s2 = ws_core s1" "ws_tick s1 \<le> ws_tick s2" "ws_commands s2 = ws_commands s1"
    "b \<Longrightarrow> q = 0 \<and> seen_between (ip_reported dev ip netmask) s1 s2"
    using b Q(2) ip_check.wait_sound [of 20 dev ip netmask s1 b s2] by (auto simp: wait_for_ip_def split: if_splits)
  have R: "r = (if b \<and> c = 0 then 0 else -1)" "ws_core s' = ws_core (if b then s3 else s2)"
    "ws_tick (if b then s3 else s2) \<le> ws_tick s'" "ws_commands s' = ws_commands (if b then s3 else s2)"
    using assms q b c C(4) by (auto simp: win_tun_set_ip_def split_beta Let_def split: if_splits)
  show core: "ws_core s' = ws_core s" "r = 0 \<or> r = -1" using R Q(1) B(1) C(1) by (auto split: if_splits)
  have e: "ws_env s1 = ws_env s" "ws_env s2 = ws_env s"
    using ws_core_cong(1) [of s1 s] ws_core_cong(1) [of s2 s] Q(1) B(1) by simp_all
  have "seen_between (ip_reported dev ip netmask) s s'" "seen_between (route_reported dev ?net netmask) s s'"
    "q = 0" "ws_commands s' = ws_commands s1" if "r = 0"
  proof -
    have bc: b "c = 0" using R(1) that by (auto split: if_splits)
    show "q = 0" "ws_commands s' = ws_commands s1" using bc B C R(4) by auto
    show "seen_between (ip_reported dev ip netmask) s s'"
      using seen_wider [of _ s1 s2 s s'] B(4) bc e Qt C(2) R(3) by simp
    show "seen_between (route_reported dev ?net netmask) s s'"
      using seen_wider [of _ s2 s3 s s'] C(5) bc e Qt B(2) R(3) by simp
  qed
  with Q(3) show "r = 0 \<Longrightarrow> (\<exists>t. wv_exit_code (ws_env s) t = Some 0) \<and>
       ws_commands s' = ws_commands s @ [cmd_text (lit ''netsh'') (set_ip_args dev ip netmask)]"
    "r = 0 \<Longrightarrow> seen_between (ip_reported dev ip netmask) s s' \<and> seen_between (route_reported dev ?net netmask) s s'" by auto
qed

text \<open>
  C31: configuring the address on Windows is verified, not assumed. \<open>tun_set_ip\<close> returns 0 only if the
  \<open>netsh\<close> command ran and ended with code 0 and, during the call, Windows itself reported the address with
  the mask's prefix on this interface and the on-link route of its network; otherwise it returns -1.
  On every path the handles of the child process are closed, the tables freed and nothing else changed.
\<close>

theorem windows_set_ip_verified:
  assumes "win_tun_set_ip dev ip netmask s = (r, s')"
  shows "ws_core s' = ws_core s \<and> (r = 0 \<or> r = -1) \<and>
    (r = 0 \<longrightarrow>
       (\<exists>t. wv_exit_code (ws_env s) t = Some 0) \<and>
       ws_commands s' = ws_commands s @ [cmd_text (lit ''netsh'') (set_ip_args dev ip netmask)] \<and>
       seen_between (ip_reported dev ip netmask) s s' \<and>
       seen_between (route_reported dev (htonl (ntohl ip AND ntohl netmask)) netmask) s s')"
  using windows_set_ip_parts [OF assms] by blast

lemma windows_set_mtu_verified:
  assumes "win_tun_set_mtu dev mtu s = (r, dev', s')"
  shows "ws_core s' = ws_core s" "r = 0 \<or> r = -1" "dev' = (if r = 0 then dev\<lparr>tun_mtu := mtu\<rparr> else dev)"
    "r = 0 \<Longrightarrow> seen_between (mtu_reported dev mtu) s s'"
proof -
  obtain q s1 where q: "run_cmd (lit ''netsh'') (set_mtu_args dev mtu) s = (q, s1)" by fastforce
  obtain b s2 where b: "(if q < 0 then (False, s1) else wait_for_mtu dev mtu s1) = (b, s2)" by fastforce
  note Q = run_cmd_post [OF q] and Qt = run_cmd_tick [OF q]
  have B: "ws_core s2 = ws_core s1" "ws_tick s1 \<le> ws_tick s2" "b \<Longrightarrow> seen_between (mtu_reported dev mtu) s1 s2"
    using b mtu_check.wait_sound [of 20 dev mtu s1 b s2] by (auto simp: wait_for_mtu_def split: if_splits)
  have R: "r = (if b then 0 else -1)" "ws_core s' = ws_core s2" "ws_tick s2 \<le> ws_tick s'"
    "dev' = (if b then dev\<lparr>tun_mtu := mtu\<rparr> else dev)"
    using assms q b by (auto simp: win_tun_set_mtu_def split_beta Let_def split: if_splits)
  show "ws_core s' = ws_core s" "r = 0 \<or> r = -1" "dev' = (if r = 0 then dev\<lparr>tun_mtu := mtu\<rparr> else dev)"
    using R Q(1) B(1) by auto
  show "seen_between (mtu_reported dev mtu) s s'" if "r = 0"
    using seen_wider [of _ s1 s2 s s'] B(3) R(1,3) that ws_core_cong(1) [of s1 s] Q(1) Qt by (auto split: if_splits)
qed

section \<open>Loading the library\<close>

text \<open>A loaded library has all its pointers.\<close>

definition loader_ok :: "wstate \<Rightarrow> bool" where
  "loader_ok s \<longleftrightarrow> (ws_dll s \<longrightarrow> set wintun_symbols \<subseteq> set (ws_procs s))"

text \<open>What loading leaves alone: all but the module handle and the pointers.\<close>

definition ws_load_core :: "wstate \<Rightarrow> wstate" where
  "ws_load_core s = (ws_core s)\<lparr>ws_dll := False, ws_procs := []\<rparr>"

lemma ws_load_core_frame [simp]:
  "ws_load_core (s\<lparr>ws_dll := b\<rparr>) = ws_load_core s" "ws_load_core (snd (wcall f s)) = ws_load_core s"
  "ws_load_core (wlog l m s) = ws_load_core s"
  by (simp_all add: ws_load_core_def) (simp add: ws_core_def)

lemma ws_load_core_cong:
  assumes "ws_load_core s = ws_load_core s'"
  shows "ws_env s = ws_env s'" "ws_null_call s = ws_null_call s'" "ws_adapters s = ws_adapters s'" "ws_sessions s = ws_sessions s'"
  using arg_cong [OF assms, of ws_env] arg_cong [OF assms, of ws_null_call] arg_cong [OF assms, of ws_adapters]
    arg_cong [OF assms, of ws_sessions]
  by (simp_all add: ws_load_core_def ws_core_def)

lemma wintun_load_symbols_spec:
  "wintun_load_symbols names s = (r, s') \<Longrightarrow>
     ws_load_core s' = ws_load_core s \<and> ws_dll s' = ws_dll s \<and> set (ws_procs s) \<subseteq> set (ws_procs s') \<and>
     (if list_all (wv_get_proc (ws_env s)) names then r = 0 \<and> set names \<subseteq> set (ws_procs s') else r = -1)"
proof (induction names arbitrary: s)
  case Nil
  then show ?case by (auto simp: ws_load_core_def)
next
  case (Cons n names)
  let ?s = "s\<lparr>ws_procs := ws_procs s @ [n]\<rparr>"
  have c: "ws_load_core ?s = ws_load_core s" by (simp add: ws_load_core_def ws_core_def)
  show ?case
  proof (cases "wv_get_proc (ws_env s) n")
    case True
    then have "wintun_load_symbols names ?s = (r, s')" using Cons.prems by simp
    from Cons.IH [OF this] True c show ?thesis by auto
  next
    case False
    then show ?thesis using Cons.prems by (auto simp: ws_load_core_def)
  qed
qed

lemma wintun_load_spec:
  assumes "wintun_load s = (r, s')"
  shows "ws_load_core s' = ws_load_core s" "r = 0 \<or> r = -1" "r = 0 \<Longrightarrow> ws_dll s'"
    "loader_ok s \<Longrightarrow> r = 0 \<Longrightarrow> set wintun_symbols \<subseteq> set (ws_procs s')"
    "set (ws_procs s) \<subseteq> set (ws_procs s')"
proof -
  let ?s1 = "(snd (wcall wv_load_library s))\<lparr>ws_dll := True\<rparr>"
  have p: "ws_procs ?s1 = ws_procs s" "ws_load_core ?s1 = ws_load_core s" by simp_all
  have L: "ws_load_core s'' = ws_load_core s \<and> ws_dll s'' \<and> set (ws_procs s) \<subseteq> set (ws_procs s'') \<and> (r' = 0 \<or> r' = -1) \<and>
      (r' = 0 \<longrightarrow> set wintun_symbols \<subseteq> set (ws_procs s''))" if "wintun_load_symbols wintun_symbols ?s1 = (r', s'')" for r' s''
    using wintun_load_symbols_spec [OF that] p by (auto split: if_splits)
  show "ws_load_core s' = ws_load_core s" "r = 0 \<or> r = -1" "r = 0 \<Longrightarrow> ws_dll s'"
    "loader_ok s \<Longrightarrow> r = 0 \<Longrightarrow> set wintun_symbols \<subseteq> set (ws_procs s')" "set (ws_procs s) \<subseteq> set (ws_procs s')"
    using assms L by (auto simp: wintun_load_def split_beta Let_def loader_ok_def split: if_splits)
qed

section \<open>The contract of tun.h on Windows\<close>

datatype win_resource = AdapterHandle int | SessionHandle int

definition win_held :: "wstate \<Rightarrow> win_resource set" where
  "win_held s = AdapterHandle ` set (ws_adapters s) \<union> SessionHandle ` set (ws_sessions s)"

definition win_mine :: "win_tun_device_t \<Rightarrow> win_resource set" where
  "win_mine dev =
     (if wd_adapter dev \<noteq> 0 then {AdapterHandle (wd_adapter dev)} else {}) \<union>
     (if wd_session dev \<noteq> 0 then {SessionHandle (wd_session dev)} else {})"

definition win_tun_apply :: "nat \<Rightarrow> tun_op \<Rightarrow> win_tun_device_t \<Rightarrow> wstate \<Rightarrow> (win_tun_device_t \<times> wstate) option" where
  "win_tun_apply fuel x dev s =
     (case x of
        TunRead n \<Rightarrow> map_option (\<lambda>(_, _, s). (dev, s)) (win_tun_read fuel dev n s)
      | TunWrite buf n \<Rightarrow> (case win_tun_write dev buf n s of (_, s) \<Rightarrow> Some (dev, s))
      | TunSetIp ip netmask \<Rightarrow> (case win_tun_set_ip dev ip netmask s of (_, s) \<Rightarrow> Some (dev, s))
      | TunSetMtu mtu \<Rightarrow> (case win_tun_set_mtu dev mtu s of (_, dev, s) \<Rightarrow> Some (dev, s)))"

lemma through_frame [simp]:
  "ws_adapters (through n s) = ws_adapters s" "ws_sessions (through n s) = ws_sessions s" "ws_env (through n s) = ws_env s"
  "ws_w (through n s) = ws_w s" "ws_procs (through n s) = ws_procs s" "ws_packets (through n s) = ws_packets s"
  by (simp_all add: through_def)

lemma win_fail_core [simp]: "ws_core (win_fail a b s) = ws_core s"
  by (simp add: win_fail_def split_beta Let_def)

lemmas win_fail_frame [simp] = ws_core_cong [OF win_fail_core]

lemma win_open_load:
  assumes "win_tun_open d s = (r, d', s')" "wintun_load s = (q, s1)"
  shows "q < 0 \<Longrightarrow> r = -1 \<and> s' = s1 \<and> win_mine d' = {}"
  using assms by (auto simp: win_tun_open_def Let_def win_mine_def)

lemma wcall_eq: "wcall f s = (v, s') \<longleftrightarrow> v = f (ws_env s) (ws_tick s) \<and> s' = snd (wcall f s)"
  by (auto simp: prod_eq_iff)

lemma world_frame [simp]:
  "w_tun_out (ws_w (snd (wcall f s))) = w_tun_out (ws_w s)" "w_tun_out (ws_w (wlog l m s)) = w_tun_out (ws_w s)"
  "g_running (ws_w (snd (wcall f s))) = g_running (ws_w s)" "g_running (ws_w (wlog l m s)) = g_running (ws_w s)"
  "win_held (snd (wcall f s)) = win_held s" "win_held (wlog l m s) = win_held s" "win_held (through n s) = win_held s"
  "win_held (s\<lparr>ws_packets := k\<rparr>) = win_held s" "win_held (s\<lparr>ws_w := w\<rparr>) = win_held s"
  by (simp_all add: wcall_def syscall_def wlog_def win_held_def through_def)

text \<open>What each call of the library does to the handles.\<close>

lemma wintun_calls:
  "open_or_create_adapter s = (a, s1) \<Longrightarrow> ws_adapters s1 = ws_adapters s @ (if a = 0 then [] else [a]) \<and> ws_sessions s1 = ws_sessions s \<and> ws_procs s1 = ws_procs s"
  "wintun_start_session s = (h, s2) \<Longrightarrow> ws_sessions s2 = ws_sessions s @ (if h = 0 then [] else [h]) \<and> ws_adapters s2 = ws_adapters s \<and> ws_procs s2 = ws_procs s"
  "wintun_get_read_wait_event s = (ev, s3) \<Longrightarrow> ws_sessions s3 = ws_sessions s \<and> ws_adapters s3 = ws_adapters s \<and> ws_procs s3 = ws_procs s"
  "wintun_get_adapter_luid s = (g, luid, s4) \<Longrightarrow> g \<and> ws_sessions s4 = ws_sessions s \<and> ws_adapters s4 = ws_adapters s \<and> ws_procs s4 = ws_procs s"
  by (auto simp: open_or_create_adapter_def wintun_open_adapter_def wintun_create_adapter_def wintun_start_session_def
      wintun_get_read_wait_event_def wintun_get_adapter_luid_def wcall_eq split_beta Let_def split: if_splits)

lemma wintun_closes [simp]:
  "ws_adapters (wintun_close_adapter a s) = removeAll a (ws_adapters s)" "ws_sessions (wintun_close_adapter a s) = ws_sessions s"
  "ws_sessions (wintun_end_session h s) = removeAll h (ws_sessions s)" "ws_adapters (wintun_end_session h s) = ws_adapters s"
  by (simp_all add: wintun_close_adapter_def wintun_end_session_def Let_def)

lemma win_open_held:
  assumes "win_tun_open d s = (r, d', s')"
  shows "r < 0 \<Longrightarrow> win_held s' \<subseteq> win_held s"
    "\<not> r < 0 \<Longrightarrow> win_held s' = win_held s \<union> win_mine d' \<and> win_mine d' \<noteq> {}"
proof -
  obtain q s1 where q: "wintun_load s = (q, s1)" by fastforce
  obtain a s2 where a: "open_or_create_adapter s1 = (a, s2)" by fastforce
  obtain h s3 where h: "wintun_start_session s2 = (h, s3)" by fastforce
  obtain ev s4 where ev: "wintun_get_read_wait_event s3 = (ev, s4)" by fastforce
  obtain g luid s5 where g: "wintun_get_adapter_luid s4 = (g, luid, s5)" using prod_cases3 by blast
  note F = ws_load_core_cong [OF wintun_load_spec(1) [OF q]]
    wintun_calls(1) [OF a] wintun_calls(2) [OF h] wintun_calls(3) [OF ev] wintun_calls(4) [OF g]
  show "r < 0 \<Longrightarrow> win_held s' \<subseteq> win_held s"
    "\<not> r < 0 \<Longrightarrow> win_held s' = win_held s \<union> win_mine d' \<and> win_mine d' \<noteq> {}"
    using assms F unfolding win_tun_open_def Let_def q a h ev g
    by (auto simp: q a h ev g win_held_def win_mine_def split: if_splits)
qed

lemma wait_read_event_frame [simp]:
  "w_tun_out (ws_w (wait_read_event s)) = w_tun_out (ws_w s)" "win_held (wait_read_event s) = win_held s"
  "ws_packets (wait_read_event s) = ws_packets s" "ws_env (wait_read_event s) = ws_env s"
  "ws_tick (wait_read_event s) = Suc (ws_tick s)" "ws_null_call (wait_read_event s) = ws_null_call s"
  by (simp_all add: wait_read_event_def split_beta Let_def tund_request_stop_def)

lemma receive_packet_frame:
  assumes "wintun_receive_packet s = (q, s1)"
  shows "q = wv_receive (ws_env s) (ws_tick s)" "w_tun_out (ws_w s1) = w_tun_out (ws_w s)" "win_held s1 = win_held s"
    "ws_packets s1 = (if q = None then ws_packets s else ws_packets s + 1)" "ws_env s1 = ws_env s" "ws_tick s1 = Suc (ws_tick s)"
    "g_running (ws_w s1) = g_running (ws_w s)"
  using assms by (auto simp: wintun_receive_packet_def split_beta Let_def split: if_splits)

lemma release_packet_frame [simp]:
  "w_tun_out (ws_w (wintun_release_receive_packet s)) = w_tun_out (ws_w s)"
  "win_held (wintun_release_receive_packet s) = win_held s" "ws_packets (wintun_release_receive_packet s) = ws_packets s - 1"
  by (simp_all add: wintun_release_receive_packet_def Let_def)

lemma win_read_loop_post:
  "win_tun_read_loop fuel n s = Some (k, p, s') \<Longrightarrow>
     k \<le> int n \<and> (0 < k \<longrightarrow> int (length p) = k) \<and> w_tun_out (ws_w s') = w_tun_out (ws_w s) \<and> win_held s' = win_held s \<and>
     ws_packets s' = ws_packets s"
proof (induction fuel arbitrary: s)
  case (Suc fuel)
  obtain q s1 where q: "wintun_receive_packet s = (q, s1)" by fastforce
  note R = receive_packet_frame [OF q]
  show ?case
  proof (cases q)
    case None
    let ?s2 = "snd (GetLastError s1)"
    have P: "ws_packets s1 = ws_packets s" using R(4) None by simp
    from Suc.prems None consider
        (err) m where "k = -1" "s' = wlog 2 m ?s2" | (stop) "k = -1" "s' = wait_read_event ?s2"
      | (again) "win_tun_read_loop fuel n (wait_read_event ?s2) = Some (k, p, s')"
      unfolding win_tun_read_loop.simps(2) q None Let_def split_beta prod.case option.case by (auto split: if_splits)
    then show ?thesis
    proof cases
      case again
      from Suc.IH [OF this] show ?thesis using R(2,3) P by simp
    qed (use R(2,3) P in simp_all)
  next
    case (Some d)
    let ?n = "if length d \<le> n then length d else n"
    have "k = int ?n" "p = take ?n d" "s' = wintun_release_receive_packet s1"
      using Suc.prems unfolding win_tun_read_loop.simps(2) q Some Let_def prod.case option.case option.inject by simp_all
    then show ?thesis using R(2-4) Some by simp
  qed
qed simp

text \<open>
  The read waits only while there is nothing to do: if in round \<open>k\<close> the driver has a packet or reports an
  error, or the process is asked to stop, \<open>k + 1\<close> rounds suffice.
\<close>

lemma win_read_loop_returns:
  assumes "wv_receive (ws_env s) (ws_tick s + 3 * k) \<noteq> None \<or>
      wv_last_error (ws_env s) (ws_tick s + 3 * k + 1) \<noteq> 259 \<or> wv_stop_requested (ws_env s) (ws_tick s + 3 * k + 2)"
    and "k < fuel"
  shows "\<exists>r. win_tun_read_loop fuel n s = Some r"
  using assms
proof (induction k arbitrary: s fuel)
  case 0
  obtain f where f: "fuel = Suc f" using 0 by (cases fuel) auto
  obtain q s1 where q: "wintun_receive_packet s = (q, s1)" by fastforce
  note R = receive_packet_frame [OF q]
  show ?case
  proof (cases q)
    case None
    then have "wv_last_error (ws_env s) (Suc (ws_tick s)) \<noteq> 259 \<or> wv_stop_requested (ws_env s) (Suc (Suc (ws_tick s)))"
      using 0(1) R(1) by simp
    then show ?thesis unfolding f using None R(5,6)
      by (auto simp: q split_beta Let_def wait_read_event_def tund_is_running_def tund_request_stop_def)
  qed (simp add: f q Let_def)
next
  case (Suc k)
  obtain f where f: "fuel = Suc f" "k < f" using Suc by (cases fuel) auto
  obtain q s1 where q: "wintun_receive_packet s = (q, s1)" by fastforce
  let ?s = "wait_read_event (snd (GetLastError s1))"
  note R = receive_packet_frame [OF q]
  have e: "ws_env ?s = ws_env s" "ws_tick ?s + 3 * k = ws_tick s + 3 * Suc k" using R(5,6) by simp_all
  have "\<exists>r. win_tun_read_loop f n ?s = Some r" by (rule Suc.IH) (simp_all only: e Suc.prems(1) f)
  then show ?case unfolding f by (cases q) (auto simp: q split_beta Let_def)
qed

lemma win_read_post:
  assumes "win_tun_read fuel d n s = Some (k, p, s')"
  shows "k \<le> int n" "0 < k \<Longrightarrow> int (length p) = k" "w_tun_out (ws_w s') = w_tun_out (ws_w s)" "win_held s' = win_held s"
    "ws_packets s' = ws_packets s"
  using assms win_read_loop_post [of fuel n s k p s'] by (auto simp: win_tun_read_def split: if_splits)

lemma win_write_held: "win_tun_write d b n s = (k, s') \<Longrightarrow> win_held s' = win_held s"
  by (auto simp: win_tun_write_def wintun_allocate_send_packet_def wintun_send_packet_def split_beta Let_def split: if_splits)

lemma win_held_core: "ws_core s' = ws_core s \<Longrightarrow> win_held s' = win_held s"
  using ws_core_cong(5,6) [of s' s] by (simp add: win_held_def)

lemma win_apply_held:
  assumes "win_tun_apply fuel x d s = Some (d', s')"
  shows "win_held s' = win_held s" "win_mine d' = win_mine d"
proof -
  have ip: "win_tun_set_ip d ip m s = (r, t) \<Longrightarrow> win_held t = win_held s" for ip m r t
    using windows_set_ip_parts(1) win_held_core by blast
  have mtu: "win_tun_set_mtu d m s = (r, e, t) \<Longrightarrow> win_held t = win_held s \<and> win_mine e = win_mine d" for m r e t
    using win_held_core [OF windows_set_mtu_verified(1) [of d m s r e t]] windows_set_mtu_verified(3) [of d m s r e t]
    by (simp add: win_mine_def)
  show "win_held s' = win_held s" "win_mine d' = win_mine d"
    using assms win_read_post(4) [of fuel d] win_write_held [of d] ip mtu
    by (auto simp: win_tun_apply_def split: tun_op.splits prod.splits option.splits)
qed

interpretation windows: tun_lifetime win_tun_open win_tun_close "win_tun_apply fuel" win_held win_mine for fuel
proof unfold_locales
  fix x d d' s s' r
  show "win_tun_open d s = (r, d', s') \<Longrightarrow> r < 0 \<Longrightarrow> win_held s' \<subseteq> win_held s"
    "win_tun_open d s = (r, d', s') \<Longrightarrow> \<not> r < 0 \<Longrightarrow> win_held s' = win_held s \<union> win_mine d' \<and> win_mine d' \<noteq> {}"
    by (rule win_open_held; assumption)+
  show "win_tun_apply fuel x d s = Some (d', s') \<Longrightarrow> win_held s' \<subseteq> win_held s \<and> win_mine d' = win_mine d"
    using win_apply_held [of fuel x d s d' s'] by simp
  show "win_tun_close d s = (d', s') \<Longrightarrow> win_held s' = win_held s - win_mine d"
    by (auto simp: win_tun_close_def Let_def win_held_def win_mine_def)
qed

definition win_arriving :: "win_tun_device_t \<Rightarrow> wstate \<Rightarrow> bytes \<Rightarrow> bool" where
  "win_arriving d s f \<longleftrightarrow> wd_session d \<noteq> 0 \<and> wv_receive (ws_env s) (ws_tick s) = Some f"

definition win_accepts :: "win_tun_device_t \<Rightarrow> wstate \<Rightarrow> bool" where
  "win_accepts d s \<longleftrightarrow> wd_session d \<noteq> 0 \<and> (\<forall>n. wv_allocate (ws_env s) (ws_tick s) n)"

interpretation windows_io: tun_transfer "win_tun_read (Suc fuel)" win_tun_write id win_arriving win_accepts
  "\<lambda>s. w_tun_out (ws_w s)" 1600 for fuel
proof unfold_locales
  fix d n s k p s'
  assume r: "win_tun_read (Suc fuel) d n s = Some (k, p, s')"
  show "k \<le> int n \<and> (0 < k \<longrightarrow> int (length p) = k) \<and> w_tun_out (ws_w s') = w_tun_out (ws_w s)"
    using win_read_post [OF r] by simp
next
  fix d s and p :: bytes and n
  assume a: "win_arriving d s (id p)" "length p \<le> n"
  obtain q s1 where q: "wintun_receive_packet s = (q, s1)" by fastforce
  show "\<exists>s'. win_tun_read (Suc fuel) d n s = Some (int (length p), p, s')"
    using receive_packet_frame(1) [OF q] a by (simp add: win_arriving_def win_tun_read_def q Let_def)
next
  fix d s and p :: bytes
  show "win_accepts d s \<Longrightarrow> \<exists>s'. win_tun_write d p (length p) s = (int (length p), s') \<and>
      w_tun_out (ws_w s') = w_tun_out (ws_w s) @ [id p]"
    by (simp add: win_accepts_def win_tun_write_def wintun_allocate_send_packet_def wintun_send_packet_def split_beta Let_def)
qed

section \<open>Calls through the library's pointers\<close>

abbreviation wintun_ready :: "wstate \<Rightarrow> bool" where
  "wintun_ready s \<equiv> set wintun_symbols \<subseteq> set (ws_procs s)"

lemma through_ready: "wintun_ready s \<Longrightarrow> lit n \<in> set wintun_symbols \<Longrightarrow> ws_null_call (through n s) = ws_null_call s"
  by (auto simp: through_def)

lemma wintun_symbol_names [simp]:
  "lit ''WintunCreateAdapter'' \<in> set wintun_symbols" "lit ''WintunCloseAdapter'' \<in> set wintun_symbols"
  "lit ''WintunOpenAdapter'' \<in> set wintun_symbols" "lit ''WintunGetAdapterLUID'' \<in> set wintun_symbols"
  "lit ''WintunStartSession'' \<in> set wintun_symbols" "lit ''WintunEndSession'' \<in> set wintun_symbols"
  "lit ''WintunGetReadWaitEvent'' \<in> set wintun_symbols"
  by (simp_all add: wintun_symbols_def)

lemma wintun_calls_null:
  assumes "wintun_ready s"
  shows "open_or_create_adapter s = (a, s1) \<Longrightarrow> ws_null_call s1 = ws_null_call s"
    "wintun_start_session s = (h, s2) \<Longrightarrow> ws_null_call s2 = ws_null_call s"
    "wintun_get_read_wait_event s = (ev, s3) \<Longrightarrow> ws_null_call s3 = ws_null_call s"
    "wintun_get_adapter_luid s = (g, luid, s4) \<Longrightarrow> ws_null_call s4 = ws_null_call s"
    "ws_null_call (wintun_close_adapter a s) = ws_null_call s" "ws_null_call (wintun_end_session h s) = ws_null_call s"
  using assms
  by (auto simp: open_or_create_adapter_def wintun_open_adapter_def wintun_create_adapter_def wintun_start_session_def
      wintun_get_read_wait_event_def wintun_get_adapter_luid_def wintun_close_adapter_def wintun_end_session_def
      wcall_eq split_beta Let_def through_ready split: if_splits)

lemma wintun_end_procs [simp]: "ws_procs (wintun_end_session h s) = ws_procs s" "ws_procs (wintun_close_adapter a s) = ws_procs s"
  by (simp_all add: wintun_end_session_def wintun_close_adapter_def Let_def)

text \<open>
  Opening the device calls the library only through pointers that were loaded, if a library that is
  loaded has all of them when it starts.
\<close>

lemma win_open_no_null_call:
  assumes "win_tun_open d s = (r, d', s')" "loader_ok s"
  shows "ws_null_call s' = ws_null_call s" "r = 0 \<Longrightarrow> wintun_ready s'"
proof -
  obtain q s1 where q: "wintun_load s = (q, s1)" by fastforce
  obtain a s2 where a: "open_or_create_adapter s1 = (a, s2)" by fastforce
  obtain h s3 where h: "wintun_start_session s2 = (h, s3)" by fastforce
  obtain ev s4 where ev: "wintun_get_read_wait_event s3 = (ev, s4)" by fastforce
  obtain g luid s5 where g: "wintun_get_adapter_luid s4 = (g, luid, s5)" using prod_cases3 by blast
  note P = wintun_load_spec [OF q]
  note F = ws_load_core_cong(2) [OF P(1)] wintun_calls(1) [OF a] wintun_calls(2) [OF h] wintun_calls(3) [OF ev] wintun_calls(4) [OF g]
  show "ws_null_call s' = ws_null_call s" "r = 0 \<Longrightarrow> wintun_ready s'"
  proof (atomize (full), cases "q < 0")
    case True
    then show "ws_null_call s' = ws_null_call s \<and> (r = 0 \<longrightarrow> wintun_ready s')"
      using win_open_load [OF assms(1) q] F(1) by simp
  next
    case False
    then have l: "wintun_ready s1" using P(2,4) assms(2) by auto
    then have R: "wintun_ready s2" "wintun_ready s3" "wintun_ready s4" "wintun_ready s5" using F by auto
    have N: "ws_null_call s1 = ws_null_call s" "ws_null_call s2 = ws_null_call s" "ws_null_call s3 = ws_null_call s"
      "ws_null_call s4 = ws_null_call s" "ws_null_call s5 = ws_null_call s"
      using F(1) wintun_calls_null(1) [OF l a] wintun_calls_null(2) [OF R(1) h] wintun_calls_null(3) [OF R(2) ev]
        wintun_calls_null(4) [OF R(3) g] by simp_all
    show "ws_null_call s' = ws_null_call s \<and> (r = 0 \<longrightarrow> wintun_ready s')"
      using assms(1) False N R unfolding win_tun_open_def Let_def q a h ev g
      by (auto simp: q a h ev g wintun_calls_null split: if_splits)
  qed
qed

lemma load_symbols_procs:
  "wintun_load_symbols names s = (r, s') \<Longrightarrow> n \<in> set (ws_procs s') \<Longrightarrow> n \<in> set (ws_procs s) \<or> wv_get_proc (ws_env s) n"
  by (induction names arbitrary: s) (fastforce split: if_splits)+

text \<open>
  After a library without one of the symbols, loading fails once; a second attempt reports success
  although the pointer is still missing, since the module handle is kept.
\<close>

theorem wintun_load_retry_succeeds:
  assumes "\<not> ws_dll s" "ws_procs s = []" "wv_load_library (ws_env s) (ws_tick s)"
    and "\<not> list_all (wv_get_proc (ws_env s)) wintun_symbols" "wintun_load s = (r, s1)"
  shows "r = -1 \<and> wintun_load s1 = (0, s1) \<and> \<not> wintun_ready s1"
proof -
  let ?s = "(snd (wcall wv_load_library s))\<lparr>ws_dll := True\<rparr>"
  have l: "wintun_load_symbols wintun_symbols ?s = (r, s1)"
    using assms(1,3,5) by (simp add: wintun_load_def split_beta Let_def)
  note S = wintun_load_symbols_spec [OF l]
  have "r = -1" "ws_dll s1" using S assms(4) by simp_all
  moreover have "\<not> wintun_ready s1"
    using load_symbols_procs [OF l] assms(2,4) by (auto simp: list_all_iff)
  ultimately show ?thesis by (simp add: wintun_load_def)
qed

section \<open>The name of the interface\<close>

text \<open>
  \<open>ConvertInterfaceLuidToNameW\<close> returns 0 on success and leaves the buffer alone otherwise, so the converted
  name is never used: the device is always called \<open>tund\<close>.
\<close>

theorem win_ifname_always_tund:
  assumes "\<And>luid. fst (wv_luid_to_name e luid) \<noteq> 0 \<Longrightarrow> snd (wv_luid_to_name e luid) = replicate 256 0"
    and "wv_wide_to_utf8 e (replicate 256 0) = zeros 256"
  shows "c_str (win_ifname e got) = lit ''tund''"
proof -
  have "wv_wide_to_utf8 e (snd (wv_luid_to_name e luid)) = zeros 256" if "fst (wv_luid_to_name e luid) \<noteq> 0" for luid
    using assms(1) [OF that] assms(2) by simp
  then have z: "win_ifname e got = strncpy (zeros 256) (lit ''tund'') 255"
    by (auto simp: win_ifname_def Let_def split_beta split: bool.splits prod.splits)
  have "0 \<notin> set (lit ''tund'')" by code_simp
  then show ?thesis unfolding z by (simp add: strncpy_def c_str_idem replicate_append_same)
qed

section \<open>A concrete environment\<close>

definition demo_wintun_env :: wintun_env where
  "demo_wintun_env =
     \<lparr>wv_last_error = (\<lambda>_. 259), wv_format_message = (\<lambda>_ b. b), wv_create_process = (\<lambda>_ _. Some (8, 9)),
      wv_wait_failed = (\<lambda>_. False), wv_exit_code = (\<lambda>_. Some 0), wv_load_library = (\<lambda>_. True), wv_get_proc = (\<lambda>_. True),
      wv_open_adapter = (\<lambda>_. 0), wv_create_adapter = (\<lambda>_. 5), wv_start_session = (\<lambda>_. 6), wv_read_event = (\<lambda>_. 7),
      wv_adapter_luid = (\<lambda>_. 42), wv_luid_to_name = (\<lambda>_. (0, replicate 256 65)), wv_wide_to_utf8 = (\<lambda>_. zeros 256),
      wv_receive = (\<lambda>_. None), wv_allocate = (\<lambda>_ _. True), wv_stop_requested = (\<lambda>t. 100 < t),
      wv_unicast_table = (\<lambda>t. Inr (if t < 12 then [] else
        [\<lparr>ur_luid = 42, ur_family = 2, ur_addr = htonl 0x0A090002, ur_prefix_len = 24\<rparr>])),
      wv_forward_table = (\<lambda>_. Inr
        [\<lparr>fr_luid = 42, fr_index = 3, fr_family = 2, fr_prefix = htonl 0x0A090000, fr_prefix_len = 24, fr_hop_family = 2,
          fr_next_hop = 0, fr_metric = 2\<rparr>]),
      wv_forward_row0 = \<lparr>fr_luid = 0, fr_index = 0, fr_family = 0, fr_prefix = 0, fr_prefix_len = 0, fr_hop_family = 0,
        fr_next_hop = 0, fr_metric = 0\<rparr>,
      wv_luid_to_index = (\<lambda>_ _. 3), wv_create_forward = (\<lambda>_ _. 0), wv_ip_interface = (\<lambda>_ _. Inr 1400)\<rparr>"

definition demo_wstate :: wstate where
  "demo_wstate =
     \<lparr>ws_w = demo_world, ws_env = demo_wintun_env, ws_dll = False, ws_procs = [], ws_null_call = False, ws_adapters = [],
      ws_sessions = [], ws_handles = {#}, ws_tables = 0, ws_packets = 0, ws_errbuf = zeros 256, ws_commands = []\<rparr>"

definition demo_win_dev :: win_tun_device_t where
  "demo_win_dev =
     \<lparr>tun_fd = 0, tun_ifname = lit ''tund'' @ zeros 28, tun_mtu = 1400, wd_adapter = 5, wd_session = 6, wd_read_event = 7,
      wd_luid = 42, wd_has_luid = True\<rparr>"

lemma demo_set_ip: "fst (win_tun_set_ip demo_win_dev (htonl 0x0A090002) (htonl 0xFFFFFF00) demo_wstate) = 0"
  by code_simp

theorem windows_set_ip_verified_witness:
  "\<exists>s'. win_tun_set_ip demo_win_dev (htonl 0x0A090002) (htonl 0xFFFFFF00) demo_wstate = (0, s') \<and>
     ws_core s' = ws_core demo_wstate \<and>
     seen_between (ip_reported demo_win_dev (htonl 0x0A090002) (htonl 0xFFFFFF00)) demo_wstate s'"
proof -
  obtain r s' where r: "win_tun_set_ip demo_win_dev (htonl 0x0A090002) (htonl 0xFFFFFF00) demo_wstate = (r, s')"
    by fastforce
  then have 0: "r = 0" using demo_set_ip by simp
  from windows_set_ip_verified [OF r] r show ?thesis unfolding 0 by simp
qed

theorem wintun_load_retry_succeeds_witness:
  "let s = demo_wstate\<lparr>ws_env := demo_wintun_env\<lparr>wv_get_proc := (\<lambda>n. n \<noteq> lit ''WintunSendPacket'')\<rparr>\<rparr>
   in fst (wintun_load s) = -1 \<and> fst (wintun_load (snd (wintun_load s))) = 0 \<and> \<not> wintun_ready (snd (wintun_load s))"
proof -
  let ?s = "demo_wstate\<lparr>ws_env := demo_wintun_env\<lparr>wv_get_proc := (\<lambda>n. n \<noteq> lit ''WintunSendPacket'')\<rparr>\<rparr>"
  obtain r s1 where l: "wintun_load ?s = (r, s1)" by fastforce
  have "\<not> ws_dll ?s" "ws_procs ?s = []" "wv_load_library (ws_env ?s) (ws_tick ?s)"
    "\<not> list_all (wv_get_proc (ws_env ?s)) wintun_symbols"
    by (simp_all add: demo_wstate_def demo_wintun_env_def wintun_symbols_def)
  from wintun_load_retry_succeeds [OF this l] l show ?thesis by simp
qed

end
