(* ===== verification/Tun_Platforms.thy ===== *)
theory Tun_Platforms
  imports Tun_Darwin Tun_Windows
begin

text \<open>
  What the contract of \<open>src/tun/tun.h\<close> gives on the three platforms at once, from the interpretations of its
  two locales.
\<close>

lemma tun_apply_total: "tun_apply x d w \<noteq> None" "darwin_tun_apply x d s \<noteq> None"
  by (auto simp: tun_apply_def darwin_tun_apply_def split: tun_op.splits prod.splits)


text \<open>
  C25: packets pass the device unchanged on every platform: a packet written to a device whose driver
  accepts it is reported written in full, and the frame the driver got, arriving at any device of the
  same platform, is read back as exactly that packet.
\<close>

theorem tun_packets_pass_unchanged:
  assumes "0 < length p" "length p \<le> n" "n \<le> 1600"
  shows "(tun_write_ok (w_env w) \<longrightarrow>
      (\<exists>w'. tun_write ld p (length p) w = (int (length p), w') \<and>
        (\<forall>e v. tun_arriving v (last (w_tun_out w')) \<longrightarrow> (\<exists>v'. tun_read e n v = (int (length p), p, v'))))) \<and>
    (tun_write_ok (w_env (da_w s)) \<longrightarrow>
      (\<exists>s'. darwin_tun_write md p (length p) s = (int (length p), s') \<and> last (w_tun_out (da_w s')) = [0, 0, 0, 2] @ p \<and>
        (\<forall>e v. tun_arriving (da_w v) (last (w_tun_out (da_w s'))) \<longrightarrow> (\<exists>v'. darwin_tun_read e n v = (int (length p), p, v'))))) \<and>
    (win_accepts wd t \<longrightarrow>
      (\<exists>t'. win_tun_write wd p (length p) t = (int (length p), t') \<and>
        (\<forall>e v. win_arriving e v (last (w_tun_out (ws_w t'))) \<longrightarrow> (\<exists>v'. win_tun_read (Suc fuel) e n v = Some (int (length p), p, v')))))"
proof (intro conjI impI)
  assume "tun_write_ok (w_env w)"
  from linux_io.write_then_read [OF this assms]
  show "\<exists>w'. tun_write ld p (length p) w = (int (length p), w') \<and>
      (\<forall>e v. tun_arriving v (last (w_tun_out w')) \<longrightarrow> (\<exists>v'. tun_read e n v = (int (length p), p, v')))" by simp
next
  assume "tun_write_ok (w_env (da_w s))"
  moreover have "length p \<le> 1600" using assms by simp
  ultimately obtain s' where s': "darwin_tun_write md p (length p) s = (int (length p), s')"
      "w_tun_out (da_w s') = w_tun_out (da_w s) @ [utun_frame p]"
    using darwin_write_frame [of s p md] assms(1) by auto
  then show "\<exists>s'. darwin_tun_write md p (length p) s = (int (length p), s') \<and> last (w_tun_out (da_w s')) = [0, 0, 0, 2] @ p \<and>
      (\<forall>e v. tun_arriving (da_w v) (last (w_tun_out (da_w s'))) \<longrightarrow> (\<exists>v'. darwin_tun_read e n v = (int (length p), p, v')))"
    using darwin_read_frame [OF _ assms] by (auto simp: utun_frame_def)
next
  assume "win_accepts wd t"
  from windows_io.write_then_read [OF this assms, of fuel]
  show "\<exists>t'. win_tun_write wd p (length p) t = (int (length p), t') \<and>
      (\<forall>e v. win_arriving e v (last (w_tun_out (ws_w t'))) \<longrightarrow> (\<exists>v'. win_tun_read (Suc fuel) e n v = Some (int (length p), p, v')))" .
qed

definition demo_darwin :: darwin_state where
  "demo_darwin = \<lparr>da_w = demo_world, da_env = \<lparr>de_connect = (\<lambda>_. 0), de_ifname = (\<lambda>_. (0, lit ''utun4'' @ [0])), de_fork = (\<lambda>_. True)\<rparr>,
     da_aliases = [], da_commands = []\<rparr>"

theorem tun_packets_pass_unchanged_witness:
  "(\<exists>w'. tun_write tun_device0 [69, 0] 2 demo_world = (2, w')) \<and>
   (\<exists>s'. darwin_tun_write tun_device0 [69, 0] 2 demo_darwin = (2, s') \<and> last (w_tun_out (da_w s')) = [0, 0, 0, 2, 69, 0]) \<and>
   (\<exists>t'. win_tun_write demo_win_dev [69, 0] 2 demo_wstate = (2, t'))"
proof -
  have "tun_write_ok (w_env demo_world)" "tun_write_ok (w_env (da_w demo_darwin))" "win_accepts demo_win_dev demo_wstate"
    by (simp_all add: tun_write_ok_def demo_world_def demo_env_def demo_darwin_def win_accepts_def demo_win_dev_def
        demo_wstate_def demo_wintun_env_def)
  then show ?thesis
    using tun_packets_pass_unchanged [of "[69, 0]" 1500 demo_world tun_device0 demo_darwin tun_device0 demo_win_dev demo_wstate 0]
    by (auto simp: numeral_2_eq_2)
qed

end
