(* ===== verification/Peerforge.thy ===== *)
theory Peerforge
  imports App_Cli Sending
begin

text \<open>
  The load generator (\<open>tools/peerforge/\<close>): simulated clients that register with a server, exchange
  keepalives and probe each other through it. It is built on the protocol code of the program. The
  readiness of a socket (\<open>select\<close>) and the datagrams received are the outcomes of the world's \<open>poll\<close> and
  \<open>recvfrom\<close>; the arrays a function declares without initialising are the argument \<open>ub\<close>. Its loops run
  until a deadline or as long as datagrams come; the fuel bounds their rounds.
\<close>

section \<open>options.c\<close>

record peerforge_options_t =
  po_server :: "bytes option"
  po_key :: "bytes option"
  po_port :: u16
  po_clients :: int
  po_timeout_ms :: int
  po_keepalives :: int
  po_data_pairs :: int

abbreviation (input) PEERFORGE_MAX_CLIENTS :: int where "PEERFORGE_MAX_CLIENTS \<equiv> 253"

definition peerforge_usage :: "bytes \<Rightarrow> world \<Rightarrow> world" where
  "peerforge_usage prog w = fput_stderr (concat (map (\<lambda>l. l @ [10])
     [lit ''Usage: '' @ c_str prog @ lit '' -s <server> -k <key> [-p port] [-n clients] [-t ms] [-K rounds] [-d pairs]'', [],
      lit ''Options:'',
      lit ''  -s <server>   TunD server address (required)'',
      lit ''  -k <key>      Shared network key, 12+ characters (required)'',
      lit ''  -p <port>     UDP port (default: '' @ fmt_u (unat TUND_PORT) @ lit '')'',
      lit ''  -n <clients>  Simulated clients, 1-'' @ fmt_d PEERFORGE_MAX_CLIENTS @ lit '' (default: 32)'',
      lit ''  -t <ms>       Per-client receive timeout (default: 3000)'',
      lit ''  -K <rounds>   Keepalive rounds after registration (default: 1)'',
      lit ''  -d <pairs>    Client-to-client DATA probes after registration (default: 0)''])) w"

definition parse_long :: "bytes \<Rightarrow> int \<Rightarrow> int \<Rightarrow> int option" where
  "parse_long value lo hi =
     (let (parsed, stop) = strtol (c_str value)
      in if stop = 0 \<or> stop < c_strlen value \<or> parsed < lo \<or> hi < parsed then None else Some parsed)"

definition set_defaults :: peerforge_options_t where
  "set_defaults =
     \<lparr>po_server = None, po_key = None, po_port = TUND_PORT, po_clients = 32, po_timeout_ms = 3000, po_keepalives = 1,
      po_data_pairs = 0\<rparr>"

text \<open>The outcome of parsing: the options, a refusal, or \<open>exit(0)\<close>.\<close>

datatype 'o parse_result = ParseOk 'o | ParseFailed | ParseExit

text \<open>One option with its value; \<open>None\<close> for an unknown option, \<open>Some None\<close> for a value out of range.\<close>

definition peerforge_option :: "bytes \<Rightarrow> bytes \<Rightarrow> peerforge_options_t \<Rightarrow> peerforge_options_t option option" where
  "peerforge_option opt value opts =
     (if c_str opt = lit ''-s'' then Some (Some (opts\<lparr>po_server := Some value\<rparr>))
      else if c_str opt = lit ''-k'' then Some (Some (opts\<lparr>po_key := Some value\<rparr>))
      else if c_str opt = lit ''-p''
      then Some (map_option (\<lambda>v. opts\<lparr>po_port := word_of_int v\<rparr>) (parse_long value 1 65535))
      else if c_str opt = lit ''-n''
      then Some (map_option (\<lambda>v. opts\<lparr>po_clients := v\<rparr>) (parse_long value 1 PEERFORGE_MAX_CLIENTS))
      else if c_str opt = lit ''-t''
      then Some (map_option (\<lambda>v. opts\<lparr>po_timeout_ms := v\<rparr>) (parse_long value 1 60000))
      else if c_str opt = lit ''-K''
      then Some (map_option (\<lambda>v. opts\<lparr>po_keepalives := v\<rparr>) (parse_long value 0 1000))
      else if c_str opt = lit ''-d''
      then Some (map_option (\<lambda>v. opts\<lparr>po_data_pairs := v\<rparr>) (parse_long value 0 1000000))
      else None)"

definition is_help :: "bytes \<Rightarrow> bool" where
  "is_help a \<longleftrightarrow> c_str a = lit ''-h'' \<or> c_str a = lit ''--help''"

text \<open>
  The option loop, from the argument \<open>argv[i]\<close> on: \<open>usage\<close> and \<open>one\<close> are those of the program (the client's and
  the server's loops differ in nothing else).
\<close>

fun option_loop ::
    "(world \<Rightarrow> world) \<Rightarrow> (bytes \<Rightarrow> bytes \<Rightarrow> 'o \<Rightarrow> 'o option option) \<Rightarrow> bytes list \<Rightarrow> 'o \<Rightarrow> world \<Rightarrow> 'o parse_result \<times> world" where
  "option_loop usage one [] opts w = (ParseOk opts, w)"
| "option_loop usage one [a] opts w = (if is_help a then (ParseExit, usage w) else (ParseFailed, usage w))"
| "option_loop usage one (a # v # args) opts w =
     (if is_help a then (ParseExit, usage w)
      else case one a v opts of
             None \<Rightarrow> (ParseFailed, usage w)
           | Some None \<Rightarrow> (ParseFailed, w)
           | Some (Some opts) \<Rightarrow> option_loop usage one args opts w)"

definition peerforge_parse_options :: "bytes list \<Rightarrow> world \<Rightarrow> peerforge_options_t parse_result \<times> world" where
  "peerforge_parse_options argv w =
     (case option_loop (peerforge_usage (argv ! 0)) peerforge_option (drop 1 argv) set_defaults w of
        (ParseOk opts, w) \<Rightarrow>
          if po_server opts = None \<or> po_key opts = None \<or> c_strlen (the (po_key opts)) < 12
          then (ParseFailed, peerforge_usage (argv ! 0) w) else (ParseOk opts, w)
      | res \<Rightarrow> res)"

section \<open>net.c\<close>

abbreviation (input) PEERFORGE_INVALID_SOCKET :: int where "PEERFORGE_INVALID_SOCKET \<equiv> -1"

definition peerforge_net_init :: "world \<Rightarrow> int \<times> world" where
  "peerforge_net_init w = (0, w)"

definition peerforge_net_cleanup :: "world \<Rightarrow> world" where
  "peerforge_net_cleanup w = w"

definition peerforge_socket_close :: "int \<Rightarrow> world \<Rightarrow> world" where
  "peerforge_socket_close sock w =
     (if sock = PEERFORGE_INVALID_SOCKET then w else w\<lparr>w_open_fds := removeAll sock (w_open_fds w)\<rparr>)"

definition peerforge_socket_open :: "world \<Rightarrow> int \<times> world" where
  "peerforge_socket_open w =
     (let (fd, w) = syscall sys_socket w
      in (fd, if 0 \<le> fd then w\<lparr>w_open_fds := w_open_fds w @ [fd]\<rparr> else w))"

text \<open>\<open>getaddrinfo\<close> fills in the port given to it.\<close>

definition peerforge_resolve_server :: "bytes \<Rightarrow> u16 \<Rightarrow> sockaddr_in \<Rightarrow> world \<Rightarrow> int \<times> sockaddr_in \<times> world" where
  "peerforge_resolve_server host port out w =
     (case syscall (\<lambda>e t. sys_getaddrinfo e t (c_str host)) w of
        (Inl err, w) \<Rightarrow>
          (-1, out, fput_stderr (lit ''resolve failed for '' @ c_str host @ lit '':'' @ fmt_u (unat port) @ [10]) w)
      | (Inr addr, w) \<Rightarrow> (0, addr\<lparr>sin_port := htons port\<rparr>, w))"

definition peerforge_wait_readable :: "world \<Rightarrow> int \<times> world" where
  "peerforge_wait_readable w = syscall sys_poll w"

definition peerforge_now_ms :: "world \<Rightarrow> u64 \<times> world" where
  "peerforge_now_ms w =
     (let ((tv_sec, tv_nsec), w) = syscall sys_clock w
      in (tv_sec * 1000 + tv_nsec div 1000000, w))"

section \<open>client.c\<close>

record peerforge_client_t =
  pc_sock :: int
  pc_virt_ip :: u32
  pc_assigned :: bool

record peerforge_session_t =
  ps_server :: sockaddr_in
  ps_key :: bytes
  ps_timeout_ms :: int

definition peerforge_client_init :: peerforge_client_t where
  "peerforge_client_init = \<lparr>pc_sock = PEERFORGE_INVALID_SOCKET, pc_virt_ip = 0, pc_assigned = False\<rparr>"

definition peerforge_client_open :: "peerforge_client_t \<Rightarrow> world \<Rightarrow> int \<times> peerforge_client_t \<times> world" where
  "peerforge_client_open client w =
     (let (fd, w) = peerforge_socket_open w;
          client = client\<lparr>pc_sock := fd\<rparr>
      in (if pc_sock client = PEERFORGE_INVALID_SOCKET then -1 else 0, client, w))"

definition peerforge_client_close :: "peerforge_client_t \<Rightarrow> world \<Rightarrow> peerforge_client_t \<times> world" where
  "peerforge_client_close client w =
     (let w = peerforge_socket_close (pc_sock client) w in (peerforge_client_init, w))"

definition send_encrypted :: "bytes \<Rightarrow> int \<Rightarrow> peerforge_session_t \<Rightarrow> world \<Rightarrow> int \<times> bytes \<times> world" where
  "send_encrypted buf len session w =
     (let (wire_len, buf, w) = proto_encrypt buf len (ps_key session) w
      in if wire_len < 0 then (-1, buf, w)
         else
           let wire = take (nat wire_len) buf;
               (sent, w) = syscall (\<lambda>e t. sys_sendto e t wire (ps_server session)) w;
               w = record_sent sent wire (ps_server session) w
           in (if sent = wire_len then 0 else -1, buf, w))"

text \<open>The value returned, the buffer, the type and payload length stored, and the world.\<close>

definition recv_message :: "peerforge_session_t \<Rightarrow> bytes \<Rightarrow> world \<Rightarrow> int \<times> bytes \<times> (u8 \<times> u16) \<times> world" where
  "recv_message session buf w =
     (let (ready, w) = peerforge_wait_readable w
      in if ready \<le> 0 then (ready, buf, (0, 0), w)
         else
           let (res, w) = syscall sys_recvfrom w;
               (len, buf) = (case res of
                               RecvFailed _ \<Rightarrow> (-1, buf)
                             | RecvData d from \<Rightarrow>
                                 let n = min (length d) TUND_MAX_PKT in (int n, memcpy_at 0 (take n d) buf));
               (len, buf) = proto_decrypt buf len (ps_key session)
           in if len < int TUND_HDR_SIZE then (-1, buf, (0, 0), w)
              else case proto_read_hdr buf of
                     Inl _ \<Rightarrow> (-1, buf, (0, 0), w)
                   | Inr (type, payload_len) \<Rightarrow>
                       (if len < int TUND_HDR_SIZE + uint payload_len then -1 else len, buf, (type, payload_len), w))"

definition handle_server_keepalive :: "bytes \<Rightarrow> peerforge_session_t \<Rightarrow> bytes \<Rightarrow> u16 \<Rightarrow> world \<Rightarrow> world" where
  "handle_server_keepalive ub session payload payload_len w =
     (case proto_read_keepalive_timestamp payload payload_len of
        None \<Rightarrow> w
      | Some timestamp \<Rightarrow>
          let (len, buf, w) = proto_build_keepalive_ack ub timestamp w;
              (_, _, w) = send_encrypted buf len session w
          in w)"

fun peerforge_client_drain :: "nat \<Rightarrow> bytes \<Rightarrow> peerforge_session_t \<Rightarrow> world \<Rightarrow> world option" where
  "peerforge_client_drain 0 ub session w = None"
| "peerforge_client_drain (Suc fuel) ub session w =
     (case recv_message session ub w of (len, buf, (type, payload_len), w) \<Rightarrow>
        if len \<le> 0 then Some w
        else
          let w = (if type = MSG_KEEPALIVE
                   then handle_server_keepalive ub session (drop TUND_HDR_SIZE buf) payload_len w else w)
          in peerforge_client_drain fuel ub session w)"

text \<open>
  The loop that waits for a reply until the deadline, the same in the three functions below but for the
  reply it looks for: server keepalives are answered, everything else that is not wanted is dropped. It
  gives whether the reply came, with the buffer that holds it. The second reading of the clock gives the
  timeout of \<open>select\<close>, whose outcome is the environment's.
\<close>

fun await_reply ::
    "nat \<Rightarrow> (u8 \<Rightarrow> bytes \<Rightarrow> u16 \<Rightarrow> bool) \<Rightarrow> bytes \<Rightarrow> peerforge_session_t \<Rightarrow> u64 \<Rightarrow> bytes \<Rightarrow> world \<Rightarrow> (bool \<times> bytes \<times> world) option" where
  "await_reply 0 wanted ub session deadline buf w = None"
| "await_reply (Suc fuel) wanted ub session deadline buf w =
     (let (now, w) = peerforge_now_ms w
      in if \<not> now < deadline then Some (False, buf, w)
         else
           let (_, w) = peerforge_now_ms w
           in case recv_message session buf w of (len, buf, (type, payload_len), w) \<Rightarrow>
                if len \<le> 0 then await_reply fuel wanted ub session deadline buf w
                else if type = MSG_KEEPALIVE
                then await_reply fuel wanted ub session deadline buf
                       (handle_server_keepalive ub session (drop TUND_HDR_SIZE buf) payload_len w)
                else if wanted type (drop TUND_HDR_SIZE buf) payload_len then Some (True, buf, w)
                else await_reply fuel wanted ub session deadline buf w)"

definition wants_assign :: "u8 \<Rightarrow> bytes \<Rightarrow> u16 \<Rightarrow> bool" where
  "wants_assign type payload payload_len \<longleftrightarrow> type = MSG_ASSIGN \<and> 10 \<le> payload_len"

definition peerforge_register_client ::
    "nat \<Rightarrow> bytes \<Rightarrow> peerforge_client_t \<Rightarrow> int \<Rightarrow> peerforge_session_t \<Rightarrow> world \<Rightarrow> (int \<times> peerforge_client_t \<times> world) option" where
  "peerforge_register_client fuel ub client index session w =
     (let name = snprintf (zeros TUND_NAME_LEN) TUND_NAME_LEN (lit ''forge-'' @ fmt_zd 3 (index + 1));
          (len, buf, w) = proto_build_register ub name w;
          (r, buf, w) = send_encrypted buf len session w
      in if r < 0 then Some (-1, client, w)
         else
           let (now, w) = peerforge_now_ms w;
               deadline = now + word_of_int (ps_timeout_ms session)
           in case await_reply fuel wants_assign ub session deadline buf w of
                None \<Rightarrow> None
              | Some (False, buf, w) \<Rightarrow> Some (-1, client, w)
              | Some (True, buf, w) \<Rightarrow>
                  Some (0, client\<lparr>pc_virt_ip := u32_of_mem (slice TUND_HDR_SIZE 4 buf), pc_assigned := True\<rparr>, w))"

definition wants_ack :: "u64 \<Rightarrow> u8 \<Rightarrow> bytes \<Rightarrow> u16 \<Rightarrow> bool" where
  "wants_ack timestamp type payload payload_len \<longleftrightarrow>
     type = MSG_KEEPALIVE_ACK \<and> proto_read_keepalive_timestamp payload payload_len = Some timestamp"

text \<open>The loop over the clients from the first of the list on.\<close>

fun peerforge_keepalive_round ::
    "nat \<Rightarrow> bytes \<Rightarrow> peerforge_client_t list \<Rightarrow> peerforge_session_t \<Rightarrow> world \<Rightarrow> (nat \<times> world) option" where
  "peerforge_keepalive_round fuel ub [] session w = Some (0, w)"
| "peerforge_keepalive_round fuel ub (client # clients) session w =
     (if \<not> pc_assigned client then peerforge_keepalive_round fuel ub clients session w
      else
        let (timestamp, w) = peerforge_now_ms w;
            (len, buf, w) = proto_build_keepalive ub timestamp w;
            (r, buf, w) = send_encrypted buf len session w
        in if r < 0 then peerforge_keepalive_round fuel ub clients session w
           else
             let (now, w) = peerforge_now_ms w;
                 deadline = now + word_of_int (ps_timeout_ms session)
             in case await_reply fuel (wants_ack timestamp) ub session deadline buf w of
                  None \<Rightarrow> None
                | Some (found, buf, w) \<Rightarrow>
                    map_option (\<lambda>(ok, w). (if found then ok + 1 else ok, w))
                      (peerforge_keepalive_round fuel ub clients session w))"

definition build_ipv4_probe :: "bytes \<Rightarrow> u32 \<Rightarrow> u32 \<Rightarrow> bytes" where
  "build_ipv4_probe pkt src dst =
     (let pkt = memcpy_at 0 (zeros 20) pkt;
          pkt = pkt[0 := 0x45];
          pkt = pkt[8 := 64];
          pkt = pkt[9 := 253];
          total = htons 20;
          pkt = memcpy_at 2 (mem_of_u16 total) pkt;
          pkt = memcpy_at 12 (mem_of_u32 src) pkt
      in memcpy_at 16 (mem_of_u32 dst) pkt)"

definition wants_probe :: "u32 \<Rightarrow> u32 \<Rightarrow> u8 \<Rightarrow> bytes \<Rightarrow> u16 \<Rightarrow> bool" where
  "wants_probe src dst type payload payload_len \<longleftrightarrow>
     type = MSG_DATA \<and> 20 \<le> payload_len \<and> proto_get_src_ip payload payload_len = src \<and>
     proto_get_dst_ip payload payload_len = dst"

text \<open>The loop over the pairs \<open>i\<close>, for the list of assigned clients.\<close>

fun data_probe_loop ::
    "nat \<Rightarrow> bytes \<Rightarrow> peerforge_client_t list \<Rightarrow> nat \<Rightarrow> nat \<Rightarrow> peerforge_session_t \<Rightarrow> world \<Rightarrow> (nat \<times> world) option" where
  "data_probe_loop fuel ub active i 0 session w = Some (0, w)"
| "data_probe_loop fuel ub active i (Suc pairs) session w =
     (let src = active ! (i mod length active);
          dst = active ! ((i + 1) mod length active);
          ip_pkt = build_ipv4_probe (take 20 ub) (pc_virt_ip src) (pc_virt_ip dst);
          (len, buf, w) = proto_build_data ub ip_pkt 20 w;
          (r, buf, w) = send_encrypted buf len session w
      in if r < 0 then data_probe_loop fuel ub active (i + 1) pairs session w
         else
           let (now, w) = peerforge_now_ms w;
               deadline = now + word_of_int (ps_timeout_ms session)
           in case await_reply fuel (wants_probe (pc_virt_ip src) (pc_virt_ip dst)) ub session deadline buf w of
                None \<Rightarrow> None
              | Some (found, buf, w) \<Rightarrow>
                  map_option (\<lambda>(ok, w). (if found then ok + 1 else ok, w))
                    (data_probe_loop fuel ub active (i + 1) pairs session w))"

definition peerforge_data_probe ::
    "nat \<Rightarrow> bytes \<Rightarrow> peerforge_client_t list \<Rightarrow> nat \<Rightarrow> peerforge_session_t \<Rightarrow> world \<Rightarrow> (nat \<times> world) option" where
  "peerforge_data_probe fuel ub clients pairs session w =
     (let active = filter pc_assigned clients
      in if length active < 2 then Some (0, w)
         else data_probe_loop fuel ub active 0 pairs session w)"

section \<open>main.c\<close>

fun close_clients :: "peerforge_client_t list \<Rightarrow> world \<Rightarrow> world" where
  "close_clients [] w = w"
| "close_clients (client # clients) w = close_clients clients (snd (peerforge_client_close client w))"

text \<open>\<open>for (j = 0; j <= i; j++)\<close>: draining the clients that have a socket.\<close>

fun drain_clients :: "nat \<Rightarrow> bytes \<Rightarrow> peerforge_client_t list \<Rightarrow> peerforge_session_t \<Rightarrow> world \<Rightarrow> world option" where
  "drain_clients fuel ub [] session w = Some w"
| "drain_clients fuel ub (client # clients) session w =
     (if pc_sock client \<noteq> PEERFORGE_INVALID_SOCKET
      then case peerforge_client_drain fuel ub session w of
             None \<Rightarrow> None | Some w \<Rightarrow> drain_clients fuel ub clients session w
      else drain_clients fuel ub clients session w)"

text \<open>
  The registration loop: \<open>ready\<close> are the clients before \<open>i\<close>, the list those from \<open>i\<close> on; the count of
  registered clients and all clients.
\<close>

fun register_clients ::
    "nat \<Rightarrow> bytes \<Rightarrow> peerforge_client_t list \<Rightarrow> peerforge_client_t list \<Rightarrow> peerforge_session_t \<Rightarrow> world \<Rightarrow>
     (nat \<times> peerforge_client_t list \<times> world) option" where
  "register_clients fuel ub done [] session w = Some (0, done, w)"
| "register_clients fuel ub done (client # clients) session w =
     (case peerforge_client_open client w of (r, client, w) \<Rightarrow>
        case (if r = 0 then peerforge_register_client fuel ub client (int (length done)) session w else Some (-1, client, w)) of
          None \<Rightarrow> None
        | Some (r, client, w) \<Rightarrow>
            (case drain_clients fuel ub (done @ [client]) session w of
               None \<Rightarrow> None
             | Some w \<Rightarrow>
                 map_option (\<lambda>(n, cs, w). (if r = 0 then n + 1 else n, cs, w))
                   (register_clients fuel ub (done @ [client]) clients session w)))"

fun keepalive_rounds ::
    "nat \<Rightarrow> bytes \<Rightarrow> peerforge_client_t list \<Rightarrow> nat \<Rightarrow> peerforge_session_t \<Rightarrow> world \<Rightarrow> (nat \<times> world) option" where
  "keepalive_rounds fuel ub clients 0 session w = Some (0, w)"
| "keepalive_rounds fuel ub clients (Suc n) session w =
     (case peerforge_keepalive_round fuel ub clients session w of
        None \<Rightarrow> None
      | Some (ok, w) \<Rightarrow> map_option (\<lambda>(k, w). (ok + k, w)) (keepalive_rounds fuel ub clients n session w))"

definition fput_stdout :: "bytes \<Rightarrow> world \<Rightarrow> world" where
  "fput_stdout s w = w\<lparr>w_stdout := w_stdout w @ s\<rparr>"

text \<open>The report and the exit status of a run.\<close>

definition peerforge_report :: "peerforge_options_t \<Rightarrow> nat \<Rightarrow> u64 \<Rightarrow> nat \<Rightarrow> nat \<Rightarrow> world \<Rightarrow> world" where
  "peerforge_report opts registered registered_ms keepalive_ok data_ok w =
     (let w = fput_stdout (lit ''registered: '' @ fmt_u registered @ lit ''/'' @ fmt_d (po_clients opts) @ lit '' in '' @
                fmt_u (unat registered_ms) @ lit ''ms'' @ [10]) w;
          w = (if 0 < po_keepalives opts
               then fput_stdout (lit ''keepalive acks: '' @ fmt_u keepalive_ok @ lit ''/'' @
                      fmt_d (int registered * po_keepalives opts) @ [10]) w else w)
      in if 0 < po_data_pairs opts
         then fput_stdout (lit ''data probes: '' @ fmt_u data_ok @ lit ''/'' @ fmt_d (po_data_pairs opts) @ [10]) w else w)"

definition peerforge_status :: "peerforge_options_t \<Rightarrow> nat \<Rightarrow> nat \<Rightarrow> nat \<Rightarrow> int" where
  "peerforge_status opts registered keepalive_ok data_ok =
     (if int registered \<noteq> po_clients opts then 1
      else if 0 < po_keepalives opts \<and> int keepalive_ok \<noteq> int registered * po_keepalives opts then 1
      else if 0 < po_data_pairs opts \<and> int data_ok \<noteq> po_data_pairs opts then 1
      else 0)"

text \<open>\<open>alloc\<close>: whether \<open>calloc\<close> succeeds. The options have a server and a key, as \<open>main\<close> guarantees.\<close>

definition run_peerforge :: "nat \<Rightarrow> bytes \<Rightarrow> bool \<Rightarrow> peerforge_options_t \<Rightarrow> world \<Rightarrow> (int \<times> world) option" where
  "run_peerforge fuel ub alloc opts w =
     (case peerforge_resolve_server (the (po_server opts)) (po_port opts) sockaddr0 w of (r, server, w) \<Rightarrow>
        if r < 0 then Some (1, w)
        else
          let session = \<lparr>ps_server = server, ps_key = proto_key_from_passphrase (the (po_key opts)),
                         ps_timeout_ms = po_timeout_ms opts\<rparr>
          in if \<not> alloc then Some (1, w)
             else
               let clients = replicate (nat (po_clients opts)) peerforge_client_init;
                   (started, w) = peerforge_now_ms w
               in case register_clients fuel ub [] clients session w of
                    None \<Rightarrow> None
                  | Some (registered, clients, w) \<Rightarrow>
                      let (now, w) = peerforge_now_ms w;
                          registered_ms = now - started
                      in case keepalive_rounds fuel ub clients (nat (po_keepalives opts)) session w of
                           None \<Rightarrow> None
                         | Some (keepalive_ok, w) \<Rightarrow>
                             (case peerforge_data_probe fuel ub clients (nat (po_data_pairs opts)) session w of
                                None \<Rightarrow> None
                              | Some (data_ok, w) \<Rightarrow>
                                  let w = peerforge_report opts registered registered_ms keepalive_ok data_ok w;
                                      w = close_clients clients w
                                  in Some (peerforge_status opts registered keepalive_ok data_ok, w)))"

definition peerforge_main :: "nat \<Rightarrow> bytes \<Rightarrow> bool \<Rightarrow> bytes list \<Rightarrow> world \<Rightarrow> (int \<times> world) option" where
  "peerforge_main fuel ub alloc argv w =
     (case peerforge_parse_options argv w of
        (ParseExit, w) \<Rightarrow> Some (0, w)
      | (ParseFailed, w) \<Rightarrow> Some (2, w)
      | (ParseOk opts, w) \<Rightarrow>
          (case peerforge_net_init w of (r, w) \<Rightarrow>
             if r < 0 then Some (1, w)
             else map_option (\<lambda>(result, w). (result, peerforge_net_cleanup w)) (run_peerforge fuel ub alloc opts w)))"

end
