(* ===== verification/Server_Inv.thy ===== *)
theory Server_Inv
  imports Server_Threads
begin

text \<open>
  The invariant of the server's peer table and its preservation by every critical section: 253 slots,
  a count equal to the number of active slots, pairwise distinct virtual addresses in
  10.9.0.2 .. 10.9.0.254 and pairwise distinct endpoints among the active peers, names terminated
  inside their arrays, and replay windows that represent some set of accepted numbers.
\<close>

section \<open>The invariant\<close>

definition peer_key :: "peer_t \<Rightarrow> u32 \<times> u16" where
  "peer_key p = (sin_addr (peer_real_addr p), sin_port (peer_real_addr p))"

definition peer_wf :: "peer_t \<Rightarrow> bool" where
  "peer_wf p \<longleftrightarrow> length (peer_name p) = TUND_NAME_LEN \<and> terminated (peer_name p) \<and>
     (\<exists>A. replay_repr (peer_replay p) A)"

definition pool_ip :: "u32 \<Rightarrow> bool" where
  "pool_ip ip_n \<longleftrightarrow> TUND_IP_START \<le> ntohl ip_n \<and> ntohl ip_n \<le> TUND_IP_END"

definition peers_ok :: "peer_t list \<Rightarrow> bool" where
  "peers_ok ps \<longleftrightarrow>
     length ps = TUND_MAX_PEERS \<and> list_all peer_wf ps \<and>
     (\<forall>i < length ps. peer_active (ps ! i) \<longrightarrow> pool_ip (peer_virt_ip (ps ! i))) \<and>
     (\<forall>i < length ps. \<forall>j < length ps. peer_active (ps ! i) \<longrightarrow> peer_active (ps ! j) \<longrightarrow> i \<noteq> j \<longrightarrow>
        peer_virt_ip (ps ! i) \<noteq> peer_virt_ip (ps ! j) \<and> peer_key (ps ! i) \<noteq> peer_key (ps ! j))"

definition server_inv :: "server_t \<Rightarrow> bool" where
  "server_inv srv \<longleftrightarrow>
     peers_ok (srv_peers srv) \<and> srv_peer_count srv = int (count_if peer_active (srv_peers srv))"

lemma server_inv_length [simp, len_simps]: "server_inv srv \<Longrightarrow> length (srv_peers srv) = 253"
  by (simp add: server_inv_def peers_ok_def)

lemma server_inv_peers_ok: "server_inv srv \<Longrightarrow> peers_ok (srv_peers srv)"
  by (simp add: server_inv_def)

lemma peers_ok_nth_wf: "peers_ok ps \<Longrightarrow> i < length ps \<Longrightarrow> peer_wf (ps ! i)"
  by (simp add: peers_ok_def list_all_length)

text \<open>An update that keeps a peer's identity, or retires the peer, keeps the table well-formed.\<close>

definition peer_kept :: "peer_t \<Rightarrow> peer_t \<Rightarrow> bool" where
  "peer_kept p p' \<longleftrightarrow> peer_wf p' \<and>
     (peer_active p' \<longrightarrow> peer_active p \<and> peer_virt_ip p' = peer_virt_ip p \<and> peer_key p' = peer_key p)"

lemma peers_ok_update:
  assumes "peers_ok ps" "i < length ps" "peer_kept (ps ! i) p'"
  shows "peers_ok (ps[i := p'])"
proof -
  have idn: "peer_active (ps[i := p'] ! j) \<Longrightarrow> j < length ps \<Longrightarrow>
      peer_active (ps ! j) \<and> peer_virt_ip (ps[i := p'] ! j) = peer_virt_ip (ps ! j) \<and>
      peer_key (ps[i := p'] ! j) = peer_key (ps ! j)" for j
    using assms(3) by (cases "i = j") (auto simp: peer_kept_def)
  have wf: "list_all peer_wf (ps[i := p'])"
    using assms by (auto simp: peers_ok_def list_all_length peer_kept_def nth_list_update)
  show ?thesis
    unfolding peers_ok_def using wf idn assms(1) by (simp add: peers_ok_def)
qed

lemma server_inv_update:
  assumes inv: "server_inv srv" and i: "i < 253" and kept: "peer_kept (srv_peers srv ! i) p'"
    and act: "peer_active p' = peer_active (srv_peers srv ! i)"
  shows "server_inv (srv\<lparr>srv_peers := (srv_peers srv)[i := p']\<rparr>)"
proof -
  have "peers_ok ((srv_peers srv)[i := p'])"
    using inv i kept by (intro peers_ok_update server_inv_peers_ok) simp_all
  moreover have "count_if peer_active ((srv_peers srv)[i := p']) = count_if peer_active (srv_peers srv)"
    using act by (intro count_if_update_same) simp
  ultimately show ?thesis using inv by (simp add: server_inv_def)
qed

lemma peer_kept_fields:
  assumes "peer_wf p"
  shows "peer_kept p (p\<lparr>peer_last_seen := t\<rparr>)" "peer_kept p (p\<lparr>peer_bytes_in := x\<rparr>)"
    "peer_kept p (p\<lparr>peer_bytes_out := x\<rparr>)"
    "peer_kept p (p\<lparr>peer_last_seen := t, peer_rtt_ms := x, peer_has_rtt := b\<rparr>)"
    "peer_kept p (p\<lparr>peer_active := False\<rparr>)"
  using assms by (simp_all add: peer_kept_def peer_wf_def peer_key_def)

lemma peer_kept_replay:
  assumes "peer_wf p" "proto_replay_accept (peer_replay p) q = (ok, win)"
  shows "peer_kept p (p\<lparr>peer_replay := win\<rparr>)" "peer_kept p (p\<lparr>peer_replay := win, peer_last_seen := t\<rparr>)"
  using assms replay_accept_spec(1) [of "peer_replay p"]
  by (auto simp: peer_kept_def peer_wf_def peer_key_def) metis+

text \<open>The addresses of the pool are hosts of the virtual LAN, neither the server nor the broadcast address.\<close>

lemma pool_lan_host: "pool_ip vip \<Longrightarrow> lan_host (ntohl vip) \<and> vip \<noteq> htonl TUND_SERVER_IP \<and> vip \<noteq> htonl 0x0A0900FF"
  unfolding eq_htonl_iff by (auto simp: pool_ip_def lan_host_def word_le_nat_alt)

lemma active_pool: "server_inv srv \<Longrightarrow> j < 253 \<Longrightarrow> peer_active (srv_peers srv ! j) \<Longrightarrow> pool_ip (peer_virt_ip (srv_peers srv ! j))"
  using server_inv_peers_ok [of srv] server_inv_length [of srv] unfolding peers_ok_def by metis

section \<open>Finding peers\<close>

lemma find_by_addr_Some:
  assumes "server_find_peer_by_addr srv from = Some i" "server_inv srv"
  shows "i < 253" "peer_active (srv_peers srv ! i)" "peer_key (srv_peers srv ! i) = (sin_addr from, sin_port from)"
    "peer_wf (srv_peers srv ! i)"
proof -
  have f: "i < length (srv_peers srv)" "peer_active (srv_peers srv ! i)"
    "sin_addr (peer_real_addr (srv_peers srv ! i)) = sin_addr from"
    "sin_port (peer_real_addr (srv_peers srv ! i)) = sin_port from"
    using first_idx_Some [OF assms(1) [unfolded server_find_peer_by_addr_def]] by blast+
  show "i < 253" "peer_active (srv_peers srv ! i)" "peer_key (srv_peers srv ! i) = (sin_addr from, sin_port from)"
    using f assms(2) by (simp_all add: peer_key_def)
  show "peer_wf (srv_peers srv ! i)"
    by (rule peers_ok_nth_wf [OF server_inv_peers_ok [OF assms(2)] f(1)])
qed

lemma find_by_addr_unique:
  assumes inv: "server_inv srv" and i: "i < 253" "peer_active (srv_peers srv ! i)"
    "peer_key (srv_peers srv ! i) = (sin_addr from, sin_port from)"
  shows "server_find_peer_by_addr srv from = Some i"
  unfolding server_find_peer_by_addr_def
proof (rule first_idx_unique)
  show "i < length (srv_peers srv)" using inv i by simp
  show "peer_active (srv_peers srv ! i) \<and> sin_addr (peer_real_addr (srv_peers srv ! i)) = sin_addr from \<and>
      sin_port (peer_real_addr (srv_peers srv ! i)) = sin_port from"
    using i by (simp add: peer_key_def)
  fix j assume "j < length (srv_peers srv)"
    "peer_active (srv_peers srv ! j) \<and> sin_addr (peer_real_addr (srv_peers srv ! j)) = sin_addr from \<and>
      sin_port (peer_real_addr (srv_peers srv ! j)) = sin_port from"
  with inv i show "j = i"
    unfolding server_inv_def peers_ok_def peer_key_def by (metis prod.inject)
qed

lemma find_by_vip_unique:
  assumes inv: "server_inv srv" and i: "i < 253" "peer_active (srv_peers srv ! i)"
    "peer_virt_ip (srv_peers srv ! i) = vip"
  shows "server_find_peer_by_vip srv vip = Some i"
  unfolding server_find_peer_by_vip_def
proof (rule first_idx_unique)
  show "i < length (srv_peers srv)" using inv i by simp
  show "peer_active (srv_peers srv ! i) \<and> peer_virt_ip (srv_peers srv ! i) = vip" using i by simp
  fix j assume "j < length (srv_peers srv)"
    "peer_active (srv_peers srv ! j) \<and> peer_virt_ip (srv_peers srv ! j) = vip"
  with inv i show "j = i" unfolding server_inv_def peers_ok_def by metis
qed

lemma find_by_vip_Some:
  assumes "server_find_peer_by_vip srv vip = Some i"
  shows "i < length (srv_peers srv)" "peer_active (srv_peers srv ! i)" "peer_virt_ip (srv_peers srv ! i) = vip"
  using first_idx_Some [OF assms [unfolded server_find_peer_by_vip_def]] by auto

section \<open>Address allocation\<close>

lemma htonl_eq_0 [simp]: "htonl x = 0 \<longleftrightarrow> x = 0"
proof -
  have "htonl 0 = 0" by code_simp
  then show ?thesis by (metis htonl_eq_iff)
qed

lemma server_ip_taken_iff:
  "server_ip_taken srv ip \<longleftrightarrow> (\<exists>i < length (srv_peers srv). peer_active (srv_peers srv ! i) \<and> peer_virt_ip (srv_peers srv ! i) = ip)"
  unfolding server_ip_taken_def first_idx_None by (metis in_set_conv_nth)

lemma alloc_loop_spec:
  assumes "0x0A090002 \<le> unat ip0"
  shows "(server_alloc_ip_loop srv ip0 = 0 \<and> (\<forall>ip. ip0 \<le> ip \<and> ip \<le> TUND_IP_END \<longrightarrow> server_ip_taken srv (htonl ip))) \<or>
    (\<exists>ip. ip0 \<le> ip \<and> ip \<le> TUND_IP_END \<and> server_alloc_ip_loop srv ip0 = htonl ip \<and> \<not> server_ip_taken srv (htonl ip) \<and>
      (\<forall>q. ip0 \<le> q \<and> q < ip \<longrightarrow> server_ip_taken srv (htonl q)))"
  using assms
proof (induction srv ip0 rule: server_alloc_ip_loop.induct)
  case (1 srv ip0)
  show ?case
  proof (cases "ip0 \<le> TUND_IP_END")
    case False
    then show ?thesis by (subst server_alloc_ip_loop.simps) (auto simp: not_le intro: less_le_trans)
  next
    case True
    show ?thesis
    proof (cases "server_ip_taken srv (htonl ip0)")
      case False
      with True show ?thesis by (subst (2) server_alloc_ip_loop.simps) auto
    next
      case taken: True
      have le: "unat ip0 \<le> 0x0A0900FE" using True by (simp add: word_le_nat_alt)
      have s: "unat (ip0 + 1) = unat ip0 + 1" using le unat_add_lem [of ip0 1] by simp
      have ge: "ip0 \<le> q \<longleftrightarrow> q = ip0 \<or> ip0 + 1 \<le> q" for q
        using s by (auto simp: word_le_nat_alt word_unat_eq_iff)
      have eq: "server_alloc_ip_loop srv ip0 = server_alloc_ip_loop srv (ip0 + 1)"
        using True taken by (subst server_alloc_ip_loop.simps) simp
      have ih: "(server_alloc_ip_loop srv (ip0 + 1) = 0 \<and> (\<forall>ip. ip0 + 1 \<le> ip \<and> ip \<le> TUND_IP_END \<longrightarrow> server_ip_taken srv (htonl ip))) \<or>
        (\<exists>ip. ip0 + 1 \<le> ip \<and> ip \<le> TUND_IP_END \<and> server_alloc_ip_loop srv (ip0 + 1) = htonl ip \<and> \<not> server_ip_taken srv (htonl ip) \<and>
        (\<forall>q. ip0 + 1 \<le> q \<and> q < ip \<longrightarrow> server_ip_taken srv (htonl q)))"
        using True taken s "1.prems" by (intro "1.IH") auto
      then show ?thesis unfolding eq using ge taken by metis
    qed
  qed
qed

lemma alloc_ip_Some:
  assumes "server_alloc_ip srv \<noteq> 0"
  obtains ip where "TUND_IP_START \<le> ip" "ip \<le> TUND_IP_END" "server_alloc_ip srv = htonl ip"
    "\<not> server_ip_taken srv (htonl ip)" "\<And>q. TUND_IP_START \<le> q \<Longrightarrow> q < ip \<Longrightarrow> server_ip_taken srv (htonl q)"
  using alloc_loop_spec [of TUND_IP_START srv] assms unfolding server_alloc_ip_def by auto

text \<open>As there are as many addresses as slots, a free slot means a free address.\<close>

lemma alloc_ip_succeeds:
  assumes inv: "server_inv srv" and free: "i < 253" "\<not> peer_active (srv_peers srv ! i)"
  shows "server_alloc_ip srv \<noteq> 0"
proof
  assume "server_alloc_ip srv = 0"
  then have all: "TUND_IP_START \<le> ip \<Longrightarrow> ip \<le> TUND_IP_END \<Longrightarrow> server_ip_taken srv (htonl ip)" for ip
    using alloc_loop_spec [of TUND_IP_START srv] by (auto simp: server_alloc_ip_def)
  define S where "S = {i. i < 253 \<and> peer_active (srv_peers srv ! i)}"
  define ip where "ip k = (TUND_IP_START + of_nat k :: u32)" for k
  have uip: "unat (ip k) = 0x0A090002 + k" if "k < 253" for k
  proof -
    have "unat (of_nat k :: u32) = k" using that by (simp add: unat_of_nat take_bit_nat_eq_self)
    then show ?thesis unfolding ip_def using that unat_add_lem [of "TUND_IP_START :: u32" "of_nat k"] by simp
  qed
  have "\<exists>j \<in> S. peer_virt_ip (srv_peers srv ! j) = htonl (ip k)" if "k < 253" for k
    using all [of "ip k"] uip [OF that] that inv
    by (auto simp: word_le_nat_alt server_ip_taken_iff S_def)
  then obtain g where g: "k < 253 \<Longrightarrow> g k \<in> S \<and> peer_virt_ip (srv_peers srv ! g k) = htonl (ip k)" for k
    by metis
  have "inj_on g {..<253}"
  proof (rule inj_onI)
    fix a b assume "a \<in> {..<253}" "b \<in> {..<253}" "g a = g b"
    then have "htonl (ip a) = htonl (ip b)" using g [of a] g [of b] by auto
    then have "unat (ip a) = unat (ip b)" by simp
    then show "a = b" using uip \<open>a \<in> _\<close> \<open>b \<in> _\<close> by simp
  qed
  moreover have "g ` {..<253} \<subseteq> S" using g by auto
  moreover have sub: "S \<subseteq> {..<253} - {i}" using free by (auto simp: S_def)
  ultimately have "card {..<253 :: nat} \<le> card ({..<253 :: nat} - {i})"
    by (meson card_inj_on_le finite_Diff finite_lessThan subset_trans)
  then show False using free(1) by simp
qed

section \<open>Every critical section keeps the invariant\<close>

lemma server_peer_name_wf:
  "unat plen \<le> length payload \<Longrightarrow> length (server_peer_name payload plen idx) = 32"
  "unat plen \<le> length payload \<Longrightarrow> terminated (server_peer_name payload plen idx)"
proof -
  assume len: "unat plen \<le> length payload"
  show "length (server_peer_name payload plen idx) = 32"
    using len by (auto simp: server_peer_name_def)
  show "terminated (server_peer_name payload plen idx)"
    using len by (auto simp: server_peer_name_def terminated_snprintf) (auto simp: terminated_def memcpy_at_def)
qed

lemma server_inv_new_peer:
  assumes inv: "server_inv srv" and none: "server_find_peer_by_addr srv from = None"
    and slot: "server_find_free_slot srv = Some idx" and vip: "server_alloc_ip srv = vip" "vip \<noteq> 0"
    and len: "unat plen \<le> length payload"
  shows "server_inv (srv\<lparr>srv_peers := (srv_peers srv)[idx := server_new_peer idx vip payload plen from seq now],
           srv_peer_count := srv_peer_count srv + 1\<rparr>)"
proof -
  let ?ps = "srv_peers srv" and ?p = "server_new_peer idx vip payload plen from seq now"
  have idx: "idx < length ?ps" "\<not> peer_active (?ps ! idx)"
    using first_idx_Some [OF slot [unfolded server_find_free_slot_def]] by auto
  from vip obtain ip where ip: "TUND_IP_START \<le> ip" "ip \<le> TUND_IP_END" "vip = htonl ip" "\<not> server_ip_taken srv vip"
    using alloc_ip_Some [of srv] by metis
  have key: "peer_key ?p = (sin_addr from, sin_port from)" "peer_virt_ip ?p = vip" "peer_active ?p"
    by (simp_all add: server_new_peer_def peer_key_def)
  have others: "peer_virt_ip (?ps ! j) \<noteq> vip \<and> peer_key (?ps ! j) \<noteq> peer_key ?p"
    if "j < length ?ps" "peer_active (?ps ! j)" for j
    using that ip(4) none key(1) unfolding server_ip_taken_iff server_find_peer_by_addr_def
    by (auto simp: peer_key_def)
  obtain ok win where acc: "proto_replay_accept proto_replay_reset seq = (ok, win)" by fastforce
  have "\<exists>A. replay_repr win A" using window.repr_accept [OF window.repr_reset acc] by blast
  then have wf: "peer_wf ?p"
    using server_peer_name_wf [OF len] acc by (simp add: peer_wf_def server_new_peer_def)
  have ok: "peers_ok ?ps" by (rule server_inv_peers_ok [OF inv])
  have "peers_ok (?ps[idx := ?p])"
    unfolding peers_ok_def
  proof (intro conjI allI impI)
    show "length (?ps[idx := ?p]) = 253" using inv by simp
    show "list_all peer_wf (?ps[idx := ?p])"
      using peers_ok_nth_wf [OF ok] wf idx(1) by (auto simp: list_all_length nth_list_update)
    fix i assume i: "i < length (?ps[idx := ?p])" "peer_active (?ps[idx := ?p] ! i)"
    show "pool_ip (peer_virt_ip (?ps[idx := ?p] ! i))"
      using i ok ip key by (cases "i = idx") (auto simp: peers_ok_def pool_ip_def)
    fix j assume j: "j < length (?ps[idx := ?p])" "peer_active (?ps[idx := ?p] ! j)" "i \<noteq> j"
    have "peer_virt_ip (?ps[idx := ?p] ! i) \<noteq> peer_virt_ip (?ps[idx := ?p] ! j) \<and>
      peer_key (?ps[idx := ?p] ! i) \<noteq> peer_key (?ps[idx := ?p] ! j)"
    proof (cases "i = idx \<or> j = idx")
      case True
      then show ?thesis using i j others key by fastforce
    next
      case False
      then show ?thesis using i j ok by (simp add: peers_ok_def)
    qed
    then show "peer_virt_ip (?ps[idx := ?p] ! i) \<noteq> peer_virt_ip (?ps[idx := ?p] ! j)"
      "peer_key (?ps[idx := ?p] ! i) \<noteq> peer_key (?ps[idx := ?p] ! j)" by auto
  qed
  moreover have "count_if peer_active (?ps[idx := ?p]) = count_if peer_active ?ps + 1"
    using count_if_update [of idx ?ps peer_active ?p] idx key(3) by simp
  ultimately show ?thesis using inv by (simp add: server_inv_def)
qed

lemma server_register_locked_inv [wf_intros]:
  assumes inv: "server_inv srv" and len: "unat plen \<le> length payload"
    and eq: "server_register_locked srv payload plen from seq w = (res, srv', w')"
  shows "server_inv srv'"
proof (cases "server_find_peer_by_addr srv from")
  case (Some idx)
  note f = find_by_addr_Some [OF Some inv]
  obtain ok win where acc: "proto_replay_accept (peer_replay (srv_peers srv ! idx)) seq = (ok, win)" by fastforce
  note k = peer_kept_replay(2) [OF f(4) acc]
  show ?thesis
  proof (cases ok)
    case False
    with eq inv Some acc show ?thesis by (simp add: server_register_locked_def)
  next
    case True
    with eq Some acc have "srv' = srv\<lparr>srv_peers := (srv_peers srv)[idx :=
        (srv_peers srv ! idx)\<lparr>peer_replay := win, peer_last_seen := fst (time_now w)\<rparr>]\<rparr>"
      by (auto simp: server_register_locked_def Let_def split: prod.splits)
    then show ?thesis using server_inv_update [OF inv f(1) k] by simp
  qed
next
  case None
  show ?thesis
  proof (cases "server_find_free_slot srv")
    case slot: (Some idx)
    show ?thesis
    proof (cases "server_alloc_ip srv = 0")
      case False
      with eq None slot have "srv' = srv\<lparr>srv_peers := (srv_peers srv)[idx :=
          server_new_peer idx (server_alloc_ip srv) payload plen from seq (fst (time_now w))],
          srv_peer_count := srv_peer_count srv + 1\<rparr>"
        by (auto simp: server_register_locked_def Let_def split: prod.splits)
      then show ?thesis using server_inv_new_peer [OF inv None slot refl False len] by simp
    qed (use eq inv None slot in \<open>simp add: server_register_locked_def\<close>)
  qed (use eq inv None in \<open>simp add: server_register_locked_def\<close>)
qed

lemma server_accept_locked_inv [wf_intros]:
  assumes inv: "server_inv srv" and eq: "server_accept_locked srv from seq = (ok, nm, srv')"
  shows "server_inv srv'"
proof (cases "server_find_peer_by_addr srv from")
  case (Some idx)
  note f = find_by_addr_Some [OF Some inv]
  obtain ok' win where acc: "proto_replay_accept (peer_replay (srv_peers srv ! idx)) seq = (ok', win)" by fastforce
  from eq Some acc have "srv' = srv\<lparr>srv_peers := (srv_peers srv)[idx := (srv_peers srv ! idx)\<lparr>peer_replay := win\<rparr>]\<rparr>"
    by (auto simp: server_accept_locked_def Let_def)
  then show ?thesis using server_inv_update [OF inv f(1) peer_kept_replay(1) [OF f(4) acc]] by simp
qed (use assms in \<open>simp add: server_accept_locked_def\<close>)

lemma server_inv_deactivate:
  assumes inv: "server_inv srv" and i: "i < 253" "peer_active (srv_peers srv ! i)"
  shows "server_inv (srv\<lparr>srv_peers := (srv_peers srv)[i := (srv_peers srv ! i)\<lparr>peer_active := False\<rparr>],
     srv_peer_count := srv_peer_count srv - 1\<rparr>)"
proof -
  let ?p = "(srv_peers srv ! i)\<lparr>peer_active := False\<rparr>"
  have wf: "peer_wf (srv_peers srv ! i)" using peers_ok_nth_wf [OF server_inv_peers_ok [OF inv]] i inv by simp
  have "peers_ok ((srv_peers srv)[i := ?p])"
    using inv i peer_kept_fields(5) [OF wf] by (intro peers_ok_update server_inv_peers_ok) simp_all
  moreover have "int (count_if peer_active ((srv_peers srv)[i := ?p])) = int (count_if peer_active (srv_peers srv)) - 1"
    using count_if_update [of i "srv_peers srv" peer_active ?p] i inv by simp
  ultimately show ?thesis using inv by (simp add: server_inv_def)
qed

lemma server_disconnect_locked_inv [wf_intros]:
  assumes inv: "server_inv srv" and eq: "server_disconnect_locked srv from w = (res, srv', w')"
  shows "server_inv srv'"
proof (cases "server_find_peer_by_addr srv from")
  case (Some idx)
  note f = find_by_addr_Some [OF Some inv]
  from eq Some have "srv' = srv\<lparr>srv_peers := (srv_peers srv)[idx := (srv_peers srv ! idx)\<lparr>peer_active := False\<rparr>],
     srv_peer_count := srv_peer_count srv - 1\<rparr>"
    by (auto simp: server_disconnect_locked_def Let_def)
  then show ?thesis using server_inv_deactivate [OF inv f(1,2)] by simp
qed (use assms in \<open>simp add: server_disconnect_locked_def\<close>)

lemma server_data_locked_inv [wf_intros]:
  assumes inv: "server_inv srv" and eq: "server_data_locked srv src dst plen from w = (res, srv', w')"
  shows "server_inv srv'"
proof (cases "server_find_peer_by_addr srv from")
  case (Some idx)
  note f = find_by_addr_Some [OF Some inv]
  let ?p = "srv_peers srv ! idx"
  have "srv' = srv \<or> srv' = srv\<lparr>srv_peers := (srv_peers srv)[idx := ?p\<lparr>peer_bytes_in := peer_bytes_in ?p + ucast plen\<rparr>]\<rparr>"
    using eq Some by (auto simp: server_data_locked_def Let_def split: if_splits option.splits)
  then show ?thesis
    using inv server_inv_update [OF inv f(1) peer_kept_fields(2) [OF f(4)]] by auto
qed (use assms in \<open>simp add: server_data_locked_def\<close>)

lemma server_keepalive_locked_inv [wf_intros]:
  assumes inv: "server_inv srv" and eq: "server_keepalive_locked srv from w = (res, srv', w')"
  shows "server_inv srv'"
proof (cases "server_find_peer_by_addr srv from")
  case (Some idx)
  note f = find_by_addr_Some [OF Some inv]
  have "srv' = srv\<lparr>srv_peers := (srv_peers srv)[idx := (srv_peers srv ! idx)\<lparr>peer_last_seen := fst (time_now w)\<rparr>]\<rparr>"
    using eq Some by (auto simp: server_keepalive_locked_def Let_def split: prod.splits)
  then show ?thesis using server_inv_update [OF inv f(1) peer_kept_fields(1) [OF f(4)]] by simp
qed (use assms in \<open>simp add: server_keepalive_locked_def\<close>)

lemma server_keepalive_ack_locked_inv [wf_intros]:
  assumes inv: "server_inv srv" and eq: "server_keepalive_ack_locked srv from sample w = (srv', w')"
  shows "server_inv srv'"
proof (cases "server_find_peer_by_addr srv from")
  case (Some idx)
  note f = find_by_addr_Some [OF Some inv]
  let ?p = "srv_peers srv ! idx"
  have "srv' = srv\<lparr>srv_peers := (srv_peers srv)[idx := ?p\<lparr>peer_last_seen := fst (time_now w),
      peer_rtt_ms := smooth_rtt_ms (peer_rtt_ms ?p) sample (peer_has_rtt ?p), peer_has_rtt := True\<rparr>]\<rparr>"
    using eq Some by (auto simp: server_keepalive_ack_locked_def Let_def split: prod.splits)
  then show ?thesis using server_inv_update [OF inv f(1) peer_kept_fields(4) [OF f(4)]] by simp
qed (use assms in \<open>simp add: server_keepalive_ack_locked_def\<close>)

lemma server_add_peer_bytes_out_inv [wf_intros]:
  assumes inv: "server_inv srv"
  shows "server_inv (server_add_peer_bytes_out srv snap n)"
proof (cases "n = 0 \<or> \<not> (0 \<le> snap_idx snap \<and> snap_idx snap < 253)")
  case False
  define i where "i = nat (snap_idx snap)"
  have i: "i < 253" using False by (auto simp: i_def)
  have wf: "peer_wf (srv_peers srv ! i)" using peers_ok_nth_wf [OF server_inv_peers_ok [OF inv]] i inv by simp
  have "server_add_peer_bytes_out srv snap n = srv \<or> server_add_peer_bytes_out srv snap n =
    srv\<lparr>srv_peers := (srv_peers srv)[i := (srv_peers srv ! i)\<lparr>peer_bytes_out := peer_bytes_out (srv_peers srv ! i) + n\<rparr>]\<rparr>"
    using False by (auto simp: server_add_peer_bytes_out_def Let_def i_def)
  then show ?thesis using inv server_inv_update [OF inv i peer_kept_fields(3) [OF wf]] by auto
qed (use inv in \<open>auto simp: server_add_peer_bytes_out_def\<close>)

lemma peers_ok_kept_all:
  assumes "peers_ok ps" "length ps' = length ps" "\<And>j. j < length ps \<Longrightarrow> peer_kept (ps ! j) (ps' ! j)"
  shows "peers_ok ps'"
proof -
  have idn: "peer_active (ps' ! j) \<Longrightarrow> j < length ps \<Longrightarrow>
      peer_active (ps ! j) \<and> peer_virt_ip (ps' ! j) = peer_virt_ip (ps ! j) \<and> peer_key (ps' ! j) = peer_key (ps ! j)" for j
    using assms(3) [of j] by (auto simp: peer_kept_def)
  have wf: "list_all peer_wf ps'" using assms by (simp add: list_all_length peer_kept_def)
  show ?thesis unfolding peers_ok_def using wf idn assms(1,2) by (simp add: peers_ok_def)
qed

text \<open>The timeout scan retires exactly the expired peers and probes exactly the others.\<close>

definition retire :: "int \<Rightarrow> peer_t \<Rightarrow> peer_t" where
  "retire now p = (if server_peer_expired now p then p\<lparr>peer_active := False\<rparr> else p)"

lemma timeout_scan_spec:
  "server_timeout_scan now k ps =
     (map (retire now) ps,
      map (\<lambda>i. server_snapshot_peer_locked (ps ! i) (k + i)) (filter (\<lambda>i. server_peer_expired now (ps ! i)) [0..<length ps]),
      map (\<lambda>i. server_snapshot_peer_locked (ps ! i) (k + i))
        (filter (\<lambda>i. peer_active (ps ! i) \<and> \<not> server_peer_expired now (ps ! i)) [0..<length ps]))"
proof (induction ps arbitrary: k)
  case (Cons p ps)
  have upt: "[0..<Suc (length ps)] = 0 # map Suc [0..<length ps]"
    by (simp add: upt_conv_Cons map_Suc_upt del: upt_Suc)
  show ?case
    by (simp add: Cons.IH upt retire_def filter_map comp_def server_peer_expired_def del: upt_Suc)
qed simp

lemma count_retire:
  "count_if peer_active (map (retire now) ps) + count_if (server_peer_expired now) ps = count_if peer_active ps"
  by (induction ps) (auto simp: retire_def server_peer_expired_def)

lemma length_filter_nth: "length (filter (\<lambda>i. P (xs ! i)) [0..<length xs]) = count_if P xs"
proof -
  have "map (\<lambda>i. xs ! i) (filter (\<lambda>i. P (xs ! i)) [0..<length xs]) = filter P (map (\<lambda>i. xs ! i) [0..<length xs])"
    by (simp add: filter_map comp_def)
  then show ?thesis by (metis count_if_def length_map map_nth)
qed

lemma server_timeout_locked_inv [wf_intros]:
  assumes inv: "server_inv srv" and eq: "server_timeout_locked srv now = (to, lv, ka, srv')"
  shows "server_inv srv'"
proof -
  have srv': "srv' = srv\<lparr>srv_peers := map (retire now) (srv_peers srv),
      srv_peer_count := srv_peer_count srv - int (count_if (server_peer_expired now) (srv_peers srv))\<rparr>"
    using eq by (auto simp: server_timeout_locked_def Let_def timeout_scan_spec length_filter_nth)
  have "peers_ok (map (retire now) (srv_peers srv))"
  proof (rule peers_ok_kept_all [OF server_inv_peers_ok [OF inv]])
    fix j assume j: "j < length (srv_peers srv)"
    have wf: "peer_wf (srv_peers srv ! j)" by (rule peers_ok_nth_wf [OF server_inv_peers_ok [OF inv] j])
    then show "peer_kept (srv_peers srv ! j) (map (retire now) (srv_peers srv) ! j)"
      using j peer_kept_fields(5) [OF wf] by (simp add: retire_def peer_kept_def)
  qed simp
  then show ?thesis using inv count_retire [of now "srv_peers srv"] by (simp add: srv' server_inv_def)
qed

end
