(* ===== verification/Server_System.thy ===== *)
theory Server_System
  imports Server_Inv
begin

text \<open>
  The server as a system of threads: the main loop, the timeout thread and the TUN thread interleave
  at the granularity of the critical sections on \<open>peers_lock\<close>. \<open>server_step\<close> has one rule per critical
  section, with arbitrary inputs, clocks and snapshots: between taking a snapshot and accounting for
  the bytes sent to it, any other sections may have run.
\<close>

section \<open>The step relation\<close>

inductive server_step :: "server_t \<Rightarrow> server_t \<Rightarrow> bool" where
  step_register: "server_register_locked srv payload plen from sequence w = (res, srv', w') \<Longrightarrow>
     unat plen \<le> length payload \<Longrightarrow> server_step srv srv'"
| step_accept: "server_accept_locked srv from sequence = (ok, known, srv') \<Longrightarrow> server_step srv srv'"
| step_disconnect: "server_disconnect_locked srv from w = (res, srv', w') \<Longrightarrow> server_step srv srv'"
| step_data: "server_data_locked srv src_ip dst_ip plen from w = (res, srv', w') \<Longrightarrow> server_step srv srv'"
| step_keepalive: "server_keepalive_locked srv from w = (res, srv', w') \<Longrightarrow> server_step srv srv'"
| step_keepalive_ack: "server_keepalive_ack_locked srv from sample w = (srv', w') \<Longrightarrow> server_step srv srv'"
| step_timeout: "server_timeout_locked srv now = (timed_out, leave, keepalive, srv') \<Longrightarrow> server_step srv srv'"
| step_bytes_out: "server_step srv (server_add_peer_bytes_out srv snap n)"
| step_flags: "server_step srv (srv\<lparr>srv_timeout_quit := a, srv_tun_quit := b, srv_timeout_started := c, srv_tun_started := d\<rparr>)"
| step_closing: "server_step srv (srv\<lparr>srv_tun := dev, srv_sockfd := fd\<rparr>)"

abbreviation server_steps :: "server_t \<Rightarrow> server_t \<Rightarrow> bool" where
  "server_steps \<equiv> server_step\<^sup>*\<^sup>*"

lemma server_step_inv [wf_intros]: "server_step srv srv' \<Longrightarrow> server_inv srv \<Longrightarrow> server_inv srv'"
proof (induction rule: server_step.induct)
  case (step_flags srv a b c d)
  then show ?case by (simp add: server_inv_def)
next
  case (step_closing srv dev fd)
  then show ?case by (simp add: server_inv_def)
qed (auto intro: server_register_locked_inv server_accept_locked_inv server_disconnect_locked_inv server_data_locked_inv
    server_keepalive_locked_inv server_keepalive_ack_locked_inv server_timeout_locked_inv server_add_peer_bytes_out_inv)

lemma server_steps_inv: "server_steps srv srv' \<Longrightarrow> server_inv srv \<Longrightarrow> server_inv srv'"
  by (induction rule: rtranclp_induct) (auto intro: server_step_inv)

section \<open>What the handlers are made of\<close>

text \<open>
  A reflexive and transitive relation on server states that contains the accounting of sent bytes
  contains every sending loop; one that contains every critical section but that of registration
  contains every handler but registration; one that contains registration too contains the whole
  dispatch. The handlers are taken apart here once; the interpretations use it for the interleaving
  semantics, for the directory and for what can happen to a registered peer.
\<close>

locale server_accounting =
  fixes R :: "server_t \<Rightarrow> server_t \<Rightarrow> bool"
  assumes refl: "R srv srv"
    and trans: "R srv srv1 \<Longrightarrow> R srv1 srv2 \<Longrightarrow> R srv srv2"
    and bytes_out: "R srv (server_add_peer_bytes_out srv snap n)"
begin

lemma send_loop:
  "server_send_loop what ps buf len n srv w = (srv', w') \<Longrightarrow> R srv srv'"
proof (induction ps arbitrary: srv w)
  case (Cons p ps)
  obtain r w1 where s: "net_send buf len (snap_real_addr p) w = (r, w1)" by fastforce
  show ?case
  proof (cases "r < 0")
    case False
    then have "server_send_loop what ps buf len n (server_add_peer_bytes_out srv p n) w1 = (srv', w')"
      using Cons.prems s by simp
    from trans [OF bytes_out Cons.IH [OF this]] show ?thesis .
  qed (use Cons s in \<open>auto simp: Let_def\<close>)
qed (simp add: refl)

lemma data_forward:
  assumes "server_data_forward srv res payload plen dst w = (srv', w')"
  shows "R srv srv'"
proof (cases res)
  case (DataBroadcast ps)
  then show ?thesis using assms send_loop
    by (auto simp: server_data_forward_def Let_def split: prod.splits)
next
  case (DataUnicast d)
  then show ?thesis using assms refl bytes_out
    by (auto simp: server_data_forward_def Let_def split: prod.splits if_splits)
qed (use assms refl in \<open>auto simp: server_data_forward_def\<close>)

lemma announce_timeouts:
  "server_announce_timeouts to lv srv w = (srv', w') \<Longrightarrow> R srv srv'"
proof (induction to arbitrary: srv w)
  case (Cons p to)
  then show ?case
    using send_loop trans by (auto simp: server_send_peer_snapshots_def Let_def split: prod.splits) blast
qed (simp add: refl)

lemma tun_packet:
  assumes "server_tun_packet srv pkt n w = (srv', w')"
  shows "R srv srv'"
  using assms send_loop bytes_out refl
  by (auto simp: server_tun_packet_def server_send_peer_snapshots_def Let_def
      split: prod.splits tun_route.splits if_splits)

lemma tun_iter: "server_tun_iter srv w = (go, srv', w') \<Longrightarrow> R srv srv'"
  using tun_packet refl by (auto simp: server_tun_iter_def Let_def split: if_splits prod.splits)

end

locale server_sections = server_accounting +
  assumes accept: "server_accept_locked srv from sequence = (ok, known, srv') \<Longrightarrow> R srv srv'"
    and disconnect: "server_disconnect_locked srv from w = (left, srv', w') \<Longrightarrow> R srv srv'"
    and data: "server_data_locked srv src_ip dst_ip plen from w = (routed, srv', w') \<Longrightarrow> R srv srv'"
    and keepalive: "server_keepalive_locked srv from w = (pname, srv', w') \<Longrightarrow> R srv srv'"
    and keepalive_ack: "server_keepalive_ack_locked srv from sample w = (srv', w') \<Longrightarrow> R srv srv'"
    and timeout: "server_timeout_locked srv now = (timed_out, leave, probes, srv') \<Longrightarrow> R srv srv'"
begin

lemma handle_disconnect:
  assumes "server_handle_disconnect srv from w = (srv', w')"
  shows "R srv srv'"
proof -
  obtain res srv1 w1 where d: "server_disconnect_locked srv from w = (res, srv1, w1)" by (metis prod_cases3)
  have "R srv1 srv'"
    using assms d send_loop refl
    by (auto simp: server_handle_disconnect_def server_send_peer_snapshots_def Let_def split: option.splits prod.splits)
  then show ?thesis by (rule trans [OF disconnect [OF d]])
qed

lemma handle_data:
  assumes "server_handle_data srv payload plen from w = (srv', w')"
  shows "R srv srv'"
proof -
  let ?s = "proto_get_src_ip payload plen" and ?d = "proto_get_dst_ip payload plen"
  obtain res srv1 w1 where d: "server_data_locked srv ?s ?d plen from w = (res, srv1, w1)" by (metis prod_cases3)
  have "srv' = srv \<or> R srv1 srv'"
    using assms d data_forward by (auto simp: server_handle_data_def Let_def split: if_splits)
  then show ?thesis using trans [OF data [OF d]] refl by auto
qed

lemma handle_keepalive:
  assumes "server_handle_keepalive srv payload plen from w = (srv', w')"
  shows "R srv srv'"
  using assms refl keepalive
  by (auto simp: server_handle_keepalive_def Let_def split: option.splits prod.splits)

lemma handle_keepalive_ack:
  assumes "server_handle_keepalive_ack srv payload plen from w = (srv', w')"
  shows "R srv srv'"
  using assms refl keepalive_ack
  by (auto simp: server_handle_keepalive_ack_def Let_def split: option.splits prod.splits if_splits)

text \<open>A packet that passes the checks of \<open>server_handle_packet\<close> and is not a registration.\<close>

lemma handle_other:
  assumes "server_handle_packet srv buf len from w = (srv', w')" "proto_read_hdr buf = Inr (t, l)" "t \<noteq> MSG_REGISTER"
    "37 + uint l \<le> len" "proto_read_sequence buf = Some q" "server_accept_registered_sequence srv from q w = (ok, srv1, w1)"
  shows "R srv1 srv'"
proof -
  have "(srv', w') = (if \<not> ok then (srv1, w1)
      else if t = 4 then server_handle_data srv1 (drop 37 buf) l from w1
      else if t = 5 then server_handle_keepalive srv1 (drop 37 buf) l from w1
      else if t = 9 then server_handle_keepalive_ack srv1 (drop 37 buf) l from w1
      else if t = 6 then server_handle_disconnect srv1 from w1
      else (srv1, LOG_DEBUG (lit ''Unknown message type 0x'' @ fmt_02X t) w1))"
    using assms by (simp add: server_handle_packet_def Let_def)
  then show ?thesis
    using handle_data handle_keepalive handle_keepalive_ack handle_disconnect refl
    by (auto split: if_splits dest: sym)
qed

lemma timeout_pass:
  assumes "server_timeout_pass srv w = (srv', w')"
  shows "R srv srv'"
  using assms announce_timeouts trans [OF timeout]
  by (auto simp: server_timeout_pass_def Let_def split: prod.splits)

lemma timeout_iter: "server_timeout_iter k srv w = (go, k', srv', w') \<Longrightarrow> R srv srv'"
  using timeout_pass refl by (auto simp: server_timeout_iter_def Let_def split: if_splits prod.splits)

end

lemma accept_registered_locked:
  "server_accept_registered_sequence srv from q w = (ok, srv1, w1) \<Longrightarrow>
   (\<exists>known. server_accept_locked srv from q = (ok, known, srv1)) \<and> w_core w1 = w_core w"
  by (auto simp: server_accept_registered_sequence_def split: prod.splits option.splits)

locale server_dispatch = server_sections +
  assumes register: "server_register_locked srv payload plen from sequence w = (res, srv', w') \<Longrightarrow>
    unat plen \<le> length payload \<Longrightarrow> R srv srv'"
begin

lemma handle_packet:
  assumes eq: "server_handle_packet srv buf len from w = (srv', w')" and len: "len \<le> int (length buf)"
  shows "R srv srv'"
proof (cases "\<exists>t l q. proto_read_hdr buf = Inr (t, l) \<and> 37 + uint l \<le> len \<and> proto_read_sequence buf = Some q")
  case True
  then obtain t l q where hdr: "proto_read_hdr buf = Inr (t, l)" "37 + uint l \<le> len" "proto_read_sequence buf = Some q"
    by blast
  have "uint l = int (unat l)" by (rule uint_nat)
  then have pl: "unat l \<le> length (drop 37 buf)" using hdr(2) len by (simp only: length_drop)
  obtain ok srv1 w1 where acc: "server_accept_registered_sequence srv from q w = (ok, srv1, w1)"
    by (metis prod_cases3)
  show ?thesis
  proof (cases "t = 1")
    case True
    obtain res srv2 w2 where r: "server_register_locked srv (drop 37 buf) l from q w = (res, srv2, w2)"
      by (metis prod_cases3)
    then have "srv' = srv2" using eq hdr True
      by (simp add: server_handle_packet_def server_handle_register_def Let_def)
    then show ?thesis using register [OF r pl] by simp
  next
    case False
    from accept_registered_locked [OF acc] have "R srv srv1" using accept by blast
    from trans [OF this handle_other [OF eq hdr(1) False hdr(2,3) acc]] show ?thesis .
  qed
next
  case False
  then have "srv' = srv"
    using eq by (force simp: server_handle_packet_def Let_def split: sum.splits option.splits if_splits)
  then show ?thesis by (simp add: refl)
qed

lemma run_iter:
  assumes eq: "server_run_iter l srv w = (go, l', srv', w')"
  shows "R srv srv'"
proof (cases "tund_is_running w")
  case True
  obtain ret tps np w1 where p: "net_poll_peers (srv_peers srv) (rl_tui_peers l) (rl_npeers l) w = (ret, tps, np, w1)"
    by (metis prod_cases4)
  obtain n buf fr w2 where r: "net_recv (rl_buf l) (rl_from l) w1 = (n, buf, fr, w2)" by (metis prod_cases4)
  show ?thesis
  proof (cases "0 < ret \<and> 0 < n")
    case got: True
    then have "server_handle_packet srv buf n fr w2 = (srv', w')"
      using eq p r True by (auto simp: server_run_iter_def Let_def split: prod.splits)
    then show ?thesis using net_recv_bound(2) [OF r] got by (intro handle_packet) auto
  next
    case False
    then show ?thesis using eq p r True refl
      by (auto simp: server_run_iter_def Let_def split: prod.splits if_splits)
  qed
qed (use eq refl in \<open>auto simp: server_run_iter_def\<close>)

lemma run_loop:
  "server_run_loop fuel l srv w = Some (srv', w') \<Longrightarrow> R srv srv'"
proof (induction fuel arbitrary: l srv w)
  case (Suc fuel)
  obtain go l1 srv1 w1 where i: "server_run_iter l srv w = (go, l1, srv1, w1)" by (metis prod_cases4)
  note s = run_iter [OF i]
  show ?case
  proof (cases go)
    case True
    then show ?thesis using Suc i trans [OF s] by auto
  qed (use Suc i s in auto)
qed simp

end

interpretation steps: server_dispatch server_steps
  by unfold_locales (auto intro: r_into_rtranclp [of server_step] server_step.intros rtranclp_trans)

section \<open>Runs of the server\<close>

text \<open>What \<open>server_init\<close> returns satisfies the invariant, whether or not it succeeds.\<close>

lemma peer0_wf: "peer_wf peer0"
proof -
  have "replay_repr (peer_replay peer0) {}" by (simp add: peer0_def replay_repr_def)
  then have "\<exists>A. replay_repr (peer_replay peer0) A" by blast
  then show ?thesis by (simp add: peer_wf_def) (simp add: peer0_def terminated_def)
qed

lemma peers_ok_initial: "peers_ok (replicate 253 peer0)"
  using peer0_wf by (auto simp: peers_ok_def list_all_length peer0_def)

lemma server_init_inv [wf_intros]:
  assumes "server_init cfg w = (r, srv, w')" shows "server_inv srv"
proof -
  have "srv_peers srv = replicate 253 peer0 \<and> srv_peer_count srv = 0"
    using assms by (auto simp: server_init_def Let_def split: prod.splits if_splits)
  then show ?thesis using peers_ok_initial by (simp add: server_inv_def peer0_def)
qed

lemma server_run_start_steps:
  assumes "server_run_start srv w = (go, srv', w')" shows "server_steps srv srv'"
proof -
  have "\<exists>a b c d. srv' = srv\<lparr>srv_timeout_quit := a, srv_tun_quit := b, srv_timeout_started := c, srv_tun_started := d\<rparr>"
    using assms by (cases srv) (auto simp: server_run_start_def Let_def split: prod.splits if_splits)
  then show ?thesis using step_flags by blast
qed

end
