(* ===== verification/Server_Lan.thy ===== *)
theory Server_Lan
  imports Server_System
begin

text \<open>
  The server's table as a directory: \<open>lan srv\<close> maps each assigned virtual address to the endpoint and
  the name of the peer that holds it. Every critical section touches the peers without changing their
  identity, adds one peer, or retires peers (\<open>server_step_effect\<close>); seen through \<open>lan\<close> these are the
  steps of the abstract directory \<open>lan_step\<close>. The last section follows the replay windows along the
  steps: a packet that was processed stays refused for as long as its sender stays registered.
\<close>

section \<open>The directory\<close>

definition lan :: "server_t \<Rightarrow> u32 \<Rightarrow> (sockaddr_in \<times> bytes) option" where
  "lan srv vip = map_option (\<lambda>i. (peer_real_addr (srv_peers srv ! i), c_str (peer_name (srv_peers srv ! i))))
     (server_find_peer_by_vip srv vip)"

definition peer_identity :: "peer_t \<Rightarrow> (u32 \<times> sockaddr_in \<times> bytes) option" where
  "peer_identity p = (if peer_active p then Some (peer_virt_ip p, peer_real_addr p, c_str (peer_name p)) else None)"

lemma lan_iff:
  assumes "server_inv srv"
  shows "lan srv vip = Some e \<longleftrightarrow> (\<exists>i < 253. peer_identity (srv_peers srv ! i) = Some (vip, e))"
proof
  assume "lan srv vip = Some e"
  then obtain i where i: "server_find_peer_by_vip srv vip = Some i"
      "e = (peer_real_addr (srv_peers srv ! i), c_str (peer_name (srv_peers srv ! i)))"
    by (auto simp: lan_def)
  then show "\<exists>i < 253. peer_identity (srv_peers srv ! i) = Some (vip, e)"
    using find_by_vip_Some [OF i(1)] assms by (auto simp: peer_identity_def)
next
  assume "\<exists>i < 253. peer_identity (srv_peers srv ! i) = Some (vip, e)"
  then show "lan srv vip = Some e"
    using find_by_vip_unique [OF assms] by (auto simp: peer_identity_def lan_def split: if_splits)
qed

lemma lan_pool: "server_inv srv \<Longrightarrow> lan srv vip = Some e \<Longrightarrow> pool_ip vip"
  using active_pool by (auto simp: lan_iff peer_identity_def split: if_splits)

lemma lan_None_iff:
  assumes "server_inv srv"
  shows "lan srv vip = None \<longleftrightarrow> (\<forall>i < 253. peer_active (srv_peers srv ! i) \<longrightarrow> peer_virt_ip (srv_peers srv ! i) \<noteq> vip)"
proof -
  have "lan srv vip = None \<longleftrightarrow> (\<forall>i < length (srv_peers srv). \<not> (peer_active (srv_peers srv ! i) \<and> peer_virt_ip (srv_peers srv ! i) = vip))"
    by (simp add: lan_def server_find_peer_by_vip_def all_set_conv_all_nth)
  then show ?thesis using assms by auto
qed

lemma lan_cong:
  assumes "server_inv srv" "server_inv srv'"
    "\<And>i. i < 253 \<Longrightarrow> peer_identity (srv_peers srv' ! i) = peer_identity (srv_peers srv ! i)"
  shows "lan srv' = lan srv"
proof
  fix vip
  have "lan srv' vip = Some e \<longleftrightarrow> lan srv vip = Some e" for e
    unfolding lan_iff [OF assms(1)] lan_iff [OF assms(2)] using assms(3) by auto
  then show "lan srv' vip = lan srv vip" by (metis option.exhaust)
qed

lemma lan_insert:
  assumes inv: "server_inv srv" "server_inv srv'" and i: "i < 253" "\<not> peer_active (srv_peers srv ! i)"
    and p: "peer_identity p = Some (vip, e)" "srv_peers srv' = (srv_peers srv)[i := p]"
  shows "lan srv' = (lan srv)(vip \<mapsto> e)" "lan srv vip = None"
proof -
  have n: "peer_identity (srv_peers srv' ! j) = (if j = i then Some (vip, e) else peer_identity (srv_peers srv ! j))"
    if "j < 253" for j using that i p inv by (simp add: nth_list_update)
  have act: "peer_active p" "peer_virt_ip p = vip" using p(1) by (auto simp: peer_identity_def split: if_splits)
  have fr: "peer_virt_ip (srv_peers srv ! j) \<noteq> vip" if j: "j < 253" "peer_active (srv_peers srv ! j)" for j
  proof -
    have "j \<noteq> i" using i j by auto
    then have "peer_active (srv_peers srv' ! j)" "peer_virt_ip (srv_peers srv' ! j) = peer_virt_ip (srv_peers srv ! j)"
        "peer_active (srv_peers srv' ! i)" "peer_virt_ip (srv_peers srv' ! i) = vip"
      using j i p act inv by (simp_all add: nth_list_update)
    then show ?thesis using inv(2) i(1) j(1) \<open>j \<noteq> i\<close>
      unfolding server_inv_def peers_ok_def by metis
  qed
  show none: "lan srv vip = None" using fr lan_None_iff [OF inv(1)] by blast
  show "lan srv' = (lan srv)(vip \<mapsto> e)"
  proof
    fix v
    have "lan srv' v = Some x \<longleftrightarrow> ((lan srv)(vip \<mapsto> e)) v = Some x" for x
    proof (cases "v = vip")
      case True
      have "lan srv' vip = Some e" unfolding lan_iff [OF inv(2)] using n i(1) by auto
      then show ?thesis using True by simp
    next
      case False
      have "peer_identity (srv_peers srv ! i) = None" using i(2) by (simp add: peer_identity_def)
      then have "(\<exists>j < 253. peer_identity (srv_peers srv' ! j) = Some (v, x)) \<longleftrightarrow>
          (\<exists>j < 253. peer_identity (srv_peers srv ! j) = Some (v, x))"
        using n False by (metis option.discI option.inject prod.inject)
      then show ?thesis using False by (simp add: lan_iff inv)
    qed
    then show "lan srv' v = ((lan srv)(vip \<mapsto> e)) v" by (metis option.exhaust)
  qed
qed

lemma lan_retired:
  assumes inv: "server_inv srv" "server_inv srv'"
    and n: "\<And>i. i < 253 \<Longrightarrow> srv_peers srv' ! i =
      (if Q i then (srv_peers srv ! i)\<lparr>peer_active := False\<rparr> else srv_peers srv ! i)"
  shows "lan srv' = lan srv |` {v. \<forall>i < 253. Q i \<longrightarrow> peer_active (srv_peers srv ! i) \<longrightarrow> peer_virt_ip (srv_peers srv ! i) \<noteq> v}"
proof
  fix v
  define V where "V = {v. \<forall>i < 253. Q i \<longrightarrow> peer_active (srv_peers srv ! i) \<longrightarrow> peer_virt_ip (srv_peers srv ! i) \<noteq> v}"
  have id: "peer_identity (srv_peers srv' ! i) = (if Q i then None else peer_identity (srv_peers srv ! i))" if "i < 253" for i
    using n [OF that] by (simp add: peer_identity_def)
  have act: "peer_identity p = Some (v, x) \<Longrightarrow> peer_active p \<and> peer_virt_ip p = v" for p x
    by (auto simp: peer_identity_def split: if_splits)
  have uniq: "i = j" if "i < 253" "j < 253" "peer_active (srv_peers srv ! i)" "peer_active (srv_peers srv ! j)"
      "peer_virt_ip (srv_peers srv ! i) = peer_virt_ip (srv_peers srv ! j)" for i j
    using inv(1) that unfolding server_inv_def peers_ok_def by metis
  have "lan srv' v = Some x \<longleftrightarrow> (lan srv |` V) v = Some x" for x
  proof -
    have "lan srv' v = Some x \<longleftrightarrow> (\<exists>i < 253. \<not> Q i \<and> peer_identity (srv_peers srv ! i) = Some (v, x))"
      unfolding lan_iff [OF inv(2)] using id by (metis option.distinct(1))
    also have "\<dots> \<longleftrightarrow> (\<forall>i < 253. Q i \<longrightarrow> peer_active (srv_peers srv ! i) \<longrightarrow> peer_virt_ip (srv_peers srv ! i) \<noteq> v) \<and> lan srv v = Some x"
    proof
      assume "\<exists>i < 253. \<not> Q i \<and> peer_identity (srv_peers srv ! i) = Some (v, x)"
      then obtain i where i: "i < 253" "\<not> Q i" "peer_identity (srv_peers srv ! i) = Some (v, x)" by blast
      then show "(\<forall>i < 253. Q i \<longrightarrow> peer_active (srv_peers srv ! i) \<longrightarrow> peer_virt_ip (srv_peers srv ! i) \<noteq> v) \<and> lan srv v = Some x"
        unfolding lan_iff [OF inv(1)] using act [OF i(3)] uniq [OF i(1)] by blast
    next
      assume "(\<forall>i < 253. Q i \<longrightarrow> peer_active (srv_peers srv ! i) \<longrightarrow> peer_virt_ip (srv_peers srv ! i) \<noteq> v) \<and> lan srv v = Some x"
      then show "\<exists>i < 253. \<not> Q i \<and> peer_identity (srv_peers srv ! i) = Some (v, x)"
        unfolding lan_iff [OF inv(1)] using act by blast
    qed
    finally show ?thesis by (simp add: restrict_map_def V_def)
  qed
  then show "lan srv' v = (lan srv |` {v. \<forall>i < 253. Q i \<longrightarrow> peer_active (srv_peers srv ! i) \<longrightarrow> peer_virt_ip (srv_peers srv ! i) \<noteq> v}) v"
    unfolding V_def [symmetric]
    by (metis option.exhaust)
qed

section \<open>The effect of a critical section\<close>

definition peer_touch :: "peer_t \<Rightarrow> peer_t \<Rightarrow> bool" where
  "peer_touch p p' \<longleftrightarrow> peer_identity p' = peer_identity p \<and>
     (peer_replay p' = peer_replay p \<or> (\<exists>q. peer_replay p' = snd (proto_replay_accept (peer_replay p) q)))"

lemma peer_touch_fields [simp]:
  "peer_touch p p" "peer_touch p (p\<lparr>peer_last_seen := t\<rparr>)" "peer_touch p (p\<lparr>peer_bytes_in := x\<rparr>)"
  "peer_touch p (p\<lparr>peer_bytes_out := x\<rparr>)"
  "peer_touch p (p\<lparr>peer_last_seen := t, peer_rtt_ms := x, peer_has_rtt := b\<rparr>)"
  by (simp_all add: peer_touch_def peer_identity_def)

lemma peer_touch_replay:
  assumes "proto_replay_accept (peer_replay p) q = (ok, win)"
  shows "peer_touch p (p\<lparr>peer_replay := win\<rparr>)" "peer_touch p (p\<lparr>peer_replay := win, peer_last_seen := t\<rparr>)"
proof -
  have "win = snd (proto_replay_accept (peer_replay p) q)" using assms by simp
  then show "peer_touch p (p\<lparr>peer_replay := win\<rparr>)" "peer_touch p (p\<lparr>peer_replay := win, peer_last_seen := t\<rparr>)"
    by (auto simp: peer_touch_def peer_identity_def)
qed

text \<open>The three things a critical section can do to the table.\<close>

definition tbl_touch :: "server_t \<Rightarrow> server_t \<Rightarrow> bool" where
  "tbl_touch srv srv' \<longleftrightarrow> (\<forall>i < 253. peer_touch (srv_peers srv ! i) (srv_peers srv' ! i))"

definition tbl_join :: "server_t \<Rightarrow> server_t \<Rightarrow> bool" where
  "tbl_join srv srv' \<longleftrightarrow> (\<exists>i p. i < 253 \<and> \<not> peer_active (srv_peers srv ! i) \<and> peer_active p \<and>
     srv_peers srv' = (srv_peers srv)[i := p] \<and> server_find_peer_by_addr srv (peer_real_addr p) = None)"

definition tbl_retire :: "server_t \<Rightarrow> server_t \<Rightarrow> bool" where
  "tbl_retire srv srv' \<longleftrightarrow>
     (\<exists>Q. \<forall>i < 253. srv_peers srv' ! i = (if Q i then (srv_peers srv ! i)\<lparr>peer_active := False\<rparr> else srv_peers srv ! i))"

lemma tbl_touch_update:
  assumes "srv_peers srv' = (srv_peers srv)[i := p']" "peer_touch (srv_peers srv ! i) p'"
  shows "tbl_touch srv srv'"
  using assms by (cases "i < length (srv_peers srv)") (auto simp: tbl_touch_def nth_list_update list_update_beyond)

lemma tbl_touch_same: "srv_peers srv' = srv_peers srv \<Longrightarrow> tbl_touch srv srv'"
  by (simp add: tbl_touch_def)

lemma register_effect:
  assumes eq: "server_register_locked srv payload plen from seq w = (res, srv', w')" and inv: "server_inv srv"
  shows "tbl_touch srv srv' \<or> tbl_join srv srv'"
proof (cases "server_find_peer_by_addr srv from")
  case (Some idx)
  let ?p = "srv_peers srv ! idx"
  obtain ok win where acc: "proto_replay_accept (peer_replay ?p) seq = (ok, win)" by fastforce
  have "srv' = srv \<or> srv_peers srv' = (srv_peers srv)[idx := ?p\<lparr>peer_replay := win, peer_last_seen := fst (time_now w)\<rparr>]"
    using eq Some acc by (auto simp: server_register_locked_def Let_def split: prod.splits if_splits)
  then show ?thesis using tbl_touch_update peer_touch_replay(2) [OF acc] tbl_touch_same by metis
next
  case None
  show ?thesis
  proof (cases "server_find_free_slot srv")
    case slot: (Some idx)
    have idx: "idx < 253" "\<not> peer_active (srv_peers srv ! idx)"
      using first_idx_Some [OF slot [unfolded server_find_free_slot_def]] inv by auto
    have "srv' = srv \<or> srv_peers srv' = (srv_peers srv)[idx := server_new_peer idx (server_alloc_ip srv) payload plen from seq (fst (time_now w))]"
      using eq None slot by (auto simp: server_register_locked_def Let_def split: prod.splits if_splits)
    then show ?thesis
    proof
      assume "srv_peers srv' = (srv_peers srv)[idx := server_new_peer idx (server_alloc_ip srv) payload plen from seq (fst (time_now w))]"
      moreover have "peer_active (server_new_peer idx (server_alloc_ip srv) payload plen from seq (fst (time_now w)))"
        "peer_real_addr (server_new_peer idx (server_alloc_ip srv) payload plen from seq (fst (time_now w))) = from"
        by (simp_all add: server_new_peer_def)
      ultimately show ?thesis using None idx unfolding tbl_join_def by metis
    qed (simp add: tbl_touch_same)
  qed (use eq None in \<open>auto simp: server_register_locked_def tbl_touch_same\<close>)
qed

lemma accept_effect:
  assumes eq: "server_accept_locked srv from seq = (ok, kn, srv')"
  shows "tbl_touch srv srv'"
proof (cases "server_find_peer_by_addr srv from")
  case (Some idx)
  let ?p = "srv_peers srv ! idx"
  obtain ok' win where acc: "proto_replay_accept (peer_replay ?p) seq = (ok', win)" by fastforce
  have "srv_peers srv' = (srv_peers srv)[idx := ?p\<lparr>peer_replay := win\<rparr>]"
    using eq Some acc by (auto simp: server_accept_locked_def Let_def)
  then show ?thesis by (rule tbl_touch_update) (rule peer_touch_replay(1) [OF acc])
qed (use eq in \<open>simp add: server_accept_locked_def tbl_touch_same\<close>)

lemma disconnect_effect:
  assumes eq: "server_disconnect_locked srv from w = (res, srv', w')" and inv: "server_inv srv"
  shows "tbl_touch srv srv' \<or> tbl_retire srv srv'"
proof (cases "server_find_peer_by_addr srv from")
  case (Some idx)
  have "srv_peers srv' = (srv_peers srv)[idx := (srv_peers srv ! idx)\<lparr>peer_active := False\<rparr>]"
    using eq Some by (auto simp: server_disconnect_locked_def Let_def)
  then have "\<forall>i < 253. srv_peers srv' ! i = (if i = idx then (srv_peers srv ! i)\<lparr>peer_active := False\<rparr> else srv_peers srv ! i)"
    using inv by (simp add: nth_list_update)
  then have "tbl_retire srv srv'" unfolding tbl_retire_def by (rule exI [of _ "\<lambda>i. i = idx"])
  then show ?thesis ..
qed (use eq in \<open>simp add: server_disconnect_locked_def tbl_touch_same\<close>)

lemma timeout_effect:
  assumes eq: "server_timeout_locked srv now = (to, lv, ka, srv')" and inv: "server_inv srv"
  shows "tbl_retire srv srv'"
proof -
  have "srv_peers srv' = map (retire now) (srv_peers srv)"
    using eq by (auto simp: server_timeout_locked_def Let_def timeout_scan_spec)
  then have "\<forall>i < 253. srv_peers srv' ! i =
      (if server_peer_expired now (srv_peers srv ! i) then (srv_peers srv ! i)\<lparr>peer_active := False\<rparr> else srv_peers srv ! i)"
    using inv by (simp add: retire_def)
  then show ?thesis unfolding tbl_retire_def by (rule exI [of _ "\<lambda>i. server_peer_expired now (srv_peers srv ! i)"])
qed

lemma data_effect:
  assumes eq: "server_data_locked srv src dst plen from w = (res, srv', w')"
  shows "tbl_touch srv srv'"
proof (cases "server_find_peer_by_addr srv from")
  case (Some idx)
  let ?p = "srv_peers srv ! idx"
  have "srv' = srv \<or> srv_peers srv' = (srv_peers srv)[idx := ?p\<lparr>peer_bytes_in := peer_bytes_in ?p + ucast plen\<rparr>]"
    using eq Some by (auto simp: server_data_locked_def Let_def split: if_splits option.splits)
  then show ?thesis using tbl_touch_update peer_touch_fields(3) tbl_touch_same by metis
qed (use eq in \<open>simp add: server_data_locked_def tbl_touch_same\<close>)

lemma keepalive_effect:
  assumes eq: "server_keepalive_locked srv from w = (res, srv', w')"
  shows "tbl_touch srv srv'"
proof (cases "server_find_peer_by_addr srv from")
  case (Some idx)
  have "srv_peers srv' = (srv_peers srv)[idx := (srv_peers srv ! idx)\<lparr>peer_last_seen := fst (time_now w)\<rparr>]"
    using eq Some by (auto simp: server_keepalive_locked_def Let_def split: prod.splits)
  then show ?thesis by (rule tbl_touch_update) simp
qed (use eq in \<open>simp add: server_keepalive_locked_def tbl_touch_same\<close>)

lemma keepalive_ack_effect:
  assumes eq: "server_keepalive_ack_locked srv from sample w = (srv', w')"
  shows "tbl_touch srv srv'"
proof (cases "server_find_peer_by_addr srv from")
  case (Some idx)
  let ?p = "srv_peers srv ! idx"
  have "srv_peers srv' = (srv_peers srv)[idx := ?p\<lparr>peer_last_seen := fst (time_now w),
      peer_rtt_ms := smooth_rtt_ms (peer_rtt_ms ?p) sample (peer_has_rtt ?p), peer_has_rtt := True\<rparr>]"
    using eq Some by (auto simp: server_keepalive_ack_locked_def Let_def split: prod.splits)
  then show ?thesis by (rule tbl_touch_update) simp
qed (use eq in \<open>simp add: server_keepalive_ack_locked_def tbl_touch_same\<close>)

lemma bytes_out_effect: "tbl_touch srv (server_add_peer_bytes_out srv snap n)"
proof -
  let ?i = "nat (snap_idx snap)"
  let ?p = "srv_peers srv ! ?i"
  have "server_add_peer_bytes_out srv snap n = srv \<or>
    srv_peers (server_add_peer_bytes_out srv snap n) = (srv_peers srv)[?i := ?p\<lparr>peer_bytes_out := peer_bytes_out ?p + n\<rparr>]"
    by (auto simp: server_add_peer_bytes_out_def Let_def)
  then show ?thesis using tbl_touch_update peer_touch_fields(4) tbl_touch_same by metis
qed

lemma server_step_effect:
  "server_step srv srv' \<Longrightarrow> server_inv srv \<Longrightarrow> tbl_touch srv srv' \<or> tbl_join srv srv' \<or> tbl_retire srv srv'"
proof (induction rule: server_step.induct)
  case (step_flags srv a b c d)
  then show ?case by (simp add: tbl_touch_same)
next
  case (step_closing srv dev fd)
  then show ?case by (simp add: tbl_touch_same)
qed (blast dest: register_effect accept_effect disconnect_effect timeout_effect data_effect
      keepalive_effect keepalive_ack_effect intro: bytes_out_effect)+

section \<open>The abstract directory\<close>

inductive lan_step :: "(u32 \<Rightarrow> (sockaddr_in \<times> bytes) option) \<Rightarrow> (u32 \<Rightarrow> (sockaddr_in \<times> bytes) option) \<Rightarrow> bool" where
  lan_stay: "lan_step m m"
| lan_join: "m vip = None \<Longrightarrow> pool_ip vip \<Longrightarrow>
    (\<And>v a n. m v = Some (a, n) \<Longrightarrow> (sin_addr a, sin_port a) \<noteq> (sin_addr addr, sin_port addr)) \<Longrightarrow>
    lan_step m (m(vip \<mapsto> (addr, name)))"
| lan_leave: "lan_step m (m |` V)"

lemma lan_identity_key:
  assumes "server_inv srv" "lan srv v = Some (a, n)"
  obtains i where "i < 253" "peer_active (srv_peers srv ! i)" "peer_virt_ip (srv_peers srv ! i) = v"
    "peer_real_addr (srv_peers srv ! i) = a" "c_str (peer_name (srv_peers srv ! i)) = n"
  using assms lan_iff [OF assms(1)] by (auto simp: peer_identity_def split: if_splits)

lemma find_by_addr_None:
  assumes "server_inv srv" "server_find_peer_by_addr srv from = None" "i < 253" "peer_active (srv_peers srv ! i)"
  shows "peer_key (srv_peers srv ! i) \<noteq> (sin_addr from, sin_port from)"
  using find_by_addr_unique [OF assms(1,3,4)] assms(2) by auto

lemma join_lan_step:
  assumes j: "tbl_join srv srv'" and inv: "server_inv srv" "server_inv srv'"
  shows "lan_step (lan srv) (lan srv')"
proof -
  from j obtain i p where i: "i < 253" "\<not> peer_active (srv_peers srv ! i)" and p: "peer_active p"
      "srv_peers srv' = (srv_peers srv)[i := p]" "server_find_peer_by_addr srv (peer_real_addr p) = None"
    by (auto simp: tbl_join_def)
  have id: "peer_identity p = Some (peer_virt_ip p, peer_real_addr p, c_str (peer_name p))"
    using p(1) by (simp add: peer_identity_def)
  note ins = lan_insert [OF inv i id p(2)]
  have "srv_peers srv' ! i = p" using p(2) i inv by simp
  then have pool: "pool_ip (peer_virt_ip p)"
    using inv(2) i(1) p(1) unfolding server_inv_def peers_ok_def by metis
  have "(sin_addr a, sin_port a) \<noteq> (sin_addr (peer_real_addr p), sin_port (peer_real_addr p))"
    if m: "lan srv v = Some (a, n)" for v a n
  proof -
    obtain k where "k < 253" "peer_active (srv_peers srv ! k)" "peer_real_addr (srv_peers srv ! k) = a"
      using lan_identity_key [OF inv(1) m] by metis
    then show ?thesis using find_by_addr_None [OF inv(1) p(3)] by (auto simp: peer_key_def)
  qed
  then show ?thesis using ins(2) pool unfolding ins(1) by (intro lan_join) auto
qed

lemma touch_lan: "tbl_touch srv srv' \<Longrightarrow> server_inv srv \<Longrightarrow> server_inv srv' \<Longrightarrow> lan srv' = lan srv"
  by (rule lan_cong) (auto simp: tbl_touch_def peer_touch_def)

lemma retire_lan_step:
  assumes r: "tbl_retire srv srv'" and inv: "server_inv srv" "server_inv srv'"
  shows "lan_step (lan srv) (lan srv')"
proof -
  have le: "lan srv v = Some e" if le: "lan srv' v = Some e" for v e
  proof -
    obtain i where i: "i < 253" "peer_identity (srv_peers srv' ! i) = Some (v, e)"
      using le [unfolded lan_iff [OF inv(2)]] by auto
    then have "peer_identity (srv_peers srv ! i) = Some (v, e)"
      using r by (auto simp: tbl_retire_def peer_identity_def split: if_splits)
    then show ?thesis unfolding lan_iff [OF inv(1)] using i(1) by auto
  qed
  have "lan srv' = lan srv |` dom (lan srv')"
  proof
    fix v show "lan srv' v = (lan srv |` dom (lan srv')) v"
      using le [of v] by (cases "lan srv' v") (auto simp: restrict_map_def)
  qed
  then show ?thesis by (metis lan_leave)
qed

lemma server_step_lan:
  assumes "server_step srv srv'" "server_inv srv"
  shows "lan_step (lan srv) (lan srv')"
proof -
  note inv = assms(2) server_step_inv [OF assms]
  show ?thesis
    using server_step_effect [OF assms] touch_lan [OF _ inv] join_lan_step [OF _ inv] retire_lan_step [OF _ inv] lan_stay
    by metis
qed

text \<open>Accounting for sent bytes does not change the directory.\<close>

definition same_lan :: "server_t \<Rightarrow> server_t \<Rightarrow> bool" where
  "same_lan srv srv' \<longleftrightarrow> (server_inv srv \<longrightarrow> server_inv srv' \<and> lan srv' = lan srv)"

lemma touch_same_lan: "tbl_touch srv srv' \<Longrightarrow> (server_inv srv \<Longrightarrow> server_inv srv') \<Longrightarrow> same_lan srv srv'"
  by (simp add: same_lan_def touch_lan)

interpretation same_lan: server_accounting same_lan
proof unfold_locales
  show "same_lan srv srv" for srv by (simp add: same_lan_def)
  show "same_lan srv srv1 \<Longrightarrow> same_lan srv1 srv2 \<Longrightarrow> same_lan srv srv2" for srv srv1 srv2
    by (simp add: same_lan_def)
  show "same_lan srv (server_add_peer_bytes_out srv snap n)" for srv snap n
    by (rule touch_same_lan [OF bytes_out_effect server_add_peer_bytes_out_inv])
qed

lemma find_touch:
  assumes "tbl_touch srv srv'" "server_inv srv" "server_inv srv'"
  shows "server_find_peer_by_addr srv' from = server_find_peer_by_addr srv from"
  unfolding server_find_peer_by_addr_def
proof (rule first_idx_cong)
  fix i assume "i < length (srv_peers srv')"
  then have "peer_identity (srv_peers srv' ! i) = peer_identity (srv_peers srv ! i)"
    using assms by (simp add: tbl_touch_def peer_touch_def)
  then show "(peer_active (srv_peers srv' ! i) \<and> sin_addr (peer_real_addr (srv_peers srv' ! i)) = sin_addr from \<and>
        sin_port (peer_real_addr (srv_peers srv' ! i)) = sin_port from) =
      (peer_active (srv_peers srv ! i) \<and> sin_addr (peer_real_addr (srv_peers srv ! i)) = sin_addr from \<and>
        sin_port (peer_real_addr (srv_peers srv ! i)) = sin_port from)"
    by (auto simp: peer_identity_def split: if_splits)
qed (use assms in simp)

section \<open>A processed packet is processed once\<close>

definition refused :: "server_t \<Rightarrow> sockaddr_in \<Rightarrow> u64 \<Rightarrow> bool" where
  "refused srv from sequence \<longleftrightarrow>
     (case server_find_peer_by_addr srv from of
        None \<Rightarrow> False
      | Some i \<Rightarrow> \<not> fst (proto_replay_accept (peer_replay (srv_peers srv ! i)) sequence))"

text \<open>What happens to a peer between its registration and its retirement: its identity stays and its
  window only grows.\<close>

definition peer_grow :: "peer_t \<Rightarrow> peer_t \<Rightarrow> bool" where
  "peer_grow p p' \<longleftrightarrow> (peer_active p' \<longrightarrow> peer_identity p' = peer_identity p \<and>
     (\<forall>A. replay_repr (peer_replay p) A \<longrightarrow> (\<exists>B. replay_repr (peer_replay p') B \<and> A \<subseteq> B)))"

definition tbl_grow :: "server_t \<Rightarrow> server_t \<Rightarrow> bool" where
  "tbl_grow srv srv' \<longleftrightarrow> (\<forall>i < 253. peer_grow (srv_peers srv ! i) (srv_peers srv' ! i))"

lemma peer_grow_refl: "peer_grow p p"
  by (auto simp: peer_grow_def)

lemma peer_grow_trans: "peer_grow p p1 \<Longrightarrow> peer_grow p1 p2 \<Longrightarrow> peer_grow p p2"
  unfolding peer_grow_def peer_identity_def by (metis option.discI order_trans)

lemma peer_touch_grow: "peer_touch p p' \<Longrightarrow> peer_grow p p'"
proof -
  assume t: "peer_touch p p'"
  have "\<exists>B. replay_repr (peer_replay p') B \<and> A \<subseteq> B" if r: "replay_repr (peer_replay p) A" for A
  proof (cases "peer_replay p' = peer_replay p")
    case False
    with t obtain q where q: "peer_replay p' = snd (proto_replay_accept (peer_replay p) q)" by (auto simp: peer_touch_def)
    obtain ok where "proto_replay_accept (peer_replay p) q = (ok, peer_replay p')" using q by (metis prod.collapse)
    from window.repr_accept [OF r this] show ?thesis by (cases ok) auto
  qed (use r in auto)
  then show ?thesis using t by (simp add: peer_grow_def peer_touch_def)
qed

lemma tbl_touch_grow: "tbl_touch srv srv' \<Longrightarrow> tbl_grow srv srv'"
  by (simp add: tbl_touch_def tbl_grow_def peer_touch_grow)

lemma tbl_retire_grow: "tbl_retire srv srv' \<Longrightarrow> tbl_grow srv srv'"
  by (auto simp: tbl_retire_def tbl_grow_def peer_grow_def)

text \<open>Every handler but registration keeps the invariant and lets windows only grow.\<close>

definition calm :: "server_t \<Rightarrow> server_t \<Rightarrow> bool" where
  "calm srv srv' \<longleftrightarrow> (server_inv srv \<longrightarrow> server_inv srv' \<and> tbl_grow srv srv')"

interpretation calm: server_sections calm
proof unfold_locales
  show "calm srv srv" for srv by (simp add: calm_def tbl_grow_def peer_grow_refl)
  show "calm srv srv1 \<Longrightarrow> calm srv1 srv2 \<Longrightarrow> calm srv srv2" for srv srv1 srv2
    unfolding calm_def tbl_grow_def using peer_grow_trans by metis
  show "server_accept_locked srv from q = (ok, known, srv') \<Longrightarrow> calm srv srv'" for srv "from" q ok known srv'
    by (simp add: calm_def server_accept_locked_inv tbl_touch_grow [OF accept_effect])
  show "server_disconnect_locked srv from w = (left, srv', w') \<Longrightarrow> calm srv srv'" for srv "from" w left srv' w'
    using server_disconnect_locked_inv disconnect_effect tbl_touch_grow tbl_retire_grow unfolding calm_def by blast
  show "server_data_locked srv src_ip dst_ip plen from w = (routed, srv', w') \<Longrightarrow> calm srv srv'"
    for srv src_ip dst_ip plen "from" w routed srv' w'
    by (simp add: calm_def server_data_locked_inv tbl_touch_grow [OF data_effect])
  show "server_keepalive_locked srv from w = (pname, srv', w') \<Longrightarrow> calm srv srv'" for srv "from" w pname srv' w'
    by (simp add: calm_def server_keepalive_locked_inv tbl_touch_grow [OF keepalive_effect])
  show "server_keepalive_ack_locked srv from sample w = (srv', w') \<Longrightarrow> calm srv srv'" for srv "from" sample w srv' w'
    by (simp add: calm_def server_keepalive_ack_locked_inv tbl_touch_grow [OF keepalive_ack_effect])
  show "server_timeout_locked srv now = (timed_out, leave, probes, srv') \<Longrightarrow> calm srv srv'"
    for srv now timed_out leave probes srv'
    by (simp add: calm_def server_timeout_locked_inv tbl_retire_grow [OF timeout_effect])
  show "calm srv (server_add_peer_bytes_out srv snap n)" for srv snap n
    by (simp add: calm_def server_add_peer_bytes_out_inv tbl_touch_grow [OF bytes_out_effect])
qed

lemma refused_grow:
  assumes "tbl_grow srv srv'" "server_inv srv" "server_inv srv'" "refused srv from q"
    and "server_find_peer_by_addr srv' from \<noteq> None"
  shows "refused srv' from q"
proof -
  obtain i where i: "server_find_peer_by_addr srv from = Some i"
      "\<not> fst (proto_replay_accept (peer_replay (srv_peers srv ! i)) q)"
    using assms(4) by (auto simp: refused_def split: option.splits)
  obtain j where j: "server_find_peer_by_addr srv' from = Some j" using assms(5) by auto
  note fi = find_by_addr_Some [OF i(1) assms(2)] and fj = find_by_addr_Some [OF j assms(3)]
  have g: "peer_grow (srv_peers srv ! j) (srv_peers srv' ! j)" using assms(1) fj(1) by (simp add: tbl_grow_def)
  then have idt: "peer_identity (srv_peers srv' ! j) = peer_identity (srv_peers srv ! j)" using fj(2) by (simp add: peer_grow_def)
  then have "peer_active (srv_peers srv ! j)" "peer_key (srv_peers srv ! j) = peer_key (srv_peers srv' ! j)"
    using fj(2) by (auto simp: peer_identity_def peer_key_def split: if_splits)
  then have "server_find_peer_by_addr srv from = Some j"
    using find_by_addr_unique [OF assms(2) fj(1)] fj(3) by simp
  then have ij: "i = j" using i(1) by simp
  obtain A where A: "replay_repr (peer_replay (srv_peers srv ! j)) A" using fi(4) ij by (auto simp: peer_wf_def)
  obtain B where "replay_repr (peer_replay (srv_peers srv' ! j)) B" "A \<subseteq> B" using g fj(2) A by (auto simp: peer_grow_def)
  from window.refused_mono [OF A this] i(2) ij j show ?thesis by (simp add: refused_def)
qed

lemma refused_step:
  assumes st: "server_step srv srv'" and inv: "server_inv srv" and ref: "refused srv from q"
    and reg: "server_find_peer_by_addr srv' from \<noteq> None"
  shows "refused srv' from q"
proof -
  note inv' = server_step_inv [OF st inv]
  consider (grow) "tbl_grow srv srv'" | (join) "tbl_join srv srv'"
    using server_step_effect [OF st inv] tbl_touch_grow tbl_retire_grow by blast
  then show ?thesis
  proof cases
    case join
    then obtain i p where i: "i < 253" "\<not> peer_active (srv_peers srv ! i)" "peer_active p"
      "srv_peers srv' = (srv_peers srv)[i := p]" "server_find_peer_by_addr srv (peer_real_addr p) = None"
      by (auto simp: tbl_join_def)
    obtain k where k: "server_find_peer_by_addr srv from = Some k"
        "\<not> fst (proto_replay_accept (peer_replay (srv_peers srv ! k)) q)"
      using ref by (auto simp: refused_def split: option.splits)
    note f = find_by_addr_Some [OF k(1) inv]
    have ik: "k \<noteq> i" using f(2) i(2) by auto
    then have same: "srv_peers srv' ! k = srv_peers srv ! k" using i(4) by simp
    then have "server_find_peer_by_addr srv' from = Some k"
      using find_by_addr_unique [OF inv' f(1)] f(2,3) by simp
    then show ?thesis using k(2) same by (simp add: refused_def)
  qed (rule refused_grow [OF _ inv inv' ref reg])
qed

lemma refused_steps:
  assumes "(\<lambda>a b. server_step a b \<and> server_find_peer_by_addr b from \<noteq> None)\<^sup>*\<^sup>* srv srv'"
    and "server_inv srv" "refused srv from q"
  shows "server_inv srv' \<and> refused srv' from q"
  using assms(1)
proof (induction rule: rtranclp_induct)
  case (step y z)
  then show ?case using refused_step server_step_inv by blast
qed (use assms in simp)

lemma accept_refused:
  assumes "server_accept_locked srv from q = (ok, known, srv')" "server_inv srv" "server_find_peer_by_addr srv from \<noteq> None"
  shows "refused srv' from q"
proof -
  obtain i where i: "server_find_peer_by_addr srv from = Some i" using assms(3) by auto
  note f = find_by_addr_Some [OF i assms(2)]
  obtain ok' win where a: "proto_replay_accept (peer_replay (srv_peers srv ! i)) q = (ok', win)" by fastforce
  obtain A where A: "replay_repr (peer_replay (srv_peers srv ! i)) A" using f(4) by (auto simp: peer_wf_def)
  have s: "srv_peers srv' = (srv_peers srv)[i := (srv_peers srv ! i)\<lparr>peer_replay := win\<rparr>]"
    using assms(1) i a by (auto simp: server_accept_locked_def Let_def)
  have "server_find_peer_by_addr srv' from = Some i"
    using find_by_addr_unique [OF server_accept_locked_inv [OF assms(2,1)] f(1)] f s assms(2)
    by (simp add: peer_key_def)
  then show ?thesis using window.refused_again [OF A a] s f(1) assms(2) by (simp add: refused_def)
qed

lemma register_refused:
  assumes eq: "server_register_locked srv payload plen from q w = (res, srv', w')" and inv: "server_inv srv"
    and inv': "server_inv srv'" and reg: "server_find_peer_by_addr srv' from \<noteq> None"
  shows "refused srv' from q"
proof (cases "server_find_peer_by_addr srv from")
  case (Some i)
  note f = find_by_addr_Some [OF Some inv]
  obtain ok win where a: "proto_replay_accept (peer_replay (srv_peers srv ! i)) q = (ok, win)" by fastforce
  obtain A where A: "replay_repr (peer_replay (srv_peers srv ! i)) A" using f(4) by (auto simp: peer_wf_def)
  show ?thesis
  proof (cases ok)
    case True
    have s: "srv_peers srv' = (srv_peers srv)[i := (srv_peers srv ! i)\<lparr>peer_replay := win, peer_last_seen := fst (time_now w)\<rparr>]"
      using eq Some a True by (auto simp: server_register_locked_def Let_def split: prod.splits)
    have "server_find_peer_by_addr srv' from = Some i"
      using find_by_addr_unique [OF inv' f(1)] f s inv by (simp add: peer_key_def)
    then show ?thesis using window.refused_again [OF A a] s f(1) inv by (simp add: refused_def)
  next
    case False
    then have "srv' = srv" using eq Some a by (simp add: server_register_locked_def)
    then show ?thesis using Some a False by (simp add: refused_def)
  qed
next
  case None
  have ne: "srv' \<noteq> srv" using None reg by auto
  then obtain idx where slot: "server_find_free_slot srv = Some idx"
    using eq None by (auto simp: server_register_locked_def split: option.splits)
  have idx: "idx < 253" using first_idx_Some [OF slot [unfolded server_find_free_slot_def]] inv by auto
  let ?p = "server_new_peer idx (server_alloc_ip srv) payload plen from q (fst (time_now w))"
  have s: "srv_peers srv' = (srv_peers srv)[idx := ?p]"
    using eq None slot ne by (auto simp: server_register_locked_def Let_def split: prod.splits if_splits)
  have "server_find_peer_by_addr srv' from = Some idx"
    using find_by_addr_unique [OF inv' idx] s idx inv by (simp add: peer_key_def server_new_peer_def)
  moreover obtain ok win where "proto_replay_accept proto_replay_reset q = (ok, win)" by fastforce
  ultimately show ?thesis
    using window.refused_again [OF window.repr_reset] s idx inv by (simp add: refused_def server_new_peer_def)
qed

lemma packet_refused:
  assumes inv: "server_inv srv" and eq: "server_handle_packet srv buf len from w = (srv', w')" and len: "len \<le> int (length buf)"
    and hdr: "proto_read_hdr buf = Inr (t, l)" "37 + uint l \<le> len" "proto_read_sequence buf = Some q"
    and reg: "server_find_peer_by_addr srv' from \<noteq> None"
  shows "refused srv' from q"
proof (cases "t = 1")
  case True
  obtain res srv2 w2 where r: "server_register_locked srv (drop 37 buf) l from q w = (res, srv2, w2)"
    by (metis prod_cases3)
  then have "srv' = srv2" using eq hdr True
    by (simp add: server_handle_packet_def server_handle_register_def Let_def)
  then show ?thesis using register_refused [OF r inv] server_steps_inv [OF steps.handle_packet [OF eq len] inv] reg by simp
next
  case False
  obtain ok srv1 w1 where acc: "server_accept_registered_sequence srv from q w = (ok, srv1, w1)"
    by (metis prod_cases3)
  obtain known where ac: "server_accept_locked srv from q = (ok, known, srv1)"
    using accept_registered_locked [OF acc] by blast
  note inv1 = server_accept_locked_inv [OF inv ac]
  have c: "server_inv srv'" "tbl_grow srv1 srv'"
    using calm.handle_other [OF eq hdr(1) False hdr(2,3) acc] inv1 by (auto simp: calm_def)
  have "server_find_peer_by_addr srv from \<noteq> None"
  proof
    assume none: "server_find_peer_by_addr srv from = None"
    then have "srv1 = srv" using ac by (simp add: server_accept_locked_def)
    obtain j where j: "server_find_peer_by_addr srv' from = Some j" using reg by auto
    note fj = find_by_addr_Some [OF j c(1)]
    have "peer_grow (srv_peers srv ! j) (srv_peers srv' ! j)" using c(2) fj(1) \<open>srv1 = srv\<close> by (simp add: tbl_grow_def)
    then have "peer_active (srv_peers srv ! j)" "peer_key (srv_peers srv ! j) = peer_key (srv_peers srv' ! j)"
      using fj(2) by (auto simp: peer_grow_def peer_identity_def peer_key_def split: if_splits)
    then show False using find_by_addr_None [OF inv none fj(1)] fj(3) by simp
  qed
  then show ?thesis using refused_grow [OF c(2) inv1 c(1) accept_refused [OF ac inv] reg] by simp
qed

text \<open>A packet that is refused has no effect.\<close>

lemma refused_no_effect:
  assumes "refused srv from q" "proto_read_hdr buf = Inr (t, l)" "37 + uint l \<le> len" "proto_read_sequence buf = Some q"
    and inv: "server_inv srv"
  shows "\<exists>w'. server_handle_packet srv buf len from w = (srv, w') \<and> w_core w' = w_core w"
proof -
  obtain i where i: "server_find_peer_by_addr srv from = Some i"
      "\<not> fst (proto_replay_accept (peer_replay (srv_peers srv ! i)) q)"
    using assms(1) by (auto simp: refused_def split: option.splits)
  obtain win where a: "proto_replay_accept (peer_replay (srv_peers srv ! i)) q = (False, win)"
    using i(2) by (metis (full_types) prod.collapse)
  have "win = peer_replay (srv_peers srv ! i)"
    using a by (auto simp: proto_replay_accept_def Let_def split: if_splits)
  then show ?thesis using i(1) a assms(2-4)
    by (simp add: server_handle_packet_def server_handle_register_def server_register_locked_def
        server_register_reply_def server_accept_registered_sequence_def server_accept_locked_def Let_def)
qed

end
