(* ===== verification/Server_Sends.thy ===== *)
theory Server_Sends
  imports Server_Lan
begin

text \<open>
  What the server's handlers put on the wire while the network works: the loops that send to many
  peers, the peer list with its limit of 43 entries, and the replies to a registration.
\<close>

section \<open>The peer list\<close>

definition list_payload :: "server_peer_snapshot_t list \<Rightarrow> bytes" where
  "list_payload entries = concat (map (\<lambda>e. entry_bytes (snap_virt_ip e) (snap_name e) True) entries)"

lemma length_concat_entries: "length (concat (map (\<lambda>(v, n). entry_bytes v n True) es)) = 37 * length es"
  by (induction es) auto

lemma length_list_payload [simp, len_simps]: "length (list_payload es) = 37 * length es"
  by (induction es) (auto simp: list_payload_def)

lemma peer_list_loop_spec:
  assumes "cnt \<le> 43" "length buf = 1653"
  shows "peer_list_loop buf (37 * cnt) cnt es =
    (take (37 + 37 * cnt) buf @ concat (map (\<lambda>(v, n). entry_bytes v n True) (take (43 - cnt) es)) @
       drop (37 + 37 * (cnt + min (43 - cnt) (length es))) buf,
     37 * (cnt + min (43 - cnt) (length es)), cnt + min (43 - cnt) (length es))"
  using assms
proof (induction es arbitrary: buf cnt)
  case (Cons e es)
  obtain v n where e: "e = (v, n)" by fastforce
  show ?case
  proof (cases "cnt = 43")
    case True
    then show ?thesis by (simp add: e write_peer_entry_short)
  next
    case False
    then have c: "cnt < 43" using Cons.prems by simp
    let ?off = "37 + 37 * cnt"
    let ?b = "take ?off buf @ entry_bytes v n True @ drop (37 + ?off) buf"
    have wr: "proto_write_peer_entry (drop ?off buf) (1600 - 37 * cnt) v (Some n) True =
        Some (entry_bytes v n True @ drop (37 + ?off) buf)"
      using c Cons.prems by (subst write_peer_entry_bytes) (simp_all add: add.commute)
    have lb: "length ?b = 1653" using c Cons.prems by simp
    have tk: "take (37 + 37 * (cnt + 1)) ?b = take ?off buf @ entry_bytes v n True"
      using c Cons.prems by simp
    have dr: "drop (37 + 37 * (cnt + 1 + k)) ?b = drop (37 + 37 * (cnt + 1 + k)) buf" for k
      using c Cons.prems by (simp add: add.commute add.left_commute)
    have "peer_list_loop buf (37 * cnt) cnt (e # es) = peer_list_loop ?b (37 * (cnt + 1)) (cnt + 1) es"
      using wr by (simp add: e add.commute)
    also have "\<dots> = (take (37 + 37 * (cnt + 1)) ?b @ concat (map (\<lambda>(v, n). entry_bytes v n True) (take (43 - (cnt + 1)) es)) @
       drop (37 + 37 * (cnt + 1 + min (43 - (cnt + 1)) (length es))) ?b,
       37 * (cnt + 1 + min (43 - (cnt + 1)) (length es)), cnt + 1 + min (43 - (cnt + 1)) (length es))"
      using c lb by (intro Cons.IH) auto
    also have "\<dots> = (take ?off buf @ concat (map (\<lambda>(v, n). entry_bytes v n True) (take (43 - cnt) (e # es))) @
       drop (37 + 37 * (cnt + min (43 - cnt) (length (e # es)))) buf,
       37 * (cnt + min (43 - cnt) (length (e # es))), cnt + min (43 - cnt) (length (e # es)))"
    proof -
      have m: "cnt + 1 + min (43 - (cnt + 1)) (length es) = cnt + min (43 - cnt) (length (e # es))" using c by simp
      have t: "take (43 - cnt) (e # es) = e # take (43 - (cnt + 1)) es"
        using c by (metis Suc_diff_Suc Suc_eq_plus1 take_Suc_Cons)
      have dr': "drop (37 + 37 * (cnt + 1 + min (43 - (cnt + 1)) (length es))) ?b = drop (37 + 37 * (cnt + min (43 - cnt) (length (e # es)))) buf"
        by (simp only: dr) (simp only: m)
      show ?thesis unfolding tk dr' t unfolding m by (simp add: e)
    qed
    finally show ?thesis .
  qed
qed simp

lemma build_peer_list_sends:
  assumes s: "sends w w1 ms ts" and eq: "build_peer_list_from_snapshot buf es w1 = (len, cnt, buf', w2)"
    and buf: "length buf = 1653"
  shows "sends w w2 ms ts" "ready 3 (list_payload (take 43 es)) buf' len" "len \<noteq> -1" "cnt = min 43 (length es)"
    "length buf' = 1653"
proof -
  let ?es = "map (\<lambda>e. (snap_virt_ip e, snap_name e)) es"
  let ?p = "list_payload (take 43 es)" and ?k = "min 43 (length es)"
  define b where "b = take 37 buf @ ?p @ drop (37 + 37 * ?k) buf"
  have l: "peer_list_loop buf 0 0 ?es = (b, 37 * ?k, ?k)"
    using peer_list_loop_spec [of 0 buf ?es] buf
    by (simp add: b_def list_payload_def take_map [symmetric] comp_def)
  have lb: "length b = 1653" using buf by (simp add: b_def min_def)
  obtain r b' w' where wh: "proto_write_hdr b 3 (of_nat (37 * ?k)) w1 = (r, b', w')" by (metis prod_cases3)
  have res: "len = int (37 + 37 * ?k)" "cnt = ?k" "buf' = b'" "w2 = w'"
    using eq l wh by (auto simp: build_peer_list_from_snapshot_def)
  have u: "unat (of_nat (37 * ?k) :: u16) = 37 * ?k" by (subst unat_of_nat_u16) auto
  have "random_ok w1" using sends_net_ok [OF s] by (simp add: net_ok_def)
  have lb37: "37 \<le> length b" using lb by simp
  have pr: "w_app w' = w_app w1" "length b' = length b" "r \<noteq> -1" "random_ok w'"
    using proto_write_hdr_props [OF wh] lb u \<open>random_ok w1\<close> by auto
  obtain q n where q: "length n = 24" "b' = hdr_of 3 (of_nat (37 * ?k)) q n @ drop 37 b"
    using proto_write_hdr_success [OF wh _ pr(3)] lb by (metis lb37)
  have "take (37 + length ?p) b' = opened 3 q n ?p"
    using q by (simp add: opened_def b_def min.commute) (use buf in simp)
  then show "ready 3 ?p buf' len" using res pr(2) lb q(1) by (auto simp: ready_def min_def)
  show "len \<noteq> -1" "cnt = ?k" using res by auto
  show "length buf' = 1653" using res pr(2) lb by simp
  have "w_sent w2 = w_sent w1" "w_tun_out w2 = w_tun_out w1" "g_crypto_key w2 = g_crypto_key w1"
    "w_env w2 = w_env w1" "g_running w2 = g_running w1"
    using w_app_cong [OF pr(1)] res by auto
  then show "sends w w2 ms ts"
    using s pr(4) res(4) by (auto simp: sends_def delivered_def net_ok_def)
qed

section \<open>Sending to many\<close>

lemma send_loop_sends:
  assumes "ready t p buf len" "len \<noteq> -1"
  shows "sends w w1 ms ts \<Longrightarrow> server_send_loop what ps buf len n srv w1 = (srv', w2) \<Longrightarrow>
    sends w w2 (ms @ map (\<lambda>d. (t, p, snap_real_addr d)) ps) ts \<and>
    srv' = fold (\<lambda>d s. server_add_peer_bytes_out s d n) ps srv"
proof (induction ps arbitrary: srv w1 ms)
  case (Cons d ps)
  obtain r w3 where sd: "net_send buf len (snap_real_addr d) w1 = (r, w3)" by fastforce
  note ns = sends_net_send [OF Cons.prems(1) assms sd]
  have "server_send_loop what ps buf len n (server_add_peer_bytes_out srv d n) w3 = (srv', w2)"
    using Cons.prems(2) sd ns(1) by simp
  from Cons.IH [OF ns(2) this] show ?case by simp
qed simp

lemma send_joins_sends:
  assumes "ready t p buf len" "len \<noteq> -1"
  shows "sends w w1 ms ts \<Longrightarrow>
    sends w (server_send_joins buf len pname ds w1) (ms @ map (\<lambda>d. (t, p, d)) ds) ts"
proof (induction ds arbitrary: w1 ms)
  case (Cons d ds)
  obtain r w3 where sd: "net_send buf len d w1 = (r, w3)" by fastforce
  note ns = sends_net_send [OF Cons.prems assms sd]
  from Cons.IH [OF ns(2)] show ?case using sd ns(1) by simp
qed simp

lemma send_probes_sends:
  assumes "ready t p buf len" "len \<noteq> -1"
  shows "sends w w1 ms ts \<Longrightarrow>
    sends w (server_send_probes ps buf len w1) (ms @ map (\<lambda>d. (t, p, snap_real_addr d)) ps) ts"
proof (induction ps arbitrary: w1 ms)
  case (Cons d ds)
  obtain r w3 where sd: "net_send buf len (snap_real_addr d) w1 = (r, w3)" by fastforce
  note ns = sends_net_send [OF Cons.prems assms sd]
  from Cons.IH [OF ns(2)] show ?case using sd ns(1) by simp
qed simp

section \<open>Registration\<close>

lemma reply_new_sends:
  assumes "net_ok w"
  shows "sends w (server_register_reply (RegNew vip nm addr es ds) from w)
    ((MSG_ASSIGN, assign_payload vip (htonl TUND_NETMASK) (of_nat TUND_TUN_MTU), addr) #
     (MSG_PEER_LIST, list_payload (take 43 es), addr) #
     map (\<lambda>d. (MSG_PEER_JOIN, join_payload vip nm, d)) ds) []"
proof -
  obtain len1 buf1 w1 where b1: "proto_build_assign (zeros TUND_MAX_PKT) vip (htonl TUND_NETMASK) (of_nat TUND_TUN_MTU) w = (len1, buf1, w1)"
    by (metis prod_cases3)
  note s0 = sends_refl [THEN iffD2, OF assms]
  have "built 2 (assign_payload vip (htonl TUND_NETMASK) (of_nat TUND_TUN_MTU)) (zeros TUND_MAX_PKT) w (len1, buf1, w1)"
    using built_assign [of "zeros TUND_MAX_PKT" vip "htonl TUND_NETMASK" "of_nat TUND_TUN_MTU" w] unfolding b1 by simp
  note s1 = sends_built [OF s0 this]
  have s1: "sends w w1 [] []" "ready 2 (assign_payload vip (htonl TUND_NETMASK) (of_nat TUND_TUN_MTU)) buf1 len1" "len1 \<noteq> -1"
    "length buf1 = 1653" using s1 by auto
  obtain r1 w2 where n1: "net_send buf1 len1 addr w1 = (r1, w2)" by fastforce
  note s2 = sends_net_send [OF s1(1-3) n1]
  define w3 where "w3 = app_event_peer_join nm vip addr (LOG_INFO ([0xE2, 0x98, 0x85] @ lit '' New peer: '' @ c_str nm @ [32, 0xE2, 0x86, 0x92, 32] @
                    ip_to_str_buf vip TUND_IP_STR_LEN @ lit '' ['' @ ip_to_str_buf (sin_addr from) TUND_IP_STR_LEN @
                    lit '':'' @ fmt_u (unat (ntohs (sin_port from))) @ lit '']'') w2)"
  have s3: "sends w w3 [(2, assign_payload vip (htonl TUND_NETMASK) (of_nat TUND_TUN_MTU), addr)] []"
    using s2(2) by (simp add: w3_def)
  obtain len2 cnt buf2 w4 where b2: "build_peer_list_from_snapshot buf1 es w3 = (len2, cnt, buf2, w4)" by (metis prod_cases4)
  note s4 = build_peer_list_sends [OF s3 b2 s1(4)]
  obtain r2 w5 where n2: "net_send buf2 len2 addr w4 = (r2, w5)" by fastforce
  note s5 = sends_net_send [OF s4(1-3) n2]
  define w6 where "w6 = LOG_DEBUG (lit ''Sent peer list ('' @ fmt_u cnt @ lit '' peers) to '' @ c_str nm) w5"
  have s6: "sends w w6 ([(2, assign_payload vip (htonl TUND_NETMASK) (of_nat TUND_TUN_MTU), addr)] @ [(3, list_payload (take 43 es), addr)]) []"
    using s5(2) by (simp add: w6_def)
  obtain len3 buf3 w7 where b3: "proto_build_peer_join buf2 vip nm w6 = (len3, buf3, w7)" by (metis prod_cases3)
  have "built 7 (join_payload vip nm) buf2 w6 (len3, buf3, w7)"
    using built_peer_join [of buf2 vip nm w6] s4(5) unfolding b3 by simp
  note s7 = sends_built [OF s6 this]
  have "sends w (server_send_joins buf3 len3 nm ds w7)
     ([(2, assign_payload vip (htonl TUND_NETMASK) (of_nat TUND_TUN_MTU), addr)] @ [(3, list_payload (take 43 es), addr)] @
      map (\<lambda>d. (7, join_payload vip nm, d)) ds) []"
    using send_joins_sends [OF s7(2,3,1), of nm ds] s4(5) by simp
  moreover have "server_register_reply (RegNew vip nm addr es ds) from w = server_send_joins buf3 len3 nm ds w7"
    using b1 n1 b2 [unfolded w3_def] n2 b3 [unfolded w6_def] s2(1) s5(1)
    by (simp add: server_register_reply_def Let_def)
  ultimately show ?thesis by simp
qed

lemma reply_reconnect_sends:
  assumes "net_ok w"
  shows "sends w (server_register_reply (RegReconnect vip nm addr) from w)
    [(MSG_ASSIGN, assign_payload vip (htonl TUND_NETMASK) (of_nat TUND_TUN_MTU), addr)] []"
proof -
  obtain len1 buf1 w1 where b1: "proto_build_assign (zeros TUND_MAX_PKT) vip (htonl TUND_NETMASK) (of_nat TUND_TUN_MTU) w = (len1, buf1, w1)"
    by (metis prod_cases3)
  have "built 2 (assign_payload vip (htonl TUND_NETMASK) (of_nat TUND_TUN_MTU)) (zeros TUND_MAX_PKT) w (len1, buf1, w1)"
    using built_assign [of "zeros TUND_MAX_PKT" vip "htonl TUND_NETMASK" "of_nat TUND_TUN_MTU" w] unfolding b1 by simp
  note s1 = sends_built [OF sends_refl [THEN iffD2, OF assms] this]
  obtain r1 w2 where n1: "net_send buf1 len1 addr w1 = (r1, w2)" by fastforce
  have "r1 = 0" "sends w w2 [(2, assign_payload vip (htonl TUND_NETMASK) (of_nat TUND_TUN_MTU), addr)] []"
    using sends_net_send [OF _ _ _ n1, of w "[]" "[]"] s1 by auto
  then show ?thesis using b1 n1 by (simp add: server_register_reply_def)
qed

lemma free_slot_count:
  assumes "server_inv srv" shows "server_find_free_slot srv = None \<longleftrightarrow> srv_peer_count srv = 253"
proof -
  have "count_if peer_active ps = length ps \<longleftrightarrow> (\<forall>p \<in> set ps. peer_active p)" for ps
    by (simp add: count_if_def length_filter_conv_card) (metis count_if_def filter_id_conv length_filter_less less_irrefl length_filter_conv_card)
  then have "count_if peer_active (srv_peers srv) = 253 \<longleftrightarrow> (\<forall>p \<in> set (srv_peers srv). peer_active p)"
    using server_inv_length [OF assms] by metis
  then show ?thesis using assms by (simp add: server_find_free_slot_def server_inv_def)
qed

lemma snapshot_others:
  assumes inv: "server_inv srv" and idx: "idx < 253" "\<not> peer_active (srv_peers srv ! idx)" and p: "peer_active p"
  shows "map (\<lambda>i. server_snapshot_peer_locked ((srv_peers srv)[idx := p] ! i) i)
      (filter (\<lambda>i. peer_active ((srv_peers srv)[idx := p] ! i) \<and> i \<noteq> idx) [0..<length (srv_peers srv)]) =
    server_snapshot_broadcast_locked srv 253 (-1)"
proof -
  have f: "filter (\<lambda>i. peer_active ((srv_peers srv)[idx := p] ! i) \<and> i \<noteq> idx) [0..<length (srv_peers srv)] =
      filter (\<lambda>i. peer_active (srv_peers srv ! i)) [0..<length (srv_peers srv)]"
    using idx(2) by (intro filter_cong refl) (metis nth_list_update_neq)
  have m: "map (\<lambda>i. server_snapshot_peer_locked ((srv_peers srv)[idx := p] ! i) i)
       (filter (\<lambda>i. peer_active (srv_peers srv ! i)) [0..<length (srv_peers srv)]) =
     map (\<lambda>i. server_snapshot_peer_locked (srv_peers srv ! i) i)
       (filter (\<lambda>i. peer_active (srv_peers srv ! i)) [0..<length (srv_peers srv)])"
    using idx(2) by (intro map_cong refl) (metis (mono_tags, lifting) mem_Collect_eq nth_list_update_neq set_filter)
  have "length (filter (\<lambda>i. peer_active (srv_peers srv ! i)) [0..<length (srv_peers srv)]) \<le> 253"
    using length_filter_le [of _ "[0..<length (srv_peers srv)]"] inv by simp
  then show ?thesis unfolding f m by (simp add: server_snapshot_broadcast_locked_def)
qed

lemma snap_others_addr:
  assumes "map (\<lambda>i. server_snapshot_peer_locked (ps ! i) i) is = snaps"
  shows "map (\<lambda>i. peer_real_addr (ps ! i)) is = map snap_real_addr snaps"
  unfolding assms [symmetric] by (simp add: server_snapshot_peer_locked_def)

lemma register_locked_new:
  assumes inv: "server_inv srv" and none: "server_find_peer_by_addr srv from = None" and room: "srv_peer_count srv < 253"
    and len: "unat plen \<le> length payload" and eq: "server_register_locked srv payload plen from q w = (res, srv', w')"
  obtains vip nm idx where "res = RegNew vip nm from (server_snapshot_broadcast_locked srv 253 (-1))
      (map snap_real_addr (server_snapshot_broadcast_locked srv 253 (-1)))"
    "c_str nm = c_str (server_peer_name payload plen idx)" "pool_ip vip" "lan srv vip = None"
    "\<forall>ip. TUND_IP_START \<le> ip \<and> ip < ntohl vip \<longrightarrow> lan srv (htonl ip) \<noteq> None"
    "lan srv' = (lan srv)(vip \<mapsto> (from, c_str nm))" "srv_peer_count srv' = srv_peer_count srv + 1" "w_core w' = w_core w"
proof -
  obtain idx where slot: "server_find_free_slot srv = Some idx"
    using free_slot_count [OF inv] room by fastforce
  have idx: "idx < 253" "\<not> peer_active (srv_peers srv ! idx)"
    using first_idx_Some [OF slot [unfolded server_find_free_slot_def]] inv by auto
  have vip: "server_alloc_ip srv \<noteq> 0" by (rule alloc_ip_succeeds [OF inv idx])
  then obtain ip where ip: "TUND_IP_START \<le> ip" "ip \<le> TUND_IP_END" "server_alloc_ip srv = htonl ip"
      "\<And>q. TUND_IP_START \<le> q \<Longrightarrow> q < ip \<Longrightarrow> server_ip_taken srv (htonl q)"
    using alloc_ip_Some by metis
  let ?now = "fst (time_now w)"
  let ?p = "server_new_peer idx (server_alloc_ip srv) payload plen from q ?now"
  let ?nm = "snprintf (zeros TUND_NAME_LEN) TUND_NAME_LEN (c_str (peer_name ?p))"
  let ?others = "server_snapshot_broadcast_locked srv 253 (-1)"
  have act: "peer_active ?p" "peer_real_addr ?p = from" "peer_virt_ip ?p = server_alloc_ip srv"
    "peer_name ?p = server_peer_name payload plen idx"
    by (simp_all add: server_new_peer_def)
  have nm: "c_str ?nm = c_str (server_peer_name payload plen idx)"
  proof -
    have "length (c_str (server_peer_name payload plen idx)) \<le> 31"
      using terminated_c_strlen [OF server_peer_name_wf(2) [OF len, of idx]] server_peer_name_wf(1) [OF len, of idx]
      by (simp add: c_strlen_def)
    then show ?thesis by (simp add: act c_str_snprintf)
  qed
  have res: "res = RegNew (server_alloc_ip srv) ?nm from ?others (map snap_real_addr ?others)"
    "srv' = srv\<lparr>srv_peers := (srv_peers srv)[idx := ?p], srv_peer_count := srv_peer_count srv + 1\<rparr>"
    "w' = snd (time_now w)"
    using eq none slot vip snapshot_others [OF inv idx act(1)] snap_others_addr [OF snapshot_others [OF inv idx act(1)]] act(2)
    by (simp_all add: server_register_locked_def Let_def split_beta)
  have inv': "server_inv srv'"
    unfolding res(2) by (rule server_inv_new_peer [OF inv none slot refl vip len])
  have idn: "peer_identity ?p = Some (server_alloc_ip srv, from, c_str ?nm)"
    using nm by (simp add: peer_identity_def act)
  have l: "lan srv' = (lan srv)(server_alloc_ip srv \<mapsto> (from, c_str ?nm))" "lan srv (server_alloc_ip srv) = None"
    using lan_insert [OF inv inv' idx idn] res(2) by auto
  have low: "\<forall>a. TUND_IP_START \<le> a \<and> a < ntohl (server_alloc_ip srv) \<longrightarrow> lan srv (htonl a) \<noteq> None"
    using ip(4) ip(3) unfolding lan_None_iff [OF inv] server_ip_taken_iff using inv by auto
  show thesis
    by (rule that [OF res(1) nm _ l(2) low l(1)]) (use ip res in \<open>simp_all add: pool_ip_def\<close>)
qed

section \<open>Data\<close>

text \<open>
  Where a tunnelled packet should go: the messages that leave through the socket and the packets
  that reach the server's own TUN device.
\<close>

definition data_route :: "server_t \<Rightarrow> bytes \<Rightarrow> sockaddr_in \<Rightarrow> message list \<times> bytes list" where
  "data_route srv pkt from =
     (case server_find_peer_by_addr srv from of
        None \<Rightarrow> ([], [])
      | Some i \<Rightarrow>
          let src = u32_of_mem (slice 12 4 pkt); dst = u32_of_mem (slice 16 4 pkt)
          in if src \<noteq> peer_virt_ip (srv_peers srv ! i) then ([], [])
             else if dst = htonl TUND_SERVER_IP then ([], [pkt])
             else if dst = htonl 0x0A0900FF
             then (map (\<lambda>p. (MSG_DATA, pkt, snap_real_addr p)) (server_snapshot_broadcast_locked srv TUND_MAX_PEERS (int i)), [pkt])
             else case lan srv dst of None \<Rightarrow> ([], []) | Some (addr, _) \<Rightarrow> ([(MSG_DATA, pkt, addr)], []))"

lemma snapshot_broadcast_update:
  assumes "peer_active p' = peer_active (srv_peers srv ! i)" "server_snapshot_peer_locked p' i = server_snapshot_peer_locked (srv_peers srv ! i) i"
  shows "server_snapshot_broadcast_locked (srv\<lparr>srv_peers := (srv_peers srv)[i := p']\<rparr>) m ex = server_snapshot_broadcast_locked srv m ex"
proof -
  have n: "j < length (srv_peers srv) \<Longrightarrow> peer_active ((srv_peers srv)[i := p'] ! j) = peer_active (srv_peers srv ! j) \<and>
      server_snapshot_peer_locked ((srv_peers srv)[i := p'] ! j) j = server_snapshot_peer_locked (srv_peers srv ! j) j" for j
    using assms by (cases "i = j") auto
  have f: "filter (\<lambda>j. peer_active ((srv_peers srv)[i := p'] ! j) \<and> int j \<noteq> ex) [0..<length (srv_peers srv)] =
      filter (\<lambda>j. peer_active (srv_peers srv ! j) \<and> int j \<noteq> ex) [0..<length (srv_peers srv)]"
    using n by (intro filter_cong) auto
  have "map (\<lambda>j. server_snapshot_peer_locked ((srv_peers srv)[i := p'] ! j) j)
        (filter (\<lambda>j. peer_active (srv_peers srv ! j) \<and> int j \<noteq> ex) [0..<length (srv_peers srv)]) =
      map (\<lambda>j. server_snapshot_peer_locked (srv_peers srv ! j) j)
        (filter (\<lambda>j. peer_active (srv_peers srv ! j) \<and> int j \<noteq> ex) [0..<length (srv_peers srv)])"
    using n by (intro map_cong) auto
  moreover have up: "srv_peers (srv\<lparr>srv_peers := (srv_peers srv)[i := p']\<rparr>) = (srv_peers srv)[i := p']" by simp
  ultimately show ?thesis by (simp only: server_snapshot_broadcast_locked_def f length_list_update up)
qed

lemma snapshot_by_vip_lan:
  "map_option snap_real_addr (server_snapshot_peer_by_vip_locked srv v) = map_option fst (lan srv v)"
  by (simp add: server_snapshot_peer_by_vip_locked_def lan_def server_snapshot_peer_locked_def option.map_comp comp_def)

lemma data_locked_cases:
  assumes inv: "server_inv srv" and eq: "server_data_locked srv src dst plen from w = (res, srv', w')"
  shows "w_core w' = w_core w"
    "server_find_peer_by_addr srv from = None \<Longrightarrow> res = DataUnregistered"
    "server_find_peer_by_addr srv from = Some i \<Longrightarrow> src \<noteq> peer_virt_ip (srv_peers srv ! i) \<Longrightarrow> res = DataSpoofed"
    "server_find_peer_by_addr srv from = Some i \<Longrightarrow> src = peer_virt_ip (srv_peers srv ! i) \<Longrightarrow>
      res = (if dst = htonl TUND_SERVER_IP then DataForServer
        else if dst = htonl 0x0A0900FF then DataBroadcast (server_snapshot_broadcast_locked srv TUND_MAX_PEERS (int i))
        else case server_snapshot_peer_by_vip_locked srv' dst of None \<Rightarrow> DataNoPeer | Some d \<Rightarrow> DataUnicast d)"
proof -
  have m: "(TUND_SUBNET OR NOT TUND_NETMASK :: u32) = 0x0A0900FF" by code_simp
  show "w_core w' = w_core w"
    using eq by (auto simp: server_data_locked_def Let_def split: option.splits if_splits)
  show "server_find_peer_by_addr srv from = None \<Longrightarrow> res = DataUnregistered"
    "server_find_peer_by_addr srv from = Some i \<Longrightarrow> src \<noteq> peer_virt_ip (srv_peers srv ! i) \<Longrightarrow> res = DataSpoofed"
    using eq by (auto simp: server_data_locked_def Let_def)
  assume f: "server_find_peer_by_addr srv from = Some i" and s: "src = peer_virt_ip (srv_peers srv ! i)"
  let ?p = "srv_peers srv ! i"
  let ?p' = "?p\<lparr>peer_bytes_in := peer_bytes_in ?p + ucast plen\<rparr>"
  have b: "server_snapshot_broadcast_locked (srv\<lparr>srv_peers := (srv_peers srv)[i := ?p']\<rparr>) 253 (int i) =
      server_snapshot_broadcast_locked srv 253 (int i)"
    by (rule snapshot_broadcast_update) (simp_all add: server_snapshot_peer_locked_def)
  show "res = (if dst = htonl TUND_SERVER_IP then DataForServer
        else if dst = htonl 0x0A0900FF then DataBroadcast (server_snapshot_broadcast_locked srv TUND_MAX_PEERS (int i))
        else case server_snapshot_peer_by_vip_locked srv' dst of None \<Rightarrow> DataNoPeer | Some d \<Rightarrow> DataUnicast d)"
    using eq f s b unfolding m
    by (auto simp: server_data_locked_def Let_def m split: option.splits if_splits)
qed

lemma data_forward_sends:
  assumes s: "sends w w1 [] []" and tw: "tun_write_ok (w_env w)" and len: "unat plen \<le> length payload" "unat plen \<le> 1600"
    and eq: "server_data_forward srv res payload plen dst w1 = (srv', w2)"
  shows "sends w w2
    (case res of DataBroadcast ps \<Rightarrow> map (\<lambda>p. (MSG_DATA, take (unat plen) payload, snap_real_addr p)) ps
       | DataUnicast d \<Rightarrow> [(MSG_DATA, take (unat plen) payload, snap_real_addr d)] | _ \<Rightarrow> [])
    (case res of DataForServer \<Rightarrow> [take (unat plen) payload] | DataBroadcast _ \<Rightarrow> [take (unat plen) payload] | _ \<Rightarrow> [])"
proof -
  obtain l buf w3 where b: "proto_build_data (zeros 1653) payload plen w1 = (l, buf, w3)" by (metis prod_cases3)
  have "built 4 (take (unat plen) payload) (zeros 1653) w1 (l, buf, w3)"
    using built_data [of plen "zeros 1653" payload w1] len unfolding b by simp
  note s3 = sends_built [OF s this]
  have s3: "sends w w3 [] []" "ready 4 (take (unat plen) payload) buf l" "l \<noteq> -1" using s3 len by auto
  show ?thesis
  proof (cases res)
    case (DataBroadcast ps)
    obtain srv1 w4 where sl: "server_send_loop ''Broadcast to '' ps buf l (ucast plen) srv w3 = (srv1, w4)" by fastforce
    have s4: "sends w w4 (map (\<lambda>p. (4, take (unat plen) payload, snap_real_addr p)) ps) []"
      using send_loop_sends [OF s3(2,3) s3(1) sl] by simp
    show ?thesis using sends_tun_write [OF s4 tw len(1), of "srv_tun srv1"] eq DataBroadcast b sl
      by (auto simp: server_data_forward_def)
  next
    case (DataUnicast d)
    obtain r w4 where sd: "net_send buf l (snap_real_addr d) w3 = (r, w4)" by fastforce
    show ?thesis using sends_net_send [OF s3 sd] eq DataUnicast b sd by (simp add: server_data_forward_def)
  next
    case DataForServer
    show ?thesis using sends_tun_write [OF s tw len(1), of "srv_tun srv"] eq DataForServer
      by (auto simp: server_data_forward_def)
  qed (use eq s in \<open>auto simp: server_data_forward_def\<close>)
qed

lemma packet_addresses:
  assumes "20 \<le> unat plen"
  shows "proto_get_src_ip payload plen = u32_of_mem (slice 12 4 (take (unat plen) payload))"
    "proto_get_dst_ip payload plen = u32_of_mem (slice 16 4 (take (unat plen) payload))"
  using assms by (simp_all add: proto_get_src_ip_def proto_get_dst_ip_def word_less_nat_alt slice_take)

section \<open>Leaving\<close>

lemma send_loop_no_bytes: "server_send_loop what ps buf len 0 srv w = (srv', w') \<Longrightarrow> srv' = srv"
  by (induction ps arbitrary: srv w)
     (auto simp: server_add_peer_bytes_out_def Let_def split: prod.splits if_splits)

lemma leave_sends:
  assumes "sends w w1 ms ts" "proto_build_peer_leave (zeros TUND_MAX_PKT) vip w1 = (len, buf, w2)"
    "server_send_peer_snapshots srv ps buf len 0 w2 = (srv', w3)"
  shows "sends w w3 (ms @ map (\<lambda>p. (MSG_PEER_LEAVE, mem_of_u32 vip, snap_real_addr p)) ps) ts"
proof -
  have "built 8 (mem_of_u32 vip) (zeros 1653) w1 (len, buf, w2)"
    using built_peer_leave [of "zeros 1653" vip w1] assms(2) by simp
  note b = sends_built [OF assms(1) this]
  show ?thesis using send_loop_sends [OF b(2,3,1) assms(3) [unfolded server_send_peer_snapshots_def]] by simp
qed

lemma announce_sends:
  "sends w w1 ms ts \<Longrightarrow> server_announce_timeouts to lv srv w1 = (srv', w2) \<Longrightarrow>
   srv' = srv \<and> sends w w2 (ms @ concat (map (\<lambda>t. map (\<lambda>p. (MSG_PEER_LEAVE, mem_of_u32 (snap_virt_ip t), snap_real_addr p)) lv) to)) ts"
proof (induction to arbitrary: srv w1 ms)
  case (Cons p to)
  define w3 where "w3 = app_event_peer_leave (snap_virt_ip p) (lit ''timeout'')
    (LOG_WARN ([0xE2, 0x9C, 0xA6] @ lit '' Peer timed out: '' @ c_str (snap_name p) @ lit '' ('' @
                ip_to_str_buf (snap_virt_ip p) TUND_IP_STR_LEN @ lit '')'') w1)"
  obtain len buf w4 where b: "proto_build_peer_leave (zeros TUND_MAX_PKT) (snap_virt_ip p) w3 = (len, buf, w4)" by (metis prod_cases3)
  obtain srv1 w5 where s: "server_send_peer_snapshots srv lv buf len 0 w4 = (srv1, w5)" by fastforce
  have "srv1 = srv" using s by (simp add: server_send_peer_snapshots_def) (metis send_loop_no_bytes)
  have "sends w w3 ms ts" using Cons.prems(1) by (simp add: w3_def)
  from leave_sends [OF this b s]
  have s5: "sends w w5 (ms @ map (\<lambda>q. (8, mem_of_u32 (snap_virt_ip p), snap_real_addr q)) lv) ts" .
  have "server_announce_timeouts to lv srv1 w5 = (srv', w2)"
    using Cons.prems(2) b [unfolded w3_def] s by simp
  from Cons.IH [OF s5 this] show ?case using \<open>srv1 = srv\<close> by simp
qed simp

lemma remaining_snapshots:
  assumes "server_inv srv" "srv_peers srv' = map (retire now) (srv_peers srv)"
  shows "server_snapshot_broadcast_locked srv' 253 (-1) =
    map (\<lambda>i. server_snapshot_peer_locked (srv_peers srv ! i) i)
      (filter (\<lambda>i. peer_active (srv_peers srv ! i) \<and> \<not> server_peer_expired now (srv_peers srv ! i)) [0..<253])"
proof -
  have n: "i < 253 \<Longrightarrow> srv_peers srv' ! i = retire now (srv_peers srv ! i)" for i using assms by simp
  have f: "filter (\<lambda>i. peer_active (srv_peers srv' ! i) \<and> int i \<noteq> -1) [0..<253] =
      filter (\<lambda>i. peer_active (srv_peers srv ! i) \<and> \<not> server_peer_expired now (srv_peers srv ! i)) [0..<253]"
    using n by (intro filter_cong) (auto simp: retire_def)
  have m: "map (\<lambda>i. server_snapshot_peer_locked (srv_peers srv' ! i) i)
      (filter (\<lambda>i. peer_active (srv_peers srv ! i) \<and> \<not> server_peer_expired now (srv_peers srv ! i)) [0..<253]) =
    map (\<lambda>i. server_snapshot_peer_locked (srv_peers srv ! i) i)
      (filter (\<lambda>i. peer_active (srv_peers srv ! i) \<and> \<not> server_peer_expired now (srv_peers srv ! i)) [0..<253])"
    using n by (intro map_cong) (auto simp: retire_def)
  have "length (filter (\<lambda>i. peer_active (srv_peers srv ! i) \<and> \<not> server_peer_expired now (srv_peers srv ! i)) [0..<253]) \<le> 253"
    using length_filter_le [of _ "[0..<253]"] by simp
  moreover have "length (srv_peers srv') = 253" using assms by simp
  ultimately show ?thesis unfolding server_snapshot_broadcast_locked_def using f m by simp
qed

end
