(* ===== verification/Server_Props.thy ===== *)
theory Server_Props
  imports Server_Sends
begin

text \<open>
  The properties of the server: the invariant under every interleaving of its threads, the refinement
  to the directory, replay protection, the functional behaviour of every handler and of the timeout
  and TUN threads, and the handling of its resources. The definitions below are the concrete server
  with two peers at which the properties are evaluated.
\<close>

section \<open>A concrete server\<close>

definition demo_addr :: "nat \<Rightarrow> sockaddr_in" where
  "demo_addr k = \<lparr>sin_family = 2, sin_port = of_nat k, sin_addr = 7\<rparr>"

definition demo_peer :: "nat \<Rightarrow> peer_t" where
  "demo_peer k =
     \<lparr>peer_active = True, peer_virt_ip = htonl (TUND_IP_START + of_nat k), peer_name = name_array TUND_NAME_LEN (lit ''peer''),
      peer_real_addr = demo_addr k, peer_last_seen = 990 - 100 * int k, peer_bytes_in = 0, peer_bytes_out = 0, peer_rtt_ms = 0,
      peer_has_rtt = False, peer_replay = \<lparr>replay_highest = 5, replay_seen = 1\<rparr>\<rparr>"

definition demo_server :: server_t where
  "demo_server =
     \<lparr>srv_sockfd = 4, srv_tun = tun_device0\<lparr>tun_fd := 5\<rparr>, srv_peers = demo_peer 0 # demo_peer 1 # replicate 251 peer0,
      srv_peer_count = 2, srv_port = 9909, srv_timeout_started = True, srv_tun_started = True,
      srv_timeout_quit = False, srv_tun_quit = False\<rparr>"

lemma demo_server_nth:
  "i < 253 \<Longrightarrow> srv_peers demo_server ! i = (if i = 0 then demo_peer 0 else if i = 1 then demo_peer 1 else peer0)"
  by (auto simp: demo_server_def nth_Cons')

lemma demo_peer_wf: "peer_wf (demo_peer k)"
proof -
  have "0 \<notin> set (lit ''peer'')" by code_simp
  then have "terminated (name_array 32 (lit ''peer''))" "length (name_array 32 (lit ''peer'')) = 32"
    using name_array_props [of "lit ''peer''" 32] by simp_all
  moreover have "replay_repr (peer_replay (demo_peer k)) {5}"
    using replay_repr_first [of 5] by (simp add: demo_peer_def)
  ultimately show ?thesis unfolding peer_wf_def by (auto simp: demo_peer_def)
qed

lemma demo_peer_facts [simp]:
  "peer_active (demo_peer k)" "peer_virt_ip (demo_peer k) = htonl (TUND_IP_START + of_nat k)"
  "peer_real_addr (demo_peer k) = demo_addr k" "\<not> peer_active peer0"
  "sin_port (demo_addr k) = of_nat k" "sin_addr (demo_addr k) = 7"
  by (simp_all add: demo_peer_def demo_addr_def peer0_def)

lemma demo_server_inv: "server_inv demo_server"
proof -
  have "peers_ok (srv_peers demo_server)"
    unfolding peers_ok_def
  proof (intro conjI allI impI)
    show l: "length (srv_peers demo_server) = 253" by (simp add: demo_server_def)
    show "list_all peer_wf (srv_peers demo_server)"
      using demo_peer_wf peer0_wf by (simp add: demo_server_def list_all_iff)
    show "pool_ip (peer_virt_ip (srv_peers demo_server ! i))"
      if "i < length (srv_peers demo_server)" "peer_active (srv_peers demo_server ! i)" for i
      using that by (auto simp: l demo_server_nth pool_ip_def split: if_splits)
    fix i j assume "i < length (srv_peers demo_server)" "j < length (srv_peers demo_server)"
      "peer_active (srv_peers demo_server ! i)" "peer_active (srv_peers demo_server ! j)" "i \<noteq> j"
    then show "peer_virt_ip (srv_peers demo_server ! i) \<noteq> peer_virt_ip (srv_peers demo_server ! j)"
        "peer_key (srv_peers demo_server ! i) \<noteq> peer_key (srv_peers demo_server ! j)"
      by (auto simp: l demo_server_nth peer_key_def split: if_splits)
  qed
  moreover have "count_if peer_active (srv_peers demo_server) = 2" by (simp add: demo_server_def)
  ultimately show ?thesis by (simp add: server_inv_def demo_server_def)
qed

lemma demo_find [simp]:
  "server_find_peer_by_addr demo_server (demo_addr 0) = Some 0"
  "server_find_peer_by_addr demo_server (demo_addr 9) = None"
  "srv_peer_count demo_server = 2" "srv_peers demo_server ! 0 = demo_peer 0" "srv_tun demo_server = tun_device0\<lparr>tun_fd := 5\<rparr>"
  by (simp_all add: server_find_peer_by_addr_def demo_server_def peer0_def demo_addr_def)

lemma demo_idle: "w_tun_out demo_world = []" "w_sent demo_world = []"
  by (simp_all add: demo_world_def)

lemma tun_write_ok_demo [simp]: "tun_write_ok (w_env demo_world)"
  by (simp add: tun_write_ok_def demo_world_def demo_env_def)

definition demo_packet :: bytes where
  "demo_packet = [0x45, 0, 0, 20] @ zeros 8 @ [10, 9, 0, 2, 10, 9, 0, 1]"

lemma demo_packet_ok: "ipv4_ok demo_packet 20" "length demo_packet = 20"
  "u32_of_mem (slice 12 4 demo_packet) = htonl 0x0A090002" "u32_of_mem (slice 16 4 demo_packet) = htonl 0x0A090001"
  by code_simp+

definition demo_config :: config_t where
  "demo_config =
     \<lparr>cfg_mode = MODE_SERVER, cfg_port = 9909, cfg_server_ip = zeros 64, cfg_client_name = zeros 32,
      cfg_access_key = zeros 128, cfg_log_level = 1, cfg_key_from_stdin = False, cfg_json_events = False,
      cfg_tui_mode = False\<rparr>"

lemma demo_init: "fst (server_init demo_config demo_world) = 0"
  by (simp add: server_init_def net_create_socket_def tun_open_def tun_set_ip_def tun_set_mtu_def syscall_def
      demo_world_def demo_env_def fd_open_def fd_close_def sock_valid_def Let_def)

lemma threads_interleave:
  "server_steps srv (fst (snd (snd (server_run_iter locals srv w)))) \<and>
   server_steps srv (fst (snd (snd (server_timeout_iter slept srv w)))) \<and>
   server_steps srv (fst (snd (server_tun_iter srv w)))"
  using steps.run_iter [of locals srv w] steps.timeout_iter [of slept srv w] steps.tun_iter [of srv w]
  by (metis prod.collapse)

text \<open>
  C2: the peer table is sound in every state that any interleaving of the server's critical sections
  reaches from \<open>server_init\<close>: 253 slots, a peer count equal to the number of active slots, every active
  peer with an address in 10.9.0.2 .. 10.9.0.254 and a terminated name, and no two active peers with
  the same virtual address or the same endpoint. One iteration of each thread (the main loop with
  everything the dispatch can do, the timeout thread, the TUN thread) is a sequence of critical
  sections, so that these interleavings cover every schedule of the threads.
\<close>

theorem server_reachable_invariant:
  assumes "server_init cfg w = (r, srv, w')" "server_steps srv srv'"
  shows "length (srv_peers srv') = TUND_MAX_PEERS \<and>
    srv_peer_count srv' = int (count_if peer_active (srv_peers srv')) \<and>
    (\<forall>i < TUND_MAX_PEERS. peer_active (srv_peers srv' ! i) \<longrightarrow>
       TUND_IP_START \<le> ntohl (peer_virt_ip (srv_peers srv' ! i)) \<and> ntohl (peer_virt_ip (srv_peers srv' ! i)) \<le> TUND_IP_END \<and>
       0 \<in> set (peer_name (srv_peers srv' ! i)) \<and>
       (\<forall>j < TUND_MAX_PEERS. peer_active (srv_peers srv' ! j) \<longrightarrow> i \<noteq> j \<longrightarrow>
          peer_virt_ip (srv_peers srv' ! i) \<noteq> peer_virt_ip (srv_peers srv' ! j) \<and>
          peer_key (srv_peers srv' ! i) \<noteq> peer_key (srv_peers srv' ! j))) \<and>
    server_steps srv' (fst (snd (snd (server_run_iter locals srv' v)))) \<and>
    server_steps srv' (fst (snd (snd (server_timeout_iter slept srv' v)))) \<and>
    server_steps srv' (fst (snd (server_tun_iter srv' v)))"
proof -
  have inv: "server_inv srv'" using server_steps_inv [OF assms(2) server_init_inv [OF assms(1)]] .
  then have ok: "peers_ok (srv_peers srv')" "length (srv_peers srv') = 253"
      "srv_peer_count srv' = int (count_if peer_active (srv_peers srv'))"
    by (simp_all add: server_inv_def)
  have n: "0 \<in> set (peer_name (srv_peers srv' ! i))" if "i < 253" for i
    using peers_ok_nth_wf [OF ok(1)] that ok(2) by (simp add: peer_wf_def terminated_def)
  show ?thesis
    using ok n threads_interleave [of srv' locals v slept] unfolding peers_ok_def pool_ip_def
    by (intro conjI allI impI) (auto simp only:)
qed

theorem server_reachable_invariant_witness:
  "\<exists>srv w' srv' res w''. server_init demo_config demo_world = (0, srv, w') \<and>
     server_register_locked srv (lit ''eve'') 3 (demo_addr 9) 1 demo_world = (res, srv', w'') \<and> length (srv_peers srv') = 253"
proof -
  obtain r srv w' where i: "server_init demo_config demo_world = (r, srv, w')" by (metis prod_cases3)
  have "r = 0" using i demo_init by simp
  moreover obtain res srv' w'' where reg: "server_register_locked srv (lit ''eve'') 3 (demo_addr 9) 1 demo_world = (res, srv', w'')"
    by (metis prod_cases3)
  moreover have "server_steps srv srv'" by (intro r_into_rtranclp step_register [OF reg]) simp
  ultimately show ?thesis using server_reachable_invariant [OF i] i by blast
qed

text \<open>
  C3: refinement. Seen through \<open>lan\<close>, each critical section of the server is a step of an abstract
  directory of addresses: nothing changes, one free pool address is assigned to an endpoint that has
  none, or some peers leave.
\<close>

theorem server_refines_directory:
  assumes "server_inv srv" "server_step srv srv'"
  shows "server_inv srv' \<and> lan_step (lan srv) (lan srv')"
  using server_step_inv server_step_lan assms by blast

theorem server_refines_directory_witness:
  "\<exists>res srv' w'. server_disconnect_locked demo_server (demo_addr 0) demo_world = (res, srv', w') \<and>
     lan_step (lan demo_server) (lan srv')"
proof -
  obtain res srv' w' where d: "server_disconnect_locked demo_server (demo_addr 0) demo_world = (res, srv', w')" by (metis prod_cases3)
  show ?thesis using server_refines_directory [OF demo_server_inv step_disconnect [OF d]] d by blast
qed

text \<open>
  C14: no packet is processed twice. After \<open>server_handle_packet\<close> processed a packet, of whatever type,
  the same packet from the same endpoint changes neither the state nor sends anything, whatever
  critical sections ran in between, for as long as the endpoint stays registered.
\<close>

theorem packet_processed_once:
  assumes "server_inv srv" "len \<le> int (length buf)" "proto_read_hdr buf = Inr (type, l)" "37 + uint l \<le> len"
    and "proto_read_sequence buf = Some sequence"
    and "server_handle_packet srv buf len from w = (srv1, w1)" "server_find_peer_by_addr srv1 from \<noteq> None"
    and "(\<lambda>a b. server_step a b \<and> server_find_peer_by_addr b from \<noteq> None)\<^sup>*\<^sup>* srv1 srv2"
  shows "\<exists>v'. server_handle_packet srv2 buf len from v = (srv2, v') \<and> w_sent v' = w_sent v \<and> w_tun_out v' = w_tun_out v"
proof -
  have r1: "refused srv1 from sequence" by (rule packet_refused [OF assms(1,6,2-5,7)])
  have inv1: "server_inv srv1" using server_steps_inv [OF steps.handle_packet [OF assms(6,2)] assms(1)] .
  note r2 = refused_steps [OF assms(8) inv1 r1]
  show ?thesis
    using refused_no_effect [of srv2 "from" sequence buf type l len v] r2 assms(3-5) w_core_cong(11,12) by metis
qed

theorem packet_processed_once_witness:
  "\<exists>srv1 w1 v'. server_handle_packet demo_server (hdr_of MSG_KEEPALIVE 4 6 (zeros 24) @ zeros 8) 45 (demo_addr 0) demo_world = (srv1, w1) \<and>
     server_handle_packet srv1 (hdr_of MSG_KEEPALIVE 4 6 (zeros 24) @ zeros 8) 45 (demo_addr 0) demo_world = (srv1, v')"
proof -
  let ?buf = "hdr_of MSG_KEEPALIVE 4 6 (zeros 24) @ zeros 8"
  obtain srv1 w1 where h: "server_handle_packet demo_server ?buf 45 (demo_addr 0) demo_world = (srv1, w1)" by fastforce
  obtain ok known srv2 where a: "server_accept_locked demo_server (demo_addr 0) 6 = (ok, known, srv2)" by (metis prod_cases3)
  have rd: "proto_read_hdr ?buf = Inr (MSG_KEEPALIVE, 4)" "proto_read_sequence ?buf = Some 6" by simp_all
  have "proto_read_keepalive_timestamp (drop 37 ?buf) 4 = None" by (simp add: proto_read_keepalive_timestamp_def)
  then have "srv1 = srv2"
    using h a rd by (auto simp: server_handle_packet_def server_accept_registered_sequence_def
        server_handle_keepalive_def Let_def split: if_splits)
  then have f: "server_find_peer_by_addr srv1 (demo_addr 0) \<noteq> None"
    using find_touch [OF accept_effect [OF a] demo_server_inv server_accept_locked_inv [OF demo_server_inv a]] by simp
  have "\<exists>v'. server_handle_packet srv1 ?buf 45 (demo_addr 0) demo_world = (srv1, v')"
    using packet_processed_once [OF demo_server_inv _ rd(1) _ rd(2) h f, of srv1 demo_world] by auto
  with h show ?thesis by blast
qed

lemma registration_new:
  assumes "server_inv srv" "net_ok w" "unat plen \<le> length payload" "srv_peer_count srv < 253"
    and "server_find_peer_by_addr srv from = None"
    and "server_handle_register srv payload plen from sequence w = (srv', w')"
  shows "\<exists>vip name. pool_ip vip \<and> lan srv vip = None \<and>
    (\<forall>ip. TUND_IP_START \<le> ip \<and> ip < ntohl vip \<longrightarrow> lan srv (htonl ip) \<noteq> None) \<and>
    lan srv' = (lan srv)(vip \<mapsto> (from, c_str name)) \<and> srv_peer_count srv' = srv_peer_count srv + 1 \<and>
    (0 < plen \<longrightarrow> c_str name = c_str (take (min (unat plen) 31) payload)) \<and>
    (let others = server_snapshot_broadcast_locked srv TUND_MAX_PEERS (-1)
     in sends w w' ((MSG_ASSIGN, assign_payload vip (htonl TUND_NETMASK) (of_nat TUND_TUN_MTU), from) #
          (MSG_PEER_LIST, list_payload (take 43 others), from) #
          map (\<lambda>p. (MSG_PEER_JOIN, join_payload vip name, snap_real_addr p)) others) [])"
proof -
  obtain res srv1 w1 where r: "server_register_locked srv payload plen from sequence w = (res, srv1, w1)"
    by (metis prod_cases3)
  let ?others = "server_snapshot_broadcast_locked srv 253 (-1)"
  from assms(1,5,4,3) r obtain vip nm idx where n: "res = RegNew vip nm from ?others (map snap_real_addr ?others)"
    "c_str nm = c_str (server_peer_name payload plen idx)" "pool_ip vip" "lan srv vip = None"
    "\<forall>ip. TUND_IP_START \<le> ip \<and> ip < ntohl vip \<longrightarrow> lan srv (htonl ip) \<noteq> None"
    "lan srv1 = (lan srv)(vip \<mapsto> (from, c_str nm))" "srv_peer_count srv1 = srv_peer_count srv + 1" "w_core w1 = w_core w"
    by (rule register_locked_new)
  have eq: "srv' = srv1" "w' = server_register_reply res from w1"
    using assms(6) r by (auto simp: server_handle_register_def)
  have "sends w w1 [] []" using assms(2) n(8) by (rule sends_core)
  from sends_trans [OF this] reply_new_sends [OF sends_net_ok [OF this], of vip nm "from" ?others "map snap_real_addr ?others" "from"]
  have "sends w w' ((2, assign_payload vip (htonl TUND_NETMASK) (of_nat TUND_TUN_MTU), from) #
      (3, list_payload (take 43 ?others), from) # map (\<lambda>p. (7, join_payload vip nm, snap_real_addr p)) ?others) []"
    by (fastforce simp: eq(2) n(1) comp_def)
  moreover have "c_str nm = c_str (take (min (unat plen) 31) payload)" if "0 < plen"
  proof -
    have k: "(if unat plen < 31 then unat plen else 31) = min (unat plen) 31" by auto
    show ?thesis using that n(2) assms(3) k by (simp add: server_peer_name_def memcpy_at_def c_str_pad)
  qed
  ultimately show ?thesis using n eq(1) by (intro exI [of _ vip] exI [of _ nm]) (simp add: Let_def)
qed

text \<open>
  C6: registration of a new endpoint while a slot is free. The peer gets the lowest free pool address,
  under the name it sent (at most 31 bytes), the directory gains exactly this entry, and exactly these
  messages go out: the assignment and the list of the peers present (the first 43 of them) to the new
  peer, and a join notice to each of them.
\<close>

theorem registration_joins_lan:
  assumes "server_inv srv" "net_ok w" "unat plen \<le> length payload" "srv_peer_count srv < 253"
    and "server_find_peer_by_addr srv from = None"
    and "server_handle_register srv payload plen from sequence w = (srv', w')"
  shows "\<exists>vip name. pool_ip vip \<and> lan srv vip = None \<and>
    (\<forall>ip. TUND_IP_START \<le> ip \<and> ip < ntohl vip \<longrightarrow> lan srv (htonl ip) \<noteq> None) \<and>
    lan srv' = (lan srv)(vip \<mapsto> (from, c_str name)) \<and> srv_peer_count srv' = srv_peer_count srv + 1 \<and>
    (0 < plen \<longrightarrow> c_str name = c_str (take (min (unat plen) 31) payload)) \<and>
    (let others = server_snapshot_broadcast_locked srv TUND_MAX_PEERS (-1)
     in sends w w' ((MSG_ASSIGN, assign_payload vip (htonl TUND_NETMASK) (of_nat TUND_TUN_MTU), from) #
          (MSG_PEER_LIST, list_payload (take 43 others), from) #
          map (\<lambda>p. (MSG_PEER_JOIN, join_payload vip name, snap_real_addr p)) others) [])"
  by (rule registration_new [OF assms])

theorem registration_joins_lan_witness:
  "\<exists>srv' w' vip name. server_handle_register demo_server (lit ''eve'') 3 (demo_addr 9) 1 demo_world = (srv', w') \<and>
    lan demo_server vip = None \<and> lan srv' = (lan demo_server)(vip \<mapsto> (demo_addr 9, c_str name)) \<and> srv_peer_count srv' = 3"
proof -
  obtain srv' w' where r: "server_handle_register demo_server (lit ''eve'') 3 (demo_addr 9) 1 demo_world = (srv', w')" by fastforce
  have "\<exists>vip name. lan demo_server vip = None \<and> lan srv' = (lan demo_server)(vip \<mapsto> (demo_addr 9, c_str name)) \<and> srv_peer_count srv' = 3"
    using registration_joins_lan [OF demo_server_inv net_ok_demo _ _ _ r] by fastforce
  with r show ?thesis by blast
qed

text \<open>
  C23: a registered endpoint that registers again keeps its address and is sent it again, and counts as
  seen now; a replayed registration changes nothing and is not answered.
\<close>

theorem reregistration_keeps_address:
  assumes "server_inv srv" "net_ok w" "server_find_peer_by_addr srv from = Some i"
    and "server_handle_register srv payload plen from sequence w = (srv', w')"
  shows "lan srv' = lan srv \<and> srv_peer_count srv' = srv_peer_count srv \<and>
    (if fst (proto_replay_accept (peer_replay (srv_peers srv ! i)) sequence)
     then peer_last_seen (srv_peers srv' ! i) = fst (time_now w) \<and>
       sends w w' [(MSG_ASSIGN, assign_payload (peer_virt_ip (srv_peers srv ! i)) (htonl TUND_NETMASK)
         (of_nat TUND_TUN_MTU), peer_real_addr (srv_peers srv ! i))] []
     else srv' = srv \<and> sends w w' [] [])"
proof -
  obtain res srv1 w1 where r: "server_register_locked srv payload plen from sequence w = (res, srv1, w1)"
    by (metis prod_cases3)
  have eq: "srv' = srv1" "w' = server_register_reply res from w1"
    using assms(4) r by (auto simp: server_handle_register_def)
  note f = find_by_addr_Some [OF assms(3,1)]
  let ?p = "srv_peers srv ! i"
  obtain ok win where a: "proto_replay_accept (peer_replay ?p) sequence = (ok, win)" by fastforce
  show ?thesis
  proof (cases ok)
    case True
    let ?nm = "snprintf (zeros TUND_NAME_LEN) TUND_NAME_LEN (c_str (peer_name ?p))"
    have res: "res = RegReconnect (peer_virt_ip ?p) ?nm (peer_real_addr ?p)" "w1 = snd (time_now w)"
      "srv1 = srv\<lparr>srv_peers := (srv_peers srv)[i := ?p\<lparr>peer_replay := win, peer_last_seen := fst (time_now w)\<rparr>]\<rparr>"
      using r assms(3) a True by (simp_all add: server_register_locked_def Let_def split_beta)
    have inv': "server_inv srv1" using server_inv_update [OF assms(1) f(1) peer_kept_replay(2) [OF f(4) a]] res(3) by simp
    have "tbl_touch srv srv1" using res(3) by (intro tbl_touch_update [OF _ peer_touch_replay(2) [OF a]]) simp
    then have "lan srv1 = lan srv" using assms(1) inv' by (rule touch_lan)
    moreover have "sends w w' [(2, assign_payload (peer_virt_ip ?p) (htonl TUND_NETMASK) (of_nat TUND_TUN_MTU), peer_real_addr ?p)] []"
      using sends_trans [OF sends_core reply_reconnect_sends, of w w1] assms(2) res(2) by (simp add: eq(2) res(1))
    ultimately show ?thesis using a True eq(1) res(3) f(1) assms(1) by simp
  next
    case False
    then have "res = RegReplayed (snprintf (zeros TUND_NAME_LEN) TUND_NAME_LEN (c_str (peer_name ?p)))" "srv1 = srv" "w1 = w"
      using r assms(3) a by (auto simp: server_register_locked_def)
    then show ?thesis using a False eq assms(2) by (simp add: server_register_reply_def)
  qed
qed

theorem reregistration_keeps_address_witness:
  "\<exists>srv' w'. server_handle_register demo_server (lit ''ann'') 3 (demo_addr 0) 6 demo_world = (srv', w') \<and> lan srv' = lan demo_server"
proof -
  obtain srv' w' where r: "server_handle_register demo_server (lit ''ann'') 3 (demo_addr 0) 6 demo_world = (srv', w')" by fastforce
  show ?thesis using reregistration_keeps_address [OF demo_server_inv net_ok_demo demo_find(1) r] r by auto
qed

text \<open>
  C22: the pool has an address for every slot: a registration is turned away only when all 253 slots are
  taken, never because the pool is exhausted.
\<close>

theorem registration_never_exhausts_pool:
  assumes "server_inv srv" "server_register_locked srv payload plen from sequence w = (res, srv', w')"
  shows "res \<noteq> RegPoolExhausted \<and>
    (res = RegTableFull \<longleftrightarrow> server_find_peer_by_addr srv from = None \<and> srv_peer_count srv = 253)"
proof (cases "server_find_peer_by_addr srv from")
  case (Some i)
  then show ?thesis using assms(2) by (auto simp: server_register_locked_def Let_def split: prod.splits if_splits)
next
  case None
  show ?thesis
  proof (cases "server_find_free_slot srv")
    case slot: (Some idx)
    have "server_alloc_ip srv \<noteq> 0"
      using first_idx_Some [OF slot [unfolded server_find_free_slot_def]] assms(1)
      by (intro alloc_ip_succeeds [of srv idx]) auto
    then show ?thesis using assms None slot free_slot_count [OF assms(1)]
      by (auto simp: server_register_locked_def Let_def split: prod.splits)
  qed (use assms None free_slot_count [OF assms(1)] in \<open>auto simp: server_register_locked_def\<close>)
qed

theorem registration_never_exhausts_pool_witness:
  "\<exists>res srv' w'. server_register_locked demo_server (lit ''eve'') 3 (demo_addr 9) 1 demo_world = (res, srv', w') \<and>
     res \<noteq> RegPoolExhausted"
proof -
  obtain res srv' w' where r: "server_register_locked demo_server (lit ''eve'') 3 (demo_addr 9) 1 demo_world = (res, srv', w')"
    by (metis prod_cases3)
  show ?thesis using registration_never_exhausts_pool [OF demo_server_inv r] r by blast
qed

lemma handle_data_route:
  assumes "server_inv srv" "net_ok w" "tun_write_ok (w_env w)"
    and "unat plen \<le> length payload" "unat plen \<le> TUND_MAX_PLAINTEXT"
    and "server_handle_data srv payload plen from w = (srv', w')"
  shows "lan srv' = lan srv \<and>
    (if ipv4_ok payload (unat plen)
     then sends w w' (fst (data_route srv (take (unat plen) payload) from)) (snd (data_route srv (take (unat plen) payload) from))
     else srv' = srv \<and> sends w w' [] [])"
proof (cases "ipv4_ok payload (unat plen)")
  case False
  then have "proto_validate_ipv4_packet payload plen \<noteq> 0" using validate_ipv4_iff [OF assms(4)] by simp
  then show ?thesis using assms False by (auto simp: server_handle_data_def Let_def)
next
  case True
  let ?pkt = "take (unat plen) payload"
  have v: "proto_validate_ipv4_packet payload plen = 0" using True validate_ipv4_iff [OF assms(4)] by simp
  have ge: "20 \<le> unat plen" using True by (simp add: ipv4_ok_def)
  note ad = packet_addresses [OF ge, of payload]
  let ?src = "u32_of_mem (slice 12 4 ?pkt)" and ?dst = "u32_of_mem (slice 16 4 ?pkt)"
  obtain res srv1 w1 where l: "server_data_locked srv ?src ?dst plen from w = (res, srv1, w1)" by (metis prod_cases3)
  have fw: "server_data_forward srv1 res payload plen ?dst w1 = (srv', w')"
    using assms(6) v l ad by (simp add: server_handle_data_def Let_def)
  note inv1 = server_data_locked_inv [OF assms(1) l]
  note c = data_locked_cases [OF assms(1) l]
  have lan1: "lan srv1 = lan srv" by (rule touch_lan [OF data_effect [OF l] assms(1) inv1])
  have "lan srv' = lan srv1" using same_lan.data_forward [OF fw] inv1 by (simp add: same_lan_def)
  have s1: "sends w w1 [] []" using assms(2) c(1) by (rule sends_core)
  note s = data_forward_sends [OF s1 assms(3-5) fw]
  have "sends w w' (fst (data_route srv ?pkt from)) (snd (data_route srv ?pkt from))"
  proof (cases "server_find_peer_by_addr srv from")
    case None
    then show ?thesis using s c(2) by (simp add: data_route_def)
  next
    case (Some i)
    show ?thesis
    proof (cases "?src = peer_virt_ip (srv_peers srv ! i)")
      case False
      then show ?thesis using s c(3) [OF Some] Some by (simp add: data_route_def Let_def)
    next
      case src: True
      note res = c(4) [OF Some src]
      have "map_option snap_real_addr (server_snapshot_peer_by_vip_locked srv1 ?dst) = map_option fst (lan srv ?dst)"
        using snapshot_by_vip_lan lan1 by metis
      then show ?thesis using s Some src unfolding res
        by (auto simp: data_route_def Let_def split: option.splits if_splits)
    qed
  qed
  with True \<open>lan srv' = lan srv1\<close> lan1 show ?thesis by simp
qed

text \<open>
  C7: a valid tunnelled packet goes where its destination says: to the one peer that holds the address,
  to the server's own device, or, for the broadcast address, to every other peer and to the device;
  packets from unregistered endpoints, with a source address the sender does not hold, or for an
  address nobody holds go nowhere. Invalid packets change nothing. The directory stays as it is.
\<close>

theorem data_follows_route:
  assumes "server_inv srv" "net_ok w" "tun_write_ok (w_env w)"
    and "unat plen \<le> length payload" "unat plen \<le> TUND_MAX_PLAINTEXT"
    and "server_handle_data srv payload plen from w = (srv', w')"
  shows "lan srv' = lan srv \<and>
    (if ipv4_ok payload (unat plen)
     then sends w w' (fst (data_route srv (take (unat plen) payload) from)) (snd (data_route srv (take (unat plen) payload) from))
     else srv' = srv \<and> sends w w' [] [])"
  using handle_data_route [OF assms] .

theorem data_follows_route_witness:
  "\<exists>srv' w'. server_handle_data demo_server demo_packet 20 (demo_addr 0) demo_world = (srv', w') \<and>
     sends demo_world w' [] [demo_packet]"
proof -
  obtain srv' w' where r: "server_handle_data demo_server demo_packet 20 (demo_addr 0) demo_world = (srv', w')" by fastforce
  have "data_route demo_server (take 20 demo_packet) (demo_addr 0) = ([], [demo_packet])"
    using demo_packet_ok by (simp add: data_route_def)
  then show ?thesis
    using data_follows_route [OF demo_server_inv net_ok_demo tun_write_ok_demo _ _ r] r demo_packet_ok by simp
qed

text \<open>
  C9: no spoofing, in every environment: when \<open>server_handle_data\<close> sends anything or writes to the TUN
  device, the sender is a registered peer and the packet is a valid IPv4 packet of the virtual LAN
  whose source address is the one assigned to this peer.
\<close>

theorem forwarded_data_is_authentic:
  assumes "unat plen \<le> length payload" "server_handle_data srv payload plen from w = (srv', w')"
    and "w_sent w' \<noteq> w_sent w \<or> w_tun_out w' \<noteq> w_tun_out w"
  shows "\<exists>i. server_find_peer_by_addr srv from = Some i \<and> ipv4_ok payload (unat plen) \<and>
    proto_get_src_ip payload plen = peer_virt_ip (srv_peers srv ! i)"
proof (rule ccontr)
  assume no: "\<not> ?thesis"
  have "w_core w' = w_core w"
  proof (cases "ipv4_ok payload (unat plen)")
    case False
    then have "proto_validate_ipv4_packet payload plen \<noteq> 0" using validate_ipv4_iff [OF assms(1)] by simp
    then show ?thesis using assms(2) by (auto simp: server_handle_data_def Let_def)
  next
    case True
    then have v: "proto_validate_ipv4_packet payload plen = 0" using validate_ipv4_iff [OF assms(1)] by simp
    let ?s = "proto_get_src_ip payload plen" and ?d = "proto_get_dst_ip payload plen"
    have "\<exists>w1. server_data_locked srv ?s ?d plen from w = (DataUnregistered, srv, w1) \<and> w_core w1 = w_core w \<or>
        server_data_locked srv ?s ?d plen from w = (DataSpoofed, srv, w1) \<and> w_core w1 = w_core w"
      using no True by (cases "server_find_peer_by_addr srv from") (auto simp: server_data_locked_def Let_def)
    then show ?thesis using assms(2) v by (auto simp: server_handle_data_def Let_def server_data_forward_def)
  qed
  then show False using assms(3) w_core_cong(11,12) [of w' w] by auto
qed



theorem forwarded_data_is_authentic_witness:
  "\<exists>srv' w'. server_handle_data demo_server demo_packet 20 (demo_addr 0) demo_world = (srv', w') \<and>
     w_tun_out w' = [demo_packet] \<and> proto_get_src_ip demo_packet 20 = peer_virt_ip (demo_peer 0)"
proof -
  obtain srv' w' where r: "server_handle_data demo_server demo_packet 20 (demo_addr 0) demo_world = (srv', w')" by fastforce
  have "w' = snd (tun_write (tun_device0\<lparr>tun_fd := 5\<rparr>) demo_packet 20 demo_world)"
    using r [unfolded server_handle_data_def server_data_locked_def server_data_forward_def]
    demo_packet_ok validate_ipv4_iff [of 20 demo_packet]
    by (auto simp: proto_get_src_ip_def proto_get_dst_ip_def Let_def)
  then have "w_tun_out w' = [demo_packet]"
    using tun_write_out [OF tun_write_ok_demo, of 20 demo_packet "tun_device0\<lparr>tun_fd := 5\<rparr>"] demo_packet_ok(2)
      demo_idle by simp
  then show ?thesis
    using forwarded_data_is_authentic [OF _ r] r demo_packet_ok(2) demo_idle by simp
qed

lemma disconnect_registered:
  assumes "server_inv srv" "net_ok w" "server_find_peer_by_addr srv from = Some i"
    and "server_handle_disconnect srv from w = (srv', w')"
  shows "lan srv' = (lan srv)(peer_virt_ip (srv_peers srv ! i) := None) \<and>
    srv_peer_count srv' = srv_peer_count srv - 1 \<and>
    sends w w' (map (\<lambda>p. (MSG_PEER_LEAVE, mem_of_u32 (peer_virt_ip (srv_peers srv ! i)), snap_real_addr p))
      (server_snapshot_broadcast_locked srv TUND_MAX_PEERS (int i))) []"
proof -
  note f = find_by_addr_Some [OF assms(3,1)]
  let ?p = "srv_peers srv ! i"
  obtain res srv1 w1 where d: "server_disconnect_locked srv from w = (res, srv1, w1)" by (metis prod_cases3)
  have r: "srv1 = srv\<lparr>srv_peers := (srv_peers srv)[i := ?p\<lparr>peer_active := False\<rparr>], srv_peer_count := srv_peer_count srv - 1\<rparr>"
    "res = Some (peer_virt_ip ?p, server_snapshot_broadcast_locked srv1 253 (-1))" "w_core w1 = w_core w"
    using d assms(3) by (auto simp: server_disconnect_locked_def Let_def)
  have inv1: "server_inv srv1" by (rule server_disconnect_locked_inv [OF assms(1) d])
  have "lan srv1 = lan srv |` {v. \<forall>j < 253. j = i \<longrightarrow> peer_active (srv_peers srv ! j) \<longrightarrow> peer_virt_ip (srv_peers srv ! j) \<noteq> v}"
    by (rule lan_retired [OF assms(1) inv1]) (use r(1) f(1) assms(1) in \<open>simp add: nth_list_update\<close>)
  also have "\<dots> = (lan srv)(peer_virt_ip ?p := None)"
    using f(1,2) by (auto simp: restrict_map_def)
  finally have lan1: "lan srv1 = (lan srv)(peer_virt_ip ?p := None)" .
  have snaps: "server_snapshot_broadcast_locked srv1 253 (-1) = server_snapshot_broadcast_locked srv 253 (int i)"
  proof -
    have flip: "x < length (srv_peers srv) \<Longrightarrow> peer_active ((srv_peers srv)[i := ?p\<lparr>peer_active := False\<rparr>] ! x) \<longleftrightarrow>
        peer_active (srv_peers srv ! x) \<and> x \<noteq> i" for x by (cases "x = i") auto
    have fl: "filter (\<lambda>j. peer_active (srv_peers srv1 ! j) \<and> int j \<noteq> -1) [0..<length (srv_peers srv1)] =
        filter (\<lambda>j. peer_active (srv_peers srv ! j) \<and> int j \<noteq> int i) [0..<length (srv_peers srv)]"
      unfolding r(1) using flip by (intro filter_cong) auto
    have "map (\<lambda>j. server_snapshot_peer_locked (srv_peers srv1 ! j) j)
          (filter (\<lambda>j. peer_active (srv_peers srv ! j) \<and> int j \<noteq> int i) [0..<length (srv_peers srv)]) =
        map (\<lambda>j. server_snapshot_peer_locked (srv_peers srv ! j) j)
          (filter (\<lambda>j. peer_active (srv_peers srv ! j) \<and> int j \<noteq> int i) [0..<length (srv_peers srv)])"
      unfolding r(1) by (intro map_cong) auto
    then show ?thesis by (simp only: server_snapshot_broadcast_locked_def fl)
  qed
  obtain l buf w2 where b: "proto_build_peer_leave (zeros TUND_MAX_PKT) (peer_virt_ip ?p) w1 = (l, buf, w2)" by (metis prod_cases3)
  obtain srv2 w3 where s: "server_send_peer_snapshots srv1 (server_snapshot_broadcast_locked srv1 253 (-1)) buf l 0 w2 = (srv2, w3)"
    by fastforce
  have eq: "srv' = srv2" "w' = app_event_peer_leave (peer_virt_ip ?p) (lit ''disconnect'') w3"
    using assms(4) d r(2) b s by (auto simp: server_handle_disconnect_def)
  have "srv2 = srv1"
    using s by (simp add: server_send_peer_snapshots_def) (metis send_loop_no_bytes)
  moreover have "sends w w3 (map (\<lambda>p. (8, mem_of_u32 (peer_virt_ip ?p), snap_real_addr p)) (server_snapshot_broadcast_locked srv 253 (int i))) []"
    using leave_sends [OF sends_core [OF assms(2) r(3)] b s] snaps by simp
  ultimately show ?thesis using lan1 r(1) eq by simp
qed

text \<open>
  A disconnecting peer loses its address and nothing else changes in the directory; every
  remaining peer is told, and only they.
\<close>

theorem disconnect_leaves_lan:
  assumes "server_inv srv" "net_ok w" "server_find_peer_by_addr srv from = Some i"
    and "server_handle_disconnect srv from w = (srv', w')"
  shows "lan srv' = (lan srv)(peer_virt_ip (srv_peers srv ! i) := None) \<and>
    srv_peer_count srv' = srv_peer_count srv - 1 \<and>
    sends w w' (map (\<lambda>p. (MSG_PEER_LEAVE, mem_of_u32 (peer_virt_ip (srv_peers srv ! i)), snap_real_addr p))
      (server_snapshot_broadcast_locked srv TUND_MAX_PEERS (int i))) []"
  by (rule disconnect_registered [OF assms])

theorem disconnect_leaves_lan_witness:
  "\<exists>srv' w'. server_handle_disconnect demo_server (demo_addr 0) demo_world = (srv', w') \<and>
     lan srv' = (lan demo_server)(htonl 0x0A090002 := None)"
proof -
  obtain srv' w' where r: "server_handle_disconnect demo_server (demo_addr 0) demo_world = (srv', w')" by fastforce
  show ?thesis using disconnect_leaves_lan [OF demo_server_inv net_ok_demo demo_find(1) r] r by simp
qed

lemma timeout_locked_result:
  assumes "server_inv srv" "server_timeout_locked srv now = (to, lv, ka, srv1)"
  defines "expired \<equiv> filter (\<lambda>i. server_peer_expired now (srv_peers srv ! i)) [0..<253]"
    and "alive \<equiv> filter (\<lambda>i. peer_active (srv_peers srv ! i) \<and> \<not> server_peer_expired now (srv_peers srv ! i)) [0..<253]"
    and "snap \<equiv> \<lambda>i. server_snapshot_peer_locked (srv_peers srv ! i) i"
  shows "to = map snap expired" "ka = map snap alive" "to \<noteq> [] \<Longrightarrow> lv = map snap alive"
    "srv_peer_count srv1 = srv_peer_count srv - int (length to)"
    "lan srv1 = lan srv |` {v. \<forall>i \<in> set expired. peer_virt_ip (srv_peers srv ! i) \<noteq> v}"
proof -
  let ?ps = "srv_peers srv"
  have srv1: "srv_peers srv1 = map (retire now) ?ps"
    using assms(2) assms(1) by (auto simp: server_timeout_locked_def Let_def timeout_scan_spec)
  show "to = map snap expired" "ka = map snap alive" "srv_peer_count srv1 = srv_peer_count srv - int (length to)"
    using assms(2) assms(1) by (auto simp: server_timeout_locked_def Let_def timeout_scan_spec expired_def alive_def snap_def)
  have "lv = (if 0 < length to then server_snapshot_broadcast_locked srv1 253 (-1) else [])"
    using assms(2) by (auto simp: server_timeout_locked_def Let_def split: prod.splits)
  then show "to \<noteq> [] \<Longrightarrow> lv = map snap alive"
    using remaining_snapshots [OF assms(1) srv1] by (simp add: alive_def snap_def)
  have "lan srv1 = lan srv |` {v. \<forall>i < 253. server_peer_expired now (?ps ! i) \<longrightarrow> peer_active (?ps ! i) \<longrightarrow> peer_virt_ip (?ps ! i) \<noteq> v}"
    using srv1 assms(1) by (intro lan_retired [OF assms(1) server_timeout_locked_inv [OF assms(1,2)]]) (simp add: retire_def)
  moreover have "{v. \<forall>i < 253. server_peer_expired now (?ps ! i) \<longrightarrow> peer_active (?ps ! i) \<longrightarrow> peer_virt_ip (?ps ! i) \<noteq> v} =
      {v. \<forall>i \<in> set expired. peer_virt_ip (?ps ! i) \<noteq> v}"
    unfolding expired_def set_filter server_peer_expired_def by auto
  ultimately show "lan srv1 = lan srv |` {v. \<forall>i \<in> set expired. peer_virt_ip (?ps ! i) \<noteq> v}" by simp
qed

text \<open>
  C21: one pass of the timeout thread retires exactly the peers that were silent for more than 30
  seconds, announces each of them to every remaining peer, and then probes every remaining peer with
  the current time.
\<close>

theorem timeout_retires_silent_peers:
  assumes "server_inv srv" "net_ok w" "server_timeout_pass srv w = (srv', w')"
  shows "let now = fst (time_now w); ms = fst (now_ms (snd (time_now w)));
      expired = filter (\<lambda>i. server_peer_expired now (srv_peers srv ! i)) [0..<TUND_MAX_PEERS];
      alive = filter (\<lambda>i. peer_active (srv_peers srv ! i) \<and> \<not> server_peer_expired now (srv_peers srv ! i)) [0..<TUND_MAX_PEERS]
    in lan srv' = lan srv |` {v. \<forall>i \<in> set expired. peer_virt_ip (srv_peers srv ! i) \<noteq> v} \<and>
       srv_peer_count srv' = srv_peer_count srv - int (length expired) \<and>
       sends w w' (concat (map (\<lambda>e. map (\<lambda>a. (MSG_PEER_LEAVE, mem_of_u32 (peer_virt_ip (srv_peers srv ! e)),
             peer_real_addr (srv_peers srv ! a))) alive) expired) @
           map (\<lambda>a. (MSG_KEEPALIVE, be_bytes 8 ms, peer_real_addr (srv_peers srv ! a))) alive) []"
proof -
  let ?ps = "srv_peers srv"
  define now where "now = fst (time_now w)"
  define expired where "expired = filter (\<lambda>i. server_peer_expired now (?ps ! i)) [0..<253]"
  define alive where "alive = filter (\<lambda>i. peer_active (?ps ! i) \<and> \<not> server_peer_expired now (?ps ! i)) [0..<253]"
  obtain ms w1 where ms: "now_ms (snd (time_now w)) = (ms, w1)" by fastforce
  obtain kl kb w2 where kb: "proto_build_keepalive (zeros 1653) ms w1 = (kl, kb, w2)" by (metis prod_cases3)
  obtain to lv ka srv1 where tl: "server_timeout_locked srv now = (to, lv, ka, srv1)" by (metis prod_cases4)
  obtain srv2 w3 where an: "server_announce_timeouts to lv srv1 w2 = (srv2, w3)" by fastforce
  have eq: "srv' = srv2" "w' = server_send_probes ka kb kl w3"
    using assms(3) ms kb tl an by (auto simp: server_timeout_pass_def now_def split_beta)
  note tr = timeout_locked_result [OF assms(1) tl, folded expired_def alive_def]
  have s1: "sends w w1 [] []" using assms(2) ms sends_now_ms [of w "snd (time_now w)" "[]" "[]"] by simp
  have "built 5 (be_bytes 8 ms) (zeros 1653) w1 (kl, kb, w2)" using built_keepalive(1) [of "zeros 1653" ms w1] kb by simp
  note s2 = sends_built [OF s1 this]
  have s2: "sends w w2 [] []" "ready 5 (be_bytes 8 ms) kb kl" "kl \<noteq> -1" using s2 by auto
  note s3 = announce_sends [OF s2(1) an]
  have msgs: "concat (map (\<lambda>t. map (\<lambda>p. (8, mem_of_u32 (snap_virt_ip t), snap_real_addr p)) lv) to) =
      concat (map (\<lambda>e. map (\<lambda>a. (8, mem_of_u32 (peer_virt_ip (?ps ! e)), peer_real_addr (?ps ! a))) alive) expired)"
  proof (cases "to = []")
    case False
    then show ?thesis by (simp add: tr(1,3) server_snapshot_peer_locked_def comp_def)
  qed (use tr(1) in simp)
  have "sends w w' (concat (map (\<lambda>e. map (\<lambda>a. (8, mem_of_u32 (peer_virt_ip (?ps ! e)), peer_real_addr (?ps ! a))) alive) expired) @
      map (\<lambda>a. (5, be_bytes 8 ms, peer_real_addr (?ps ! a))) alive) []"
    using send_probes_sends [OF s2(2,3), of w w3 _ "[]" ka] s3 unfolding eq(2) msgs
    by (simp add: tr(2) server_snapshot_peer_locked_def comp_def)
  then show ?thesis
    using tr(1,4,5) s3 eq(1) ms
    unfolding Let_def now_def [symmetric] expired_def [symmetric] alive_def [symmetric] by simp
qed

theorem timeout_retires_silent_peers_witness:
  "\<exists>srv' w'. server_timeout_pass demo_server demo_world = (srv', w') \<and> srv_peer_count srv' = 1 \<and>
     lan srv' (htonl 0x0A090003) = None"
proof -
  obtain srv' w' where r: "server_timeout_pass demo_server demo_world = (srv', w')" by fastforce
  have t: "fst (time_now demo_world) = 1000" by (simp add: syscall_def demo_world_def demo_env_def)
  have u: "[0..<253] = 0 # Suc 0 # [Suc (Suc 0)..<253]"
    by (subst upt_conv_Cons, simp, subst upt_conv_Cons, simp, rule refl)
  have "filter (\<lambda>i. server_peer_expired 1000 (srv_peers demo_server ! i)) [Suc (Suc 0)..<253] = []"
    by (auto simp: filter_empty_conv demo_server_nth server_peer_expired_def)
  then have e: "filter (\<lambda>i. server_peer_expired 1000 (srv_peers demo_server ! i)) [0..<253] = [1]"
    unfolding u by (simp add: demo_server_nth server_peer_expired_def demo_peer_def)
  show ?thesis
    using timeout_retires_silent_peers [OF demo_server_inv net_ok_demo r, unfolded Let_def t e] r
    by (simp add: demo_server_nth)
qed

text \<open>
  A keepalive of a registered peer refreshes it and is answered, to the address it came from, with
  the timestamp it carried; the directory stays as it is.
\<close>

theorem keepalive_is_echoed:
  assumes "server_inv srv" "net_ok w" "server_find_peer_by_addr srv from = Some i"
    and "8 \<le> unat plen" "server_handle_keepalive srv payload plen from w = (srv', w')"
  shows "lan srv' = lan srv \<and> peer_last_seen (srv_peers srv' ! i) = fst (time_now w) \<and>
    sends w w' [(MSG_KEEPALIVE_ACK, be_bytes 8 (be_word 0 (take 8 payload) :: u64), from)] []"
proof -
  let ?t = "be_word 0 (take 8 payload) :: u64"
  note f = find_by_addr_Some [OF assms(3,1)]
  have ts: "proto_read_keepalive_timestamp payload plen = Some ?t"
    using assms(4) by (simp add: proto_read_keepalive_timestamp_def word_less_nat_alt)
  obtain nm srv1 w1 where k: "server_keepalive_locked srv from w = (nm, srv1, w1)" by (metis prod_cases3)
  have k': "nm = Some (snprintf (zeros 32) 32 (c_str (peer_name (srv_peers srv ! i))))" "w1 = snd (time_now w)"
    "srv1 = srv\<lparr>srv_peers := (srv_peers srv)[i := (srv_peers srv ! i)\<lparr>peer_last_seen := fst (time_now w)\<rparr>]\<rparr>"
    using k assms(3) by (auto simp: server_keepalive_locked_def Let_def split_beta)
  obtain l buf w2 where b: "proto_build_keepalive_ack (zeros 1653) ?t w1 = (l, buf, w2)" by (metis prod_cases3)
  have "built 9 (be_bytes 8 ?t) (zeros 1653) w1 (l, buf, w2)" using built_keepalive(2) [of "zeros 1653" ?t w1] b by simp
  note s = sends_built [OF _ this, of w "[]" "[]"]
  obtain r w3 where n: "net_send buf l from w2 = (r, w3)" by fastforce
  have s: "sends w w2 [] []" "ready 9 (be_bytes 8 ?t) buf l" "l \<noteq> -1" using s assms(2) k'(2) by auto
  note s3 = sends_net_send [OF s n]
  have "srv' = srv1" "w' = w3" using assms(5) ts k k'(1) b n s3(1)
    by (auto simp: server_handle_keepalive_def)
  moreover have "lan srv1 = lan srv"
    by (rule touch_lan [OF keepalive_effect [OF k] assms(1) server_keepalive_locked_inv [OF assms(1) k]])
  ultimately show ?thesis using s3(2) k'(3) f(1) assms(1) by simp
qed

theorem keepalive_is_echoed_witness:
  "\<exists>srv' w'. server_handle_keepalive demo_server (zeros 8) 8 (demo_addr 0) demo_world = (srv', w') \<and> lan srv' = lan demo_server"
proof -
  obtain srv' w' where r: "server_handle_keepalive demo_server (zeros 8) 8 (demo_addr 0) demo_world = (srv', w')" by fastforce
  show ?thesis using keepalive_is_echoed [OF demo_server_inv net_ok_demo demo_find(1) _ r] r by simp
qed

text \<open>
  A packet the server reads from its own TUN device goes to the peer that holds the destination
  address, to every peer for the broadcast address, and nowhere when it is invalid or nobody holds the
  address.
\<close>

theorem tun_packet_is_routed:
  assumes "server_inv srv" "net_ok w" "0 \<le> n" "n \<le> int (length pkt)" "n \<le> int TUND_MAX_PLAINTEXT"
    and "server_tun_packet srv pkt n w = (srv', w')"
  shows "lan srv' = lan srv \<and>
    sends w w'
      (if ipv4_ok pkt (nat n)
       then let dst = u32_of_mem (slice 16 4 pkt)
            in if dst = htonl 0x0A0900FF
               then map (\<lambda>p. (MSG_DATA, take (nat n) pkt, snap_real_addr p)) (server_snapshot_broadcast_locked srv TUND_MAX_PEERS (-1))
               else case lan srv dst of None \<Rightarrow> [] | Some (addr, _) \<Rightarrow> [(MSG_DATA, take (nat n) pkt, addr)]
       else []) []"
proof -
  have m: "(TUND_SUBNET OR NOT TUND_NETMASK :: u32) = 0x0A0900FF" by code_simp
  define l where "l = (of_int n :: u16)"
  have "l = of_nat (nat n)" using assms(3) by (simp add: l_def)
  then have ul: "unat l = nat n" using assms(5) by (simp add: unat_of_nat_u16)
  have v: "proto_validate_ipv4_packet pkt l = 0 \<longleftrightarrow> ipv4_ok pkt (nat n)"
    using validate_ipv4_iff [of l pkt] ul assms(4) by (simp add: nat_le_iff)
  have lan: "lan srv' = lan srv" using same_lan.tun_packet [OF assms(6)] assms(1) by (simp add: same_lan_def)
  show ?thesis
  proof (cases "ipv4_ok pkt (nat n)")
    case False
    then show ?thesis using assms lan v by (auto simp: server_tun_packet_def l_def [symmetric] Let_def)
  next
    case True
    have "20 \<le> unat l" using True ul by (simp add: ipv4_ok_def)
    then have d: "proto_get_dst_ip pkt l = u32_of_mem (slice 16 4 pkt)"
      by (simp add: proto_get_dst_ip_def word_less_nat_alt)
    let ?d = "u32_of_mem (slice 16 4 pkt)" and ?p = "take (nat n) pkt"
    obtain ln buf w1 where b: "proto_build_data (zeros 1653) pkt l w = (ln, buf, w1)" by (metis prod_cases3)
    have "built 4 ?p (zeros 1653) w (ln, buf, w1)"
      using built_data [of l "zeros 1653" pkt w] b ul assms(4,5) by (simp add: nat_le_iff)
    note s = sends_built [OF sends_refl [THEN iffD2, OF assms(2)] this]
    have s: "sends w w1 [] []" "ready 4 ?p buf ln" "ln \<noteq> -1" using s assms(5) by auto
    have eq: "(srv', w') = (case server_tun_locked srv ?d of
                TunBroadcast peers \<Rightarrow> server_send_peer_snapshots srv peers buf ln (of_int n) w1
              | TunUnicast dst_peer \<Rightarrow>
                  (let (r, w) = net_send buf ln (snap_real_addr dst_peer) w1
                   in if r < 0
                      then (srv, LOG_WARN (lit ''Failed to forward TUN packet to '' @ c_str (snap_name dst_peer)) w)
                      else (server_add_peer_bytes_out srv dst_peer (of_int n), w))
              | TunNone \<Rightarrow> (srv, w1))"
      using assms(6) True v d b by (simp add: server_tun_packet_def l_def [symmetric] Let_def)
    have vip: "map_option snap_real_addr (server_snapshot_peer_by_vip_locked srv ?d) = map_option fst (lan srv ?d)"
      by (rule snapshot_by_vip_lan)
    have "sends w w' (if ?d = htonl 0x0A0900FF
               then map (\<lambda>p. (4, ?p, snap_real_addr p)) (server_snapshot_broadcast_locked srv 253 (-1))
               else case lan srv ?d of None \<Rightarrow> [] | Some (addr, _) \<Rightarrow> [(4, ?p, addr)]) []"
    proof (cases "server_tun_locked srv ?d")
      case (TunBroadcast ps)
      then have "?d = htonl 0x0A0900FF" "ps = server_snapshot_broadcast_locked srv 253 (-1)"
        by (auto simp: server_tun_locked_def m split: if_splits option.splits)
      moreover have "server_send_loop ''Send to '' ps buf ln (of_int n) srv w1 = (srv', w')"
        using eq TunBroadcast by (simp add: server_send_peer_snapshots_def)
      ultimately show ?thesis using send_loop_sends [OF s(2,3,1)] by auto
    next
      case (TunUnicast dp)
      then have "?d \<noteq> htonl 0x0A0900FF" "server_snapshot_peer_by_vip_locked srv ?d = Some dp"
        by (auto simp: server_tun_locked_def m split: if_splits option.splits)
      moreover obtain r w2 where sd: "net_send buf ln (snap_real_addr dp) w1 = (r, w2)" by fastforce
      moreover have "w' = w2" using eq TunUnicast sd sends_net_send(1) [OF s sd] by simp
      ultimately show ?thesis using sends_net_send(2) [OF s sd] vip by (auto split: option.splits)
    next
      case TunNone
      then have "?d \<noteq> htonl 0x0A0900FF" "server_snapshot_peer_by_vip_locked srv ?d = None"
        by (auto simp: server_tun_locked_def m split: if_splits option.splits)
      then show ?thesis using eq TunNone s(1) vip by (auto split: option.splits)
    qed
    then show ?thesis using True lan by (simp add: Let_def)
  qed
qed

theorem tun_packet_is_routed_witness:
  "\<exists>srv' w'. server_tun_packet demo_server demo_packet 20 demo_world = (srv', w') \<and> lan srv' = lan demo_server"
proof -
  obtain srv' w' where r: "server_tun_packet demo_server demo_packet 20 demo_world = (srv', w')" by fastforce
  show ?thesis using tun_packet_is_routed [OF demo_server_inv net_ok_demo _ _ _ r] r demo_packet_ok(2) by simp
qed

text \<open>
  The smoothed round-trip time lies between the old value and the new sample, as long as the sum
  fits into 64 bits (which holds for clocks in milliseconds for millions of years).
\<close>

theorem rtt_stays_between:
  assumes "7 * unat current + unat sample + 3 < 2 ^ 64"
  shows "min current sample \<le> smooth_rtt_ms current sample has \<and> smooth_rtt_ms current sample has \<le> max current sample"
proof (cases has)
  case True
  have u: "unat (smooth_rtt_ms current sample True) = (unat current * 7 + unat sample + 3) div 8"
    using assms by (intro smooth_rtt_ms_unat) (simp add: mult.commute)
  show ?thesis
    using True u by (cases "current \<le> sample") (auto simp: word_le_nat_alt min_def max_def)
qed (auto simp: smooth_rtt_ms_def)

theorem rtt_stays_between_witness: "smooth_rtt_ms 100 20 True \<le> 100 \<and> 20 \<le> smooth_rtt_ms 100 20 True"
  using rtt_stays_between [of 100 20 True] by simp



text \<open>
  \<open>server_shutdown\<close> closes the TUN device and the socket, marks both as closed and tells both
  threads to stop, whatever the environment does.
\<close>

theorem server_shutdown_closes:
  assumes "server_shutdown srv w = (srv', w')"
  shows "tun_fd (srv_tun srv') < 0 \<and> srv_sockfd srv' < 0 \<and> srv_timeout_quit srv' \<and> srv_tun_quit srv' \<and>
    (0 \<le> srv_sockfd srv \<longrightarrow> srv_sockfd srv \<notin> set (w_open_fds w')) \<and>
    (0 \<le> tun_fd (srv_tun srv) \<longrightarrow> tun_fd (srv_tun srv) \<notin> set (w_open_fds w'))"
proof -
  define srv0 where "srv0 = srv\<lparr>srv_timeout_quit := True, srv_tun_quit := True\<rparr>"
  define w0 where "w0 = LOG_INFO (lit ''Shutting down server...'') w"
  obtain len buf w1 where b: "proto_build_disconnect (zeros TUND_MAX_PKT) w0 = (len, buf, w1)" by (metis prod_cases3)
  obtain srv1 w2 where sl: "server_send_loop ''Send to '' (server_snapshot_broadcast_locked srv0 TUND_MAX_PEERS (-1)) buf len 0 srv0 w1 = (srv1, w2)"
    by fastforce
  have s1: "srv1 = srv0" by (rule send_loop_no_bytes [OF sl])
  obtain dev w3 where c: "tun_close (srv_tun srv0) w2 = (dev, w3)" by fastforce
  define w4 where "w4 = (if g_tui_active w3 then tui_shutdown w3 else w3)"
  have w4: "w_open_fds w4 = w_open_fds w3"
    using w_core_cong(13) [OF w_core_tui_init(2)] by (simp add: w4_def)
  note cf = tun_close_fds [OF c]
  have eq: "srv' = (if sock_valid (srv_sockfd srv) then srv0\<lparr>srv_tun := dev, srv_sockfd := -1\<rparr> else srv0\<lparr>srv_tun := dev\<rparr>)"
    "w_open_fds w' = (if sock_valid (srv_sockfd srv) then removeAll (srv_sockfd srv) (w_open_fds w3) else w_open_fds w3)"
    using assms b sl c s1 w4 unfolding w0_def srv0_def w4_def
    by (auto simp: server_shutdown_def server_send_peer_snapshots_def Let_def split: if_splits)
  then show ?thesis using cf by (auto simp: sock_valid_def srv0_def)
qed

theorem server_shutdown_closes_witness:
  "\<exists>srv' w'. server_shutdown demo_server demo_world = (srv', w') \<and> tun_fd (srv_tun srv') < 0 \<and> 4 \<notin> set (w_open_fds w')"
proof -
  obtain srv' w' where s: "server_shutdown demo_server demo_world = (srv', w')" by fastforce
  have "srv_sockfd demo_server = 4" by (simp add: demo_server_def)
  then show ?thesis using server_shutdown_closes [OF s] s by simp
qed

end
