(* ===== verification/Peerforge_Server.thy ===== *)
theory Peerforge_Server
  imports Peerforge_Props
begin

text \<open>
  The test server (\<open>tools/peerforge/server.c\<close>): the program's packet handling without a device, without
  threads and for a limited time. It is linked with a logger and a device writer of its own, \<open>stub_log_msg\<close>
  and \<open>stub_tun_write\<close>; the handlers called here are those of the server with the world's logger and device,
  which differ from the stubs in the text of the diagnostics and in keeping the packets written.
\<close>

section \<open>server.c\<close>

definition stub_log_msg :: "nat \<Rightarrow> bytes \<Rightarrow> world \<Rightarrow> world" where
  "stub_log_msg level s w = (if level < LOG_LEVEL_WARN then w else fput_stderr (s @ [10]) w)"

definition stub_tun_write :: "tun_device_t \<Rightarrow> bytes \<Rightarrow> int \<Rightarrow> int" where
  "stub_tun_write dev buf len = len"

record peerforge_server_options_t =
  pso_port :: u16
  pso_key :: "bytes option"
  pso_duration_sec :: int

definition server_usage :: "bytes \<Rightarrow> world \<Rightarrow> world" where
  "server_usage prog w = fput_stderr (concat (map (\<lambda>l. l @ [10])
     [lit ''Usage: '' @ c_str prog @ lit '' -k <key> [-p port] [-t seconds]'', [],
      lit ''Options:'',
      lit ''  -k <key>      Shared network key, 12+ characters (required)'',
      lit ''  -p <port>     UDP port (default: '' @ fmt_u (unat TUND_PORT) @ lit '')'',
      lit ''  -t <seconds>  Maximum runtime (default: 20)''])) w"

definition server_option :: "bytes \<Rightarrow> bytes \<Rightarrow> peerforge_server_options_t \<Rightarrow> peerforge_server_options_t option option" where
  "server_option opt value opts =
     (if c_str opt = lit ''-k'' then Some (Some (opts\<lparr>pso_key := Some value\<rparr>))
      else if c_str opt = lit ''-p''
      then Some (map_option (\<lambda>v. opts\<lparr>pso_port := word_of_int v\<rparr>) (parse_long value 1 65535))
      else if c_str opt = lit ''-t''
      then Some (map_option (\<lambda>v. opts\<lparr>pso_duration_sec := v\<rparr>) (parse_long value 1 3600))
      else None)"

definition server_parse_options :: "bytes list \<Rightarrow> world \<Rightarrow> peerforge_server_options_t parse_result \<times> world" where
  "server_parse_options argv w =
     (case option_loop (server_usage (argv ! 0)) server_option (drop 1 argv)
             \<lparr>pso_port = TUND_PORT, pso_key = None, pso_duration_sec = 20\<rparr> w of
        (ParseOk opts, w) \<Rightarrow>
          if pso_key opts = None \<or> c_strlen (the (pso_key opts)) < 12
          then (ParseFailed, server_usage (argv ! 0) w) else (ParseOk opts, w)
      | res \<Rightarrow> res)"

text \<open>One round of the loop: whether it goes on, with the status if not.\<close>

definition run_server_iter ::
    "u64 \<Rightarrow> bytes \<Rightarrow> sockaddr_in \<Rightarrow> server_t \<Rightarrow> world \<Rightarrow> int option \<times> bytes \<times> sockaddr_in \<times> server_t \<times> world" where
  "run_server_iter deadline buf from srv w =
     (let (now, w) = now_ms w
      in if \<not> now < deadline then (Some 0, buf, from, srv, w)
         else
           let (ready, w) = platform_poll_one w
           in if ready < 0
              then let (err, w) = syscall sys_errno w
                   in if err = EINTR then (None, buf, from, srv, w)
                      else (Some 1, buf, from, srv, fput_stderr (lit ''poll failed: '' @ sock_errstr w err @ [10]) w)
              else if ready = 0 then (None, buf, from, srv, w)
              else
                let (n, buf, from, w) = net_recv buf from w
                in if 0 < n
                   then let (srv, w) = server_handle_packet srv buf n from w in (None, buf, from, srv, w)
                   else (None, buf, from, srv, w))"

fun run_server_loop ::
    "nat \<Rightarrow> u64 \<Rightarrow> bytes \<Rightarrow> sockaddr_in \<Rightarrow> server_t \<Rightarrow> world \<Rightarrow> (int \<times> server_t \<times> world) option" where
  "run_server_loop 0 deadline buf from srv w = None"
| "run_server_loop (Suc fuel) deadline buf from srv w =
     (case run_server_iter deadline buf from srv w of
        (Some result, buf, from, srv, w) \<Rightarrow> Some (result, srv, w)
      | (None, buf, from, srv, w) \<Rightarrow> run_server_loop fuel deadline buf from srv w)"

text \<open>\<open>server_t srv = {0}\<close> and the fields set after it.\<close>

definition run_server_init :: "u16 \<Rightarrow> server_t" where
  "run_server_init port =
     \<lparr>srv_sockfd = -1, srv_tun = tun_device0\<lparr>tun_fd := -1\<rparr>, srv_peers = replicate TUND_MAX_PEERS peer0, srv_peer_count = 0,
      srv_port = port, srv_timeout_started = False, srv_tun_started = False, srv_timeout_quit = False, srv_tun_quit = False\<rparr>"

definition run_server ::
    "nat \<Rightarrow> bytes \<Rightarrow> sockaddr_in \<Rightarrow> peerforge_server_options_t \<Rightarrow> world \<Rightarrow> (int \<times> server_t \<times> world) option" where
  "run_server fuel buf from opts w =
     (let srv = run_server_init (pso_port opts);
          (fd, w) = net_create_socket (pso_port opts) w;
          srv = srv\<lparr>srv_sockfd := fd\<rparr>
      in if \<not> sock_valid (srv_sockfd srv) then Some (1, srv, w)
         else
           let w = fput_stderr (lit ''peerforge server listening on UDP '' @ fmt_u (unat (pso_port opts)) @ [10]) w;
               (now, w) = now_ms w;
               deadline = now + word_of_int (pso_duration_sec opts) * 1000
           in map_option (\<lambda>(result, srv, w). (result, srv, sock_close (srv_sockfd srv) w))
                (run_server_loop fuel deadline buf from srv w))"

text \<open>\<open>main\<close>: the key is the global of the process.\<close>

definition peerforge_server_main ::
    "nat \<Rightarrow> bytes \<Rightarrow> sockaddr_in \<Rightarrow> bytes list \<Rightarrow> world \<Rightarrow> (int \<times> world) option" where
  "peerforge_server_main fuel buf from argv w =
     (case server_parse_options argv w of
        (ParseExit, w) \<Rightarrow> Some (0, w)
      | (ParseFailed, w) \<Rightarrow> Some (2, w)
      | (ParseOk opts, w) \<Rightarrow>
          map_option (\<lambda>(r, _, w). (r, w))
            (run_server fuel buf from opts (w\<lparr>g_crypto_key := proto_key_from_passphrase (the (pso_key opts))\<rparr>)))"

section \<open>The handlers take finite time\<close>

text \<open>
  What every call of the packet handling does to the world around it: time goes on, the environment and
  the open descriptors stay.
\<close>

definition later :: "world \<Rightarrow> world \<Rightarrow> bool" where
  "later w w' \<longleftrightarrow> w_tick w \<le> w_tick w' \<and> w_env w' = w_env w \<and> w_open_fds w' = w_open_fds w"

lemma later_refl [simp]: "later w w"
  by (simp add: later_def)

lemma later_trans: "later u v \<Longrightarrow> later v w \<Longrightarrow> later u w"
  by (simp add: later_def)

named_theorems later_intros

lemma later_syscall [later_intros]: "later v w \<Longrightarrow> later v (snd (syscall f w))"
  by (simp add: later_def syscall_def)

lemma later_now_ms [later_intros]: "later v w \<Longrightarrow> later v (snd (now_ms w))"
  by (simp add: later_def syscall_def now_ms_def split: prod.splits)

lemma later_log [later_intros]: "later v w \<Longrightarrow> later v (log_msg l s w)"
  by (simp add: later_def log_msg_def syscall_def Let_def)

lemma later_events [later_intros]:
  "later v w \<Longrightarrow> later v (app_event_peer_join n ip a w)" "later v w \<Longrightarrow> later v (app_event_peer_leave ip r w)"
  by (simp_all add: later_def app_event_peer_join_def app_event_peer_leave_def Let_def)

lemma later_tun_write [later_intros]: "later v w \<Longrightarrow> later v (snd (tun_write dev b l w))"
  by (simp add: later_def tun_write_def syscall_def Let_def)

lemma later_random [later_intros]: "later v w \<Longrightarrow> later v (snd (snd (proto_random_bytes n w)))"
  by (auto simp: later_def proto_random_bytes_def proto_random_fd_def syscall_def Let_def split: prod.splits)

lemma later_sequence [later_intros]: "later v w \<Longrightarrow> later v (snd (proto_next_sequence w))"
  using later_random [of v w 8]
  by (auto simp: later_def proto_next_sequence_def proto_initial_sequence_def Let_def split: prod.splits option.splits)

lemma later_write_hdr [later_intros]: "later v w \<Longrightarrow> later v (snd (snd (proto_write_hdr b t l w)))"
  by (auto simp: proto_write_hdr_def Let_def case_prod_beta intro: later_intros split: option.splits)

lemma later_encrypt [later_intros]: "later v w \<Longrightarrow> later v (snd (snd (proto_encrypt b l k w)))"
  by (auto simp: proto_encrypt_def Let_def case_prod_beta intro: later_intros split: sum.splits)

lemma later_build [later_intros]:
  assumes "later v w"
  shows "later v (snd (snd (proto_build_assign b vip nm mtu w)))" "later v (snd (snd (proto_build_data b pkt len w)))"
    "later v (snd (snd (proto_build_keepalive_ack b ts w)))" "later v (snd (snd (proto_build_peer_join b vip name w)))"
    "later v (snd (snd (proto_build_peer_leave b vip w)))" "later v (snd (snd (snd (build_peer_list_from_snapshot b es w))))"
  using later_write_hdr [OF assms]
  by (simp_all add: proto_build_assign_def proto_build_data_def proto_build_keepalive_ack_def proto_build_timestamp_msg_def
      proto_build_peer_join_def proto_build_peer_leave_def build_peer_list_from_snapshot_def Let_def case_prod_beta)

lemma later_record_sent [later_intros]: "later v w \<Longrightarrow> later v (record_sent n x d w)"
  by (simp add: later_def record_sent_def)

lemma later_net_send [later_intros]: "later v w \<Longrightarrow> later v (snd (net_send b l d w))"
  by (auto simp: net_send_def Let_def case_prod_beta intro!: later_intros)

lemma later_net_recv [later_intros]: "later v w \<Longrightarrow> later v (snd (snd (snd (net_recv b a w))))"
  by (auto simp: net_recv_def Let_def case_prod_beta intro: later_intros split: recv_result.splits)

lemma later_send_loop [later_intros]: "later v w \<Longrightarrow> later v (snd (server_send_loop what ps b l n srv w))"
proof (induction ps arbitrary: srv w)
  case (Cons p ps)
  then show ?case by (auto simp: Let_def case_prod_beta intro!: Cons.IH later_intros)
qed simp

lemma later_send_joins [later_intros]: "later v w \<Longrightarrow> later v (server_send_joins b l n ds w)"
proof (induction ds arbitrary: w)
  case (Cons d ds)
  then show ?case by (auto simp: Let_def case_prod_beta intro!: Cons.IH later_intros)
qed simp

lemma later_register [later_intros]: "later v w \<Longrightarrow> later v (snd (server_handle_register srv p l a q w))"
  by (auto simp: server_handle_register_def server_register_locked_def server_register_reply_def Let_def case_prod_beta
      intro!: later_intros split: option.splits)

lemma later_accept [later_intros]: "later v w \<Longrightarrow> later v (snd (snd (server_accept_registered_sequence srv a q w)))"
  by (auto simp: server_accept_registered_sequence_def Let_def case_prod_beta intro: later_intros split: option.splits)

lemma later_disconnect [later_intros]: "later v w \<Longrightarrow> later v (snd (server_handle_disconnect srv a w))"
  by (auto simp: server_handle_disconnect_def server_disconnect_locked_def server_send_peer_snapshots_def Let_def case_prod_beta
      intro!: later_intros split: option.splits)

lemma later_data [later_intros]: "later v w \<Longrightarrow> later v (snd (server_handle_data srv p l a w))"
proof -
  assume w: "later v w"
  obtain res srv1 w1 where d: "server_data_locked srv (proto_get_src_ip p l) (proto_get_dst_ip p l) l a w = (res, srv1, w1)"
    by (metis prod_cases3)
  then have "later v w1"
    using w by (auto simp: server_data_locked_def Let_def intro: later_intros split: option.splits if_splits)
  then have "later v (snd (server_data_forward srv1 res p l x w1))" for x
    by (cases res) (auto simp: server_data_forward_def Let_def case_prod_beta intro: later_intros)
  then show ?thesis using w d by (simp add: server_handle_data_def Let_def later_log)
qed

lemma later_keepalive [later_intros]:
  "later v w \<Longrightarrow> later v (snd (server_handle_keepalive srv p l a w))"
  "later v w \<Longrightarrow> later v (snd (server_handle_keepalive_ack srv p l a w))"
  by (auto simp: server_handle_keepalive_def server_keepalive_locked_def server_handle_keepalive_ack_def
      server_keepalive_ack_locked_def Let_def case_prod_beta intro: later_intros split: option.splits)

lemma later_handle_packet [later_intros]: "later v w \<Longrightarrow> later v (snd (server_handle_packet srv b n a w))"
  by (auto simp: server_handle_packet_def Let_def case_prod_beta intro: later_intros split: sum.splits option.splits)

section \<open>The loop\<close>

lemma later_stderr [later_intros]: "later v w \<Longrightarrow> later v (fput_stderr s w)"
  by (simp add: later_def fput_stderr_def)

lemma later_iter:
  assumes "run_server_iter deadline buf a srv w = (stop, buf', a', srv', w')"
  shows "later w w'" "w_tick w < w_tick w'"
proof -
  obtain now v where n: "now_ms w = (now, v)" by fastforce
  have "later v w'"
    using arg_cong [OF assms, of "\<lambda>x. snd (snd (snd (snd x)))", symmetric]
    by (auto simp: run_server_iter_def platform_poll_one_def n Let_def case_prod_beta intro!: later_intros)
  then show "later w w'" "w_tick w < w_tick w'"
    using n by (auto simp: later_def now_ms_def syscall_def split: prod.splits)
qed

context server_dispatch
begin

lemma test_iter:
  assumes eq: "run_server_iter deadline buf a srv w = (stop, buf', a', srv', w')"
  shows "R srv srv'"
proof -
  have "srv' = srv \<or> (\<exists>b n c v v1 v2. net_recv buf a v = (n, b, c, v1) \<and> 0 < n \<and> server_handle_packet srv b n c v1 = (srv', v2))"
    using eq by (auto simp: run_server_iter_def Let_def split: prod.splits if_splits)
  then show ?thesis using refl handle_packet net_recv_bound(2) by blast
qed

end

definition same_socket :: "server_t \<Rightarrow> server_t \<Rightarrow> bool" where
  "same_socket srv srv' \<longleftrightarrow> srv_sockfd srv' = srv_sockfd srv"

interpretation socket: server_dispatch same_socket
  by unfold_locales
    (auto simp: same_socket_def server_add_peer_bytes_out_def server_accept_locked_def server_disconnect_locked_def
      server_data_locked_def server_keepalive_locked_def server_keepalive_ack_locked_def server_timeout_locked_def
      server_register_locked_def Let_def split: option.splits prod.splits if_splits)

lemma test_loop_ends:
  assumes "server_inv srv" "\<And>t. T \<le> t \<Longrightarrow> deadline \<le> clock_ms (w_env w) t" "T < w_tick w + fuel" "0 < fuel"
  shows "\<exists>r srv' w'. run_server_loop fuel deadline buf a srv w = Some (r, srv', w') \<and>
    server_steps srv srv' \<and> same_socket srv srv' \<and> w_open_fds w' = w_open_fds w"
  using assms
proof (induction fuel arbitrary: buf a srv w)
  case (Suc fuel)
  obtain stop b c srv1 w1 where i: "run_server_iter deadline buf a srv w = (stop, b, c, srv1, w1)" by (metis prod_cases5)
  note l = later_iter [OF i, unfolded later_def] and s = steps.test_iter [OF i] socket.test_iter [OF i]
  show ?case
  proof (cases stop)
    case None
    then have "clock_ms (w_env w) (w_tick w) < deadline"
      using i by (auto simp: run_server_iter_def now_ms_def syscall_def clock_ms_def Let_def split: prod.splits if_splits)
    then have "w_tick w < T" using Suc.prems(2) [of "w_tick w"] by (meson leD not_le)
    then have f: "T < w_tick w1 + fuel" "0 < fuel" using Suc.prems(3) l by auto
    have e: "\<And>t. T \<le> t \<Longrightarrow> deadline \<le> clock_ms (w_env w1) t" using Suc.prems(2) l by simp
    from Suc.IH [OF server_steps_inv [OF s(1) Suc.prems(1)] e f, of b c]
    show ?thesis using None i l rtranclp_trans [OF s(1)] socket.trans [OF s(2)] by fastforce
  qed (use i l s in auto)
qed simp

text \<open>
  C30: the test server ends and leaves nothing behind. Whatever datagrams arrive, however often the polls
  are interrupted or fail: once the clock has passed the duration asked for, the run returns, within as
  many rounds as there are ticks; the peer table it ends with is sound; the socket it opened is closed
  and no other descriptor is touched. Without a socket it returns 1 at once.
\<close>

theorem peerforge_server_ends:
  assumes "net_create_socket (pso_port opts) w = (fd, w1)"
    and "\<And>t. T \<le> t \<Longrightarrow> clock_ms (w_env w) (w_tick w1) + word_of_int (pso_duration_sec opts) * 1000 \<le> clock_ms (w_env w) t"
    and "T < w_tick w1 + fuel" "0 < fuel"
  shows "\<exists>r srv w'. run_server fuel buf a opts w = Some (r, srv, w') \<and> server_inv srv \<and>
    (if sock_valid fd then w_open_fds w' = removeAll fd (w_open_fds w) else r = 1 \<and> w' = w1)"
proof (cases "sock_valid fd")
  case False
  then show ?thesis using assms(1) peers_ok_initial
    by (simp add: run_server_def run_server_init_def server_inv_def peer0_def)
next
  case True
  let ?w2 = "fput_stderr (lit ''peerforge server listening on UDP '' @ fmt_u (unat (pso_port opts)) @ [10]) w1"
  let ?srv = "(run_server_init (pso_port opts))\<lparr>srv_sockfd := fd\<rparr>"
  obtain now w3 where n: "now_ms ?w2 = (now, w3)" by fastforce
  have w1: "w_env w1 = w_env w" "w_open_fds w1 = w_open_fds w @ [fd]"
    using assms(1) True
    by (auto simp: net_create_socket_def sock_valid_def split_beta Let_def split: if_splits)
  have w3: "now = clock_ms (w_env w) (w_tick w1)" "w_env w3 = w_env w" "w_tick w3 = Suc (w_tick w1)" "w_open_fds w3 = w_open_fds w1"
    using n w1 by (auto simp: now_ms_def syscall_def clock_ms_def fput_stderr_def split: prod.splits)
  have inv: "server_inv ?srv" using peers_ok_initial by (simp add: run_server_init_def server_inv_def peer0_def)
  have d: "\<And>t. T \<le> t \<Longrightarrow> now + word_of_int (pso_duration_sec opts) * 1000 \<le> clock_ms (w_env w3) t"
    using assms(2) w3(1,2) by simp
  have f: "T < w_tick w3 + fuel" using assms(3) w3(3) by simp
  obtain r srv' w' where L: "run_server_loop fuel (now + word_of_int (pso_duration_sec opts) * 1000) buf a ?srv w3 = Some (r, srv', w')"
      "server_steps ?srv srv'" "same_socket ?srv srv'" "w_open_fds w' = w_open_fds w3"
    using test_loop_ends [OF inv d f assms(4), of buf a] by blast
  then have "run_server fuel buf a opts w = Some (r, srv', sock_close fd w')"
    using assms(1) True n by (simp add: run_server_def run_server_init_def same_socket_def Let_def)
  then show ?thesis using True server_steps_inv [OF L(2) inv] L(4) w1 w3 by (auto simp: sock_close_def)
qed

theorem peerforge_server_ends_witness:
  "\<exists>r srv w'. run_server 40 (zeros 1653) sockaddr0 \<lparr>pso_port = 9909, pso_key = None, pso_duration_sec = 1\<rparr>
       (demo_world\<lparr>w_env := demo_env\<lparr>sys_clock := (\<lambda>t. (if t < 30 then 1000 else 1010, 0))\<rparr>\<rparr>) = Some (r, srv, w') \<and> server_inv srv"
proof -
  let ?w = "demo_world\<lparr>w_env := demo_env\<lparr>sys_clock := (\<lambda>t. (if t < 30 then 1000 else 1010, 0))\<rparr>\<rparr>"
  let ?o = "\<lparr>pso_port = 9909, pso_key = None, pso_duration_sec = 1\<rparr>"
  obtain fd w1 where s: "net_create_socket 9909 ?w = (fd, w1)" by fastforce
  then have "w_tick w1 < 30"
    by (auto simp: net_create_socket_def syscall_def log_msg_def sock_close_def demo_world_def demo_env_def Let_def split: if_splits)
  then have "clock_ms (w_env ?w) (w_tick w1) + word_of_int 1 * 1000 \<le> clock_ms (w_env ?w) t" if "30 \<le> t" for t
    using that by (simp add: clock_ms_def)
  from peerforge_server_ends [of ?o ?w fd w1 30 40 "zeros 1653" sockaddr0] s this show ?thesis by auto
qed

end
