(* ===== verification/Client_Inv.thy ===== *)
theory Client_Inv
  imports Client_Run
begin

text \<open>
  The invariant of the client's state and the meaning of its peer table. The table is a \<^emph>\<open>roster\<close>: a map
  of bounded size from virtual addresses to names, changed by joins, leaves and peer lists. The locale
  states this contract and derives what a whole peer list does; the interpretation proves the contract
  for \<open>client_update_peer\<close>.
\<close>

section \<open>Rosters\<close>

locale roster =
  fixes capacity :: nat
    and wf :: "'s \<Rightarrow> bool"
    and view :: "'s \<Rightarrow> 'k \<Rightarrow> 'v option"
    and put :: "'k \<Rightarrow> 'a \<Rightarrow> 's \<Rightarrow> 's"
    and del :: "'k \<Rightarrow> 's \<Rightarrow> 's"
    and norm :: "'a \<Rightarrow> 'v"
  assumes wf_put: "wf s \<Longrightarrow> wf (put k a s)"
    and wf_del: "wf s \<Longrightarrow> wf (del k s)"
    and finite_view: "wf s \<Longrightarrow> finite (dom (view s))"
    and view_bound: "wf s \<Longrightarrow> card (dom (view s)) \<le> capacity"
    and view_put: "wf s \<Longrightarrow> card (insert k (dom (view s))) \<le> capacity \<Longrightarrow> view (put k a s) = (view s)(k \<mapsto> norm a)"
    and view_put_full: "wf s \<Longrightarrow> capacity < card (insert k (dom (view s))) \<Longrightarrow> view (put k a s) = view s"
    and view_del: "wf s \<Longrightarrow> view (del k s) = (view s)(k := None)"
begin

fun update :: "'k \<times> 'a \<times> bool \<Rightarrow> 's \<Rightarrow> 's" where
  "update (k, a, online) s = (if online then put k a s else del k s)"

fun announce :: "'k \<times> 'a \<times> bool \<Rightarrow> ('k \<Rightarrow> 'v option) \<Rightarrow> 'k \<Rightarrow> 'v option" where
  "announce (k, a, online) m = m(k := if online then Some (norm a) else None)"

lemma wf_update: "wf s \<Longrightarrow> wf (update e s)"
  by (cases e) (simp add: wf_put wf_del)

lemma wf_updates: "wf s \<Longrightarrow> wf (fold update es s)"
  by (induction es arbitrary: s) (simp_all add: wf_update)

text \<open>A list of announcements that fits into the roster takes effect entry by entry.\<close>

lemma view_update:
  assumes "wf s" "card (insert (fst e) (dom (view s))) \<le> capacity"
  shows "view (update e s) = announce e (view s)"
  using assms by (cases e) (simp add: view_put view_del)

lemma dom_announce: "dom (announce e m) \<subseteq> insert (fst e) (dom m)"
  by (cases e) (auto split: if_splits)

lemma view_updates:
  assumes "wf s" "card (dom (view s) \<union> fst ` set es) \<le> capacity"
  shows "view (fold update es s) = fold announce es (view s)"
  using assms
proof (induction es arbitrary: s)
  case (Cons e es)
  have fin: "finite (dom (view s) \<union> fst ` set (e # es))" using finite_view [OF Cons.prems(1)] by simp
  have "card (insert (fst e) (dom (view s))) \<le> card (dom (view s) \<union> fst ` set (e # es))"
    by (rule card_mono [OF fin]) auto
  then have u: "view (update e s) = announce e (view s)"
    using Cons.prems by (intro view_update) linarith+
  have "card (dom (view (update e s)) \<union> fst ` set es) \<le> card (dom (view s) \<union> fst ` set (e # es))"
    by (rule card_mono [OF fin]) (use dom_announce [of e "view s"] in \<open>auto simp: u\<close>)
  then have "view (fold update es (update e s)) = fold announce es (view (update e s))"
    using Cons.prems by (intro Cons.IH wf_update) linarith+
  then show ?case by (simp add: u)
qed simp

text \<open>Joining and leaving again restores the roster, also when the table was full.\<close>

lemma del_put:
  assumes "wf s" "view s k = None"
  shows "view (del k (put k a s)) = view s"
proof (cases "card (insert k (dom (view s))) \<le> capacity")
  case True
  then show ?thesis using assms by (auto simp: view_del wf_put view_put)
next
  case False
  then show ?thesis using assms by (auto simp: view_del wf_put view_put_full)
qed

end

section \<open>The table as a map\<close>

abbreviation holds :: "u32 \<Rightarrow> peer_t \<Rightarrow> bool" where
  "holds vip p \<equiv> peer_active p \<and> peer_virt_ip p = vip"

definition named_ok :: "peer_t \<Rightarrow> bool" where
  "named_ok p \<longleftrightarrow> length (peer_name p) = TUND_NAME_LEN \<and> terminated (peer_name p)"

definition roster_ok :: "peer_t list \<Rightarrow> bool" where
  "roster_ok ps \<longleftrightarrow>
     list_all named_ok ps \<and>
     (\<forall>i < length ps. \<forall>j < length ps. peer_active (ps ! i) \<longrightarrow> holds (peer_virt_ip (ps ! i)) (ps ! j) \<longrightarrow> i = j)"

definition roster_view :: "peer_t list \<Rightarrow> u32 \<Rightarrow> bytes option" where
  "roster_view ps vip = map_option (\<lambda>i. c_str (peer_name (ps ! i))) (first_idx (holds vip) ps)"

lemma roster_unique:
  "roster_ok ps \<Longrightarrow> i < length ps \<Longrightarrow> j < length ps \<Longrightarrow> holds vip (ps ! i) \<Longrightarrow> holds vip (ps ! j) \<Longrightarrow> i = j"
  unfolding roster_ok_def by blast

lemma roster_okI:
  assumes "list_all named_ok ps"
    and "\<And>i j vip. i < length ps \<Longrightarrow> j < length ps \<Longrightarrow> holds vip (ps ! i) \<Longrightarrow> holds vip (ps ! j) \<Longrightarrow> i = j"
  shows "roster_ok ps"
  unfolding roster_ok_def using assms by blast

lemma roster_named: "roster_ok ps \<Longrightarrow> i < length ps \<Longrightarrow> named_ok (ps ! i)"
  by (simp add: roster_ok_def list_all_length)

lemma named_update: "roster_ok ps \<Longrightarrow> named_ok p \<Longrightarrow> list_all named_ok (ps[i := p])"
  by (auto simp: roster_ok_def list_all_iff dest: set_update_subset_insert [THEN subsetD])

lemma roster_view_Some:
  assumes "roster_ok ps"
  shows "roster_view ps vip = Some n \<longleftrightarrow> (\<exists>i < length ps. holds vip (ps ! i) \<and> c_str (peer_name (ps ! i)) = n)"
proof
  assume "roster_view ps vip = Some n"
  then obtain i where "first_idx (holds vip) ps = Some i" "c_str (peer_name (ps ! i)) = n"
    by (auto simp: roster_view_def)
  with first_idx_Some [OF this(1)] show "\<exists>i < length ps. holds vip (ps ! i) \<and> c_str (peer_name (ps ! i)) = n"
    by blast
next
  assume "\<exists>i < length ps. holds vip (ps ! i) \<and> c_str (peer_name (ps ! i)) = n"
  then obtain i where i: "i < length ps" "holds vip (ps ! i)" "c_str (peer_name (ps ! i)) = n" by blast
  have "first_idx (holds vip) ps = Some i"
    using i roster_unique [OF assms] by (intro first_idx_unique) blast+
  then show "roster_view ps vip = Some n" using i by (simp add: roster_view_def)
qed

lemma roster_view_None:
  "roster_view ps vip = None \<longleftrightarrow> (\<forall>i < length ps. \<not> holds vip (ps ! i))"
  by (auto simp: roster_view_def all_set_conv_all_nth)

lemma roster_view_eqI:
  assumes "roster_ok ps" "\<And>n. (\<exists>i < length ps. holds vip (ps ! i) \<and> c_str (peer_name (ps ! i)) = n) \<longleftrightarrow> x = Some n"
  shows "roster_view ps vip = x"
  using assms(2) roster_view_Some [OF assms(1), of vip] by (cases x) (auto, metis option.exhaust)

lemma roster_dom:
  "dom (roster_view ps) = (\<lambda>i. peer_virt_ip (ps ! i)) ` {i. i < length ps \<and> peer_active (ps ! i)}"
proof -
  have "vip \<in> dom (roster_view ps) \<longleftrightarrow> (\<exists>i < length ps. holds vip (ps ! i))" for vip
    using roster_view_None [of ps vip] by (auto simp: domIff)
  then show ?thesis by (intro set_eqI) (auto simp del: domIff simp: image_iff)
qed

lemma roster_card: "roster_ok ps \<Longrightarrow> card (dom (roster_view ps)) = count_if peer_active ps"
  unfolding roster_dom count_if_def length_filter_conv_card
  by (rule card_image) (auto simp: inj_on_def intro: roster_unique)

lemma roster_finite [simp]: "finite (dom (roster_view ps))"
  by (simp add: roster_dom)

text \<open>Writing a slot, clearing a slot, and changes that keep every identity.\<close>

lemma roster_view_other:
  assumes "\<not> holds v p" "\<not> holds v (ps ! i)"
  shows "roster_view (ps[i := p]) v = roster_view ps v"
proof -
  have f: "first_idx (holds v) (ps[i := p]) = first_idx (holds v) ps"
  proof (rule first_idx_cong)
    fix j assume "j < length (ps[i := p])"
    then show "holds v (ps[i := p] ! j) = holds v (ps ! j)" using assms by (cases "j = i") (simp, blast, simp)
  qed simp
  show ?thesis
  proof (cases "first_idx (holds v) ps")
    case (Some j)
    then have "j \<noteq> i" using first_idx_Some [OF Some] assms(2) by blast
    then show ?thesis using Some by (simp add: roster_view_def f)
  qed (simp only: roster_view_def f option.map)
qed

lemma roster_set:
  assumes ok: "roster_ok ps" and i: "i < length ps" and p: "holds vip p" "named_ok p"
    and other: "\<And>j. j < length ps \<Longrightarrow> holds vip (ps ! j) \<Longrightarrow> j = i"
    and old: "peer_active (ps ! i) \<Longrightarrow> peer_virt_ip (ps ! i) = vip"
  shows "roster_ok (ps[i := p])" "roster_view (ps[i := p]) = (roster_view ps)(vip \<mapsto> c_str (peer_name p))"
proof -
  have at: "holds v (ps[i := p] ! j) \<longleftrightarrow> (if j = i then v = vip else holds v (ps ! j))" if "j < length ps" for j v
    using that p(1) by (cases "j = i") auto
  have "j = k" if "j < length ps" "k < length ps" "holds v (ps[i := p] ! j)" "holds v (ps[i := p] ! k)" for j k v
    using that(3,4) other [OF that(1)] other [OF that(2)] roster_unique [OF ok that(1,2), of v]
    unfolding at [OF that(1)] at [OF that(2)] by (metis (full_types))
  then show ok': "roster_ok (ps[i := p])"
    using named_update [OF ok p(2)] by (intro roster_okI) simp_all
  show "roster_view (ps[i := p]) = (roster_view ps)(vip \<mapsto> c_str (peer_name p))"
  proof
    fix v
    show "roster_view (ps[i := p]) v = ((roster_view ps)(vip \<mapsto> c_str (peer_name p))) v"
    proof (cases "v = vip")
      case True
      have "roster_view (ps[i := p]) vip = Some (c_str (peer_name p))"
        unfolding roster_view_Some [OF ok'] using i p by (intro exI [of _ i]) simp
      then show ?thesis using True by simp
    next
      case False
      then have "roster_view (ps[i := p]) v = roster_view ps v"
        using old p(1) by (intro roster_view_other) blast+
      then show ?thesis using False by simp
    qed
  qed
qed

lemma roster_clear:
  assumes ok: "roster_ok ps" and i: "i < length ps" "holds vip (ps ! i)" and p: "\<not> peer_active p" "named_ok p"
  shows "roster_ok (ps[i := p])" "roster_view (ps[i := p]) = (roster_view ps)(vip := None)"
proof -
  have at: "holds v (ps[i := p] ! j) \<longleftrightarrow> j \<noteq> i \<and> holds v (ps ! j)" if "j < length ps" for j v
    using that p(1) by (cases "j = i") auto
  have "j = k" if "j < length ps" "k < length ps" "holds v (ps[i := p] ! j)" "holds v (ps[i := p] ! k)" for j k v
    using that(3,4) roster_unique [OF ok that(1,2), of v] unfolding at [OF that(1)] at [OF that(2)] by blast
  then show ok': "roster_ok (ps[i := p])"
    using named_update [OF ok p(2)] by (intro roster_okI) simp_all
  show "roster_view (ps[i := p]) = (roster_view ps)(vip := None)"
  proof
    fix v
    show "roster_view (ps[i := p]) v = ((roster_view ps)(vip := None)) v"
    proof (cases "v = vip")
      case True
      have "roster_view (ps[i := p]) vip = None"
        unfolding roster_view_None length_list_update using at roster_unique [OF ok i(1) _ i(2)] by blast
      then show ?thesis using True by simp
    next
      case False
      then have "roster_view (ps[i := p]) v = roster_view ps v"
        using i(2) p(1) by (intro roster_view_other) blast+
      then show ?thesis using False by simp
    qed
  qed
qed

lemma roster_same:
  assumes len: "length ps' = length ps"
    and same: "\<And>i. i < length ps \<Longrightarrow> peer_active (ps' ! i) = peer_active (ps ! i) \<and>
      peer_virt_ip (ps' ! i) = peer_virt_ip (ps ! i) \<and> peer_name (ps' ! i) = peer_name (ps ! i)"
  shows "roster_ok ps \<Longrightarrow> roster_ok ps'" "roster_view ps' = roster_view ps"
    "count_if peer_active ps' = count_if peer_active ps"
proof -
  have h: "holds v (ps' ! i) \<longleftrightarrow> holds v (ps ! i)" if "i < length ps" for i v
    using same [OF that] by simp
  have "list_all named_ok ps'" if "roster_ok ps"
    using same roster_named [OF that] by (simp add: list_all_length len named_ok_def)
  moreover have "i = j" if "roster_ok ps" "i < length ps" "j < length ps" "holds v (ps' ! i)" "holds v (ps' ! j)" for i j v
    using roster_unique [OF that(1-3)] that(4,5) unfolding h [OF that(2)] h [OF that(3)] by blast
  ultimately show "roster_ok ps \<Longrightarrow> roster_ok ps'" by (intro roster_okI) (simp_all add: len)
  have f: "first_idx (holds v) ps' = first_idx (holds v) ps" for v
  proof (rule first_idx_cong [OF len])
    fix i assume "i < length ps'"
    then show "holds v (ps' ! i) = holds v (ps ! i)" using h len by simp
  qed
  show "roster_view ps' = roster_view ps"
  proof
    fix v
    show "roster_view ps' v = roster_view ps v"
    proof (cases "first_idx (holds v) ps")
      case (Some j)
      then have "peer_name (ps' ! j) = peer_name (ps ! j)" using first_idx_Some [OF Some] same by blast
      then show ?thesis using Some by (simp add: roster_view_def f)
    qed (simp only: roster_view_def f option.map)
  qed
  have "{i. i < length ps \<and> peer_active (ps' ! i)} = {i. i < length ps \<and> peer_active (ps ! i)}" using same by blast
  then show "count_if peer_active ps' = count_if peer_active ps"
    unfolding count_if_def length_filter_conv_card len by simp
qed

section \<open>The invariant\<close>

definition client_inv :: "client_t \<Rightarrow> bool" where
  "client_inv cli \<longleftrightarrow>
     length (cli_peers cli) = TUND_MAX_PEERS \<and> roster_ok (cli_peers cli) \<and>
     cli_peer_count cli = int (count_if peer_active (cli_peers cli)) \<and>
     (\<exists>A. replay_repr (cli_server_replay cli) A)"

definition known_peers :: "client_t \<Rightarrow> u32 \<Rightarrow> bytes option" where
  "known_peers cli = roster_view (cli_peers cli)"

text \<open>The name under which \<open>client_update_peer\<close> lists a peer.\<close>

definition peer_label :: "bytes option \<Rightarrow> bytes" where
  "peer_label name = (case name of None \<Rightarrow> [] | Some n \<Rightarrow> take 31 (c_str n))"

definition listed :: "u32 \<Rightarrow> bytes option \<Rightarrow> int \<Rightarrow> peer_t \<Rightarrow> peer_t" where
  "listed vip name now p =
     p\<lparr>peer_active := True, peer_virt_ip := vip,
       peer_name := (case name of None \<Rightarrow> zeros TUND_NAME_LEN
                                | Some n \<Rightarrow> strncpy (zeros TUND_NAME_LEN) n (TUND_NAME_LEN - 1)),
       peer_last_seen := now\<rparr>"

lemma listed_props [simp]:
  "holds vip (listed vip name now p)" "peer_active (listed vip name now p)" "named_ok (listed vip name now p)"
  "c_str (peer_name (listed vip name now p)) = peer_label name"
  by (auto simp: listed_def named_ok_def peer_label_def terminated_def strncpy_zeros
      intro!: strncpy_terminated [unfolded terminated_def] split: option.splits)

lemma map_option_plus [simp]:
  "map_option ((+) (0 :: nat)) x = x" "map_option ((+) (Suc i)) x = map_option (\<lambda>j. Suc (i + j)) x"
  by (cases x; simp)+

lemma slot_scan_idx: "fst (client_slot_scan vip i f ps) = map_option ((+) i) (first_idx (holds vip) ps)"
  by (induction ps arbitrary: i f) (auto simp: option.map_comp comp_def simp del: first_idx_None)

lemma slot_scan_free:
  "first_idx (holds vip) ps = None \<Longrightarrow>
   snd (client_slot_scan vip i f ps) =
     (case f of Some x \<Rightarrow> Some x | None \<Rightarrow> map_option ((+) i) (first_idx (\<lambda>p. \<not> peer_active p) ps))"
  by (induction ps arbitrary: i f) (auto simp: option.map_comp comp_def split: option.splits)

text \<open>The four outcomes of \<open>client_update_peer\<close>.\<close>

lemma update_peer_eq:
  "client_update_peer cli vip name online w =
     (case first_idx (holds vip) (cli_peers cli) of
        Some i \<Rightarrow>
          if online
          then (cli\<lparr>cli_peers := (cli_peers cli)[i := listed vip name (fst (time_now w)) (cli_peers cli ! i)]\<rparr>, snd (time_now w))
          else (cli\<lparr>cli_peers := (cli_peers cli)[i := (cli_peers cli ! i)\<lparr>peer_active := False\<rparr>],
                    cli_peer_count := cli_peer_count cli - 1\<rparr>, w)
      | None \<Rightarrow>
          if online
          then (case first_idx (\<lambda>p. \<not> peer_active p) (cli_peers cli) of
                  None \<Rightarrow> (cli, w)
                | Some i \<Rightarrow>
                    (cli\<lparr>cli_peers := (cli_peers cli)[i := listed vip name (fst (time_now w))
                          ((cli_peers cli ! i)\<lparr>peer_bytes_in := 0, peer_bytes_out := 0\<rparr>)],
                         cli_peer_count := cli_peer_count cli + 1\<rparr>, snd (time_now w)))
          else (cli, w))"
proof -
  obtain idx fr where sc: "client_slot_scan vip 0 None (cli_peers cli) = (idx, fr)" by fastforce
  have idx: "idx = first_idx (holds vip) (cli_peers cli)"
    using slot_scan_idx [of vip 0 None "cli_peers cli"] sc by (simp add: option.map_ident)
  have fr: "fr = first_idx (\<lambda>p. \<not> peer_active p) (cli_peers cli)" if "idx = None"
    using slot_scan_free [of vip "cli_peers cli" 0 None] sc that idx by (simp add: option.map_ident)
  show ?thesis
  proof (cases idx)
    case None
    have n: "first_idx (holds vip) (cli_peers cli) = None" using None idx by (simp del: first_idx_None)
    show ?thesis
      unfolding n client_update_peer_def sc None fr [OF None] Let_def listed_def case_prod_conv option.case
      by (cases "first_idx (\<lambda>p. \<not> peer_active p) (cli_peers cli)")
        (simp_all add: case_prod_beta del: first_idx_None)
  next
    case (Some i)
    have n: "first_idx (holds vip) (cli_peers cli) = Some i" using Some idx by simp
    show ?thesis
      unfolding n client_update_peer_def sc Some by (simp add: listed_def Let_def case_prod_beta)
  qed
qed

lemma count_active_set:
  "i < length ps \<Longrightarrow> peer_active p \<Longrightarrow>
   int (count_if peer_active (ps[i := p])) = int (count_if peer_active ps) + (if peer_active (ps ! i) then 0 else 1)"
  using count_if_update [of i ps peer_active p] by (auto split: if_splits)

lemma count_active_clear:
  "i < length ps \<Longrightarrow> peer_active (ps ! i) \<Longrightarrow> \<not> peer_active p \<Longrightarrow>
   int (count_if peer_active (ps[i := p])) = int (count_if peer_active ps) - 1"
  using count_if_update [of i ps peer_active p] by auto

lemma known_card: "client_inv cli \<Longrightarrow> card (dom (known_peers cli)) = count_if peer_active (cli_peers cli)"
  by (simp add: client_inv_def known_peers_def roster_card)

lemma known_bound: "client_inv cli \<Longrightarrow> card (dom (known_peers cli)) \<le> TUND_MAX_PEERS"
  using known_card [of cli] count_if_le_length [of peer_active "cli_peers cli"] by (simp add: client_inv_def)

lemma known_full:
  assumes "client_inv cli" "known_peers cli vip = None"
  shows "card (insert vip (dom (known_peers cli))) \<le> TUND_MAX_PEERS \<longleftrightarrow>
         first_idx (\<lambda>p. \<not> peer_active p) (cli_peers cli) \<noteq> None"
proof -
  have c: "card (insert vip (dom (known_peers cli))) = Suc (count_if peer_active (cli_peers cli))"
    using assms known_card [OF assms(1)] by (subst card_insert_disjoint) (auto simp: known_peers_def)
  have "count_if peer_active (cli_peers cli) + count_if (\<lambda>p. \<not> peer_active p) (cli_peers cli) = 253"
    using assms(1) sum_length_filter_compl [of peer_active "cli_peers cli"] by (simp add: count_if_def client_inv_def)
  moreover have "count_if (\<lambda>p. \<not> peer_active p) (cli_peers cli) = 0 \<longleftrightarrow>
      first_idx (\<lambda>p. \<not> peer_active p) (cli_peers cli) = None"
    by (simp add: count_if_def filter_empty_conv)
  ultimately show ?thesis unfolding c by linarith
qed

text \<open>One slot of the table changes: what this does to the invariant and to the map.\<close>

lemma inv_set:
  assumes inv: "client_inv cli" and i: "i < length (cli_peers cli)" and p: "holds vip p" "named_ok p"
    and other: "\<And>j. j < length (cli_peers cli) \<Longrightarrow> holds vip (cli_peers cli ! j) \<Longrightarrow> j = i"
    and old: "peer_active (cli_peers cli ! i) \<Longrightarrow> peer_virt_ip (cli_peers cli ! i) = vip"
    and cli': "cli' = cli\<lparr>cli_peers := (cli_peers cli)[i := p],
      cli_peer_count := cli_peer_count cli + (if peer_active (cli_peers cli ! i) then 0 else 1)\<rparr>"
  shows "client_inv cli'" "known_peers cli' = (known_peers cli)(vip \<mapsto> c_str (peer_name p))"
proof -
  have ok: "roster_ok (cli_peers cli)" using inv by (simp add: client_inv_def)
  note r = roster_set [OF ok i p other old]
  show "client_inv cli'"
    using inv r(1) count_active_set [OF i, of p] p(1) by (simp add: client_inv_def cli')
  show "known_peers cli' = (known_peers cli)(vip \<mapsto> c_str (peer_name p))"
    using r(2) by (simp add: known_peers_def cli')
qed

lemma inv_clear:
  assumes inv: "client_inv cli" and i: "i < length (cli_peers cli)" "holds vip (cli_peers cli ! i)"
    and cli': "cli' = cli\<lparr>cli_peers := (cli_peers cli)[i := (cli_peers cli ! i)\<lparr>peer_active := False\<rparr>],
      cli_peer_count := cli_peer_count cli - 1\<rparr>"
  shows "client_inv cli'" "known_peers cli' = (known_peers cli)(vip := None)"
proof -
  have ok: "roster_ok (cli_peers cli)" using inv by (simp add: client_inv_def)
  have nm: "named_ok ((cli_peers cli ! i)\<lparr>peer_active := False\<rparr>)"
    using roster_named [OF ok i(1)] by (simp add: named_ok_def)
  note r = roster_clear [OF ok i _ nm]
  show "client_inv cli'"
    using inv r(1) count_active_clear [OF i(1), of "(cli_peers cli ! i)\<lparr>peer_active := False\<rparr>"] i(2)
    by (simp add: client_inv_def cli')
  show "known_peers cli' = (known_peers cli)(vip := None)"
    using r(2) by (simp add: known_peers_def cli')
qed

lemma known_Some_idx:
  assumes "client_inv cli" "first_idx (holds vip) (cli_peers cli) = Some i"
  shows "i < length (cli_peers cli)" "holds vip (cli_peers cli ! i)"
    "\<And>j. j < length (cli_peers cli) \<Longrightarrow> holds vip (cli_peers cli ! j) \<Longrightarrow> j = i"
    "vip \<in> dom (known_peers cli)"
proof -
  note f = first_idx_Some [OF assms(2)]
  show i: "i < length (cli_peers cli)" "holds vip (cli_peers cli ! i)" using f by blast+
  show "\<And>j. j < length (cli_peers cli) \<Longrightarrow> holds vip (cli_peers cli ! j) \<Longrightarrow> j = i"
    using assms(1) i by (intro roster_unique [of "cli_peers cli" _ i vip]) (auto simp: client_inv_def)
  show "vip \<in> dom (known_peers cli)"
    unfolding known_peers_def roster_view_def domIff assms(2) by simp
qed

lemma update_peer_spec:
  assumes inv: "client_inv cli" and eq: "client_update_peer cli vip name online w = (cli', w')"
  shows "client_inv cli'" "w_core w' = w_core w" "\<exists>ps n. cli' = cli\<lparr>cli_peers := ps, cli_peer_count := n\<rparr>"
    "known_peers cli' =
       (if \<not> online then (known_peers cli)(vip := None)
        else if card (insert vip (dom (known_peers cli))) \<le> TUND_MAX_PEERS
        then (known_peers cli)(vip \<mapsto> peer_label name) else known_peers cli)"
proof -
  have "client_inv cli' \<and> w_core w' = w_core w \<and> (\<exists>ps n. cli' = cli\<lparr>cli_peers := ps, cli_peer_count := n\<rparr>) \<and>
     known_peers cli' =
       (if \<not> online then (known_peers cli)(vip := None)
        else if card (insert vip (dom (known_peers cli))) \<le> TUND_MAX_PEERS
        then (known_peers cli)(vip \<mapsto> peer_label name) else known_peers cli)"
  proof (cases "first_idx (holds vip) (cli_peers cli)")
    case (Some i)
    note k = known_Some_idx [OF inv Some]
    let ?p = "cli_peers cli ! i"
    have b: "card (insert vip (dom (known_peers cli))) \<le> 253" using known_bound [OF inv] k(4) by (simp add: insert_absorb)
    show ?thesis
    proof (cases online)
      case True
      have c: "cli' = cli\<lparr>cli_peers := (cli_peers cli)[i := listed vip name (fst (time_now w)) ?p],
          cli_peer_count := cli_peer_count cli + (if peer_active ?p then 0 else 1)\<rparr>" and w: "w' = snd (time_now w)"
        using eq k(2) True unfolding update_peer_eq Some by auto
      have "\<exists>ps n. cli' = cli\<lparr>cli_peers := ps, cli_peer_count := n\<rparr>" using c by blast
      then show ?thesis
        using inv_set [OF inv k(1) _ _ k(3) _ c] k(2) b True w by simp
    next
      case False
      have c: "cli' = cli\<lparr>cli_peers := (cli_peers cli)[i := ?p\<lparr>peer_active := False\<rparr>],
          cli_peer_count := cli_peer_count cli - 1\<rparr>" and w: "w' = w"
        using eq False unfolding update_peer_eq Some by auto
      show ?thesis using inv_clear [OF inv k(1,2) c] w c False by auto
    qed
  next
    case None
    have unk: "known_peers cli vip = None" using None by (simp add: known_peers_def roster_view_def)
    show ?thesis
    proof (cases "online \<and> first_idx (\<lambda>p. \<not> peer_active p) (cli_peers cli) \<noteq> None")
      case True
      then obtain i where i: "first_idx (\<lambda>p. \<not> peer_active p) (cli_peers cli) = Some i" by blast
      note f = first_idx_Some [OF i]
      let ?p = "(cli_peers cli ! i)\<lparr>peer_bytes_in := 0, peer_bytes_out := 0\<rparr>"
      have c: "cli' = cli\<lparr>cli_peers := (cli_peers cli)[i := listed vip name (fst (time_now w)) ?p],
          cli_peer_count := cli_peer_count cli + (if peer_active (cli_peers cli ! i) then 0 else 1)\<rparr>"
        and w: "w' = snd (time_now w)"
        using eq f True unfolding update_peer_eq None i by auto
      have "\<not> holds vip (cli_peers cli ! j)" if "j < length (cli_peers cli)" for j
        using None that first_idx_None_nth by blast
      then show ?thesis
        using inv_set [OF inv _ _ _ _ _ c] f known_full [OF inv unk] True w c by auto
    next
      case False
      then have "cli' = cli" "w' = w" using eq unfolding update_peer_eq None
        by (auto simp del: first_idx_None split: if_splits)
      moreover have "(known_peers cli)(vip := None) = known_peers cli" using unk by (simp add: fun_upd_idem)
      moreover have "\<exists>ps n. cli = cli\<lparr>cli_peers := ps, cli_peer_count := n\<rparr>"
        by (intro exI [of _ "cli_peers cli"] exI [of _ "cli_peer_count cli"]) simp
      moreover have "\<not> card (insert vip (dom (known_peers cli))) \<le> 253" if online
        using known_full [OF inv unk] False that by blast
      ultimately show ?thesis using inv by (cases online) simp_all
    qed
  qed
  then show "client_inv cli'" "w_core w' = w_core w" "\<exists>ps n. cli' = cli\<lparr>cli_peers := ps, cli_peer_count := n\<rparr>"
    "known_peers cli' =
       (if \<not> online then (known_peers cli)(vip := None)
        else if card (insert vip (dom (known_peers cli))) \<le> TUND_MAX_PEERS
        then (known_peers cli)(vip \<mapsto> peer_label name) else known_peers cli)" by blast+
qed

interpretation known: roster TUND_MAX_PEERS "client_inv \<circ> fst" "known_peers \<circ> fst"
  "\<lambda>vip name (cli, w). client_update_peer cli vip name True w"
  "\<lambda>vip (cli, w). client_update_peer cli vip None False w" peer_label
proof unfold_locales
  fix s :: "client_t \<times> world" and vip name
  assume "(client_inv \<circ> fst) s"
  then have inv: "client_inv (fst s)" by simp
  obtain cli w where s: "s = (cli, w)" by fastforce
  obtain c1 w1 where u: "client_update_peer cli vip name True w = (c1, w1)" by fastforce
  obtain c2 w2 where d: "client_update_peer cli vip None False w = (c2, w2)" by fastforce
  note u' = update_peer_spec [OF inv [unfolded s fst_conv] u] and d' = update_peer_spec [OF inv [unfolded s fst_conv] d]
  show "(client_inv \<circ> fst) (case s of (cli, w) \<Rightarrow> client_update_peer cli vip name True w)" using u u'(1) s by simp
  show "(client_inv \<circ> fst) (case s of (cli, w) \<Rightarrow> client_update_peer cli vip None False w)" using d d'(1) s by simp
  show "finite (dom ((known_peers \<circ> fst) s))" by (simp add: known_peers_def)
  show "card (dom ((known_peers \<circ> fst) s)) \<le> 253" using known_bound [OF inv] by simp
  show "(known_peers \<circ> fst) (case s of (cli, w) \<Rightarrow> client_update_peer cli vip name True w) =
      ((known_peers \<circ> fst) s)(vip \<mapsto> peer_label name)" if "card (insert vip (dom ((known_peers \<circ> fst) s))) \<le> 253"
    using that u u'(4) s by simp
  show "(known_peers \<circ> fst) (case s of (cli, w) \<Rightarrow> client_update_peer cli vip name True w) =
      (known_peers \<circ> fst) s" if "253 < card (insert vip (dom ((known_peers \<circ> fst) s)))"
    using that u u'(4) s by simp
  show "(known_peers \<circ> fst) (case s of (cli, w) \<Rightarrow> client_update_peer cli vip None False w) =
      ((known_peers \<circ> fst) s)(vip := None)" using d d'(4) s by simp
qed

end
