(* ===== verification/Client_System.thy ===== *)
theory Client_System
  imports Client_Inv
begin

text \<open>
  The client as a system of threads. The main loop, the keepalive thread and the TUN thread interleave
  at the critical sections on \<open>peers_lock\<close>; the replay window, the time the server was last seen and the
  round-trip time are written by the main thread alone. \<open>client_step\<close> has one rule per critical section
  and per such write.
\<close>

section \<open>The step relation\<close>

inductive client_step :: "client_t \<Rightarrow> client_t \<Rightarrow> bool" where
  step_update: "client_update_peer cli vip name online w = (cli', w') \<Longrightarrow> client_step cli cli'"
| step_leave: "client_leave_locked cli vip = (name, remaining, cli') \<Longrightarrow> client_step cli cli'"
| step_traffic: "client_step cli (client_add_peer_traffic cli vip bytes_in bytes_out)"
| step_broadcast: "client_step cli (client_add_broadcast_traffic cli bytes_out)"
| step_accept: "proto_replay_accept (cli_server_replay cli) q = (ok, win) \<Longrightarrow>
     client_step cli (cli\<lparr>cli_server_replay := win\<rparr>)"
| step_seen: "client_mark_server_seen cli w = (cli', w') \<Longrightarrow> client_step cli cli'"
| step_rtt: "client_step cli (cli\<lparr>cli_server_rtt_ms := rtt, cli_has_server_rtt := has\<rparr>)"
| step_flags: "client_step cli (cli\<lparr>cli_ka_quit := a, cli_tun_quit := b, cli_ka_started := c, cli_tun_started := d\<rparr>)"
| step_closing: "client_step cli (cli\<lparr>cli_tun := dev, cli_sockfd := fd\<rparr>)"

abbreviation client_steps :: "client_t \<Rightarrow> client_t \<Rightarrow> bool" where
  "client_steps \<equiv> client_step\<^sup>*\<^sup>*"

section \<open>What the threads are made of\<close>

locale client_sections =
  fixes R :: "client_t \<Rightarrow> client_t \<Rightarrow> bool"
  assumes refl: "R cli cli"
    and trans: "R cli cli1 \<Longrightarrow> R cli1 cli2 \<Longrightarrow> R cli cli2"
    and update: "client_update_peer cli vip name online w = (cli', w') \<Longrightarrow> R cli cli'"
    and leave: "client_leave_locked cli vip = (left_name, remaining, cli') \<Longrightarrow> R cli cli'"
    and traffic: "R cli (client_add_peer_traffic cli vip bytes_in bytes_out)"
    and broadcast: "R cli (client_add_broadcast_traffic cli bytes_out)"
    and accept: "proto_replay_accept (cli_server_replay cli) q = (ok, win) \<Longrightarrow> R cli (cli\<lparr>cli_server_replay := win\<rparr>)"
    and seen: "client_mark_server_seen cli w = (cli', w') \<Longrightarrow> R cli cli'"
    and rtt: "R cli (cli\<lparr>cli_server_rtt_ms := ms, cli_has_server_rtt := has\<rparr>)"
begin

lemma peer_list_loop: "client_peer_list_loop k i payload plen cli w = (cli', w') \<Longrightarrow> R cli cli'"
proof (induction k arbitrary: i cli w)
  case (Suc k)
  show ?case
  proof (cases "proto_read_peer_entry payload plen (int i)")
    case None
    then show ?thesis using Suc.prems by (simp add: refl)
  next
    case (Some e)
    obtain vip name online where e: "e = (vip, name, online)" by (metis prod_cases3)
    obtain cli1 w1 where u: "client_update_peer cli vip (Some name) online w = (cli1, w1)" by fastforce
    then have "client_peer_list_loop k (i + 1) payload plen cli1 w1 = (cli', w')" using Suc.prems Some e by simp
    from trans [OF update [OF u] Suc.IH [OF this]] show ?thesis .
  qed
qed (simp add: refl)

lemma handle_peer_list: "client_handle_peer_list cli payload plen w = (cli', w') \<Longrightarrow> R cli cli'"
  using peer_list_loop by (auto simp: client_handle_peer_list_def Let_def split: prod.splits)

lemma handle_peer_join: "client_handle_peer_join cli payload plen w = (cli', w') \<Longrightarrow> R cli cli'"
  using refl update by (auto simp: client_handle_peer_join_def Let_def split: prod.splits if_splits)

lemma handle_peer_leave: "client_handle_peer_leave cli payload plen w = (cli', w') \<Longrightarrow> R cli cli'"
  using refl leave by (auto simp: client_handle_peer_leave_def Let_def split: prod.splits if_splits)

lemma handle_keepalive_ack: "client_handle_keepalive_ack cli payload plen w = (cli', w') \<Longrightarrow> R cli cli'"
  using refl rtt by (auto simp: client_handle_keepalive_ack_def Let_def split: prod.splits if_splits option.splits)

lemma dispatch:
  assumes "client_dispatch cli type payload plen w = (cli', w')" shows "R cli cli'"
proof -
  have "(cli', w') = client_dispatch cli type payload plen w" using assms by simp
  then show ?thesis
    using handle_peer_list handle_peer_join handle_peer_leave handle_keepalive_ack traffic refl
    unfolding client_dispatch_def by (auto simp: Let_def split: if_splits dest: sym)
qed

lemma handle_server_packet:
  assumes "client_handle_server_packet cli buf len w = (cli', w')" shows "R cli cli'"
proof (cases "\<exists>t l q. proto_read_hdr buf = Inr (t, l) \<and> 37 + uint l \<le> len \<and> proto_read_sequence buf = Some q")
  case True
  then obtain t l q where hdr: "proto_read_hdr buf = Inr (t, l)" "37 + uint l \<le> len" "proto_read_sequence buf = Some q"
    by blast
  obtain ok win where a: "proto_replay_accept (cli_server_replay cli) q = (ok, win)" by fastforce
  obtain cli1 w1 where s: "client_mark_server_seen (cli\<lparr>cli_server_replay := win\<rparr>) w = (cli1, w1)" by fastforce
  obtain cli2 w2 where d: "client_dispatch cli1 t (drop 37 buf) l w1 = (cli2, w2)" by fastforce
  have "cli' = (if ok then cli2 else cli\<lparr>cli_server_replay := win\<rparr>)"
    using assms hdr a s d by (auto simp: client_handle_server_packet_def Let_def)
  then show ?thesis using accept [OF a] trans [OF trans [OF accept [OF a] seen [OF s]] dispatch [OF d]] by simp
next
  case False
  then have "cli' = cli"
    using assms by (force simp: client_handle_server_packet_def Let_def split: sum.splits option.splits if_splits)
  then show ?thesis by (simp add: refl)
qed

lemma run_iter:
  assumes "client_run_iter l cli w = (go, l', cli', w')" shows "R cli cli'"
  using assms handle_server_packet refl
  by (auto simp: client_run_iter_def Let_def split: if_splits prod.splits)

lemma run_loop: "client_run_loop fuel l cli w = Some (cli', w') \<Longrightarrow> R cli cli'"
proof (induction fuel arbitrary: l cli w)
  case (Suc fuel)
  obtain go l1 cli1 w1 where i: "client_run_iter l cli w = (go, l1, cli1, w1)" by (metis prod_cases4)
  note s = run_iter [OF i]
  show ?case
  proof (cases go)
    case True
    then show ?thesis using Suc i trans [OF s] by auto
  qed (use Suc i s in auto)
qed simp

lemma tun_packet: "client_tun_packet cli pkt n w = (cli', w') \<Longrightarrow> R cli cli'"
  using refl traffic broadcast by (auto simp: client_tun_packet_def Let_def split: if_splits prod.splits)

lemma tun_iter: "client_tun_iter cli w = (go, cli', w') \<Longrightarrow> R cli cli'"
  using refl tun_packet by (auto simp: client_tun_iter_def Let_def split: if_splits prod.splits)

end

interpretation client_steps: client_sections client_steps
  by unfold_locales (auto intro: r_into_rtranclp [of client_step] client_step.intros rtranclp_trans)

section \<open>The invariant along the steps\<close>

lemma traffic_spec:
  "client_inv cli \<Longrightarrow> client_inv (client_add_peer_traffic cli vip a b)"
  "known_peers (client_add_peer_traffic cli vip a b) = known_peers cli"
  "cli_server_replay (client_add_peer_traffic cli vip a b) = cli_server_replay cli"
proof -
  let ?c = "client_add_peer_traffic cli vip a b"
  have len: "length (cli_peers ?c) = length (cli_peers cli)"
    by (simp add: client_add_peer_traffic_def Let_def split: option.splits)
  have same: "peer_active (cli_peers ?c ! i) = peer_active (cli_peers cli ! i) \<and>
      peer_virt_ip (cli_peers ?c ! i) = peer_virt_ip (cli_peers cli ! i) \<and>
      peer_name (cli_peers ?c ! i) = peer_name (cli_peers cli ! i)" if "i < length (cli_peers cli)" for i
  proof (cases "first_idx (holds vip) (cli_peers cli)")
    case (Some j)
    then show ?thesis using that by (cases "i = j") (simp_all add: client_add_peer_traffic_def Let_def)
  qed (simp only: client_add_peer_traffic_def option.case)
  have rest: "cli_peer_count ?c = cli_peer_count cli" "cli_server_replay ?c = cli_server_replay cli"
    by (simp_all add: client_add_peer_traffic_def Let_def split: option.splits)
  note r = roster_same [OF len same]
  show "client_inv cli \<Longrightarrow> client_inv ?c" using r(1,3) len rest by (simp add: client_inv_def)
  show "known_peers ?c = known_peers cli" using r(2) by (simp add: known_peers_def)
  show "cli_server_replay ?c = cli_server_replay cli" by (rule rest)
qed

lemma broadcast_spec:
  "client_inv cli \<Longrightarrow> client_inv (client_add_broadcast_traffic cli a)"
  "known_peers (client_add_broadcast_traffic cli a) = known_peers cli"
  "cli_server_replay (client_add_broadcast_traffic cli a) = cli_server_replay cli"
proof -
  let ?c = "client_add_broadcast_traffic cli a"
  have len: "length (cli_peers ?c) = length (cli_peers cli)"
    and rest: "cli_peer_count ?c = cli_peer_count cli" "cli_server_replay ?c = cli_server_replay cli"
    by (simp_all add: client_add_broadcast_traffic_def)
  have same: "peer_active (cli_peers ?c ! i) = peer_active (cli_peers cli ! i) \<and>
      peer_virt_ip (cli_peers ?c ! i) = peer_virt_ip (cli_peers cli ! i) \<and>
      peer_name (cli_peers ?c ! i) = peer_name (cli_peers cli ! i)" if "i < length (cli_peers cli)" for i
    using that by (simp add: client_add_broadcast_traffic_def)
  note r = roster_same [OF len same]
  show "client_inv cli \<Longrightarrow> client_inv ?c" using r(1,3) len rest by (simp add: client_inv_def)
  show "known_peers ?c = known_peers cli" using r(2) by (simp add: known_peers_def)
  show "cli_server_replay ?c = cli_server_replay cli" by (rule rest)
qed

text \<open>Leaving is the removal from the roster.\<close>

lemma leave_locked_update:
  "client_leave_locked cli vip = (left_name, remaining, cli') \<Longrightarrow> client_update_peer cli vip None False w = (cli', w)"
  by (auto simp: client_leave_locked_def update_peer_eq Let_def simp del: first_idx_None split: option.splits)

lemma mark_seen_spec:
  assumes "client_mark_server_seen cli w = (cli', w')"
  shows "\<exists>t. cli' = cli\<lparr>cli_last_server_seen := t\<rparr>" "w_core w' = w_core w"
proof -
  have "cli' = cli \<or> cli' = cli\<lparr>cli_last_server_seen := of_int (fst (time_now w))\<rparr>" "w' = snd (time_now w)"
    using assms by (auto simp: client_mark_server_seen_def Let_def case_prod_beta split: if_splits)
  moreover have "cli = cli\<lparr>cli_last_server_seen := cli_last_server_seen cli\<rparr>" by simp
  ultimately show "\<exists>t. cli' = cli\<lparr>cli_last_server_seen := t\<rparr>" "w_core w' = w_core w" by (metis, simp)
qed

lemma client_inv_fields [simp]:
  "client_inv (cli\<lparr>cli_last_server_seen := t\<rparr>) = client_inv cli"
  "client_inv (cli\<lparr>cli_server_rtt_ms := x, cli_has_server_rtt := b\<rparr>) = client_inv cli"
  "client_inv (cli\<lparr>cli_ka_quit := b1, cli_tun_quit := b2, cli_ka_started := b3, cli_tun_started := b4\<rparr>) = client_inv cli"
  "client_inv (cli\<lparr>cli_tun := dev, cli_sockfd := fd\<rparr>) = client_inv cli"
  by (simp_all add: client_inv_def)

lemma client_inv_accept:
  "client_inv cli \<Longrightarrow> proto_replay_accept (cli_server_replay cli) q = (ok, win) \<Longrightarrow> client_inv (cli\<lparr>cli_server_replay := win\<rparr>)"
  using replay_accept_spec(1) [of "cli_server_replay cli"] unfolding client_inv_def by auto blast

lemma client_step_inv [wf_intros]: "client_step cli cli' \<Longrightarrow> client_inv cli \<Longrightarrow> client_inv cli'"
proof (induction rule: client_step.induct)
  case (step_update cli vip name online w cli' w')
  then show ?case by (blast intro: update_peer_spec(1))
next
  case (step_leave cli vip name remaining cli')
  then show ?case by (blast intro: update_peer_spec(1) leave_locked_update)
next
  case (step_seen cli w cli' w')
  then show ?case using mark_seen_spec(1) by force
qed (simp_all add: traffic_spec broadcast_spec client_inv_accept)

lemma client_steps_inv: "client_steps cli cli' \<Longrightarrow> client_inv cli \<Longrightarrow> client_inv cli'"
  by (induction rule: rtranclp_induct) (auto intro: client_step_inv)

text \<open>The window only moves on: a sequence number that is refused stays refused.\<close>

definition client_refuses :: "client_t \<Rightarrow> u64 \<Rightarrow> bool" where
  "client_refuses cli q \<longleftrightarrow> \<not> fst (proto_replay_accept (cli_server_replay cli) q)"

lemma refuses_step:
  assumes "client_step cli cli'" "client_inv cli" "client_refuses cli q"
  shows "client_refuses cli' q"
proof -
  have same: "client_refuses cli' q" if "cli_server_replay cli' = cli_server_replay cli"
    using assms(3) that by (simp add: client_refuses_def)
  show ?thesis using assms(1)
  proof cases
    case (step_update vip name online w w')
    then show ?thesis using same update_peer_spec(3) [OF assms(2)] by force
  next
    case (step_leave vip name remaining)
    then show ?thesis using same update_peer_spec(3) [OF assms(2) leave_locked_update [OF step_leave]] by force
  next
    case (step_accept q' ok win)
    obtain A where A: "replay_repr (cli_server_replay cli) A" using assms(2) by (auto simp: client_inv_def)
    have "replay_repr win (if ok then insert q' A else A)" by (rule replay_accept_spec(1) [OF A step_accept(2)])
    moreover have "A \<subseteq> (if ok then insert q' A else A)" by auto
    ultimately show ?thesis
      using window.refused_mono [OF A, of win _ q] assms(3) step_accept(1) by (simp add: client_refuses_def)
  next
    case (step_seen w w')
    then show ?thesis using same mark_seen_spec(1) [OF step_seen] by force
  qed (use same traffic_spec(3) broadcast_spec(3) in simp_all)
qed

lemma refuses_steps:
  assumes "client_steps cli cli'" "client_inv cli" "client_refuses cli q"
  shows "client_refuses cli' q"
  using assms(1)
proof (induction rule: rtranclp_induct)
  case (step cli1 cli2)
  from client_steps_inv [OF step(1) assms(2)] refuses_step [OF step(2)] step(3) show ?case by blast
qed (rule assms(3))

text \<open>A packet whose number is refused has no effect but a line in the log.\<close>

lemma refused_ignored:
  assumes "client_refuses cli q" "client_inv cli" "proto_read_sequence buf = Some q"
    "client_handle_server_packet cli buf len w = (cli', w')"
  shows "cli' = cli" "w_core w' = w_core w"
proof -
  obtain A where A: "replay_repr (cli_server_replay cli) A" using assms(2) by (auto simp: client_inv_def)
  obtain ok win where a: "proto_replay_accept (cli_server_replay cli) q = (ok, win)" by fastforce
  have "ok = False" using assms(1) a by (simp add: client_refuses_def)
  moreover have "win = cli_server_replay cli" using a \<open>ok = False\<close>
    by (auto simp: proto_replay_accept_def Let_def split: if_splits)
  moreover have "cli\<lparr>cli_server_replay := cli_server_replay cli\<rparr> = cli" by simp
  ultimately show "cli' = cli" "w_core w' = w_core w"
    using assms(3,4) a by (auto simp: client_handle_server_packet_def Let_def split: sum.splits if_splits prod.splits)
qed

end
