(* ===== verification/Client_Register.thy ===== *)
theory Client_Register
  imports Client_System
begin

text \<open>
  What registration does in every environment: the client's own state changes only in its replay
  window and its addresses, at most three requests leave, all of them to the server, and success means
  that an authentic assignment came from the server's address.
\<close>

lemma opened_hdr:
  assumes "take (37 + length p) buf = opened t s n p" "length n = 24"
  shows "proto_read_hdr buf = Inr (t, of_nat (length p))" "drop 37 buf = p @ drop (37 + length p) buf"
proof -
  have b: "buf = hdr_of t (of_nat (length p)) s n @ p @ drop (37 + length p) buf"
    using assms(1) append_take_drop_id [of "37 + length p" buf] by (simp add: opened_def)
  show "proto_read_hdr buf = Inr (t, of_nat (length p))" by (subst b) simp
  show "drop 37 buf = p @ drop (37 + length p) buf" by (subst b) (simp add: assms(2))
qed

section \<open>One reply\<close>

lemma register_reply_frame:
  assumes "client_register_reply cli buf n f w = (registered, f', cli', w')"
  shows "\<exists>win vip netmask. cli' = cli\<lparr>cli_server_replay := win, cli_virt_ip := vip, cli_netmask := netmask\<rparr>"
    "w_core w' = w_core w" "client_inv cli \<Longrightarrow> client_inv cli'" "\<not> registered \<Longrightarrow> cli_virt_ip cli' = cli_virt_ip cli"
proof -
  have id: "cli = cli\<lparr>cli_server_replay := cli_server_replay cli, cli_virt_ip := cli_virt_ip cli, cli_netmask := cli_netmask cli\<rparr>"
    by simp
  have repl: "cli\<lparr>cli_server_replay := win\<rparr> =
      cli\<lparr>cli_server_replay := win, cli_virt_ip := cli_virt_ip cli, cli_netmask := cli_netmask cli\<rparr>" for win
    by simp
  have "(\<exists>win vip netmask. cli' = cli\<lparr>cli_server_replay := win, cli_virt_ip := vip, cli_netmask := netmask\<rparr> \<and>
      (win = cli_server_replay cli \<or> (\<exists>q ok. proto_replay_accept (cli_server_replay cli) q = (ok, win))) \<and>
      (\<not> registered \<longrightarrow> vip = cli_virt_ip cli)) \<and> w_core w' = w_core w"
  proof (cases "\<exists>t l q. proto_read_hdr buf = Inr (t, l) \<and> \<not> n < int TUND_HDR_SIZE + uint l \<and> proto_read_sequence buf = Some q")
    case True
    then obtain t l q where hdr: "proto_read_hdr buf = Inr (t, l)" "\<not> n < int TUND_HDR_SIZE + uint l" "proto_read_sequence buf = Some q"
      by blast
    obtain ok win where a: "proto_replay_accept (cli_server_replay cli) q = (ok, win)" by fastforce
    have "cli' = cli\<lparr>cli_server_replay := win\<rparr> \<and> \<not> registered \<or>
        registered \<and> (\<exists>vip netmask. cli' = cli\<lparr>cli_server_replay := win, cli_virt_ip := vip, cli_netmask := netmask\<rparr>)"
      and "w_core w' = w_core w"
      using assms hdr a
      by (auto simp: client_register_reply_def handle_assign_def Let_def split: if_splits)
    then show ?thesis using a repl by metis
  next
    case False
    then have "cli' = cli \<and> w_core w' = w_core w \<and> \<not> registered" using assms
      by (auto simp: client_register_reply_def Let_def split: sum.splits if_splits option.splits prod.splits)
    then show ?thesis using id by metis
  qed
  then obtain win vip netmask where c: "cli' = cli\<lparr>cli_server_replay := win, cli_virt_ip := vip, cli_netmask := netmask\<rparr>"
      "win = cli_server_replay cli \<or> (\<exists>q ok. proto_replay_accept (cli_server_replay cli) q = (ok, win))"
      "\<not> registered \<longrightarrow> vip = cli_virt_ip cli" "w_core w' = w_core w"
    by blast
  show "\<exists>win vip netmask. cli' = cli\<lparr>cli_server_replay := win, cli_virt_ip := vip, cli_netmask := netmask\<rparr>"
    "w_core w' = w_core w" "\<not> registered \<Longrightarrow> cli_virt_ip cli' = cli_virt_ip cli" using c by auto
  show "client_inv cli'" if inv: "client_inv cli"
  proof -
    obtain A where A: "replay_repr (cli_server_replay cli) A" using inv by (auto simp: client_inv_def)
    then have "\<exists>B. replay_repr win B" using c(2) replay_accept_spec(1) [OF A] by blast
    then show ?thesis using inv by (simp add: client_inv_def c(1))
  qed
qed

text \<open>A reply completes the registration only if it is an assignment; its fields are taken over.\<close>

lemma register_reply_done:
  assumes "client_register_reply cli buf (int (37 + length p)) f w = (True, f', cli', w')"
    and "take (37 + length p) buf = opened t s n p" "length n = 24" "length p \<le> 1600"
  shows "t = MSG_ASSIGN" "10 \<le> length p" "cli_virt_ip cli' = u32_of_mem (slice 0 4 p)"
    "cli_netmask cli' = u32_of_mem (slice 4 4 p)"
proof -
  note h = opened_hdr [OF assms(2,3)]
  have u: "unat (of_nat (length p) :: u16) = length p" using assms(4) by (intro unat_of_nat_u16) simp
  obtain q where q: "proto_read_sequence buf = Some q" using assms(1) h(1)
    by (auto simp: client_register_reply_def Let_def split: if_splits option.splits)
  obtain ok win where a: "proto_replay_accept (cli_server_replay cli) q = (ok, win)" by fastforce
  have l: "t = 2 \<and> \<not> (of_nat (length p) :: u16) < 10 \<and>
      cli' = cli\<lparr>cli_server_replay := win, cli_virt_ip := u32_of_mem (slice 0 4 (drop 37 buf)),
             cli_netmask := u32_of_mem (slice 4 4 (drop 37 buf))\<rparr>"
    using assms(1) h(1) q a
    by (auto simp: client_register_reply_def handle_assign_def Let_def split: if_splits)
  then show t: "t = MSG_ASSIGN" and p10: "10 \<le> length p" using u by (auto simp: word_less_nat_alt)
  show "cli_virt_ip cli' = u32_of_mem (slice 0 4 p)" "cli_netmask cli' = u32_of_mem (slice 4 4 p)"
    using l p10 by (simp_all add: h(2) slice_def)
qed

section \<open>All attempts\<close>

text \<open>An authentic assignment from the server's address, as the kernel delivers it at some tick.\<close>

definition assignment_arrives :: "world \<Rightarrow> sockaddr_in \<Rightarrow> u32 \<Rightarrow> u32 \<Rightarrow> bool" where
  "assignment_arrives w server vip netmask \<longleftrightarrow>
     (\<exists>tick d src s n p. sys_recvfrom (w_env w) tick = RecvData d src \<and> net_addr_equal src server \<and>
        take TUND_MAX_PKT d = sealed (g_crypto_key w) MSG_ASSIGN s n p \<and> length n = TUND_NONCE_SIZE \<and> 10 \<le> length p \<and>
        vip = u32_of_mem (slice 0 4 p) \<and> netmask = u32_of_mem (slice 4 4 p))"

lemma assignment_arrivesI:
  assumes "sys_recvfrom (w_env w) tick = RecvData d src" "net_addr_equal src server"
    "take TUND_MAX_PKT d = sealed (g_crypto_key w) MSG_ASSIGN s n p" "length n = TUND_NONCE_SIZE" "10 \<le> length p"
  shows "assignment_arrives w server (u32_of_mem (slice 0 4 p)) (u32_of_mem (slice 4 4 p))"
  unfolding assignment_arrives_def using assms by blast

lemma assignment_arrives_cong:
  "w_env w = w_env v \<Longrightarrow> g_crypto_key w = g_crypto_key v \<Longrightarrow>
   assignment_arrives w a vip m = assignment_arrives v a vip m"
  by (simp add: assignment_arrives_def)

text \<open>What one request sends.\<close>

lemma register_request:
  assumes "proto_build_register buf name w = (len, buf1, w1)" "net_send buf1 len addr w1 = (r, w2)"
    and "length buf = TUND_MAX_PKT" "c_strlen name < 65536"
  shows "w_keep w2 = w_keep w" "length buf1 = TUND_MAX_PKT" "r = 0 \<or> r = -1"
    "\<exists>ds. w_sent w2 = w_sent w @ ds \<and> length ds \<le> 1 \<and> (\<forall>d \<in> set ds. snd d = addr)"
    "net_ok w \<Longrightarrow> sends w w2 [(MSG_REGISTER, take 32 (c_str name), addr)] [] \<and> r = 0"
proof -
  have b: "built 1 (take 32 (c_str name)) buf w (len, buf1, w1)"
    using built_register [of buf name w] assms(1,3,4) by simp
  note br = built_ready [OF b]
  have ready: "ready 1 (take 32 (c_str name)) buf1 len" and app: "w_app w1 = w_app w" and l: "length buf1 = length buf"
    using br assms(3) by auto
  note ns = net_send_ready [OF ready assms(2)]
  show "w_keep w2 = w_keep w" using ns(1) w_keep_app [OF app] by simp
  show "length buf1 = TUND_MAX_PKT" "r = 0 \<or> r = -1" using l assms(3) ns(4) by auto
  show "\<exists>ds. w_sent w2 = w_sent w @ ds \<and> length ds \<le> 1 \<and> (\<forall>d \<in> set ds. snd d = addr)"
    using ns(5) w_app_cong [OF app] by simp
  show "sends w w2 [(MSG_REGISTER, take 32 (c_str name), addr)] [] \<and> r = 0" if "net_ok w"
  proof -
    note sb = sends_built [OF sends_refl [THEN iffD2, OF that] b]
    have s: "sends w w1 [] []" "ready 1 (take 32 (c_str name)) buf1 len" "len \<noteq> -1" using sb assms(3) by auto
    show ?thesis using sends_net_send [OF s assms(2)] by simp
  qed
qed

text \<open>The outcome of up to \<open>left\<close> attempts.\<close>

definition registers :: "nat \<Rightarrow> client_t \<Rightarrow> world \<Rightarrow> int \<Rightarrow> client_t \<Rightarrow> world \<Rightarrow> bool" where
  "registers left cli w r cli' w' \<longleftrightarrow>
     (r = 0 \<or> r = -1) \<and> w_keep w' = w_keep w \<and> (client_inv cli \<longrightarrow> client_inv cli') \<and>
     (\<exists>win vip netmask. cli' = cli\<lparr>cli_server_replay := win, cli_virt_ip := vip, cli_netmask := netmask\<rparr>) \<and>
     (\<exists>ds. w_sent w' = w_sent w @ ds \<and> length ds \<le> left \<and> (\<forall>d \<in> set ds. snd d = cli_server_addr cli)) \<and>
     (r = 0 \<longrightarrow> assignment_arrives w (cli_server_addr cli) (cli_virt_ip cli') (cli_netmask cli')) \<and>
     (r = -1 \<longrightarrow> cli_virt_ip cli' = cli_virt_ip cli)"

lemma registers_fail: "w_core w' = w_core w \<Longrightarrow> registers left cli w (-1) cli w'"
proof -
  assume w: "w_core w' = w_core w"
  have "cli = cli\<lparr>cli_server_replay := cli_server_replay cli, cli_virt_ip := cli_virt_ip cli, cli_netmask := cli_netmask cli\<rparr>"
    by simp
  then have "\<exists>win vip netmask. cli = cli\<lparr>cli_server_replay := win, cli_virt_ip := vip, cli_netmask := netmask\<rparr>" by blast
  then show ?thesis
    using w_keep_app [OF w_app_core [OF w]] w_core_cong(11) [OF w] by (simp add: registers_def)
qed

text \<open>One attempt that failed, then the others.\<close>

lemma registers_retry:
  assumes "w_keep w1 = w_keep w" "client_inv cli \<Longrightarrow> client_inv cli1"
    and "\<exists>win vip netmask. cli1 = cli\<lparr>cli_server_replay := win, cli_virt_ip := vip, cli_netmask := netmask\<rparr>"
    and "\<exists>ds. w_sent w1 = w_sent w @ ds \<and> length ds \<le> 1 \<and> (\<forall>d \<in> set ds. snd d = cli_server_addr cli)"
    and "cli_virt_ip cli1 = cli_virt_ip cli" "registers left cli1 w1 r cli' w'"
  shows "registers (Suc left) cli w r cli' w'"
proof -
  obtain win vip netmask where c: "cli1 = cli\<lparr>cli_server_replay := win, cli_virt_ip := vip, cli_netmask := netmask\<rparr>"
    using assms(3) by blast
  obtain ds where ds: "w_sent w1 = w_sent w @ ds" "length ds \<le> 1" "\<forall>d \<in> set ds. snd d = cli_server_addr cli"
    using assms(4) by blast
  obtain es where es: "w_sent w' = w_sent w1 @ es" "length es \<le> left" "\<forall>d \<in> set es. snd d = cli_server_addr cli1"
    using assms(6) by (auto simp: registers_def)
  have "length (ds @ es) \<le> Suc left" "\<forall>d \<in> set (ds @ es). snd d = cli_server_addr cli" "w_sent w' = w_sent w @ (ds @ es)"
    using ds es c by auto
  then have d: "\<exists>ds. w_sent w' = w_sent w @ ds \<and> length ds \<le> Suc left \<and> (\<forall>d \<in> set ds. snd d = cli_server_addr cli)" by blast
  have a: "assignment_arrives w1 a v m = assignment_arrives w a v m" for a v m
    using w_keep_cong [OF assms(1)] by (intro assignment_arrives_cong)
  obtain win' vip' netmask' where "cli' = cli1\<lparr>cli_server_replay := win', cli_virt_ip := vip', cli_netmask := netmask'\<rparr>"
    using assms(6) by (auto simp: registers_def)
  then have "\<exists>win vip netmask. cli' = cli\<lparr>cli_server_replay := win, cli_virt_ip := vip, cli_netmask := netmask\<rparr>"
    using c by auto
  moreover have "cli_server_addr cli1 = cli_server_addr cli" using c by simp
  ultimately show ?thesis using assms(1,2,5,6) d a unfolding registers_def by simp
qed

lemma registered_reply:
  assumes "net_recv buf1 from w3 = (n, buf2, src, w4)" "0 < n" "net_addr_equal src server"
    and "client_register_reply cli buf2 n f w4 = (True, g, cli1, w5)" "length buf1 = 1653"
    and "w_env w3 = w_env w" "g_crypto_key w3 = g_crypto_key w"
  shows "assignment_arrives w server (cli_virt_ip cli1) (cli_netmask cli1)"
proof -
  from assms(1,2) obtain d t q nonce pl where acc: "sys_recvfrom (w_env w3) (w_tick w3) = RecvData d src"
    "take (length buf1) d = sealed (g_crypto_key w3) t q nonce pl" "length nonce = 24" "length pl \<le> 1600"
    "n = int (37 + length pl)" "take (37 + length pl) buf2 = opened t q nonce pl"
    by (rule net_recv_accept) blast
  have "client_register_reply cli buf2 (int (37 + length pl)) f w4 = (True, g, cli1, w5)" using assms(4) acc(5) by simp
  note rd = register_reply_done [OF this acc(6,3,4)]
  show ?thesis using acc(1-3) assms(3,5-7) rd by (simp add: assignment_arrivesI)
qed

lemma register_loop_registers:
  assumes "client_register_loop left buf from f cli w = (r, cli', w')" "length buf = TUND_MAX_PKT"
    and "c_strlen (cli_name cli) < 65536"
  shows "registers left cli w r cli' w'"
  using assms
proof (induction left arbitrary: buf "from" f cli w)
  case 0
  then show ?case by (auto simp: log_registration_failure_def intro!: registers_fail)
next
  case (Suc left)
  define w0 where "w0 = LOG_INFO (lit ''Registering with server (attempt '' @ fmt_u (TUND_REGISTER_RETRIES - left) @ lit ''/'' @
    fmt_u TUND_REGISTER_RETRIES @ lit '')...'') w"
  obtain len buf1 w1 where b: "proto_build_register buf (cli_name cli) w0 = (len, buf1, w1)" by (metis prod_cases3)
  obtain r1 w2 where s: "net_send buf1 len (cli_server_addr cli) w1 = (r1, w2)" by fastforce
  note rq = register_request [OF b s Suc.prems(2,3)]
  have k2: "w_keep w2 = w_keep w" "\<exists>ds. w_sent w2 = w_sent w @ ds \<and> length ds \<le> 1 \<and> (\<forall>d \<in> set ds. snd d = cli_server_addr cli)"
    using rq(1,4) by (simp_all add: w0_def)
  obtain ret w3 where p: "platform_poll_one w2 = (ret, w3)" by fastforce
  have c3: "w_core w3 = w_core w2" using p w_core_syscall [of sys_poll w2] by (simp add: platform_poll_one_def)
  obtain n buf2 src w4 where rc: "net_recv buf1 from w3 = (n, buf2, src, w4)" by (metis prod_cases4)
  have c4: "w_core w4 = w_core w2" using net_recv_core [OF rc] c3 by simp
  have l2: "length buf2 = 1653" using net_recv_length [OF rc] rq(2) by simp
  have keep: "w_keep v = w_keep w \<and> (\<exists>ds. w_sent v = w_sent w @ ds \<and> length ds \<le> 1 \<and> (\<forall>d \<in> set ds. snd d = cli_server_addr cli))"
    if "w_core v = w_core w2" for v
    using k2 w_keep_app [OF w_app_core [OF that]] w_core_cong(11) [OF that] by simp
  have id: "\<exists>win vip netmask. cli = cli\<lparr>cli_server_replay := win, cli_virt_ip := vip, cli_netmask := netmask\<rparr>"
    by (intro exI [of _ "cli_server_replay cli"] exI [of _ "cli_virt_ip cli"] exI [of _ "cli_netmask cli"]) simp
  have fail: "registers (Suc left) cli w (-1) cli v" if "w_core v = w_core w2" for v
    using registers_retry [OF _ _ id _ _ registers_fail [OF refl]] keep [OF that] by blast
  have retry: "registers (Suc left) cli w r cli' w'"
    if "w_core v = w_core w2" "client_register_loop left b fr g cli v = (r, cli', w')" "length b = 1653" for v b fr g
    using registers_retry [OF _ _ id _ _ Suc.IH [OF that(2,3) Suc.prems(3)]] keep [OF that(1)] by blast
  consider (send) "r1 < 0" | (poll) "\<not> r1 < 0" "ret < 0" | (quiet) "\<not> r1 < 0" "ret = 0"
    | (ignored) "\<not> r1 < 0" "0 < ret" "n \<le> 0 \<or> \<not> net_addr_equal src (cli_server_addr cli)"
    | (reply) "\<not> r1 < 0" "0 < ret" "0 < n" "net_addr_equal src (cli_server_addr cli)" by linarith
  then show ?case
  proof cases
    case send
    then show ?thesis using Suc.prems(1) b s fail [of w2] by (auto simp: w0_def Let_def)
  next
    case poll
    then show ?thesis using Suc.prems(1) b s p c3 fail
      by (auto simp: w0_def Let_def case_prod_beta)
  next
    case quiet
    then have "client_register_loop left buf1 from f cli (LOG_WARN (lit ''No response from server; check the IP, port, firewall, and that the server '' @
        lit ''is running.'') w3) = (r, cli', w')"
      using Suc.prems(1) b s p by (simp add: w0_def Let_def)
    then show ?thesis using c3 rq(2) by (intro retry) simp_all
  next
    case ignored
    then have "\<exists>v g. client_register_loop left buf2 src g cli v = (r, cli', w') \<and> w_core v = w_core w4"
      using Suc.prems(1) b s p rc by (auto simp: w0_def Let_def split: if_splits)
    then show ?thesis using c4 l2 by (metis retry)
  next
    case reply
    obtain registered g cli1 w5 where rp: "client_register_reply cli buf2 n f w4 = (registered, g, cli1, w5)" by (metis prod_cases4)
    note fr = register_reply_frame [OF rp]
    have res: "(r, cli', w') = (if registered then (0, cli1, w5) else client_register_loop left buf2 src g cli1 w5)"
      using Suc.prems(1) b s p rc reply rp by (auto simp: w0_def Let_def)
    have c5: "w_core w5 = w_core w2" using fr(2) c4 by simp
    show ?thesis
    proof (cases registered)
      case False
      then have "registers left cli1 w5 r cli' w'"
        using Suc.IH [of buf2 src g cli1 w5] res l2 Suc.prems(3) fr(1) by auto
      then show ?thesis
        using registers_retry [OF _ fr(3) fr(1) _ fr(4)] keep [OF c5] False by blast
    next
      case True
      have "assignment_arrives w (cli_server_addr cli) (cli_virt_ip cli1) (cli_netmask cli1)"
        using registered_reply [OF rc reply(3,4)] rp True rq(2) w_keep_cong [OF conjunct1 [OF keep [OF c3]]] by simp
      then show ?thesis
        using res True fr keep [OF c5] unfolding registers_def by auto
    qed
  qed
qed

text \<open>The first authentic assignment that arrives completes the registration.\<close>

lemma register_succeeds:
  assumes "net_ok w" "length buf = TUND_MAX_PKT" "c_strlen (cli_name cli) < 65536"
    and "\<And>t. 0 < sys_poll (w_env w) t" "\<And>t. sys_recvfrom (w_env w) t = RecvData (sealed (g_crypto_key w) MSG_ASSIGN s n p) src"
    and "net_addr_equal src (cli_server_addr cli)" "length n = TUND_NONCE_SIZE" "10 \<le> length p" "length p \<le> 1600" "s \<noteq> 0"
    and "fst (proto_replay_accept (cli_server_replay cli) s)"
  shows "\<exists>cli' w'. client_register buf from cli w = (0, cli', w') \<and>
    cli_virt_ip cli' = u32_of_mem (slice 0 4 p) \<and> cli_netmask cli' = u32_of_mem (slice 4 4 p)"
proof -
  define w0 where "w0 = LOG_INFO (lit ''Registering with server (attempt '' @ fmt_u (TUND_REGISTER_RETRIES - 2) @ lit ''/'' @
    fmt_u TUND_REGISTER_RETRIES @ lit '')...'') w"
  obtain len buf1 w1 where b: "proto_build_register buf (cli_name cli) w0 = (len, buf1, w1)" by (metis prod_cases3)
  obtain r1 w2 where sd: "net_send buf1 len (cli_server_addr cli) w1 = (r1, w2)" by fastforce
  note rq = register_request [OF b sd assms(2,3)]
  have w2: "w_env w2 = w_env w" "g_crypto_key w2 = g_crypto_key w" "r1 = 0"
    using w_keep_cong [OF rq(1)] rq(5) assms(1) by (simp_all add: w0_def)
  obtain ret w3 where pl: "platform_poll_one w2 = (ret, w3)" by fastforce
  have w3: "0 < ret" "w_env w3 = w_env w" "g_crypto_key w3 = g_crypto_key w"
    using pl assms(4) w2 by (auto simp: platform_poll_one_def syscall_def)
  obtain buf2 w4 where rc: "net_recv buf1 from w3 = (int (37 + length p), buf2, src, w4)"
      "take (37 + length p) buf2 = opened MSG_ASSIGN s n p"
    using net_recv_sealed [of w3 MSG_ASSIGN s n p src buf1 "from"] assms(5,7,9) w3 rq(2) by auto
  note h = opened_hdr [OF rc(2) assms(7)]
  have l2: "37 + length p \<le> length buf2" using net_recv_length [OF rc(1)] rq(2) assms(9) by simp
  have q: "proto_read_sequence buf2 = Some s" using opened_read(3) [OF rc(2) assms(7) l2 assms(10)] .
  have u: "unat (of_nat (length p) :: u16) = length p" using assms(9) by (intro unat_of_nat_u16) simp
  then have u': "uint (of_nat (length p) :: u16) = int (length p)" by (simp only: uint_nat)
  have n10: "\<not> (of_nat (length p) :: u16) < 10" using assms(8) u by (simp add: word_less_nat_alt)
  obtain win where a: "proto_replay_accept (cli_server_replay cli) s = (True, win)" using assms(11) by (metis prod.collapse)
  obtain g cli' w' where rp: "client_register_reply cli buf2 (int (37 + length p))
      \<lparr>rf_auth = False, rf_mismatch = False, rf_bad = False, rf_reply = False\<rparr> w4 = (True, g, cli', w')"
    using h(1) q a u' n10 by (simp add: client_register_reply_def handle_assign_def Let_def)
  have "client_register buf from cli w = (0, cli', w')"
    using b sd pl rc(1) rp w2(3) w3(1) assms(6)
    by (simp add: client_register_def numeral_3_eq_3 w0_def [unfolded numeral_3_eq_3])
  then show ?thesis using register_reply_done(3,4) [OF rp rc(2) assms(7,9)] by blast
qed

end
