(* ===== verification/Client_Props.thy ===== *)
theory Client_Props
  imports Client_Register Server_Props
begin

text \<open>
  Properties of the client: the roster follows the server's messages, the reactions to each message,
  registration, the sign of life of the server, and the life cycle.
\<close>

section \<open>The roster under the server's messages\<close>

text \<open>The effect of a message on the abstract roster of at most 253 names.\<close>

definition enlist :: "u32 \<Rightarrow> bytes \<Rightarrow> (u32 \<Rightarrow> bytes option) \<Rightarrow> u32 \<Rightarrow> bytes option" where
  "enlist vip name m = (if card (insert vip (dom m)) \<le> TUND_MAX_PEERS then m(vip \<mapsto> take 31 (c_str name)) else m)"

definition roster_entry :: "bytes \<Rightarrow> u16 \<Rightarrow> nat \<Rightarrow> (u32 \<Rightarrow> bytes option) \<Rightarrow> u32 \<Rightarrow> bytes option" where
  "roster_entry payload plen i m =
     (case proto_read_peer_entry payload plen (int i) of
        None \<Rightarrow> m
      | Some (vip, name, online) \<Rightarrow> if online then enlist vip name m else m(vip := None))"

definition roster_message :: "u8 \<Rightarrow> bytes \<Rightarrow> u16 \<Rightarrow> (u32 \<Rightarrow> bytes option) \<Rightarrow> u32 \<Rightarrow> bytes option" where
  "roster_message type payload plen m =
     (if type = MSG_PEER_LIST then fold (roster_entry payload plen) [0..<unat plen div TUND_PEER_ENTRY_SIZE] m
      else if type = MSG_PEER_JOIN \<and> 36 \<le> unat plen then enlist (u32_of_mem (slice 0 4 payload)) (slice 4 32 payload) m
      else if type = MSG_PEER_LEAVE \<and> 4 \<le> unat plen then m(u32_of_mem (slice 0 4 payload) := None)
      else m)"

lemma update_peer_roster:
  assumes "client_inv cli" "client_update_peer cli vip (Some name) online w = (cli', w')"
  shows "known_peers cli' = (if online then enlist vip name (known_peers cli) else (known_peers cli)(vip := None))"
  using update_peer_spec(4) [OF assms] by (simp add: enlist_def peer_label_def)

lemma read_entry_Some: "i < unat plen div 37 \<Longrightarrow> proto_read_peer_entry payload plen (int i) \<noteq> None"
  by (auto simp: proto_read_peer_entry_def Let_def)

lemma client_list_loop_spec:
  assumes "client_inv cli" "client_peer_list_loop k i payload plen cli w = (cli', w')" "i + k \<le> unat plen div 37"
  shows "client_inv cli' \<and> known_peers cli' = fold (roster_entry payload plen) [i..<i + k] (known_peers cli) \<and>
    w_core w' = w_core w \<and> cli_server_addr cli' = cli_server_addr cli"
  using assms
proof (induction k arbitrary: i cli w)
  case (Suc k)
  obtain vip name online where e: "proto_read_peer_entry payload plen (int i) = Some (vip, name, online)"
    using read_entry_Some [of i plen payload] Suc.prems(3) by auto
  obtain cli1 w1 where u: "client_update_peer cli vip (Some name) online w = (cli1, w1)" by fastforce
  note s = update_peer_spec(1-3) [OF Suc.prems(1) u] update_peer_roster [OF Suc.prems(1) u]
  have "client_peer_list_loop k (i + 1) payload plen cli1 w1 = (cli', w')" using Suc.prems(2) e u by simp
  from Suc.IH [OF s(1) this] Suc.prems(3)
  have IH: "client_inv cli' \<and> known_peers cli' = fold (roster_entry payload plen) [i + 1..<i + 1 + k] (known_peers cli1) \<and>
      w_core w' = w_core w1 \<and> cli_server_addr cli' = cli_server_addr cli1" by simp
  moreover have "known_peers cli1 = roster_entry payload plen i (known_peers cli)" using s(4) e by (simp add: roster_entry_def)
  moreover have "[i..<i + Suc k] = i # [i + 1..<i + 1 + k]" by (simp add: upt_conv_Cons)
  ultimately show ?case using s(2,3) by auto
qed simp

lemma w_core_log_peers [simp]: "w_core (client_log_peers cli w) = w_core w"
proof -
  have "w_core (fold (\<lambda>p. LOG_INFO (f p)) ps w) = w_core w" for f :: "peer_t \<Rightarrow> bytes" and ps w
    by (induction ps arbitrary: w) simp_all
  then show ?thesis by (simp add: client_log_peers_def Let_def)
qed

lemma handle_peer_list_spec:
  assumes "client_inv cli" "client_handle_peer_list cli payload plen w = (cli', w')"
  shows "known_peers cli' = roster_message MSG_PEER_LIST payload plen (known_peers cli)" "w_core w' = w_core w"
proof -
  define w0 where "w0 = (if \<not> g_tui_active w then LOG_INFO (lit ''Received peer list: '' @
    fmt_d (proto_peer_entry_count plen) @ lit '' peer(s)'') w else w)"
  obtain cli1 w1 where l: "client_peer_list_loop (unat plen div 37) 0 payload plen cli w0 = (cli1, w1)" by fastforce
  have eq: "cli' = cli1" "w_core w' = w_core w1"
    using assms(2) l unfolding w0_def
    by (auto simp: client_handle_peer_list_def proto_peer_entry_count_def Let_def split: if_splits)
  note s = client_list_loop_spec [OF assms(1) l]
  have "w_core w0 = w_core w" by (simp add: w0_def)
  then show "known_peers cli' = roster_message MSG_PEER_LIST payload plen (known_peers cli)" "w_core w' = w_core w"
    using s eq by (simp_all add: roster_message_def)
qed

lemma handle_peer_join_spec:
  assumes "client_inv cli" "unat plen \<le> length payload" "client_handle_peer_join cli payload plen w = (cli', w')"
  shows "known_peers cli' = roster_message MSG_PEER_JOIN payload plen (known_peers cli)" "w_core w' = w_core w"
proof -
  have "known_peers cli' = roster_message MSG_PEER_JOIN payload plen (known_peers cli) \<and> w_core w' = w_core w"
  proof (cases "unat plen < 36")
    case True
    then show ?thesis using assms(3) by (simp add: client_handle_peer_join_def roster_message_def)
  next
    case False
    let ?vip = "u32_of_mem (slice 0 4 payload)" and ?name = "slice 4 32 payload"
    define w0 where "w0 = LOG_INFO ([0xE2, 0x98, 0x85] @ lit '' Peer joined: '' @ c_str ?name @ lit '' ('' @
      ip_to_str_buf ?vip TUND_IP_STR_LEN @ lit '')'') w"
    have nm: "memcpy_at 0 ?name (zeros 32) = ?name" using False assms(2) by (simp add: memcpy_at_def slice_def)
    obtain cli1 w1 where u: "client_update_peer cli ?vip (Some ?name) True w0 = (cli1, w1)" by fastforce
    have "cli' = cli1" "w_core w' = w_core w1"
      using assms(3) False u unfolding w0_def
      by (auto simp: client_handle_peer_join_def Let_def nm split: if_splits)
    then show ?thesis
      using update_peer_roster [OF assms(1) u] update_peer_spec(2) [OF assms(1) u] False
      by (simp add: roster_message_def w0_def)
  qed
  then show "known_peers cli' = roster_message MSG_PEER_JOIN payload plen (known_peers cli)" "w_core w' = w_core w" by blast+
qed

lemma handle_peer_leave_spec:
  assumes "client_inv cli" "client_handle_peer_leave cli payload plen w = (cli', w')"
  shows "known_peers cli' = roster_message MSG_PEER_LEAVE payload plen (known_peers cli)" "w_core w' = w_core w"
proof -
  have "known_peers cli' = roster_message MSG_PEER_LEAVE payload plen (known_peers cli) \<and> w_core w' = w_core w"
  proof (cases "plen < 4")
    case True
    then show ?thesis using assms(2) by (simp add: client_handle_peer_leave_def roster_message_def word_less_nat_alt)
  next
    case False
    let ?vip = "u32_of_mem (slice 0 4 payload)"
    obtain name remaining cli1 where l: "client_leave_locked cli ?vip = (name, remaining, cli1)" by (metis prod_cases3)
    have "cli' = cli1" "w_core w' = w_core w"
      using assms(2) False l by (auto simp: client_handle_peer_leave_def Let_def split: if_splits)
    then show ?thesis
      using update_peer_spec(4) [OF assms(1) leave_locked_update [OF l]] False
      by (simp add: roster_message_def word_less_nat_alt)
  qed
  then show "known_peers cli' = roster_message MSG_PEER_LEAVE payload plen (known_peers cli)" "w_core w' = w_core w" by blast+
qed

lemma known_peers_fields [simp]:
  "known_peers (cli\<lparr>cli_server_rtt_ms := x, cli_has_server_rtt := b\<rparr>) = known_peers cli"
  "known_peers (cli\<lparr>cli_last_server_seen := t\<rparr>) = known_peers cli"
  "known_peers (cli\<lparr>cli_server_replay := win\<rparr>) = known_peers cli"
  by (simp_all add: known_peers_def)

lemma dispatch_roster:
  assumes inv: "client_inv cli" and len: "unat plen \<le> length payload"
    and eq: "client_dispatch cli type payload plen w = (cli', w')"
  shows "known_peers cli' = roster_message type payload plen (known_peers cli)"
proof -
  consider "type = 4" | "type = 3" | "type = 7" | "type = 8" | "type = 9" | "type \<notin> {3, 4, 7, 8, 9}" by auto
  then show ?thesis
  proof cases
    case 2
    then show ?thesis using eq handle_peer_list_spec(1) [OF inv] by (simp add: client_dispatch_def)
  next
    case 3
    then show ?thesis using eq handle_peer_join_spec(1) [OF inv len] by (simp add: client_dispatch_def)
  next
    case 4
    then show ?thesis using eq handle_peer_leave_spec(1) [OF inv] by (simp add: client_dispatch_def)
  qed (use eq in \<open>auto simp: client_dispatch_def client_handle_keepalive_ack_def roster_message_def traffic_spec Let_def
        split: if_splits option.splits prod.splits\<close>)
qed

section \<open>Reactions\<close>

text \<open>A packet whose sequence number is accepted reaches the dispatch.\<close>

lemma fresh_packet:
  assumes "client_handle_server_packet cli buf len w = (cli', w')" "proto_read_hdr buf = Inr (type, l)"
    "int TUND_HDR_SIZE + uint l \<le> len" "proto_read_sequence buf = Some q"
    "proto_replay_accept (cli_server_replay cli) q = (True, win)"
  obtains cli1 w1 where "client_mark_server_seen (cli\<lparr>cli_server_replay := win\<rparr>) w = (cli1, w1)"
    "client_dispatch cli1 type (drop TUND_HDR_SIZE buf) l w1 = (cli', w')" "w_core w1 = w_core w"
    "\<exists>t. cli1 = cli\<lparr>cli_server_replay := win, cli_last_server_seen := t\<rparr>"
proof -
  obtain cli1 w1 where s: "client_mark_server_seen (cli\<lparr>cli_server_replay := win\<rparr>) w = (cli1, w1)" by fastforce
  have "client_dispatch cli1 type (drop TUND_HDR_SIZE buf) l w1 = (cli', w')"
    using assms s by (simp add: client_handle_server_packet_def Let_def)
  then show thesis using that [OF s] mark_seen_spec [OF s] by simp
qed

lemma keepalive_sends:
  assumes "net_ok w"
  shows "sends w (client_handle_keepalive cli payload plen w)
    (case proto_read_keepalive_timestamp payload plen of None \<Rightarrow> []
     | Some t \<Rightarrow> [(MSG_KEEPALIVE_ACK, be_bytes 8 t, cli_server_addr cli)]) []"
proof (cases "proto_read_keepalive_timestamp payload plen")
  case None
  then show ?thesis using assms by (simp add: client_handle_keepalive_def)
next
  case (Some t)
  obtain l buf w1 where b: "proto_build_keepalive_ack (zeros TUND_MAX_PKT) t w = (l, buf, w1)" by (metis prod_cases3)
  have "built 9 (be_bytes 8 t) (zeros TUND_MAX_PKT) w (l, buf, w1)" using built_keepalive(2) [of "zeros TUND_MAX_PKT" t w] b by simp
  note sb = sends_built [OF sends_refl [THEN iffD2, OF assms] this]
  have s: "sends w w1 [] []" "ready 9 (be_bytes 8 t) buf l" "l \<noteq> -1" using sb by auto
  obtain r w2 where n: "net_send buf l (cli_server_addr cli) w1 = (r, w2)" by fastforce
  note sn = sends_net_send [OF s n]
  show ?thesis using Some b n sn by (simp add: client_handle_keepalive_def)
qed

text \<open>What a message makes the client send and write; \<open>sends\<close> also says that the client goes on running.\<close>

lemma dispatch_sends:
  assumes inv: "client_inv cli" and net: "net_ok w" "tun_write_ok (w_env w)" and len: "unat plen \<le> length payload"
    and eq: "client_dispatch cli type payload plen w = (cli', w')" and t: "type \<noteq> MSG_DISCONNECT"
  shows "sends w w'
    (if type = MSG_KEEPALIVE
     then case proto_read_keepalive_timestamp payload plen of None \<Rightarrow> []
          | Some t \<Rightarrow> [(MSG_KEEPALIVE_ACK, be_bytes 8 t, cli_server_addr cli)]
     else [])
    (if type = MSG_DATA \<and> ipv4_ok payload (unat plen) then [take (unat plen) payload] else [])"
proof -
  consider "type = 4" | "type = 3" | "type = 7" | "type = 8" | "type = 9" | "type = 5" | "type \<notin> {3, 4, 5, 6, 7, 8, 9}"
    using t by auto
  then show ?thesis
  proof cases
    case 1
    show ?thesis
    proof (cases "proto_validate_ipv4_packet payload plen = 0")
      case True
      have "w' = snd (tun_write (cli_tun (client_add_peer_traffic cli (proto_get_src_ip payload plen) (ucast plen) 0)) payload (unat plen) w)"
        using eq 1 True by (auto simp: client_dispatch_def Let_def)
      moreover have "ipv4_ok payload (unat plen)" using True validate_ipv4_iff [OF len] by simp
      ultimately show ?thesis using sends_tun_write [OF _ net(2) len, of w "[]" "[]"] 1 net(1) by simp
    next
      case False
      then have "\<not> ipv4_ok payload (unat plen)" using validate_ipv4_iff [OF len] by simp
      then show ?thesis using eq 1 False net(1) by (auto simp: client_dispatch_def)
    qed
  next
    case 2
    then show ?thesis using eq handle_peer_list_spec(2) [OF inv] net(1) by (simp add: client_dispatch_def sends_core)
  next
    case 3
    then show ?thesis using eq handle_peer_join_spec(2) [OF inv len] net(1) by (simp add: client_dispatch_def sends_core)
  next
    case 4
    then show ?thesis using eq handle_peer_leave_spec(2) [OF inv] net(1) by (simp add: client_dispatch_def sends_core)
  next
    case 5
    then have "w_core w' = w_core w" using eq
      by (auto simp: client_dispatch_def client_handle_keepalive_ack_def Let_def case_prod_beta split: option.splits if_splits)
    then show ?thesis using 5 net(1) by (simp add: sends_core)
  next
    case 6
    then show ?thesis using eq keepalive_sends [OF net(1), of cli payload plen] by (auto simp: client_dispatch_def)
  next
    case 7
    then show ?thesis using eq net(1) by (auto simp: client_dispatch_def)
  qed
qed

section \<open>Start-up\<close>

lemma roster_distinct: "roster_ok ps \<Longrightarrow> distinct (map peer_virt_ip (filter peer_active ps))"
proof (rule card_distinct)
  assume ok: "roster_ok ps"
  have "set (map peer_virt_ip (filter peer_active ps)) = dom (roster_view ps)"
    unfolding roster_dom set_map by (force simp: in_set_conv_nth)
  then show "card (set (map peer_virt_ip (filter peer_active ps))) = length (map peer_virt_ip (filter peer_active ps))"
    using roster_card [OF ok] by (simp add: count_if_def)
qed

lemma roster_ok_initial: "roster_ok (replicate n peer0)"
  by (rule roster_okI) (simp_all add: peer0_def named_ok_def terminated_def list_all_iff)

lemma client0_addr: "cli_server_addr (client0 cfg) = sockaddr0"
  by (simp add: client0_def)

lemma client0_inv: "client_inv (client0 cfg)" "c_strlen (cli_name (client0 cfg)) < 65536"
proof -
  have "\<exists>A. replay_repr proto_replay_reset A" using window.repr_reset by blast
  moreover have "count_if peer_active (replicate 253 peer0) = 0" by (simp add: peer0_def)
  ultimately show "client_inv (client0 cfg)"
    using roster_ok_initial [of 253] by (simp add: client_inv_def client0_def)
  show "c_strlen (cli_name (client0 cfg)) < 65536"
    using c_strlen_snprintf [of 32 "c_str (cfg_client_name cfg)" "zeros 32"] by (simp add: client0_def)
qed

lemma net_resolve_core: "net_resolve host port a w = (r, addr, w') \<Longrightarrow> w_core w' = w_core w"
  by (auto simp: net_resolve_def case_prod_beta Let_def split: sum.splits prod.splits)

lemma client_inv_ends [simp]:
  "client_inv (cli\<lparr>cli_server_addr := a\<rparr>) = client_inv cli" "client_inv (cli\<lparr>cli_sockfd := fd\<rparr>) = client_inv cli"
  "client_inv (cli\<lparr>cli_tun := dev\<rparr>) = client_inv cli"
  by (simp_all add: client_inv_def)

lemma client_init_spec:
  assumes init: "client_init buf from cfg w = (r, cli, w')" and buf: "length buf = TUND_MAX_PKT"
  shows "client_inv cli"
    "socket_posix (w_env w) \<Longrightarrow>
     (if r = 0
      then set (w_open_fds w') \<subseteq> set (w_open_fds w) \<union> {cli_sockfd cli, tun_fd (cli_tun cli)} \<and>
           0 \<le> cli_sockfd cli \<and> 0 \<le> tun_fd (cli_tun cli)
      else r = -1 \<and> set (w_open_fds w') \<subseteq> set (w_open_fds w))"
proof -
  obtain r1 addr w1 where a: "net_resolve (cfg_server_ip cfg) (cfg_port cfg) sockaddr0 w = (r1, addr, w1)" by (metis prod_cases3)
  obtain fd w2 where sk: "net_create_socket 0 w1 = (fd, w2)" by fastforce
  let ?c = "(client0 cfg)\<lparr>cli_server_addr := addr, cli_sockfd := fd\<rparr>"
  obtain r3 c3 w3 where rg: "client_register buf from ?c w2 = (r3, c3, w3)" by (metis prod_cases3)
  have reg: "registers 3 ?c w2 r3 c3 w3"
    using register_loop_registers [OF rg [unfolded client_register_def] buf] client0_inv(2) [of cfg] by simp
  obtain c4 w4 where ms: "client_mark_server_seen c3 w3 = (c4, w4)" by fastforce
  obtain r5 dev w5 where o: "tun_open (cli_tun c4) w4 = (r5, dev, w5)" by (metis prod_cases3)
  obtain r6 w6 where ip: "tun_set_ip dev (cli_virt_ip c4) (cli_netmask c4) w5 = (r6, w6)" by fastforce
  obtain dev7 w7 where c7: "tun_close dev w6 = (dev7, w7)" by fastforce
  obtain r8 dev8 w8 where m: "tun_set_mtu dev (int TUND_TUN_MTU) w6 = (r8, dev8, w8)" by (metis prod_cases3)
  obtain dev9 w9 where c9: "tun_close dev8 w8 = (dev9, w9)" by fastforce
  have out: "r1 < 0 \<and> r = -1 \<and> w' = w1 \<and> cli = (client0 cfg)\<lparr>cli_server_addr := addr\<rparr> \<or>
    \<not> 0 \<le> fd \<and> r = -1 \<and> w' = w2 \<and> cli = ?c \<or>
    0 \<le> fd \<and> r = -1 \<and> w' = sock_close fd w3 \<and> cli = c3 \<or>
    0 \<le> fd \<and> r5 < 0 \<and> r = -1 \<and> w' = sock_close fd w5 \<and> cli = c4\<lparr>cli_tun := dev\<rparr> \<or>
    0 \<le> fd \<and> \<not> r5 < 0 \<and> r = -1 \<and> w' = sock_close fd w7 \<and> cli = c4\<lparr>cli_tun := dev7\<rparr> \<or>
    0 \<le> fd \<and> \<not> r5 < 0 \<and> r = -1 \<and> w' = sock_close fd w9 \<and> cli = c4\<lparr>cli_tun := dev9\<rparr> \<or>
    0 \<le> fd \<and> \<not> r5 < 0 \<and> r = 0 \<and> w' = w8 \<and> cli = c4\<lparr>cli_tun := dev8\<rparr>"
    using init a sk rg ms o ip c7 m c9
    by (auto simp: client_init_def client0_addr Let_def sock_valid_def split: if_splits)
  have inv3: "client_inv c3" and cfd: "cli_sockfd c3 = fd"
    using reg client0_inv(1) [of cfg] by (auto simp: registers_def)
  have inv4: "client_inv c4" and fd4: "cli_sockfd c4 = fd" using mark_seen_spec(1) [OF ms] inv3 cfd by auto
  show "client_inv cli" using out inv3 inv4 client0_inv(1) [of cfg] by auto
  assume pos: "socket_posix (w_env w)"
  note c1 = w_core_cong [OF net_resolve_core [OF a]]
  have fr3: "w_keep w3 = w_keep w2" using reg by (simp add: registers_def)
  have e: "w_open_fds w3 = w_open_fds w2" "w_open_fds w4 = w_open_fds w2"
    using w_keep_cong(10) [OF fr3] w_core_cong(13) [OF mark_seen_spec(2) [OF ms]] by simp_all
  have pos1: "socket_posix (w_env w1)" using pos c1(1) by simp
  note f = socket_fds [OF sk pos1] tun_open_fds [OF o] tun_set_ip_fds [OF ip] tun_close_fds [OF c7]
    tun_set_mtu_fds [OF m] tun_close_fds [OF c9]
  have "set (w_open_fds w2) \<subseteq> set (w_open_fds w) \<union> (if 0 \<le> fd then {fd} else {})" using f(2) c1(13) by simp
  moreover have "set (w_open_fds w8) \<subseteq> {fd, tun_fd dev} \<union> set (w_open_fds w)" if "0 \<le> fd" "\<not> r5 < 0"
    using f that e c1(13) by simp blast
  ultimately show "if r = 0
      then set (w_open_fds w') \<subseteq> set (w_open_fds w) \<union> {cli_sockfd cli, tun_fd (cli_tun cli)} \<and>
           0 \<le> cli_sockfd cli \<and> 0 \<le> tun_fd (cli_tun cli)
      else r = -1 \<and> set (w_open_fds w') \<subseteq> set (w_open_fds w)"
    using out f e c1(13) fd4 by (elim disjE) auto
qed

section \<open>Properties\<close>

text \<open>A client that knows one peer, and a message for it.\<close>

definition demo_server_addr :: sockaddr_in where
  "demo_server_addr = \<lparr>sin_family = 2, sin_port = htons 9909, sin_addr = htonl 0xC0000201\<rparr>"

definition demo_client :: client_t where
  "demo_client = (client0 demo_config)
     \<lparr>cli_sockfd := 4, cli_tun := tun_device0\<lparr>tun_fd := 5\<rparr>, cli_server_addr := demo_server_addr,
      cli_virt_ip := htonl 0x0A090002, cli_netmask := htonl TUND_NETMASK, cli_last_server_seen := 990,
      cli_peers := (replicate TUND_MAX_PEERS peer0)
        [0 := peer0\<lparr>peer_active := True, peer_virt_ip := htonl 0x0A090003, peer_name := name_array 32 (lit ''peer'')\<rparr>],
      cli_peer_count := 1\<rparr>"

lemma demo_client_inv: "client_inv demo_client"
proof -
  let ?p = "peer0\<lparr>peer_active := True, peer_virt_ip := htonl 0x0A090003, peer_name := name_array 32 (lit ''peer'')\<rparr>"
  have "named_ok ?p" by (simp add: named_ok_def name_array_props)
  then have "roster_ok ((replicate TUND_MAX_PEERS peer0)[0 := ?p])"
    by (intro roster_set(1) [OF roster_ok_initial, where vip = "htonl 0x0A090003"]) (simp_all add: peer0_def)
  moreover have "\<exists>A. replay_repr proto_replay_reset A" using window.repr_reset by blast
  moreover have "int (count_if peer_active ((replicate TUND_MAX_PEERS peer0)[0 := ?p])) = 1"
    by (subst count_active_set) (simp_all add: peer0_def)
  ultimately show ?thesis by (simp add: client_inv_def demo_client_def client0_def)
qed

definition demo_message :: "u8 \<Rightarrow> bytes \<Rightarrow> bytes" where
  "demo_message type payload = opened type 7 (zeros 24) payload"

lemma demo_message_read:
  assumes "length p \<le> 1600"
  shows "proto_read_hdr (demo_message t p) = Inr (t, of_nat (length p))" "proto_read_sequence (demo_message t p) = Some 7"
    "drop 37 (demo_message t p) = p" "unat (of_nat (length p) :: u16) = length p" "length (demo_message t p) = 37 + length p"
    "uint (of_nat (length p) :: u16) = int (length p)"
proof -
  show "proto_read_hdr (demo_message t p) = Inr (t, of_nat (length p))" "proto_read_sequence (demo_message t p) = Some 7"
    "drop 37 (demo_message t p) = p" "length (demo_message t p) = 37 + length p"
    by (simp_all add: demo_message_def opened_def)
  show u: "unat (of_nat (length p) :: u16) = length p" using assms by (intro unat_of_nat_u16) simp
  show "uint (of_nat (length p) :: u16) = int (length p)" by (simp only: uint_nat u)
qed

lemma demo_replay: "proto_replay_accept (cli_server_replay demo_client) 7 = (True, \<lparr>replay_highest = 7, replay_seen = 1\<rparr>)"
proof -
  have "cli_server_replay demo_client = proto_replay_reset" by (simp add: demo_client_def client0_def)
  then show ?thesis by (simp add: proto_replay_accept_def proto_replay_reset_def)
qed

text \<open>
  C18: the client's table of peers is sound in every state that any interleaving of its critical sections
  reaches from \<open>client_init\<close>: 253 slots, a count equal to the number of active ones, terminated names and
  no virtual address twice; and every iteration of the main loop and of the TUN thread is a sequence
  of these sections.
\<close>

theorem client_reachable_invariant:
  assumes "client_init buf from cfg w = (r, cli, w')" "length buf = TUND_MAX_PKT" "client_steps cli cli'"
  shows "length (cli_peers cli') = TUND_MAX_PEERS \<and>
    cli_peer_count cli' = int (length (filter peer_active (cli_peers cli'))) \<and>
    (\<forall>p \<in> set (cli_peers cli'). 0 \<in> set (peer_name p)) \<and>
    distinct (map peer_virt_ip (filter peer_active (cli_peers cli'))) \<and>
    client_steps cli' (fst (snd (snd (client_run_iter l cli' v)))) \<and>
    client_steps cli' (fst (snd (client_tun_iter cli' v)))"
proof -
  have inv: "client_inv cli'" by (rule client_steps_inv [OF assms(3) client_init_spec(1) [OF assms(1,2)]])
  then have ok: "roster_ok (cli_peers cli')" by (simp add: client_inv_def)
  have "\<forall>p \<in> set (cli_peers cli'). 0 \<in> set (peer_name p)"
    using ok by (simp add: roster_ok_def list_all_iff named_ok_def terminated_def)
  moreover have "client_steps cli' (fst (snd (snd (client_run_iter l cli' v))))"
    "client_steps cli' (fst (snd (client_tun_iter cli' v)))"
    using client_steps.run_iter [of l cli' v] client_steps.tun_iter [of cli' v] by (metis prod.collapse)+
  ultimately show ?thesis using inv roster_distinct [OF ok] by (simp add: client_inv_def count_if_def)
qed

theorem client_reachable_invariant_witness:
  "\<exists>r cli w'. client_init (zeros 1653) sockaddr0 demo_config demo_world = (r, cli, w') \<and>
     length (cli_peers (client_add_broadcast_traffic cli 60)) = 253"
proof -
  obtain r cli w' where i: "client_init (zeros 1653) sockaddr0 demo_config demo_world = (r, cli, w')" by (metis prod_cases3)
  have "client_steps cli (client_add_broadcast_traffic cli 60)" by (intro r_into_rtranclp step_broadcast)
  with client_reachable_invariant [OF i _ this] i show ?thesis by auto
qed

text \<open>
  C19: refinement of the roster. A server packet with a fresh sequence number changes the map from
  virtual addresses to names exactly as its message says: a join adds one name (cut to 31 bytes, and
  only while the table has room), a leave removes one, a peer list does so entry by entry, every other
  message leaves the map as it is.
\<close>

theorem server_messages_update_roster:
  assumes "client_inv cli" "client_handle_server_packet cli buf len w = (cli', w')" "len \<le> int (length buf)"
    and "proto_read_hdr buf = Inr (type, l)" "int TUND_HDR_SIZE + uint l \<le> len"
    and "proto_read_sequence buf = Some q" "fst (proto_replay_accept (cli_server_replay cli) q)"
  shows "known_peers cli' = roster_message type (drop TUND_HDR_SIZE buf) l (known_peers cli)"
proof -
  obtain win where a: "proto_replay_accept (cli_server_replay cli) q = (True, win)" using assms(7) by (metis prod.collapse)
  obtain cli1 w1 where d: "client_dispatch cli1 type (drop TUND_HDR_SIZE buf) l w1 = (cli', w')"
      "\<exists>t. cli1 = cli\<lparr>cli_server_replay := win, cli_last_server_seen := t\<rparr>"
    using fresh_packet [OF assms(2,4,5,6) a] by metis
  have inv1: "client_inv cli1" and k: "known_peers cli1 = known_peers cli"
    using d(2) client_inv_accept [OF assms(1) a] by (auto simp: known_peers_def)
  have "uint l = int (unat l)" by (rule uint_nat)
  then have "unat l \<le> length (drop TUND_HDR_SIZE buf)" using assms(3,5) by (simp only: length_drop)
  from dispatch_roster [OF inv1 this d(1)] k show ?thesis by simp
qed

theorem server_messages_update_roster_witness:
  "\<exists>cli' w'. client_handle_server_packet demo_client (demo_message MSG_PEER_LEAVE (mem_of_u32 (htonl 0x0A090003))) 41 demo_world = (cli', w') \<and>
     known_peers cli' (htonl 0x0A090003) = None"
proof -
  let ?p = "mem_of_u32 (htonl 0x0A090003)"
  obtain cli' w' where h: "client_handle_server_packet demo_client (demo_message MSG_PEER_LEAVE ?p) 41 demo_world = (cli', w')" by fastforce
  have r: "length ?p \<le> 1600" by simp
  note m = demo_message_read [OF r]
  have "known_peers cli' = roster_message MSG_PEER_LEAVE ?p (of_nat (length ?p)) (known_peers demo_client)"
    using server_messages_update_roster [OF demo_client_inv h _ m(1) _ m(2)] demo_replay m(3,5,6) by simp
  then have "known_peers cli' (u32_of_mem (slice 0 4 ?p)) = None" by (simp add: roster_message_def)
  then show ?thesis using h by (simp add: slice_def)
qed

text \<open>
  C33: no message of the server is handled twice. Once \<open>client_handle_server_packet\<close> has taken a packet, the
  same packet changes nothing, sends nothing and writes nothing, whatever the client's threads did in
  between.
\<close>

theorem server_packet_handled_once:
  assumes "client_inv cli" "client_handle_server_packet cli buf len w = (cli1, w1)"
    and "proto_read_hdr buf = Inr (type, l)" "int TUND_HDR_SIZE + uint l \<le> len" "proto_read_sequence buf = Some q"
    and "client_steps cli1 cli2"
  shows "\<exists>v'. client_handle_server_packet cli2 buf len v = (cli2, v') \<and> w_sent v' = w_sent v \<and>
    w_tun_out v' = w_tun_out v \<and> g_running v' = g_running v"
proof -
  obtain ok win where a: "proto_replay_accept (cli_server_replay cli) q = (ok, win)" by fastforce
  obtain A where A: "replay_repr (cli_server_replay cli) A" using assms(1) by (auto simp: client_inv_def)
  let ?c = "cli\<lparr>cli_server_replay := win\<rparr>"
  have ref: "client_refuses ?c q" using window.refused_again [OF A a] by (simp add: client_refuses_def)
  have inv: "client_inv ?c" by (rule client_inv_accept [OF assms(1) a])
  have "client_steps ?c cli1"
  proof (cases ok)
    case True
    obtain c2 w2 where "client_mark_server_seen ?c w = (c2, w2)" "client_dispatch c2 type (drop 37 buf) l w2 = (cli1, w1)"
      using fresh_packet [OF assms(2-5)] a True by metis
    then show ?thesis using client_steps.trans [OF client_steps.seen client_steps.dispatch] by blast
  next
    case False
    then have "cli1 = ?c" using assms(2-5) a by (simp add: client_handle_server_packet_def Let_def)
    then show ?thesis by simp
  qed
  with assms(6) have st: "client_steps ?c cli2" by simp
  obtain c v' where h: "client_handle_server_packet cli2 buf len v = (c, v')" by fastforce
  note r = refused_ignored [OF refuses_steps [OF st inv ref] client_steps_inv [OF st inv] assms(5) h]
  show ?thesis using h r(1) w_core_cong [OF r(2)] by auto
qed

theorem server_packet_handled_once_witness:
  "\<exists>cli1 w1 v'. client_handle_server_packet demo_client (demo_message MSG_KEEPALIVE (be_bytes 8 (5 :: u64))) 45 demo_world = (cli1, w1) \<and>
     client_handle_server_packet cli1 (demo_message MSG_KEEPALIVE (be_bytes 8 (5 :: u64))) 45 w1 = (cli1, v') \<and> w_sent v' = w_sent w1"
proof -
  let ?p = "be_bytes 8 (5 :: u64)"
  obtain cli1 w1 where h: "client_handle_server_packet demo_client (demo_message MSG_KEEPALIVE ?p) 45 demo_world = (cli1, w1)" by fastforce
  have r: "length ?p \<le> 1600" by simp
  note m = demo_message_read [OF r]
  show ?thesis using server_packet_handled_once [OF demo_client_inv h m(1) _ m(2), of cli1 w1] m(6) h by auto
qed

text \<open>
  C20: registration, in every environment. It ends after at most three requests, all of them to the
  server, with success or failure; success means that an authentic assignment arrived from the server's
  address and that the client took its address and netmask; after a failure the client has no new
  address. Nothing else of the client changes but the replay window.
\<close>

theorem registration_outcome:
  assumes "client_register buf from cli w = (r, cli', w')" "length buf = TUND_MAX_PKT" "c_strlen (cli_name cli) < 65536"
  shows "(r = 0 \<or> r = -1) \<and>
    (\<exists>ds. w_sent w' = w_sent w @ ds \<and> length ds \<le> TUND_REGISTER_RETRIES \<and> (\<forall>d \<in> set ds. snd d = cli_server_addr cli)) \<and>
    (\<exists>win vip netmask. cli' = cli\<lparr>cli_server_replay := win, cli_virt_ip := vip, cli_netmask := netmask\<rparr>) \<and>
    (r = 0 \<longrightarrow>
      (\<exists>tick d src s n p. sys_recvfrom (w_env w) tick = RecvData d src \<and> net_addr_equal src (cli_server_addr cli) \<and>
         take TUND_MAX_PKT d = sealed (g_crypto_key w) MSG_ASSIGN s n p \<and> 10 \<le> length p \<and>
         cli_virt_ip cli' = u32_of_mem (slice 0 4 p) \<and> cli_netmask cli' = u32_of_mem (slice 4 4 p))) \<and>
    (r = -1 \<longrightarrow> cli_virt_ip cli' = cli_virt_ip cli)"
proof -
  have "registers TUND_REGISTER_RETRIES cli w r cli' w'"
    by (rule register_loop_registers [OF assms(1) [unfolded client_register_def] assms(2,3)])
  moreover have "\<exists>tick d src s n p. sys_recvfrom (w_env w) tick = RecvData d src \<and> net_addr_equal src (cli_server_addr cli) \<and>
      take TUND_MAX_PKT d = sealed (g_crypto_key w) MSG_ASSIGN s n p \<and> 10 \<le> length p \<and>
      cli_virt_ip cli' = u32_of_mem (slice 0 4 p) \<and> cli_netmask cli' = u32_of_mem (slice 4 4 p)"
    if "assignment_arrives w (cli_server_addr cli) (cli_virt_ip cli') (cli_netmask cli')"
    using that unfolding assignment_arrives_def by blast
  ultimately show ?thesis unfolding registers_def by blast
qed

theorem registration_outcome_witness:
  "\<exists>r cli' w'. client_register (zeros 1653) sockaddr0 demo_client demo_world = (r, cli', w') \<and> length (w_sent w') \<le> 3"
proof -
  obtain r cli' w' where c: "client_register (zeros 1653) sockaddr0 demo_client demo_world = (r, cli', w')" by (metis prod_cases3)
  have "c_strlen (cli_name demo_client) < 65536" using client0_inv(2) [of demo_config] by (simp add: demo_client_def)
  from registration_outcome [OF c _ this] show ?thesis using c by (auto simp: demo_world_def)
qed

lemma server_timed_out_iff:
  assumes "0 < now" "now < 2 ^ 63"
  shows "client_server_timed_out cli now \<longleftrightarrow> cli_last_server_seen cli \<noteq> 0 \<and> int (unat (cli_last_server_seen cli)) + 30 < now"
proof -
  let ?l = "cli_last_server_seen cli"
  have "unat (of_nat (nat now) :: u64) = nat now"
    using assms unfolding unat_of_nat by (intro mod_less) (simp add: nat_less_iff)
  then have u: "unat (of_int now :: u64) = nat now" using assms(1) by simp
  have "?l < of_int now \<Longrightarrow> unat (of_int now - ?l) = nat now - unat ?l"
    using u by (subst unat_sub) (simp_all add: word_le_nat_alt word_less_nat_alt)
  then have "client_server_timed_out cli now \<longleftrightarrow> ?l \<noteq> 0 \<and> unat ?l < nat now \<and> 30 < nat now - unat ?l"
    using assms u by (auto simp: client_server_timed_out_def Let_def word_less_nat_alt)
  moreover have "k < nat now \<and> 30 < nat now - k \<longleftrightarrow> int k + 30 < now" for k using assms(1) by linarith
  ultimately show ?thesis by blast
qed

text \<open>
  C34: the keepalive thread gives up on the server exactly when more than 30 seconds have passed since
  the server was last heard; then it stops the client and sends nothing. Otherwise it sends one
  keepalive with the current time in milliseconds to the server.
\<close>

theorem client_gives_up_on_silence:
  assumes "client_keepalive_pass cli w = (go, w')" "net_ok w" "time_now w = (now, w1)" "0 < now" "now < 2 ^ 63"
  shows "(go \<longleftrightarrow> cli_last_server_seen cli = 0 \<or> now \<le> int (unat (cli_last_server_seen cli)) + 30) \<and>
    (if go then sends w w' [(MSG_KEEPALIVE, be_bytes 8 (fst (now_ms w1)), cli_server_addr cli)] []
     else \<not> g_running w' \<and> w_sent w' = w_sent w)"
proof -
  have c1: "w_core w1 = w_core w" using w_core_syscall [of sys_time w] assms(3) by simp
  show ?thesis
  proof (cases "client_server_timed_out cli now")
    case True
    then have "\<not> go" "\<not> g_running w'" "w_sent w' = w_sent w"
      using assms(1) w_core_cong(11) [OF c1] unfolding client_keepalive_pass_def assms(3) tund_request_stop_def
      by auto
    then show ?thesis using True server_timed_out_iff [OF assms(4,5)] by force
  next
    case False
    obtain ms w2 where m: "now_ms w1 = (ms, w2)" by fastforce
    have s0: "sends w w2 [] []" using sends_core [OF assms(2)] c1 w_core_now_ms [of w1] m by simp
    obtain l buf w3 where b: "proto_build_keepalive (zeros TUND_MAX_PKT) ms w2 = (l, buf, w3)" by (metis prod_cases3)
    have "built 5 (be_bytes 8 ms) (zeros TUND_MAX_PKT) w2 (l, buf, w3)" using built_keepalive(1) [of "zeros TUND_MAX_PKT" ms w2] b by simp
    note sb = sends_built [OF s0 this]
    have s: "sends w w3 [] []" "ready 5 (be_bytes 8 ms) buf l" "l \<noteq> -1" using sb by auto
    obtain r w4 where n: "net_send buf l (cli_server_addr cli) w3 = (r, w4)" by fastforce
    note sn = sends_net_send [OF s n]
    have "client_keepalive_pass cli w = (True, w4)"
      unfolding client_keepalive_pass_def assms(3) using False m b n sn(1) by simp
    then have "go" "w' = w4" using assms(1) by simp_all
    moreover have "cli_last_server_seen cli = 0 \<or> now \<le> int (unat (cli_last_server_seen cli)) + 30"
      using False server_timed_out_iff [OF assms(4,5)] by force
    ultimately show ?thesis using sn(2) by (simp add: m)
  qed
qed

theorem client_gives_up_on_silence_witness:
  "\<exists>w'. client_keepalive_pass demo_client demo_world = (True, w') \<and>
     sends demo_world w' [(MSG_KEEPALIVE, be_bytes 8 (1001000 :: u64), demo_server_addr)] []"
proof -
  obtain go w' where k: "client_keepalive_pass demo_client demo_world = (go, w')" by fastforce
  have t: "time_now demo_world = (1000, demo_world\<lparr>w_tick := 1\<rparr>)" by (simp add: syscall_def demo_world_def demo_env_def)
  have ms: "fst (now_ms (demo_world\<lparr>w_tick := 1\<rparr>)) = 1001000"
    by (simp add: now_ms_def syscall_def demo_world_def demo_env_def)
  have l: "cli_last_server_seen demo_client = 990" "cli_server_addr demo_client = demo_server_addr" by (simp_all add: demo_client_def)
  show ?thesis using client_gives_up_on_silence [OF k net_ok_demo t] k ms l by auto
qed

text \<open>
  A packet from the TUN device goes, unchanged and as one data message, to the server if it is a
  valid packet of the virtual LAN, and nowhere otherwise; the roster stays as it is.
\<close>

theorem client_forwards_tun_packet:
  assumes "client_tun_packet cli pkt n w = (cli', w')" "net_ok w" "0 < n" "n \<le> int TUND_MAX_PLAINTEXT" "length pkt = nat n"
  shows "sends w w' (if ipv4_ok pkt (nat n) then [(MSG_DATA, pkt, cli_server_addr cli)] else []) [] \<and>
    known_peers cli' = known_peers cli"
proof -
  have u: "unat (of_int n :: u16) = nat n"
  proof (subst of_int_of_nat_u16)
    show "unat (of_nat (nat n) :: u16) = nat n" using assms(3,4) by (intro unat_of_nat_u16) simp
  qed (use assms(3) in simp)
  have v: "proto_validate_ipv4_packet pkt (of_int n) = 0 \<longleftrightarrow> ipv4_ok pkt (nat n)"
    using validate_ipv4_iff [of "of_int n" pkt] u assms(5) by simp
  show ?thesis
  proof (cases "ipv4_ok pkt (nat n)")
    case False
    then show ?thesis using assms(1,2) v by (auto simp: client_tun_packet_def Let_def)
  next
    case True
    obtain l buf w1 where b: "proto_build_data (zeros TUND_MAX_PKT) pkt (of_int n) w = (l, buf, w1)" by (metis prod_cases3)
    have "built 4 pkt (zeros TUND_MAX_PKT) w (l, buf, w1)"
      using built_data [of "of_int n" "zeros TUND_MAX_PKT" pkt w] b u assms(4,5) by simp
    note sb = sends_built [OF sends_refl [THEN iffD2, OF assms(2)] this]
    have s: "sends w w1 [] []" "ready 4 pkt buf l" "l \<noteq> -1" using sb assms(4,5) by auto
    obtain r w2 where d: "net_send buf l (cli_server_addr cli) w1 = (r, w2)" by fastforce
    note sn = sends_net_send [OF s d]
    have "w' = w2" "known_peers cli' = known_peers cli"
      using assms(1) True v b d sn(1) by (auto simp: client_tun_packet_def Let_def traffic_spec broadcast_spec split: if_splits)
    then show ?thesis using True sn(2) by simp
  qed
qed

theorem client_forwards_tun_packet_witness:
  "\<exists>cli' w'. client_tun_packet demo_client demo_packet 20 demo_world = (cli', w') \<and>
     sends demo_world w' [(MSG_DATA, demo_packet, demo_server_addr)] []"
proof -
  obtain cli' w' where t: "client_tun_packet demo_client demo_packet 20 demo_world = (cli', w')" by fastforce
  have "cli_server_addr demo_client = demo_server_addr" by (simp add: demo_client_def)
  then show ?thesis using client_forwards_tun_packet [OF t net_ok_demo] t demo_packet_ok by simp
qed

text \<open>
  C35: what a fresh message of the server makes the client do, when the network and the device work. A
  valid data packet is written to the TUN device, unchanged; a keepalive is answered with its own
  timestamp, to the server; a disconnect stops the client; no other message sends or writes anything,
  and no message but a disconnect stops the client.
\<close>

theorem client_reacts_to_message:
  assumes "client_inv cli" "client_handle_server_packet cli buf len w = (cli', w')" "len \<le> int (length buf)"
    and "net_ok w" "tun_write_ok (w_env w)"
    and "proto_read_hdr buf = Inr (type, l)" "int TUND_HDR_SIZE + uint l \<le> len"
    and "proto_read_sequence buf = Some q" "fst (proto_replay_accept (cli_server_replay cli) q)"
  shows "let payload = drop TUND_HDR_SIZE buf
    in if type = MSG_DISCONNECT then \<not> g_running w' \<and> w_sent w' = w_sent w \<and> w_tun_out w' = w_tun_out w
       else sends w w'
         (if type = MSG_KEEPALIVE
          then case proto_read_keepalive_timestamp payload l of None \<Rightarrow> []
               | Some t \<Rightarrow> [(MSG_KEEPALIVE_ACK, be_bytes 8 t, cli_server_addr cli)]
          else [])
         (if type = MSG_DATA \<and> ipv4_ok payload (unat l) then [take (unat l) payload] else [])"
proof -
  obtain win where a: "proto_replay_accept (cli_server_replay cli) q = (True, win)" using assms(9) by (metis prod.collapse)
  obtain cli1 w1 where d: "client_dispatch cli1 type (drop TUND_HDR_SIZE buf) l w1 = (cli', w')" "w_core w1 = w_core w"
      "\<exists>t. cli1 = cli\<lparr>cli_server_replay := win, cli_last_server_seen := t\<rparr>"
    using fresh_packet [OF assms(2,6,7,8) a] by metis
  have inv1: "client_inv cli1" and ad: "cli_server_addr cli1 = cli_server_addr cli"
    using d(3) client_inv_accept [OF assms(1) a] by auto
  note c1 = w_core_cong [OF d(2)]
  have "uint l = int (unat l)" by (rule uint_nat)
  then have len: "unat l \<le> length (drop TUND_HDR_SIZE buf)" using assms(3,7) by (simp only: length_drop)
  show ?thesis
  proof (cases "type = MSG_DISCONNECT")
    case True
    then show ?thesis using d(1) c1 by (auto simp: client_dispatch_def tund_request_stop_def)
  next
    case False
    have "sends w w1 [] []" "net_ok w1" "tun_write_ok (w_env w1)"
      using sends_core [OF assms(4) d(2)] net_ok_core [OF d(2)] assms(4,5) c1 by simp_all
    from sends_trans [OF this(1) dispatch_sends [OF inv1 this(2,3) len d(1) False]] show ?thesis
      unfolding Let_def ad append_Nil if_not_P [OF False] .
  qed
qed

theorem client_reacts_to_message_witness:
  "\<exists>cli' w'. client_handle_server_packet demo_client (demo_message MSG_DATA demo_packet) 57 demo_world = (cli', w') \<and>
     sends demo_world w' [] [demo_packet]"
proof -
  obtain cli' w' where h: "client_handle_server_packet demo_client (demo_message MSG_DATA demo_packet) 57 demo_world = (cli', w')" by fastforce
  have r: "length demo_packet \<le> 1600" using demo_packet_ok by simp
  note m = demo_message_read [OF r]
  show ?thesis
    using client_reacts_to_message [OF demo_client_inv h _ net_ok_demo tun_write_ok_demo m(1) _ m(2)] demo_replay m(3-6) demo_packet_ok h
    by (simp add: Let_def)
qed

text \<open>
  Start-up of the client is all or nothing: a failure at any step (name resolution, socket,
  registration, device, address, MTU) leaves no descriptor open that was not open before; success leaves
  the socket and the device open and nothing else.
\<close>

theorem client_init_leaks_nothing:
  assumes "client_init buf from cfg w = (r, cli, w')" "length buf = TUND_MAX_PKT" "socket_posix (w_env w)"
  shows "if r = 0
    then set (w_open_fds w') \<subseteq> set (w_open_fds w) \<union> {cli_sockfd cli, tun_fd (cli_tun cli)} \<and>
         0 \<le> cli_sockfd cli \<and> 0 \<le> tun_fd (cli_tun cli)
    else r = -1 \<and> set (w_open_fds w') \<subseteq> set (w_open_fds w)"
  by (rule client_init_spec(2) [OF assms])

theorem client_init_leaks_nothing_witness:
  "\<exists>cli w'. client_init (zeros 1653) sockaddr0 demo_config demo_world = (-1, cli, w') \<and> w_open_fds w' = []"
proof -
  obtain r cli w' where i: "client_init (zeros 1653) sockaddr0 demo_config demo_world = (r, cli, w')" by (metis prod_cases3)
  have "r = -1" using i
    by (simp add: client_init_def net_resolve_def syscall_def demo_world_def demo_env_def Let_def)
  moreover have "socket_posix (w_env demo_world)" by (simp add: socket_posix_def demo_world_def demo_env_def)
  ultimately show ?thesis using client_init_leaks_nothing [OF i] i by (simp add: demo_world_def)
qed

text \<open>
  \<open>client_shutdown\<close> tells the server that it leaves, closes the TUN device and the socket, marks both
  as closed and tells both threads to stop.
\<close>

theorem client_shutdown_says_goodbye:
  assumes "client_shutdown cli w = (cli', w')" "net_ok w"
  shows "delivered w w' [(MSG_DISCONNECT, [], cli_server_addr cli)] \<and>
    tun_fd (cli_tun cli') < 0 \<and> cli_sockfd cli' < 0 \<and> cli_ka_quit cli' \<and> cli_tun_quit cli' \<and>
    (0 \<le> cli_sockfd cli \<longrightarrow> cli_sockfd cli \<notin> set (w_open_fds w')) \<and>
    (0 \<le> tun_fd (cli_tun cli) \<longrightarrow> tun_fd (cli_tun cli) \<notin> set (w_open_fds w'))"
proof -
  define w0 where "w0 = LOG_INFO (lit ''Disconnecting...'') w"
  have s0: "sends w w0 [] []" using assms(2) by (simp add: w0_def)
  obtain l buf w1 where b: "proto_build_disconnect (zeros TUND_MAX_PKT) w0 = (l, buf, w1)" by (metis prod_cases3)
  have "built 6 [] (zeros TUND_MAX_PKT) w0 (l, buf, w1)" using built_disconnect [of "zeros TUND_MAX_PKT" w0] b by simp
  note sb = sends_built [OF s0 this]
  have s: "sends w w1 [] []" "ready 6 [] buf l" "l \<noteq> -1" using sb by auto
  obtain r w2 where n: "net_send buf l (cli_server_addr cli) w1 = (r, w2)" by fastforce
  note sn = sends_net_send(2) [OF s n]
  obtain dev w3 where c: "tun_close (cli_tun cli) w2 = (dev, w3)" by fastforce
  have w3: "w_sent w3 = w_sent w2" using c by (auto simp: tun_close_def fd_close_def split: if_splits)
  define w4 where "w4 = (if g_tui_active w3 then tui_shutdown w3 else w3)"
  have w4: "w_open_fds w4 = w_open_fds w3" "w_sent w4 = w_sent w2"
    using w_core_cong(11,13) [OF w_core_tui_init(2)] w3 by (simp_all add: w4_def)
  have eq: "cli' = (if sock_valid (cli_sockfd cli) then cli\<lparr>cli_ka_quit := True, cli_tun_quit := True, cli_tun := dev, cli_sockfd := -1\<rparr>
        else cli\<lparr>cli_ka_quit := True, cli_tun_quit := True, cli_tun := dev\<rparr>)"
    "w_open_fds w' = (if sock_valid (cli_sockfd cli) then removeAll (cli_sockfd cli) (w_open_fds w3) else w_open_fds w3)"
    "w_sent w' = w_sent w2"
    using assms(1) b n c w4 unfolding w0_def w4_def
    by (auto simp: client_shutdown_def Let_def sock_close_def split: if_splits)
  have "delivered w w' [(MSG_DISCONNECT, [], cli_server_addr cli)]" using sn eq(3) by (simp add: sends_def delivered_def)
  then show ?thesis using eq tun_close_fds [OF c] by (auto simp: sock_valid_def)
qed

theorem client_shutdown_says_goodbye_witness:
  "\<exists>cli' w'. client_shutdown demo_client demo_world = (cli', w') \<and> delivered demo_world w' [(MSG_DISCONNECT, [], demo_server_addr)] \<and>
     4 \<notin> set (w_open_fds w')"
proof -
  obtain cli' w' where c: "client_shutdown demo_client demo_world = (cli', w')" by fastforce
  have "cli_sockfd demo_client = 4" "cli_server_addr demo_client = demo_server_addr" by (simp_all add: demo_client_def)
  then show ?thesis using client_shutdown_says_goodbye [OF c net_ok_demo] c by simp
qed

end
