(* ===== verification/Lan_Session.thy ===== *)
theory Lan_Session
  imports Client_Props
begin

text \<open>
  The client's roster against the server's directory: what the messages the server sends on a join, on
  a leave and to a newcomer do to the roster of a client that receives them, from the wire on.
\<close>

section \<open>The two views\<close>

lemma option_eqI: "(\<And>x. a = Some x \<longleftrightarrow> b = Some x) \<Longrightarrow> a = b"
  by (metis option.exhaust)

text \<open>The client knows the name of every peer the server lists, except its own.\<close>

definition views_agree :: "server_t \<Rightarrow> client_t \<Rightarrow> bool" where
  "views_agree srv cli \<longleftrightarrow> known_peers cli = (\<lambda>vip. map_option snd (lan srv vip))(cli_virt_ip cli := None)"

lemma lan_name_short:
  assumes "server_inv srv" "lan srv vip = Some (a, n)"
  shows "length n \<le> 31"
proof -
  obtain i where i: "i < 253" "peer_identity (srv_peers srv ! i) = Some (vip, a, n)" using assms lan_iff by blast
  then have "n = c_str (peer_name (srv_peers srv ! i))" by (auto simp: peer_identity_def split: if_splits)
  moreover have "peer_wf (srv_peers srv ! i)"
    using peers_ok_nth_wf [OF server_inv_peers_ok [OF assms(1)]] i(1) assms(1) by simp
  then have "c_strlen (peer_name (srv_peers srv ! i)) < 32" using terminated_c_strlen by (fastforce simp: peer_wf_def)
  ultimately show ?thesis by (simp add: c_strlen_def)
qed

lemma lan_finite: "server_inv srv \<Longrightarrow> finite (dom (lan srv))" "server_inv srv \<Longrightarrow> card (dom (lan srv)) \<le> 253"
proof -
  assume inv: "server_inv srv"
  have sub: "dom (lan srv) \<subseteq> (\<lambda>i. peer_virt_ip (srv_peers srv ! i)) ` {..<253}"
    using lan_iff [OF inv] by (fastforce simp: peer_identity_def split: if_splits)
  show "finite (dom (lan srv))" by (rule finite_subset [OF sub]) simp
  have "card (dom (lan srv)) \<le> card ((\<lambda>i. peer_virt_ip (srv_peers srv ! i)) ` {..<253})"
    by (rule card_mono [OF _ sub]) simp
  also have "\<dots> \<le> card {..<253 :: nat}" by (rule card_image_le) simp
  finally show "card (dom (lan srv)) \<le> 253" by simp
qed

text \<open>The snapshot the server takes of its table is the directory as a list.\<close>

lemma snapshot_directory:
  assumes inv: "server_inv srv"
  defines "es \<equiv> server_snapshot_broadcast_locked srv TUND_MAX_PEERS (-1)"
  shows "distinct (map snap_virt_ip es)"
    "lan srv vip = Some (a, n) \<longleftrightarrow> (\<exists>e \<in> set es. snap_virt_ip e = vip \<and> snap_real_addr e = a \<and> take 31 (c_str (snap_name e)) = n)"
proof -
  let ?is = "filter (\<lambda>i. peer_active (srv_peers srv ! i)) [0..<253]"
  let ?snap = "\<lambda>i. server_snapshot_peer_locked (srv_peers srv ! i) i"
  have len: "length ?is \<le> 253" using length_filter_le [of _ "[0..<253]"] by simp
  have es: "es = map ?snap ?is" using len inv by (simp add: es_def server_snapshot_broadcast_locked_def)
  have nm: "take 31 (c_str (snap_name (?snap i))) = c_str (peer_name (srv_peers srv ! i))" if "i < 253" for i
  proof -
    have "peer_wf (srv_peers srv ! i)" using peers_ok_nth_wf [OF server_inv_peers_ok [OF inv]] that inv by simp
    then have "c_strlen (peer_name (srv_peers srv ! i)) < 32" using terminated_c_strlen by (fastforce simp: peer_wf_def)
    then show ?thesis by (simp add: server_snapshot_peer_locked_def c_str_snprintf c_strlen_def)
  qed
  have "inj_on (\<lambda>i. peer_virt_ip (srv_peers srv ! i)) (set ?is)"
  proof (rule inj_onI)
    fix i j assume ij: "i \<in> set ?is" "j \<in> set ?is" "peer_virt_ip (srv_peers srv ! i) = peer_virt_ip (srv_peers srv ! j)"
    then have "server_find_peer_by_vip srv (peer_virt_ip (srv_peers srv ! i)) = Some i"
      "server_find_peer_by_vip srv (peer_virt_ip (srv_peers srv ! i)) = Some j"
      using find_by_vip_unique [OF inv] by auto
    then show "i = j" by simp
  qed
  then show "distinct (map snap_virt_ip es)"
    by (simp add: es distinct_map comp_def server_snapshot_peer_locked_def)
  have "lan srv vip = Some (a, n) \<longleftrightarrow> (\<exists>i \<in> set ?is. peer_virt_ip (srv_peers srv ! i) = vip \<and>
      peer_real_addr (srv_peers srv ! i) = a \<and> c_str (peer_name (srv_peers srv ! i)) = n)"
    unfolding lan_iff [OF inv] by (auto simp: peer_identity_def split: if_splits)
  also have "\<dots> \<longleftrightarrow> (\<exists>e \<in> set es. snap_virt_ip e = vip \<and> snap_real_addr e = a \<and> take 31 (c_str (snap_name e)) = n)"
    unfolding es set_map bex_simps using nm by (intro bex_cong) (auto simp: server_snapshot_peer_locked_def)
  finally show "lan srv vip = Some (a, n) \<longleftrightarrow>
    (\<exists>e \<in> set es. snap_virt_ip e = vip \<and> snap_real_addr e = a \<and> take 31 (c_str (snap_name e)) = n)" .
qed

lemma snapshot_length:
  assumes "server_inv srv"
  shows "int (length (server_snapshot_broadcast_locked srv TUND_MAX_PEERS (-1))) = srv_peer_count srv"
proof -
  have "length (filter (\<lambda>i. peer_active (srv_peers srv ! i)) [0..<length (srv_peers srv)]) = count_if peer_active (srv_peers srv)"
    unfolding count_if_def by (subst (2) map_nth [of "srv_peers srv", symmetric]) (simp only: filter_map length_map comp_def)
  moreover have "count_if peer_active (srv_peers srv) \<le> 253" using count_if_le_length [of peer_active "srv_peers srv"] assms by simp
  ultimately show ?thesis using assms by (simp add: server_snapshot_broadcast_locked_def server_inv_def)
qed

section \<open>Messages and rosters\<close>

lemma c_str_name_array: "c_str (name_array 32 (take 31 (c_str n))) = take 31 (c_str n)"
  by (intro name_array_props(2)) (simp_all add: take_no_nul)

lemma roster_join_payload:
  "roster_message MSG_PEER_JOIN (join_payload vip name @ rest) (of_nat 36) m = enlist vip name m"
  by (simp add: roster_message_def join_payload_def slice_def name_array_props enlist_def c_str_name_array)

lemma roster_leave_payload:
  "roster_message MSG_PEER_LEAVE (mem_of_u32 vip @ rest) (of_nat 4) m = m(vip := None)"
  by (simp add: roster_message_def slice_def)

lemma roster_list_payload:
  assumes "length es \<le> 43"
  shows "roster_message MSG_PEER_LIST (list_payload es @ rest) (of_nat (37 * length es)) m =
    fold (\<lambda>e. enlist (snap_virt_ip e) (snap_name e)) es m"
proof -
  let ?l = "of_nat (37 * length es) :: u16"
  have u: "unat ?l = 37 * length es" using assms by (intro unat_of_nat_u16) simp
  have e: "roster_entry (list_payload es @ rest) ?l i m' = enlist (snap_virt_ip (es ! i)) (snap_name (es ! i)) m'"
    if "i < length es" for i m'
  proof -
    have "list_payload es @ rest = list_payload (take i es) @ entry_bytes (snap_virt_ip (es ! i)) (snap_name (es ! i)) True @
        (list_payload (drop (Suc i) es) @ rest)"
      using that by (subst (1) id_take_nth_drop [OF that]) (simp add: list_payload_def)
    then have "proto_read_peer_entry (list_payload es @ rest) ?l (int i) =
        Some (snap_virt_ip (es ! i), name_array 32 (take 31 (c_str (snap_name (es ! i)))), True)"
      using read_entry_bytes [of "list_payload (take i es)" i ?l] that u by simp
    then show ?thesis by (simp add: roster_entry_def enlist_def c_str_name_array)
  qed
  have "roster_message MSG_PEER_LIST (list_payload es @ rest) ?l m = fold (roster_entry (list_payload es @ rest) ?l) [0..<length es] m"
    using u by (simp add: roster_message_def)
  also have "\<dots> = fold (\<lambda>i. enlist (snap_virt_ip (es ! i)) (snap_name (es ! i))) [0..<length es] m"
    using e by (intro fold_cong) (auto simp: fun_eq_iff)
  also have "\<dots> = fold (\<lambda>e. enlist (snap_virt_ip e) (snap_name e)) (map ((!) es) [0..<length es]) m"
    by (simp only: fold_map comp_def)
  finally show ?thesis by (simp add: map_nth)
qed


text \<open>Entries for distinct new addresses all find their place.\<close>

lemma fold_enlist:
  assumes "distinct (map v es)" "finite (dom m)" "card (dom m) + length es \<le> TUND_MAX_PEERS" "dom m \<inter> v ` set es = {}"
  shows "fold (\<lambda>e. enlist (v e) (n e)) es m = m ++ map_of (map (\<lambda>e. (v e, take 31 (c_str (n e)))) es)"
  using assms
proof (induction es arbitrary: m)
  case (Cons e es)
  let ?m = "m(v e \<mapsto> take 31 (c_str (n e)))"
  have c: "card (insert (v e) (dom m)) = Suc (card (dom m))" using Cons.prems by (intro card_insert_disjoint) auto
  then have e: "enlist (v e) (n e) m = ?m" using Cons.prems(3) by (simp add: enlist_def)
  have "fold (\<lambda>e. enlist (v e) (n e)) es ?m = ?m ++ map_of (map (\<lambda>e. (v e, take 31 (c_str (n e)))) es)"
  proof (rule Cons.IH)
    have dm: "dom ?m = insert (v e) (dom m)" by simp
    show "finite (dom ?m)" using Cons.prems(2) by simp
    show "card (dom ?m) + length es \<le> 253" unfolding dm c using Cons.prems(3) by simp
    show "dom ?m \<inter> v ` set es = {}" unfolding dm using Cons.prems(1,4) by auto
  qed (use Cons.prems(1) in simp)
  moreover have "v e \<notin> dom (map_of (map (\<lambda>e. (v e, take 31 (c_str (n e)))) es))"
    using Cons.prems(1) by (auto simp: dom_map_of_conv_image_fst)
  ultimately have "fold (\<lambda>e. enlist (v e) (n e)) (e # es) m =
      (m ++ map_of (map (\<lambda>e. (v e, take 31 (c_str (n e)))) es))(v e \<mapsto> take 31 (c_str (n e)))"
    by (simp add: e map_add_upd_left)
  then show ?case by (simp only: list.map map_of.simps map_add_upd fst_conv snd_conv)
qed simp

lemma snapshot_map_of:
  assumes "server_inv srv"
  shows "map_of (map (\<lambda>e. (snap_virt_ip e, take 31 (c_str (snap_name e)))) (server_snapshot_broadcast_locked srv TUND_MAX_PEERS (-1))) =
    (\<lambda>vip. map_option snd (lan srv vip))"
proof
  fix vip
  let ?es = "server_snapshot_broadcast_locked srv TUND_MAX_PEERS (-1)"
  let ?al = "map (\<lambda>e. (snap_virt_ip e, take 31 (c_str (snap_name e)))) ?es"
  note d = snapshot_directory [OF assms]
  have "distinct (map fst ?al)" using d(1) by (simp add: comp_def)
  then have m: "map_of ?al vip = Some x \<longleftrightarrow> (\<exists>e \<in> set ?es. snap_virt_ip e = vip \<and> take 31 (c_str (snap_name e)) = x)" for x
    by (subst map_of_eq_Some_iff) auto
  have "map_of ?al vip = Some x \<longleftrightarrow> (\<exists>a. lan srv vip = Some (a, x))" for x
    unfolding m d(2) by blast
  then have "map_of ?al vip = Some x \<longleftrightarrow> map_option snd (lan srv vip) = Some x" for x by auto
  then show "map_of ?al vip = map_option snd (lan srv vip)" by (rule option_eqI)
qed

section \<open>From the wire to the roster\<close>

text \<open>
  The world of a client whose socket holds the datagram \<open>wire\<close> from \<open>src\<close>: it runs, polls readable and
  receives.
\<close>

definition receives :: "world \<Rightarrow> bytes \<Rightarrow> sockaddr_in \<Rightarrow> bool" where
  "receives v wire src \<longleftrightarrow>
     g_running v \<and> (\<forall>t. 0 < sys_poll (w_env v) t) \<and> (\<forall>t. sys_recvfrom (w_env v) t = RecvData wire src)"

text \<open>The client has not yet accepted the sequence number of the datagram, and it is not too old.\<close>

definition fresh_for :: "client_t \<Rightarrow> bytes \<Rightarrow> bool" where
  "fresh_for cli wire \<longleftrightarrow>
     (\<exists>q. proto_read_sequence wire = Some q \<and> fst (proto_replay_accept (cli_server_replay cli) q))"

text \<open>A sealed message on the socket gets past the poll and the decryption, with its header and its payload.\<close>

lemma socket_hears:
  assumes rcv: "receives v wire src" and msg: "sealed_msg (g_crypto_key v) (t, p, d) (wire, dest)"
    and p: "length p \<le> 1600" and buf: "length buf = TUND_MAX_PKT"
    and pl: "net_poll_peers peers tps n v = (ret, tps', np, v1)"
  obtains buf' v2 s where "ret = 1" "net_recv buf from v1 = (int (37 + length p), buf', src, v2)" "w_core v2 = w_core v"
    "proto_read_sequence wire = Some s" "proto_read_sequence buf' = Some s" "proto_read_hdr buf' = Inr (t, of_nat (length p))"
    "drop 37 buf' = p @ drop (37 + length p) buf'" "37 + length p \<le> length buf'"
proof -
  obtain s nc where sl: "s \<noteq> 0" "length nc = 24" "wire = sealed (g_crypto_key v) t s nc p"
    using msg by (auto simp: sealed_msg_def)
  have q: "proto_read_sequence wire = Some s"
    using sl by (simp add: sealed_def Let_def case_prod_beta)
  have "0 < sys_poll (w_env v) (w_tick v)" using rcv by (simp add: receives_def)
  then have v1: "ret = 1" "w_core v1 = w_core v"
    using pl by (auto simp: net_poll_peers_def platform_poll_one_def syscall_def w_core_def)
  note c1 = w_core_cong [OF v1(2)]
  obtain buf' v2 where rc: "net_recv buf from v1 = (int (37 + length p), buf', src, v2)"
      "take (37 + length p) buf' = opened t s nc p" "w_core v2 = w_core v1"
    using net_recv_sealed [of v1 t s nc p src buf "from"] rcv sl c1 p buf by (auto simp: receives_def)
  have l2: "37 + length p \<le> length buf'" using net_recv_length [OF rc(1)] buf p by simp
  show thesis
    using that [OF v1(1) rc(1) _ q] opened_hdr [OF rc(2) sl(2)] opened_read(3) [OF rc(2) sl(2) l2 sl(1)] l2 rc(3) v1(2) by simp
qed

lemma payload_u16:
  assumes "length (p :: bytes) \<le> 1600"
  shows "unat (of_nat (length p) :: u16) = length p" "uint (of_nat (length p) :: u16) = int (length p)"
proof -
  show u: "unat (of_nat (length p) :: u16) = length p" using assms by (intro unat_of_nat_u16) simp
  then show "uint (of_nat (length p) :: u16) = int (length p)" by (simp only: uint_nat)
qed

lemma client_hears_dispatch:
  assumes inv: "client_inv cli" and it: "client_run_iter l cli v = (go, l', cli', v')" and buf: "length (cl_buf l) = TUND_MAX_PKT"
    and rcv: "receives v wire src" and src: "net_addr_equal src (cli_server_addr cli)"
    and msg: "sealed_msg (g_crypto_key v) (t, p, d) (wire, dest)" and p: "length p \<le> 1600" and fr: "fresh_for cli wire"
  obtains cli1 w1 rest where "client_dispatch cli1 t (p @ rest) (of_nat (length p)) w1 = (cli', v')" "client_inv cli1"
    "known_peers cli1 = known_peers cli" "w_core w1 = w_core v"
proof -
  obtain ret tps np v1 where pl: "net_poll_peers (cli_peers cli) (cl_tui_peers l) (cl_npeers l) v = (ret, tps, np, v1)"
    by (metis prod_cases4)
  obtain buf v2 s where rc: "ret = 1" "net_recv (cl_buf l) (cl_from l) v1 = (int (37 + length p), buf, src, v2)" "w_core v2 = w_core v"
    "proto_read_sequence wire = Some s" "proto_read_sequence buf = Some s" "proto_read_hdr buf = Inr (t, of_nat (length p))"
    "drop 37 buf = p @ drop (37 + length p) buf"
    by (rule socket_hears [OF rcv msg p buf pl])
  have hp: "client_handle_server_packet cli buf (int (37 + length p)) v2 = (cli', v')"
    using it rcv pl rc(1,2) src
    by (simp add: client_run_iter_def receives_def tund_is_running_def Let_def case_prod_beta prod_eq_iff)
  obtain win where a: "proto_replay_accept (cli_server_replay cli) s = (True, win)"
    using fr rc(4) by (auto simp: fresh_for_def prod_eq_iff)
  have fits: "int TUND_HDR_SIZE + uint (of_nat (length p) :: u16) \<le> int (37 + length p)" using payload_u16 [OF p] by simp
  obtain cli1 w1 where dsp: "client_dispatch cli1 t (drop TUND_HDR_SIZE buf) (of_nat (length p)) w1 = (cli', v')" "w_core w1 = w_core v2"
      "\<exists>t. cli1 = cli\<lparr>cli_server_replay := win, cli_last_server_seen := t\<rparr>"
    using fresh_packet [OF hp rc(6) fits rc(5) a] by metis
  show thesis
    using that [OF dsp(1) [unfolded rc(7)]] dsp(2,3) rc(3) client_inv_accept [OF inv a] by (auto simp: known_peers_def)
qed

lemma client_hears:
  assumes inv: "client_inv cli" and it: "client_run_iter l cli v = (go, l', cli', v')" and buf: "length (cl_buf l) = TUND_MAX_PKT"
    and rcv: "receives v wire src" and src: "net_addr_equal src (cli_server_addr cli)"
    and msg: "sealed_msg (g_crypto_key v) (t, p, d) (wire, dest)" and p: "length p \<le> 1600" and fr: "fresh_for cli wire"
  shows "\<exists>rest. known_peers cli' = roster_message t (p @ rest) (of_nat (length p)) (known_peers cli)"
proof -
  obtain cli1 w1 rest where d: "client_dispatch cli1 t (p @ rest) (of_nat (length p)) w1 = (cli', v')" "client_inv cli1"
    "known_peers cli1 = known_peers cli"
    by (rule client_hears_dispatch [OF assms])
  from dispatch_roster [OF d(2) _ d(1)] payload_u16 [OF p] d(3) show ?thesis by auto
qed

text \<open>The threads never change the client's own address nor that of the server.\<close>

interpretation same_ends: client_sections "\<lambda>cli cli'. cli_virt_ip cli' = cli_virt_ip cli \<and> cli_server_addr cli' = cli_server_addr cli"
proof unfold_locales
  fix cli cli' :: client_t and vip name online and w w' :: world
  assume "client_update_peer cli vip name online w = (cli', w')"
  then show "cli_virt_ip cli' = cli_virt_ip cli \<and> cli_server_addr cli' = cli_server_addr cli"
    by (auto simp: update_peer_eq simp del: first_idx_None split: option.splits if_splits)
next
  fix cli cli' :: client_t and vip left_name remaining
  assume "client_leave_locked cli vip = (left_name, remaining, cli')"
  then show "cli_virt_ip cli' = cli_virt_ip cli \<and> cli_server_addr cli' = cli_server_addr cli"
    by (auto simp: client_leave_locked_def Let_def simp del: first_idx_None split: option.splits)
qed (auto simp: client_add_peer_traffic_def client_add_broadcast_traffic_def client_mark_server_seen_def Let_def case_prod_beta
    simp del: first_idx_None split: option.splits if_splits)

text \<open>Every message the server sent is some datagram of the wire.\<close>

definition datagrams :: "world \<Rightarrow> world \<Rightarrow> (bytes \<times> sockaddr_in) list" where
  "datagrams w w' = drop (length (w_sent w)) (w_sent w')"

lemma sends_datagrams:
  assumes "sends w w' ms ts"
  shows "list_all2 (sealed_msg (g_crypto_key w)) ms (datagrams w w')"
  using assms by (auto simp: sends_def delivered_def datagrams_def)

lemma sends_datagram:
  assumes "sends w w' ms ts" "(t, p, d) \<in> set ms"
  shows "\<exists>wire. (wire, d) \<in> set (datagrams w w') \<and> sealed_msg (g_crypto_key w) (t, p, d) (wire, d)"
proof -
  obtain i where i: "i < length ms" "ms ! i = (t, p, d)" using assms(2) by (auto simp: in_set_conv_nth)
  note l = sends_datagrams [OF assms(1)]
  obtain wire dest where e: "datagrams w w' ! i = (wire, dest)" by fastforce
  have "sealed_msg (g_crypto_key w) (t, p, d) (wire, dest)" using list_all2_nthD [OF l i(1)] i(2) e by simp
  moreover from this have "dest = d" by (simp add: sealed_msg_def)
  moreover have "(wire, dest) \<in> set (datagrams w w')"
    using e i(1) list_all2_lengthD [OF l] by (metis nth_mem)
  ultimately show ?thesis by blast
qed

lemma sends_message:
  assumes "sends w w' ms ts" "(wire, d) \<in> set (datagrams w w')"
  shows "\<exists>t p. (t, p, d) \<in> set ms \<and> sealed_msg (g_crypto_key w) (t, p, d) (wire, d)"
proof -
  note l = sends_datagrams [OF assms(1)]
  obtain i where i: "i < length (datagrams w w')" "datagrams w w' ! i = (wire, d)" using assms(2) by (auto simp: in_set_conv_nth)
  obtain t p d' where m: "ms ! i = (t, p, d')" by (metis prod_cases3)
  have il: "i < length ms" using i(1) list_all2_lengthD [OF l] by simp
  have "sealed_msg (g_crypto_key w) (t, p, d') (wire, d)" using list_all2_nthD [OF l il] i(2) m by simp
  moreover from this have "d' = d" by (simp add: sealed_msg_def)
  ultimately show ?thesis using m il nth_mem by metis
qed

text \<open>A client that the server lists, with its address, and the directory seen by it.\<close>

lemma agree_join:
  assumes inv: "server_inv srv'" and ag: "views_agree srv cli" and vip: "lan srv vip = None"
    and lan: "lan srv' = (lan srv)(vip \<mapsto> (a, c_str name))" and me: "lan srv (cli_virt_ip cli) \<noteq> None"
    and me': "cli_virt_ip cli' = cli_virt_ip cli" and k: "known_peers cli' = enlist vip name (known_peers cli)"
  shows "views_agree srv' cli'"
proof -
  have ne: "vip \<noteq> cli_virt_ip cli" using vip me by auto
  have sub: "insert vip (dom (known_peers cli)) \<subseteq> dom (lan srv')"
    using ag lan by (auto simp: views_agree_def split: if_splits)
  have "card (insert vip (dom (known_peers cli))) \<le> 253"
    using card_mono [OF lan_finite(1) [OF inv] sub] lan_finite(2) [OF inv] by (rule le_trans)
  moreover have "take 31 (c_str name) = c_str name"
    using lan_name_short [OF inv, of vip a "c_str name"] lan by simp
  ultimately show ?thesis using ag k ne lan me' by (auto simp: views_agree_def enlist_def fun_eq_iff)
qed

lemma agree_leave:
  assumes ag: "views_agree srv cli" and lan: "lan srv' = (lan srv)(vip := None)" and ne: "vip \<noteq> cli_virt_ip cli"
    and me': "cli_virt_ip cli' = cli_virt_ip cli" and k: "known_peers cli' = (known_peers cli)(vip := None)"
  shows "views_agree srv' cli'"
  using ag k ne lan me' by (auto simp: views_agree_def fun_eq_iff)

text \<open>The list of the peers present brings a client that knows nobody up to date, if it is not cut.\<close>

lemma agree_newcomer:
  assumes inv: "server_inv srv" and few: "length (server_snapshot_broadcast_locked srv TUND_MAX_PEERS (-1)) \<le> 43"
    and vip: "lan srv vip = None" and lan: "lan srv' = (lan srv)(vip \<mapsto> e)"
    and me: "cli_virt_ip cli' = vip"
    and k: "known_peers cli' = roster_message MSG_PEER_LIST
      (list_payload (take 43 (server_snapshot_broadcast_locked srv TUND_MAX_PEERS (-1))) @ rest)
      (of_nat (length (list_payload (take 43 (server_snapshot_broadcast_locked srv TUND_MAX_PEERS (-1)))))) Map.empty"
  shows "views_agree srv' cli'"
proof -
  let ?es = "server_snapshot_broadcast_locked srv TUND_MAX_PEERS (-1)"
  have "known_peers cli' = fold (\<lambda>e. enlist (snap_virt_ip e) (snap_name e)) ?es Map.empty"
    using k roster_list_payload [OF few, of rest Map.empty] few by simp
  also have "\<dots> = Map.empty ++ map_of (map (\<lambda>e. (snap_virt_ip e, take 31 (c_str (snap_name e)))) ?es)"
    using snapshot_directory(1) [OF inv] few by (intro fold_enlist) simp_all
  also have "\<dots> = (\<lambda>vip. map_option snd (lan srv vip))" using snapshot_map_of [OF inv] by simp
  finally show ?thesis using vip lan me by (auto simp: views_agree_def fun_eq_iff)
qed

text \<open>Endpoints: two listed peers do not share one, and an unregistered endpoint is nobody's.\<close>

lemma lan_endpoint:
  assumes inv: "server_inv srv" and l: "lan srv vip = Some (a, n)"
  shows "\<exists>j < 253. server_find_peer_by_addr srv a = Some j \<and> peer_virt_ip (srv_peers srv ! j) = vip \<and>
    peer_active (srv_peers srv ! j) \<and> peer_real_addr (srv_peers srv ! j) = a"
proof -
  obtain j where j: "j < 253" "peer_identity (srv_peers srv ! j) = Some (vip, a, n)" using l lan_iff [OF inv] by blast
  then have p: "peer_active (srv_peers srv ! j)" "peer_virt_ip (srv_peers srv ! j) = vip" "peer_real_addr (srv_peers srv ! j) = a"
    by (auto simp: peer_identity_def split: if_splits)
  have "server_find_peer_by_addr srv a = Some j"
    using p(3) by (intro find_by_addr_unique [OF inv j(1) p(1)]) (simp add: peer_key_def)
  then show ?thesis using j(1) p by blast
qed

lemma snapshot_excluding:
  assumes inv: "server_inv srv" and l: "lan srv vip = Some (a, n)" and i: "peer_virt_ip (srv_peers srv ! i) \<noteq> vip"
  shows "a \<in> snap_real_addr ` set (server_snapshot_broadcast_locked srv TUND_MAX_PEERS (int i))"
proof -
  obtain j where j: "j < 253" "peer_virt_ip (srv_peers srv ! j) = vip" "peer_active (srv_peers srv ! j)" "peer_real_addr (srv_peers srv ! j) = a"
    using lan_endpoint [OF inv l] by blast
  let ?is = "filter (\<lambda>k. peer_active (srv_peers srv ! k) \<and> int k \<noteq> int i) [0..<253]"
  have len: "length ?is \<le> 253" using length_filter_le [of _ "[0..<253]"] by simp
  have "j \<in> set ?is" using j i by auto
  then have "snap_real_addr (server_snapshot_peer_locked (srv_peers srv ! j) j) \<in>
      snap_real_addr ` set (map (\<lambda>k. server_snapshot_peer_locked (srv_peers srv ! k) k) ?is)"
    unfolding set_map by (intro imageI)
  moreover have "server_snapshot_broadcast_locked srv TUND_MAX_PEERS (int i) = map (\<lambda>k. server_snapshot_peer_locked (srv_peers srv ! k) k) ?is"
    using len inv by (simp add: server_snapshot_broadcast_locked_def)
  ultimately show ?thesis using j(4) by (simp add: server_snapshot_peer_locked_def)
qed

section \<open>A concrete pair\<close>

lemma demo_lan: "lan demo_server = [htonl 0x0A090002 \<mapsto> (demo_addr 0, lit ''peer''), htonl 0x0A090003 \<mapsto> (demo_addr 1, lit ''peer'')]"
proof
  fix vip
  have "0 \<notin> set (lit ''peer'')" by code_simp
  then have n: "c_str (peer_name (demo_peer k)) = lit ''peer''" for k by (simp add: demo_peer_def name_array_props)
  have ne: "htonl 0x0A090002 \<noteq> htonl 0x0A090003" by code_simp
  have ps: "srv_peers demo_server = demo_peer 0 # demo_peer 1 # replicate 251 peer0" by (simp add: demo_server_def)
  show "lan demo_server vip = [htonl 0x0A090002 \<mapsto> (demo_addr 0, lit ''peer''), htonl 0x0A090003 \<mapsto> (demo_addr 1, lit ''peer'')] vip"
    using ne by (simp add: lan_def server_find_peer_by_vip_def ps n)
qed

lemma demo_known: "known_peers demo_client = [htonl 0x0A090003 \<mapsto> lit ''peer'']"
proof -
  let ?p = "peer0\<lparr>peer_active := True, peer_virt_ip := htonl 0x0A090003, peer_name := name_array 32 (lit ''peer'')\<rparr>"
  have "0 \<notin> set (lit ''peer'')" by code_simp
  then have n: "c_str (peer_name ?p) = lit ''peer''" by (simp add: name_array_props)
  have "named_ok ?p" by (simp add: named_ok_def name_array_props)
  then have "roster_view ((replicate TUND_MAX_PEERS peer0)[0 := ?p]) =
      (roster_view (replicate TUND_MAX_PEERS peer0))(htonl 0x0A090003 \<mapsto> c_str (peer_name ?p))"
    by (intro roster_set(2) [OF roster_ok_initial]) simp_all
  moreover have "roster_view (replicate TUND_MAX_PEERS peer0) = Map.empty" by (simp add: roster_view_def fun_eq_iff)
  ultimately show ?thesis unfolding n by (simp add: known_peers_def demo_client_def client0_def)
qed

lemma demo_agree: "views_agree demo_server demo_client"
proof -
  have "htonl 0x0A090002 \<noteq> htonl 0x0A090003" by code_simp
  then show ?thesis by (auto simp: views_agree_def demo_lan demo_known fun_eq_iff) (simp_all add: demo_client_def)
qed

definition demo_rx :: "bytes \<Rightarrow> world" where
  "demo_rx wire = demo_world\<lparr>w_env := demo_env\<lparr>sys_poll := (\<lambda>_. 1), sys_recvfrom := (\<lambda>_. RecvData wire demo_server_addr)\<rparr>\<rparr>"

definition demo_locals :: client_locals where
  "demo_locals = \<lparr>cl_buf = zeros TUND_MAX_PKT, cl_from = sockaddr0, cl_tui_peers = [], cl_npeers = 0\<rparr>"

lemma demo_receives: "receives (demo_rx wire) wire demo_server_addr" "g_crypto_key (demo_rx wire) = g_crypto_key demo_world"
  "net_ok (demo_rx wire)" "length (cl_buf demo_locals) = TUND_MAX_PKT"
  using net_ok_demo unfolding net_ok_def random_ok_def send_ok_def
  by (simp_all add: receives_def demo_rx_def demo_locals_def demo_world_def demo_env_def)

text \<open>A client whose window is empty accepts every datagram.\<close>

lemma fresh_for_reset:
  assumes "sealed_msg key m (wire, d)" "cli_server_replay cli = proto_replay_reset"
  shows "fresh_for cli wire"
proof -
  obtain t p dd where m: "m = (t, p, dd)" by (metis prod_cases3)
  obtain s n where sl: "s \<noteq> 0" "length n = 24" "wire = sealed key t s n p" using assms(1) by (auto simp: sealed_msg_def m)
  have "proto_read_sequence wire = Some s" using sl by (simp add: sealed_def Let_def case_prod_beta)
  moreover have "fst (proto_replay_accept proto_replay_reset s)"
    using window.fresh_accepted [OF window.repr_reset sl(1)] by simp
  ultimately show ?thesis using assms(2) by (simp add: fresh_for_def)
qed

lemma demo_client_fields [simp]:
  "cli_server_replay demo_client = proto_replay_reset" "cli_server_addr demo_client = demo_server_addr"
  "cli_virt_ip demo_client = htonl 0x0A090002"
  by (simp_all add: demo_client_def client0_def)

definition demo_newcomer :: client_t where
  "demo_newcomer = (client0 demo_config)\<lparr>cli_server_addr := demo_server_addr\<rparr>"

lemma demo_newcomer_facts [simp]:
  "client_inv demo_newcomer" "c_strlen (cli_name demo_newcomer) < 65536" "cli_server_addr demo_newcomer = demo_server_addr"
  "cli_server_replay demo_newcomer = proto_replay_reset" "known_peers (demo_newcomer\<lparr>cli_virt_ip := vip\<rparr>) = Map.empty"
  "client_inv (demo_newcomer\<lparr>cli_virt_ip := vip\<rparr>)"
  using client0_inv [of demo_config]
  by (simp_all add: demo_newcomer_def known_peers_def client_inv_def)
    (simp_all add: client0_def roster_view_def fun_eq_iff)

text \<open>A registration at the concrete server, and the datagrams it puts on the wire.\<close>

lemma demo_registration:
  obtains srv' w' vip nm m1 m2 wire1 wire2 others wire
  where "server_handle_register demo_server (lit ''eve'') 3 (demo_addr 9) 1 demo_world = (srv', w')"
    "lan srv' vip = Some (demo_addr 9, nm)" "datagrams demo_world w' = (wire1, demo_addr 9) # (wire2, demo_addr 9) # others"
    "sealed_msg (g_crypto_key demo_world) m1 (wire1, demo_addr 9)" "sealed_msg (g_crypto_key demo_world) m2 (wire2, demo_addr 9)"
    "(wire, demo_addr 0) \<in> set (datagrams demo_world w')" "\<exists>m. sealed_msg (g_crypto_key demo_world) m (wire, demo_addr 0)"
proof -
  let ?es = "server_snapshot_broadcast_locked demo_server TUND_MAX_PEERS (-1)"
  obtain srv' w' where h: "server_handle_register demo_server (lit ''eve'') 3 (demo_addr 9) 1 demo_world = (srv', w')" by fastforce
  obtain vip name where r: "lan srv' = (lan demo_server)(vip \<mapsto> (demo_addr 9, c_str name))"
    "sends demo_world w' ((MSG_ASSIGN, assign_payload vip (htonl TUND_NETMASK) (of_nat TUND_TUN_MTU), demo_addr 9) #
      (MSG_PEER_LIST, list_payload (take 43 ?es), demo_addr 9) # map (\<lambda>p. (MSG_PEER_JOIN, join_payload vip name, snap_real_addr p)) ?es) []"
    using registration_new [OF demo_server_inv net_ok_demo _ _ _ h] by (fastforce simp: Let_def)
  have "htonl 0x0A090002 \<noteq> htonl 0x0A090003" by code_simp
  then have "lan demo_server (htonl 0x0A090002) = Some (demo_addr 0, lit ''peer'')" by (simp add: demo_lan)
  then have "demo_addr 0 \<in> snap_real_addr ` set ?es" using snapshot_directory(2) [OF demo_server_inv] by force
  then obtain wire where wr: "(wire, demo_addr 0) \<in> set (datagrams demo_world w')"
      "sealed_msg (g_crypto_key demo_world) (MSG_PEER_JOIN, join_payload vip name, demo_addr 0) (wire, demo_addr 0)"
    using sends_datagram [OF r(2), of MSG_PEER_JOIN "join_payload vip name" "demo_addr 0"] by force
  obtain d1 d2 others where d: "datagrams demo_world w' = d1 # d2 # others"
      "sealed_msg (g_crypto_key demo_world) (MSG_ASSIGN, assign_payload vip (htonl TUND_NETMASK) (of_nat TUND_TUN_MTU), demo_addr 9) d1"
      "sealed_msg (g_crypto_key demo_world) (MSG_PEER_LIST, list_payload (take 43 ?es), demo_addr 9) d2"
    using sends_datagrams [OF r(2)] by (auto simp: list_all2_Cons1)
  then have "d1 = (fst d1, demo_addr 9)" "d2 = (fst d2, demo_addr 9)" by (auto simp: sealed_msg_def)
  then show thesis using that [OF h, of vip "c_str name" "fst d1" "fst d2"] r(1) d wr by (metis fun_upd_same)
qed

end
