(* ===== verification/Lan_Delivery.thy ===== *)
theory Lan_Delivery
  imports Lan_Session
begin

text \<open>
  A packet on its way through the virtual LAN, hop by hop: from the TUN device of a client to the server
  (\<open>client_tun_iter\<close>), through the server's main loop (\<open>server_run_iter\<close>) to the other endpoints, and through a
  client's main loop (\<open>client_run_iter\<close>) to its TUN device.
\<close>

section \<open>The first hop\<close>

text \<open>The device holds the packet: the client runs, and its device polls readable and gives the packet.\<close>

definition tun_holds :: "world \<Rightarrow> bytes \<Rightarrow> bool" where
  "tun_holds u pkt \<longleftrightarrow>
     g_running u \<and> (\<forall>t. 0 < sys_poll (w_env u) t) \<and> (\<forall>t. sys_tun_read (w_env u) t = ReadData pkt)"

lemma client_sends_packet:
  assumes it: "client_tun_iter cli u = (go, cli', u')" and net: "net_ok u" and t: "tun_holds u pkt" "\<not> cli_tun_quit cli"
    and p: "length pkt \<le> 1600" and ok: "ipv4_ok pkt (length pkt)"
  shows "sends u u' [(MSG_DATA, pkt, cli_server_addr cli)] [] \<and> known_peers cli' = known_peers cli"
proof -
  have l: "20 \<le> length pkt" using ok by (simp add: ipv4_ok_def)
  obtain n b u1 where r: "tun_read (cli_tun cli) 1600 u = (n, b, u1)" by (metis prod_cases3)
  have "\<not> sys_poll (w_env u) (w_tick u) \<le> 0" using t(1) by (simp add: tun_holds_def not_le)
  then have rd: "n = int (length pkt)" "b = pkt" "w_core u1 = w_core u"
    using r t(1) p by (auto simp: tun_read_def tun_holds_def syscall_def w_core_def)
  have c: "client_tun_packet cli pkt (int (length pkt)) u1 = (cli', u')"
    using it t r rd(1,2) l by (auto simp: client_tun_iter_def tun_holds_def tund_is_running_def Let_def split: prod.splits if_splits)
  have s: "sends u u1 [] []" "net_ok u1" using sends_core [OF net rd(3)] net_ok_core [OF rd(3)] net by simp_all
  have "sends u1 u' [(MSG_DATA, pkt, cli_server_addr cli)] [] \<and> known_peers cli' = known_peers cli"
    using client_forwards_tun_packet [OF c s(2)] l p ok by fastforce
  then show ?thesis using sends_trans [OF s(1), of u' "[(MSG_DATA, pkt, cli_server_addr cli)]" "[]"] by simp
qed

section \<open>The server\<close>

text \<open>The server has not accepted the sequence number of the datagram from this endpoint.\<close>

definition server_fresh :: "server_t \<Rightarrow> sockaddr_in \<Rightarrow> bytes \<Rightarrow> bool" where
  "server_fresh srv from wire \<longleftrightarrow> (\<exists>q. proto_read_sequence wire = Some q \<and> fst (server_accept_locked srv from q))"

lemma ipv4_ok_append: "ipv4_ok p (length p) \<Longrightarrow> ipv4_ok (p @ rest) (length p)"
  by (auto simp: ipv4_ok_def nth_append slice_def)

lemma server_hears_data:
  assumes inv: "server_inv srv" and it: "server_run_iter l srv w = (go, l', srv', w')" and buf: "length (rl_buf l) = TUND_MAX_PKT"
    and rcv: "receives w wire from" and msg: "sealed_msg (g_crypto_key w) (MSG_DATA, p, d) (wire, dest)"
    and p: "length p \<le> 1600" and fr: "server_fresh srv from wire"
  obtains srv1 w1 rest where "server_handle_data srv1 (p @ rest) (of_nat (length p)) from w1 = (srv', w')" "server_inv srv1"
    "tbl_touch srv srv1" "w_core w1 = w_core w"
proof -
  obtain ret tps np v1 where pl: "net_poll_peers (srv_peers srv) (rl_tui_peers l) (rl_npeers l) w = (ret, tps, np, v1)"
    by (metis prod_cases4)
  obtain buf v2 s where rc: "ret = 1" "net_recv (rl_buf l) (rl_from l) v1 = (int (37 + length p), buf, from, v2)" "w_core v2 = w_core w"
    "proto_read_sequence wire = Some s" "proto_read_sequence buf = Some s" "proto_read_hdr buf = Inr (MSG_DATA, of_nat (length p))"
    "drop 37 buf = p @ drop (37 + length p) buf"
    by (rule socket_hears [OF rcv msg p buf pl])
  have hp: "server_handle_packet srv buf (int (37 + length p)) from v2 = (srv', w')"
    using it rcv pl rc(1,2)
    by (simp add: server_run_iter_def receives_def tund_is_running_def Let_def case_prod_beta prod_eq_iff)
  obtain ok srv1 w1 where acc: "server_accept_registered_sequence srv from s v2 = (ok, srv1, w1)" by (metis prod_cases3)
  obtain known where ac: "server_accept_locked srv from s = (ok, known, srv1)" and c: "w_core w1 = w_core v2"
    using accept_registered_locked [OF acc] by blast
  have ok: ok using fr rc(4) ac by (simp add: server_fresh_def)
  have "server_handle_data srv1 (drop 37 buf) (of_nat (length p)) from w1 = (srv', w')"
    using hp rc(5,6) acc ok payload_u16 [OF p] by (simp add: server_handle_packet_def Let_def)
  then show thesis
    using that [of srv1 "drop (37 + length p) buf" w1] rc(3,7) c server_accept_locked_inv [OF inv ac] accept_effect [OF ac] by simp
qed

lemma server_relays:
  assumes inv: "server_inv srv" and it: "server_run_iter l srv w = (go, l', srv', w')" and buf: "length (rl_buf l) = TUND_MAX_PKT"
    and rcv: "receives w wire from" and msg: "sealed_msg (g_crypto_key w) (MSG_DATA, p, d) (wire, dest)"
    and p: "length p \<le> 1600" and fr: "server_fresh srv from wire"
    and net: "net_ok w" "tun_write_ok (w_env w)" and ok: "ipv4_ok p (length p)"
  shows "\<exists>srv1. server_inv srv1 \<and> tbl_touch srv srv1 \<and> lan srv' = lan srv \<and>
    sends w w' (fst (data_route srv1 p from)) (snd (data_route srv1 p from))"
proof -
  obtain srv1 w1 rest where h: "server_handle_data srv1 (p @ rest) (of_nat (length p)) from w1 = (srv', w')" "server_inv srv1"
    "tbl_touch srv srv1" "w_core w1 = w_core w"
    by (rule server_hears_data [OF inv it buf rcv msg p fr])
  note u = payload_u16 [OF p] and c = w_core_cong [OF h(4)]
  have s: "sends w w1 [] []" "net_ok w1" "tun_write_ok (w_env w1)"
    using sends_core [OF net(1) h(4)] net_ok_core [OF h(4)] net c by simp_all
  have len: "unat (of_nat (length p) :: u16) \<le> length (p @ rest)" "unat (of_nat (length p) :: u16) \<le> TUND_MAX_PLAINTEXT"
    using u p by simp_all
  note D = handle_data_route [OF h(2) s(2,3) len h(1)]
  have "sends w1 w' (fst (data_route srv1 p from)) (snd (data_route srv1 p from))" "lan srv' = lan srv1"
    using D ipv4_ok_append [OF ok, of rest] u by simp_all
  then show ?thesis using sends_trans [OF s(1)] touch_lan [OF h(3) inv h(2)] h(2,3) by (metis append_Nil)
qed

lemma unicast_route:
  assumes inv: "server_inv srv" and src: "lan srv (u32_of_mem (slice 12 4 p)) = Some (from, n)"
    and dst: "lan srv (u32_of_mem (slice 16 4 p)) = Some (b, m)"
  shows "data_route srv p from = ([(MSG_DATA, p, b)], [])"
proof -
  obtain j where "server_find_peer_by_addr srv from = Some j" "peer_virt_ip (srv_peers srv ! j) = u32_of_mem (slice 12 4 p)"
    using lan_endpoint [OF inv src] by blast
  then show ?thesis using pool_lan_host [OF lan_pool [OF inv dst]] dst by (simp add: data_route_def)
qed

lemma broadcast_route:
  assumes inv: "server_inv srv" and src: "lan srv (u32_of_mem (slice 12 4 p)) = Some (from, n)"
    and dst: "u32_of_mem (slice 16 4 p) = htonl 0x0A0900FF"
    and b: "lan srv vip = Some (b, m)" "vip \<noteq> u32_of_mem (slice 12 4 p)"
  shows "(MSG_DATA, p, b) \<in> set (fst (data_route srv p from))" "snd (data_route srv p from) = [p]"
    "\<And>x. x \<in> set (fst (data_route srv p from)) \<Longrightarrow> \<exists>a. x = (MSG_DATA, p, a)"
proof -
  obtain j where j: "server_find_peer_by_addr srv from = Some j" "peer_virt_ip (srv_peers srv ! j) = u32_of_mem (slice 12 4 p)"
    using lan_endpoint [OF inv src] by blast
  have ne: "htonl 0x0A0900FF \<noteq> htonl TUND_SERVER_IP" by code_simp
  have r: "data_route srv p from =
      (map (\<lambda>q. (MSG_DATA, p, snap_real_addr q)) (server_snapshot_broadcast_locked srv TUND_MAX_PEERS (int j)), [p])"
    using j dst ne by (simp add: data_route_def)
  show "snd (data_route srv p from) = [p]" "\<And>x. x \<in> set (fst (data_route srv p from)) \<Longrightarrow> \<exists>a. x = (MSG_DATA, p, a)"
    unfolding r by auto
  have "b \<in> snap_real_addr ` set (server_snapshot_broadcast_locked srv TUND_MAX_PEERS (int j))"
    using snapshot_excluding [OF inv b(1)] j(2) b(2) by simp
  then show "(MSG_DATA, p, b) \<in> set (fst (data_route srv p from))" unfolding r by auto
qed

section \<open>The last hop\<close>

text \<open>A data message of the server ends up on the client's device.\<close>

lemma client_delivers:
  assumes inv: "client_inv cli" and it: "client_run_iter l cli v = (go, l', cli', v')" and buf: "length (cl_buf l) = TUND_MAX_PKT"
    and rcv: "receives v wire src" and src: "net_addr_equal src (cli_server_addr cli)"
    and msg: "sealed_msg (g_crypto_key v) (MSG_DATA, p, d) (wire, dest)" and p: "length p \<le> 1600" and fr: "fresh_for cli wire"
    and net: "net_ok v" "tun_write_ok (w_env v)" and ok: "ipv4_ok p (length p)"
  shows "sends v v' [] [p] \<and> known_peers cli' = known_peers cli"
proof -
  obtain cli1 w1 rest where d: "client_dispatch cli1 MSG_DATA (p @ rest) (of_nat (length p)) w1 = (cli', v')" "client_inv cli1"
    "known_peers cli1 = known_peers cli" "w_core w1 = w_core v"
    by (rule client_hears_dispatch [OF inv it buf rcv src msg p fr])
  note u = payload_u16 [OF p] and c = w_core_cong [OF d(4)]
  have len: "unat (of_nat (length p) :: u16) \<le> length (p @ rest)" using u by simp
  have s: "sends v w1 [] []" "net_ok w1" "tun_write_ok (w_env w1)"
    using sends_core [OF net(1) d(4)] net_ok_core [OF d(4)] net c by simp_all
  have i: "ipv4_ok (p @ rest) (length p)" using ok by (rule ipv4_ok_append)
  have "sends v v' [] [p]"
    using sends_trans [OF s(1) dispatch_sends [OF d(2) s(2,3) len d(1)]] i u by simp
  moreover have "known_peers cli' = known_peers cli" 
    using dispatch_roster [OF d(2) len d(1)] d(3) by (simp add: roster_message_def)
  ultimately show ?thesis by simp
qed

section \<open>Hops\<close>

lemma sends_single:
  assumes "sends w w' [(t, p, d)] ts"
  shows "\<exists>wire. datagrams w w' = [(wire, d)] \<and> sealed_msg (g_crypto_key w) (t, p, d) (wire, d)"
  using sends_datagrams [OF assms] by (auto simp: list_all2_Cons1 sealed_msg_def)

lemma sends_quiet: "sends w w' [] ts \<Longrightarrow> w_sent w' = w_sent w \<and> w_tun_out w' = w_tun_out w @ ts"
  by (simp add: sends_def delivered_def)

text \<open>The datagram is there for the server, and for a client, in a world where the network and the device work.\<close>

definition server_gets :: "u8 list \<Rightarrow> server_t \<Rightarrow> bytes \<Rightarrow> sockaddr_in \<Rightarrow> run_locals \<Rightarrow> world \<Rightarrow> bool" where
  "server_gets key srv wire from l w \<longleftrightarrow>
     net_ok w \<and> tun_write_ok (w_env w) \<and> g_crypto_key w = key \<and> receives w wire from \<and> server_fresh srv from wire \<and>
     length (rl_buf l) = TUND_MAX_PKT"

definition client_gets :: "u8 list \<Rightarrow> client_t \<Rightarrow> bytes \<Rightarrow> client_locals \<Rightarrow> world \<Rightarrow> bool" where
  "client_gets key cli wire l v \<longleftrightarrow>
     net_ok v \<and> tun_write_ok (w_env v) \<and> g_crypto_key v = key \<and>
     (\<exists>src. receives v wire src \<and> net_addr_equal src (cli_server_addr cli)) \<and> fresh_for cli wire \<and> length (cl_buf l) = TUND_MAX_PKT"

lemma server_hop:
  assumes inv: "server_inv srv" and g: "server_gets key srv wire a l w" and it: "server_run_iter l srv w = (go, l', srv', w')"
    and msg: "sealed_msg key (MSG_DATA, pkt, d) (wire, dest)" and pkt: "length pkt \<le> 1600" "ipv4_ok pkt (length pkt)"
  shows "\<exists>srv1. server_inv srv1 \<and> lan srv1 = lan srv \<and> lan srv' = lan srv \<and>
    sends w w' (fst (data_route srv1 pkt a)) (snd (data_route srv1 pkt a))"
proof -
  have h: "length (rl_buf l) = TUND_MAX_PKT" "receives w wire a" "server_fresh srv a wire" "net_ok w" "tun_write_ok (w_env w)"
      "sealed_msg (g_crypto_key w) (MSG_DATA, pkt, d) (wire, dest)"
    using g msg by (simp_all add: server_gets_def)
  from server_relays [OF inv it h(1,2,6) pkt(1) h(3-5) pkt(2)] show ?thesis using touch_lan [OF _ inv] by blast
qed

lemma client_hop:
  assumes inv: "client_inv cli" and g: "client_gets key cli wire l v" and it: "client_run_iter l cli v = (go, l', cli', v')"
    and msg: "sealed_msg key (MSG_DATA, pkt, d) (wire, dest)" and pkt: "length pkt \<le> 1600" "ipv4_ok pkt (length pkt)"
  shows "w_tun_out v' = w_tun_out v @ [pkt] \<and> w_sent v' = w_sent v \<and> known_peers cli' = known_peers cli"
proof -
  obtain src where h: "length (cl_buf l) = TUND_MAX_PKT" "receives v wire src" "net_addr_equal src (cli_server_addr cli)"
      "sealed_msg (g_crypto_key v) (MSG_DATA, pkt, d) (wire, dest)" "fresh_for cli wire" "net_ok v" "tun_write_ok (w_env v)"
    using g msg by (auto simp: client_gets_def)
  from client_delivers [OF inv it h(1-4) pkt(1) h(5-7) pkt(2)] show ?thesis by (auto dest: sends_quiet)
qed

section \<open>A concrete LAN\<close>

text \<open>Two clients of the concrete server, the window of the first empty; their packets; and the worlds they run in.\<close>

definition demo_relay :: server_t where
  "demo_relay = demo_server\<lparr>srv_peers := (srv_peers demo_server)[0 := (demo_peer 0)\<lparr>peer_replay := proto_replay_reset\<rparr>]\<rparr>"

definition demo_hello :: "u8 \<Rightarrow> bytes" where
  "demo_hello host = [0x45, 0, 0, 20] @ zeros 8 @ [10, 9, 0, 2, 10, 9, 0, host]"

definition demo_tun :: "bytes \<Rightarrow> world" where
  "demo_tun pkt = demo_world\<lparr>w_env := demo_env\<lparr>sys_poll := (\<lambda>_. 1), sys_tun_read := (\<lambda>_. ReadData pkt)\<rparr>\<rparr>"

definition demo_rx_from :: "bytes \<Rightarrow> sockaddr_in \<Rightarrow> world" where
  "demo_rx_from wire from = demo_world\<lparr>w_env := demo_env\<lparr>sys_poll := (\<lambda>_. 1), sys_recvfrom := (\<lambda>_. RecvData wire from)\<rparr>\<rparr>"

definition demo_run_locals :: run_locals where
  "demo_run_locals = \<lparr>rl_buf = zeros TUND_MAX_PKT, rl_from = sockaddr0, rl_tui_peers = [], rl_npeers = 0\<rparr>"

lemma demo_relay_facts: "server_inv demo_relay" "lan demo_relay = lan demo_server"
proof -
  have p: "srv_peers demo_server ! 0 = demo_peer 0" by (simp add: demo_server_def)
  have wf: "peer_wf ((demo_peer 0)\<lparr>peer_replay := proto_replay_reset\<rparr>)"
    using demo_peer_wf [of 0] window.repr_reset unfolding peer_wf_def by auto
  show inv: "server_inv demo_relay"
    unfolding demo_relay_def using wf p
    by (intro server_inv_update [OF demo_server_inv]) (simp_all add: peer_kept_def peer_key_def)
  have "peer_identity (srv_peers demo_relay ! i) = peer_identity (srv_peers demo_server ! i)" for i
    by (cases i) (simp_all add: demo_relay_def demo_server_def peer_identity_def)
  then show "lan demo_relay = lan demo_server" using lan_cong [OF demo_server_inv inv] by simp
qed

lemma demo_hello_ok:
  "ipv4_ok (demo_hello 3) 20" "ipv4_ok (demo_hello 255) 20" "length (demo_hello h) = 20"
  "u32_of_mem (slice 12 4 (demo_hello h)) = htonl 0x0A090002" "u32_of_mem (slice 16 4 (demo_hello 3)) = htonl 0x0A090003"
  "u32_of_mem (slice 16 4 (demo_hello 255)) = htonl 0x0A0900FF"
proof -
  show "ipv4_ok (demo_hello 3) 20" "ipv4_ok (demo_hello 255) 20" "u32_of_mem (slice 16 4 (demo_hello 3)) = htonl 0x0A090003"
    "u32_of_mem (slice 16 4 (demo_hello 255)) = htonl 0x0A0900FF" by code_simp+
  show "length (demo_hello h) = 20" by (simp add: demo_hello_def)
  have "u32_of_mem [10, 9, 0, 2] = htonl 0x0A090002" by code_simp
  then show "u32_of_mem (slice 12 4 (demo_hello h)) = htonl 0x0A090002" by (simp add: demo_hello_def slice_def)
qed

lemma demo_tun_facts: "net_ok (demo_tun pkt)" "tun_holds (demo_tun pkt) pkt" "g_crypto_key (demo_tun pkt) = g_crypto_key demo_world"
  "\<not> cli_tun_quit demo_client"
  using net_ok_demo unfolding net_ok_def random_ok_def send_ok_def
  by (simp_all add: tun_holds_def demo_tun_def demo_world_def demo_env_def) (simp add: demo_client_def client0_def)

lemma demo_relay_gets:
  assumes "sealed_msg (g_crypto_key demo_world) m (wire, d)"
  shows "server_gets (g_crypto_key demo_world) demo_relay wire (demo_addr 0) demo_run_locals (demo_rx_from wire (demo_addr 0))"
proof -
  obtain t p dd where m: "m = (t, p, dd)" by (metis prod_cases3)
  obtain s n where sl: "s \<noteq> 0" "length n = 24" "wire = sealed (g_crypto_key demo_world) t s n p"
    using assms by (auto simp: sealed_msg_def m)
  have q: "proto_read_sequence wire = Some s" using sl by (simp add: sealed_def Let_def case_prod_beta)
  have a: "fst (proto_replay_accept proto_replay_reset s)" using window.fresh_accepted [OF window.repr_reset sl(1)] by simp
  have "server_find_peer_by_addr demo_relay (demo_addr 0) = Some 0"
    by (rule find_by_addr_unique [OF demo_relay_facts(1)]) (simp_all add: demo_relay_def demo_server_def demo_peer_def peer_key_def)
  moreover have "peer_replay (srv_peers demo_relay ! 0) = proto_replay_reset" by (simp add: demo_relay_def demo_server_def)
  ultimately have "server_fresh demo_relay (demo_addr 0) wire"
    using q a by (auto simp: server_fresh_def server_accept_locked_def Let_def split: prod.splits)
  then show ?thesis
    using net_ok_demo tun_write_ok_demo unfolding net_ok_def random_ok_def send_ok_def
    by (simp add: server_gets_def receives_def demo_rx_from_def demo_run_locals_def net_ok_def random_ok_def send_ok_def tun_write_ok_def)
       (simp add: demo_world_def demo_env_def)
qed

lemma demo_client_gets:
  assumes "sealed_msg (g_crypto_key demo_world) m (wire, d)"
  shows "client_gets (g_crypto_key demo_world) (demo_newcomer\<lparr>cli_virt_ip := vip\<rparr>) wire demo_locals (demo_rx wire)"
proof -
  have "fresh_for (demo_newcomer\<lparr>cli_virt_ip := vip\<rparr>) wire" by (rule fresh_for_reset [OF assms]) simp
  moreover have "tun_write_ok (w_env (demo_rx wire))"
    using tun_write_ok_demo by (simp add: tun_write_ok_def demo_rx_def) (simp add: demo_world_def demo_env_def)
  moreover have "net_addr_equal demo_server_addr demo_server_addr" by (simp add: net_addr_equal_def)
  ultimately show ?thesis using demo_receives by (auto simp: client_gets_def)
qed

text \<open>What the two hops of the concrete LAN put on the wire is sealed, so the next one takes it.\<close>

lemma demo_hello_sent:
  assumes "client_tun_iter demo_client (demo_tun (demo_hello h)) = (go, cli', u')" "ipv4_ok (demo_hello h) 20"
    and "(wire, d) \<in> set (datagrams (demo_tun (demo_hello h)) u')"
  shows "sealed_msg (g_crypto_key demo_world) (MSG_DATA, demo_hello h, d) (wire, d)"
proof -
  have "sends (demo_tun (demo_hello h)) u' [(MSG_DATA, demo_hello h, demo_server_addr)] []"
    using client_sends_packet [OF assms(1) demo_tun_facts(1,2,4)] assms(2) demo_hello_ok(3) by simp
  from sends_message [OF this assms(3)] show ?thesis using demo_tun_facts(3) by auto
qed

lemma demo_hello_relayed:
  assumes "server_run_iter demo_run_locals demo_relay (demo_rx_from wire (demo_addr 0)) = (go, l', srv', w')" "ipv4_ok (demo_hello h) 20"
    and "sealed_msg (g_crypto_key demo_world) (MSG_DATA, demo_hello h, d) (wire, d)"
    and "(wire', b) \<in> set (datagrams (demo_rx_from wire (demo_addr 0)) w')"
  shows "\<exists>m. sealed_msg (g_crypto_key demo_world) m (wire', b)"
proof -
  have "length (demo_hello h) \<le> 1600" "ipv4_ok (demo_hello h) (length (demo_hello h))" using assms(2) demo_hello_ok(3) by simp_all
  from server_hop [OF demo_relay_facts(1) demo_relay_gets [OF assms(3)] assms(1,3) this] sends_message [OF _ assms(4)]
  show ?thesis by (fastforce simp: demo_rx_from_def)
qed

end
