(* ===== verification/Spec2Isabelle.thy ===== *)
theory Spec2Isabelle
  imports Poly1305_Spec Proto_Sequence App_Events Win_Runtime Win_Socket Gui_Main Gui_Linux Tun_Platforms Peerforge_Server Lan_Delivery
begin

text \<open>
  TunD, a virtual LAN over UDP: a verification library of the command-line program under \<open>src/\<close>, of its load
  generator, and of the native runners of its graphical front end.

  \<^bold>\<open>The program.\<close> A server and any number of clients share a passphrase. A client registers and is given an
  address of \<open>10.9.0.0/24\<close>; every IPv4 packet it reads from its TUN device goes, sealed, to the server,
  which writes it to its own device or forwards it to the client that holds the destination address, or to
  all for the broadcast address. Joins, leaves and peer lists keep the clients' tables up to date;
  keepalives measure round trips and detect silence. Each side runs a main loop, a TUN thread and a timeout
  or keepalive thread over a table under one lock. The graphical front end is a Dart application that starts
  this program and reads its events; its C++ part under \<open>gui/\<close> opens the window, runs the message loop and, on
  Windows, asks for elevation.

  \<^bold>\<open>Model.\<close> One group of definitions per source file, in the order of the code. A \<open>struct\<close> is a record, an
  \<open>enum\<close> a datatype, a fixed-width integer a word of that width, \<open>int\<close> and \<open>time_t\<close> mathematical integers. A
  function that writes through pointers takes the values and returns them updated, with its result code
  first. Everything a function does to the process is its effect on the record \<open>world\<close> (theory \<open>World\<close>): the
  global variables of \<open>main.c\<close>, \<open>log.c\<close> and \<open>protocol.c\<close>, the datagrams sent, the packets written to the
  device, the standard streams and the open descriptors. The kernel is a parameter of the world, the record
  \<open>sysenv\<close> of outcomes by tick: every system call consumes a tick, so that every schedule of failures,
  interruptions and deliveries is some environment. What the theorems need of it is stated by named
  predicates (\<open>net_ok\<close>, \<open>random_ok\<close>, \<open>tun_write_ok\<close>), each satisfied by the concrete \<open>demo_env\<close> of the
  witnesses. \<open>getopt_long\<close> is a parameter of \<open>cli_parse\<close>. The Win32, IP Helper and Wintun functions and the
  utun calls of macOS are records of the same kind (\<open>win_env\<close>, \<open>wintun_env\<close>, \<open>darwin_env\<close>); the states beside
  the world hold what these platforms add: console, child processes, tables, adapters and sessions. The
  runners do not touch the world: their states are the desktop of objects and windows (\<open>desktop\<close>) and that of
  the GTK application, their environments \<open>gui_env\<close>, \<open>desk_env\<close> and \<open>gtk_env\<close>.

  \<^bold>\<open>Theories.\<close>
  \<^item> \<open>Prelude\<close>, \<open>C_Lib\<close>: byte order, buffers, C strings and formatting, with the collections \<open>frame\<close>,
    \<open>len_simps\<close> and \<open>wf_intros\<close>.
  \<^item> \<open>Monocypher_Util\<close>, \<open>Chacha20\<close>, \<open>Poly1305\<close>, \<open>Aead\<close>, \<open>Blake2b\<close>: the part of
    \<open>third_party/monocypher/monocypher.c\<close> that the program calls. \<open>Poly1305_Spec\<close> proves the limb arithmetic
    equal to the authenticator of RFC 8439; \<open>Aead\<close> that unlocking inverts exactly locking.
  \<^item> \<open>Tui_Events\<close>, \<open>Ui\<close>, \<open>App_Events\<close>: \<open>ui/events.c\<close>, \<open>ui/render.c\<close>, \<open>ui/tui.c\<close>, \<open>app/events.c\<close>. The event ring
    refines a queue of the last events; the JSON of an event is read back.
  \<^item> \<open>World\<close>: \<open>app/tund.h\<close>, \<open>app/log.c\<close> and the environment.
  \<^item> \<open>Proto_Wire\<close>, \<open>Proto_Sequence\<close>, \<open>Proto_Replay\<close>, \<open>Proto_Msg\<close>: \<open>protocol/protocol.c\<close>. A datagram is accepted
    exactly when a holder of the key sealed it; sequence numbers are unique under every interleaving of
    the atomic operations of the callers; the 64-bit window refines the set of accepted numbers; builders
    and readers are inverse; the IPv4 filter is exact.
  \<^item> \<open>Network\<close>, \<open>Tun_Linux\<close>, \<open>Sending\<close>: \<open>net/network.c\<close>, \<open>tun/linux/tun.c\<close>; what a call sends, as a list of
    messages to endpoints, and how such calls compose.
  \<^item> \<open>Server_Peers\<close>, \<open>Server_Handlers\<close>, \<open>Server_Threads\<close>: \<open>core/server/\<close>. Each stretch of code under the lock is
    a definition of its own, \<open>\<dots>_locked\<close>, and the handler is composed of it and of what follows the unlock.
  \<^item> \<open>Server_Inv\<close>, \<open>Server_System\<close>, \<open>Server_Lan\<close>, \<open>Server_Sends\<close>, \<open>Server_Props\<close>: the invariant of the peer table;
    the step relation whose steps are the critical sections of all threads, with every thread iteration
    shown to be a sequence of steps; the refinement of the table to a directory of addresses; what the
    handlers send; the properties of the server.
  \<^item> \<open>Client_Peers\<close>, \<open>Client_Session\<close>, \<open>Client_Run\<close>, \<open>Client_Inv\<close>, \<open>Client_System\<close>, \<open>Client_Register\<close>,
    \<open>Client_Props\<close>: the same for \<open>core/client/\<close>; the table refines a roster of names by address.
  \<^item> \<open>App_Cli\<close>, \<open>App_Main\<close>: \<open>app/cli.c\<close>, the POSIX part of \<open>app/platform.c\<close>, \<open>app/main.c\<close>.
  \<^item> \<open>Command_Line\<close>, \<open>Win_Runtime\<close>, \<open>Win_Socket\<close>: reading and quoting command lines;
    \<open>app/win_runtime.c\<close> with the Windows part of \<open>platform.c\<close> and the hidden prompt of \<open>cli.c\<close>; the Windows variants of the helpers in \<open>tund.h\<close>,
    \<open>network.c\<close> and \<open>protocol.c\<close>. The command line of the relaunch is read back as the arguments; error texts are stripped exactly; the clock is monotone where it does not overflow.
  \<^item> \<open>Gui_Windows\<close>: \<open>gui/windows/runner/utils.cpp\<close>, whose relaunch is read back by the same lemmas on 16-bit
    characters.
  \<^item> \<open>Gui_Window\<close>: \<open>win32_window.cpp\<close>, \<open>flutter_window.cpp\<close>. The objects live in a store by address, and the calls
    that come back through the window manager (\<open>Destroy\<close>, \<open>DestroyWindow\<close>, \<open>WndProc\<close> and the handlers) are mutually
    recursive. In every state that the operations reach, the object found for a window exists and holds its
    handle, the count of active windows is exact, and with the last object the window class is gone.
  \<^item> \<open>Gui_Main\<close>: \<open>main.cpp\<close> with the window on its stack: once the window is closed the loop ends, and nothing is
    left of the window, its engine and its class.
  \<^item> \<open>Gui_Linux\<close>: \<open>gui/linux/runner/\<close>: the arguments reach the Dart program without the name of the executable, and
    the window appears with the first frame.
  \<^item> \<open>Tun_Interface\<close>, \<open>Tun_Darwin\<close>, \<open>Wintun\<close>, \<open>Tun_Windows\<close>, \<open>Tun_Platforms\<close>: the contract of a TUN device;
    \<open>tun/darwin/\<close>; \<open>tun/windows/\<close> with its loader and its commands. On the three platforms a session gives
    back what it took and packets pass unchanged; on Windows a success of \<open>tun_set_ip\<close> means that the system
    reported address and route.
  \<^item> \<open>Peerforge\<close>, \<open>Peerforge_Props\<close>, \<open>Peerforge_Server\<close>: \<open>tools/peerforge/\<close>, the load generator and its server. The
    waits end and count only authentic replies; a data probe crosses the server to the right client; the
    test server ends with a sound table and a closed socket.
  \<^item> \<open>Lan_Session\<close>, \<open>Lan_Delivery\<close> and this theory: server and clients together, across the wire. The properties
    below say that a registration ends with the same address on both sides, that the rosters of the clients
    follow the directory of the server, and that a packet read from the device of one client is written,
    unchanged, to the device of the client that holds its destination, or of every other client and of the
    server for the broadcast address.

  \<^bold>\<open>Interfaces.\<close> Locales state what a component promises and carry the lemmas of its clients: the replay
  guard, the sections of the server and of the client (a reflexive, transitive relation that contains every
  critical section contains every thread), the roster, the event queue, the authenticated cipher, the
  characters of a command line (\<open>command_chars\<close>, for bytes and for wide characters), the life of a TUN session and the passing of packets (\<open>tun_lifetime\<close>, \<open>tun_transfer\<close>, interpreted for each of the
  three platforms) and the checks that Windows has applied a setting (\<open>config_check\<close>). Each is interpreted
  on the model's definitions in the theory that provides them.

  \<^bold>\<open>Loops and fuel.\<close> Loops over arrays are structural recursion or have a termination proof. The main loops
  of server and client run until the process is stopped and take fuel, \<open>None\<close> meaning that it ran out; the
  properties are about their iterations and hold for every number of them. \<open>proto_random_bytes\<close> sees a
  finite list of outcomes of \<open>read\<close>, so that it is interrupted finitely often. Registration makes the three
  attempts of the code and needs no fuel. The control thread on standard input is shown to end.
  The waits of peerforge and the loop of its server take fuel and are shown to return when the clock
  passes the deadline; \<open>tun_read\<close> on Windows takes fuel and is shown to return once a packet arrives, an error
  occurs or the process is stopped; its settings are polled twenty times, as in the code.
  The message loop of the front end on Windows takes fuel and is shown to return when the window has been
  closed and the queue runs empty after \<open>n\<close> messages, for every fuel above \<open>n\<close>; the one on Linux runs over the list
  of its events and is shown to end exactly if the window is closed. The recursion through \<open>DestroyWindow\<close> ends
  because each round marks or removes a window.

  \<^bold>\<open>Concurrency.\<close> Between two critical sections a thread works on local copies only, so that a run of the
  process is an interleaving of critical sections; the atomic counter of sequence numbers is interleaved
  operation by operation. The stop flags are read and written without effect on the tables.

  \<^bold>\<open>Not modelled.\<close> The Dart application under \<open>gui/lib\<close> and the Swift runner under \<open>gui/macos\<close>. The window manager, GTK and the Flutter engine, of which
  the model has the documented order of the calls they make into the runners and, as environments, their
  outcomes; of the messages the window manager sends on its own, \<open>WM_NCCREATE\<close> and \<open>WM_DESTROY\<close>, the others having
  no handler of the program's own or arriving through the queue. The parts of monocypher the program does not
  call; the Windows branch of peerforge's \<open>net.c\<close>; the unit tests and their check macro. The test server is
  linked with a logger and a device of its own, which are defined but not put in place of those of the
  handlers. The secrecy of the cipher is not a theorem of this library: authenticity is stated as equality
  with what a holder of the key computes.
\<close>

section \<open>Properties of the whole system\<close>

lemma registration_inv:
  assumes "server_inv srv" "server_handle_register srv payload plen from q w = (srv', w')" "unat plen \<le> length payload"
  shows "server_inv srv'"
proof -
  obtain res srv1 w1 where r: "server_register_locked srv payload plen from q w = (res, srv1, w1)" by (metis prod_cases3)
  then have "srv' = srv1" using assms(2) by (simp add: server_handle_register_def)
  then show ?thesis using server_step_inv [OF step_register [OF r assms(3)] assms(1)] by simp
qed

text \<open>
  C10: the handshake, across the wire. When the server admits a new endpoint and the client at that
  endpoint receives the first datagram of the answer, the client's registration succeeds, and the
  address it takes is the one the server has just entered for this endpoint in its directory.
\<close>

theorem handshake_assigns_address:
  assumes "server_inv srv" "net_ok w" "unat plen \<le> length payload" "srv_peer_count srv < 253"
    and "server_find_peer_by_addr srv from = None" "server_handle_register srv payload plen from q w = (srv', w')"
    and "datagrams w w' = (wire, dest) # others"
    and "net_ok v" "g_crypto_key v = g_crypto_key w" "receives v wire src" "net_addr_equal src (cli_server_addr cli)"
    and "fresh_for cli wire" "length buf = TUND_MAX_PKT" "c_strlen (cli_name cli) < 65536"
  shows "\<exists>cli' v' name. client_register buf from0 cli v = (0, cli', v') \<and> dest = from \<and>
    lan srv (cli_virt_ip cli') = None \<and> lan srv' = (lan srv)(cli_virt_ip cli' \<mapsto> (from, name)) \<and>
    cli_netmask cli' = htonl TUND_NETMASK"
proof -
  obtain vip name where r: "lan srv vip = None" "lan srv' = (lan srv)(vip \<mapsto> (from, c_str name))"
    "sends w w' ((MSG_ASSIGN, assign_payload vip (htonl TUND_NETMASK) (of_nat TUND_TUN_MTU), from) #
      (MSG_PEER_LIST, list_payload (take 43 (server_snapshot_broadcast_locked srv TUND_MAX_PEERS (-1))), from) #
      map (\<lambda>p. (MSG_PEER_JOIN, join_payload vip name, snap_real_addr p)) (server_snapshot_broadcast_locked srv TUND_MAX_PEERS (-1))) []"
    using registration_new [OF assms(1-6)] by (auto simp: Let_def)
  let ?p = "assign_payload vip (htonl TUND_NETMASK) (of_nat TUND_TUN_MTU)"
  have sm: "sealed_msg (g_crypto_key w) (MSG_ASSIGN, ?p, from) (wire, dest)"
    using sends_datagrams [OF r(3)] assms(7) by simp
  then obtain s n where sl: "dest = from" "s \<noteq> 0" "length n = 24" "wire = sealed (g_crypto_key w) MSG_ASSIGN s n ?p"
    by (auto simp: sealed_msg_def)
  have "proto_read_sequence wire = Some s" using sl by (simp add: sealed_def Let_def case_prod_beta)
  then have acc: "fst (proto_replay_accept (cli_server_replay cli) s)" using assms(12) by (simp add: fresh_for_def)
  have "\<exists>cli' v'. client_register buf from0 cli v = (0, cli', v') \<and>
      cli_virt_ip cli' = u32_of_mem (slice 0 4 ?p) \<and> cli_netmask cli' = u32_of_mem (slice 4 4 ?p)"
    using assms(8-11,13,14) sl acc
    by (intro register_succeeds [where s = s and n = n and src = src]) (simp_all add: receives_def)
  then show ?thesis using r(1,2) sl(1) by (auto simp: assign_payload_def slice_def)
qed

theorem handshake_assigns_address_witness:
  "\<exists>srv' w' wire others cli' v'. server_handle_register demo_server (lit ''eve'') 3 (demo_addr 9) 1 demo_world = (srv', w') \<and>
     datagrams demo_world w' = (wire, demo_addr 9) # others \<and>
     client_register (zeros TUND_MAX_PKT) sockaddr0 demo_newcomer (demo_rx wire) = (0, cli', v') \<and>
     lan srv' (cli_virt_ip cli') \<noteq> None"
proof -
  obtain srv' w' vip nm m1 m2 wire1 wire2 others wire
    where d: "server_handle_register demo_server (lit ''eve'') 3 (demo_addr 9) 1 demo_world = (srv', w')"
      "datagrams demo_world w' = (wire1, demo_addr 9) # (wire2, demo_addr 9) # others"
      "sealed_msg (g_crypto_key demo_world) m1 (wire1, demo_addr 9)"
    by (rule demo_registration) blast
  have f: "fresh_for demo_newcomer wire1" by (rule fresh_for_reset [OF d(3)]) simp
  have "\<exists>cli' v' name. client_register (zeros TUND_MAX_PKT) sockaddr0 demo_newcomer (demo_rx wire1) = (0, cli', v') \<and>
      demo_addr 9 = demo_addr 9 \<and> lan demo_server (cli_virt_ip cli') = None \<and>
      lan srv' = (lan demo_server)(cli_virt_ip cli' \<mapsto> (demo_addr 9, name)) \<and> cli_netmask cli' = htonl TUND_NETMASK"
    by (rule handshake_assigns_address [OF demo_server_inv net_ok_demo _ _ _ d(1,2) demo_receives(3,2,1) _ f])
      (simp_all add: net_addr_equal_def)
  then show ?thesis using d by auto
qed

text \<open>
  C11: a join reaches everybody. If a client's roster agrees with the server's directory and a new
  endpoint registers, the datagram that the server sends to this client makes its roster agree with
  the new directory, when its main loop receives it.
\<close>

theorem join_reaches_rosters:
  assumes "server_inv srv" "net_ok w" "unat plen \<le> length payload" "srv_peer_count srv < 253"
    and "server_find_peer_by_addr srv from = None" "server_handle_register srv payload plen from q w = (srv', w')"
    and "client_inv cli" "views_agree srv cli" "lan srv (cli_virt_ip cli) = Some (addr, nm)"
    and "(wire, addr) \<in> set (datagrams w w')" "receives v wire src" "g_crypto_key v = g_crypto_key w"
    and "net_addr_equal src (cli_server_addr cli)" "fresh_for cli wire" "length (cl_buf l) = TUND_MAX_PKT"
    and "client_run_iter l cli v = (go, l', cli', v')"
  shows "views_agree srv' cli'"
proof -
  let ?es = "server_snapshot_broadcast_locked srv TUND_MAX_PEERS (-1)"
  obtain vip name where r: "lan srv vip = None" "lan srv' = (lan srv)(vip \<mapsto> (from, c_str name))"
    "sends w w' ((MSG_ASSIGN, assign_payload vip (htonl TUND_NETMASK) (of_nat TUND_TUN_MTU), from) #
      (MSG_PEER_LIST, list_payload (take 43 ?es), from) # map (\<lambda>p. (MSG_PEER_JOIN, join_payload vip name, snap_real_addr p)) ?es) []"
    using registration_new [OF assms(1-6)] by (auto simp: Let_def)
  have ne: "from \<noteq> addr" using lan_endpoint [OF assms(1,9)] assms(5) by auto
  have sm: "sealed_msg (g_crypto_key w) (MSG_PEER_JOIN, join_payload vip name, addr) (wire, addr)"
    using sends_message [OF r(3) assms(10)] ne by auto
  obtain rest where "known_peers cli' = roster_message MSG_PEER_JOIN (join_payload vip name @ rest) (of_nat 36) (known_peers cli)"
    using client_hears [OF assms(7,16,15,11,13) sm [folded assms(12)] _ assms(14)] by auto
  then have "known_peers cli' = enlist vip name (known_peers cli)" by (simp only: roster_join_payload)
  then show ?thesis
    using agree_join [OF registration_inv [OF assms(1,6,3)] assms(8) r(1,2)] same_ends.run_iter [OF assms(16)] assms(9) by simp
qed

theorem join_reaches_rosters_witness:
  "\<exists>srv' w' wire go l' cli' v'. server_handle_register demo_server (lit ''eve'') 3 (demo_addr 9) 1 demo_world = (srv', w') \<and>
     client_run_iter demo_locals demo_client (demo_rx wire) = (go, l', cli', v') \<and> views_agree srv' cli'"
proof -
  obtain srv' w' vip nm m1 m2 wire1 wire2 others wire
    where d: "server_handle_register demo_server (lit ''eve'') 3 (demo_addr 9) 1 demo_world = (srv', w')"
      "(wire, demo_addr 0) \<in> set (datagrams demo_world w')" "\<exists>m. sealed_msg (g_crypto_key demo_world) m (wire, demo_addr 0)"
    by (rule demo_registration) blast
  obtain go l' cli' v' where it: "client_run_iter demo_locals demo_client (demo_rx wire) = (go, l', cli', v')" by (metis prod_cases4)
  have f: "fresh_for demo_client wire" using d(3) fresh_for_reset by force
  have ne: "htonl 0x0A090002 \<noteq> htonl 0x0A090003" by code_simp
  then have "lan demo_server (cli_virt_ip demo_client) = Some (demo_addr 0, lit ''peer'')" by (simp add: demo_lan)
  then have "views_agree srv' cli'"
    by (rule join_reaches_rosters [OF demo_server_inv net_ok_demo _ _ _ d(1) demo_client_inv demo_agree _ d(2)
        demo_receives(1,2) _ f demo_receives(4) it, rotated 3]) (simp_all add: net_addr_equal_def)
  then show ?thesis using d(1) it by blast
qed

text \<open>
  C12: a departure reaches everybody. If a client's roster agrees with the server's directory and another
  peer disconnects, the datagram that the server sends to this client makes its roster agree with the
  new directory, when its main loop receives it.
\<close>

theorem departure_reaches_rosters:
  assumes "server_inv srv" "net_ok w" "server_find_peer_by_addr srv from = Some i" "server_handle_disconnect srv from w = (srv', w')"
    and "client_inv cli" "views_agree srv cli" "lan srv (cli_virt_ip cli) = Some (addr, nm)"
    and "peer_virt_ip (srv_peers srv ! i) \<noteq> cli_virt_ip cli"
    and "(wire, addr) \<in> set (datagrams w w')" "receives v wire src" "g_crypto_key v = g_crypto_key w"
    and "net_addr_equal src (cli_server_addr cli)" "fresh_for cli wire" "length (cl_buf l) = TUND_MAX_PKT"
    and "client_run_iter l cli v = (go, l', cli', v')"
  shows "views_agree srv' cli'"
proof -
  let ?vip = "peer_virt_ip (srv_peers srv ! i)"
  have r: "lan srv' = (lan srv)(?vip := None)"
    "sends w w' (map (\<lambda>p. (MSG_PEER_LEAVE, mem_of_u32 ?vip, snap_real_addr p))
      (server_snapshot_broadcast_locked srv TUND_MAX_PEERS (int i))) []"
    using disconnect_registered [OF assms(1-4)] by blast+
  have sm: "sealed_msg (g_crypto_key w) (MSG_PEER_LEAVE, mem_of_u32 ?vip, addr) (wire, addr)"
    using sends_message [OF r(2) assms(9)] by auto
  obtain rest where "known_peers cli' = roster_message MSG_PEER_LEAVE (mem_of_u32 ?vip @ rest) (of_nat 4) (known_peers cli)"
    using client_hears [OF assms(5,15,14,10,12) sm [folded assms(11)] _ assms(13)] by auto
  then have "known_peers cli' = (known_peers cli)(?vip := None)" by (simp only: roster_leave_payload)
  then show ?thesis
    using agree_leave [OF assms(6) r(1) assms(8)] same_ends.run_iter [OF assms(15)] by simp
qed

theorem departure_reaches_rosters_witness:
  "\<exists>srv' w' wire go l' cli' v'. server_handle_disconnect demo_server (demo_addr 1) demo_world = (srv', w') \<and>
     client_run_iter demo_locals demo_client (demo_rx wire) = (go, l', cli', v') \<and> views_agree srv' cli'"
proof -
  have ne: "htonl 0x0A090002 \<noteq> htonl 0x0A090003" by code_simp
  then have me: "lan demo_server (cli_virt_ip demo_client) = Some (demo_addr 0, lit ''peer'')" by (simp add: demo_lan)
  have i: "server_find_peer_by_addr demo_server (demo_addr 1) = Some 1"
    by (simp add: server_find_peer_by_addr_def demo_server_def)
  have vi: "peer_virt_ip (srv_peers demo_server ! 1) \<noteq> cli_virt_ip demo_client" using ne by (simp add: demo_server_nth)
  obtain srv' w' where h: "server_handle_disconnect demo_server (demo_addr 1) demo_world = (srv', w')" by fastforce
  have "sends demo_world w' (map (\<lambda>p. (MSG_PEER_LEAVE, mem_of_u32 (peer_virt_ip (srv_peers demo_server ! 1)), snap_real_addr p))
      (server_snapshot_broadcast_locked demo_server TUND_MAX_PEERS (int 1))) []"
    using disconnect_registered [OF demo_server_inv net_ok_demo i h] by blast
  moreover have "demo_addr 0 \<in> snap_real_addr ` set (server_snapshot_broadcast_locked demo_server TUND_MAX_PEERS (int 1))"
    by (rule snapshot_excluding [OF demo_server_inv me vi])
  ultimately obtain wire m where d: "(wire, demo_addr 0) \<in> set (datagrams demo_world w')"
      "sealed_msg (g_crypto_key demo_world) m (wire, demo_addr 0)"
    using sends_datagram [of demo_world w' _ "[]" MSG_PEER_LEAVE "mem_of_u32 (peer_virt_ip (srv_peers demo_server ! 1))" "demo_addr 0"]
    by force
  obtain go l' cli' v' where it: "client_run_iter demo_locals demo_client (demo_rx wire) = (go, l', cli', v')" by (metis prod_cases4)
  have f: "fresh_for demo_client wire" by (rule fresh_for_reset [OF d(2)]) simp
  have "views_agree srv' cli'"
    by (rule departure_reaches_rosters [OF demo_server_inv net_ok_demo i h demo_client_inv demo_agree me vi d(1)
        demo_receives(1,2) _ f demo_receives(4) it]) (simp add: net_addr_equal_def)
  then show ?thesis using h it by blast
qed

text \<open>
  C13: a newcomer learns who is there. With at most 43 peers present, the second datagram that the server
  sends on a registration gives a client that has the assigned address and knows nobody yet a roster
  that agrees with the directory.
\<close>

theorem newcomer_learns_peers:
  assumes "server_inv srv" "net_ok w" "unat plen \<le> length payload" "srv_peer_count srv \<le> 43"
    and "server_find_peer_by_addr srv from = None" "server_handle_register srv payload plen from q w = (srv', w')"
    and "datagrams w w' = first # (wire, dest) # others"
    and "client_inv cli" "known_peers cli = Map.empty" "lan srv' (cli_virt_ip cli) = Some (from, nm)"
    and "receives v wire src" "g_crypto_key v = g_crypto_key w"
    and "net_addr_equal src (cli_server_addr cli)" "fresh_for cli wire" "length (cl_buf l) = TUND_MAX_PKT"
    and "client_run_iter l cli v = (go, l', cli', v')"
  shows "dest = from \<and> views_agree srv' cli'"
proof -
  let ?es = "server_snapshot_broadcast_locked srv TUND_MAX_PEERS (-1)"
  have c: "srv_peer_count srv < 253" using assms(4) by simp
  obtain vip name where r: "lan srv vip = None" "lan srv' = (lan srv)(vip \<mapsto> (from, c_str name))"
    "sends w w' ((MSG_ASSIGN, assign_payload vip (htonl TUND_NETMASK) (of_nat TUND_TUN_MTU), from) #
      (MSG_PEER_LIST, list_payload (take 43 ?es), from) # map (\<lambda>p. (MSG_PEER_JOIN, join_payload vip name, snap_real_addr p)) ?es) []"
    using registration_new [OF assms(1-3) c assms(5,6)] by (auto simp: Let_def)
  have few: "length ?es \<le> 43" using snapshot_length [OF assms(1)] assms(4) by simp
  have sm: "sealed_msg (g_crypto_key w) (MSG_PEER_LIST, list_payload (take 43 ?es), from) (wire, dest)"
    using sends_datagrams [OF r(3)] assms(7) by simp
  then have dest: "dest = from" by (simp add: sealed_msg_def)
  have me: "cli_virt_ip cli = vip"
  proof (rule ccontr)
    assume "cli_virt_ip cli \<noteq> vip"
    then have "lan srv (cli_virt_ip cli) = Some (from, nm)" using assms(10) r(2) by simp
    then show False using lan_endpoint [OF assms(1)] assms(5) by fastforce
  qed
  have "length (list_payload (take 43 ?es)) \<le> 1600" using few by simp
  then obtain rest where "known_peers cli' = roster_message MSG_PEER_LIST (list_payload (take 43 ?es) @ rest)
      (of_nat (length (list_payload (take 43 ?es)))) Map.empty"
    using client_hears [OF assms(8,16,15,11,13) sm [folded assms(12)] _ assms(14)] assms(9) by auto
  then show ?thesis
    using agree_newcomer [OF assms(1) few r(1,2)] same_ends.run_iter [OF assms(16)] me dest by simp
qed

theorem newcomer_learns_peers_witness:
  "\<exists>srv' w' vip wire go l' cli' v'. server_handle_register demo_server (lit ''eve'') 3 (demo_addr 9) 1 demo_world = (srv', w') \<and>
     client_run_iter demo_locals (demo_newcomer\<lparr>cli_virt_ip := vip\<rparr>) (demo_rx wire) = (go, l', cli', v') \<and> views_agree srv' cli'"
proof -
  obtain srv' w' vip nm m1 m2 wire1 wire2 others wire
    where d: "server_handle_register demo_server (lit ''eve'') 3 (demo_addr 9) 1 demo_world = (srv', w')"
      "lan srv' vip = Some (demo_addr 9, nm)" "datagrams demo_world w' = (wire1, demo_addr 9) # (wire2, demo_addr 9) # others"
      "sealed_msg (g_crypto_key demo_world) m2 (wire2, demo_addr 9)"
    by (rule demo_registration) blast
  let ?c = "demo_newcomer\<lparr>cli_virt_ip := vip\<rparr>"
  obtain go l' cli' v' where it: "client_run_iter demo_locals ?c (demo_rx wire2) = (go, l', cli', v')" by (metis prod_cases4)
  have f: "fresh_for ?c wire2" by (rule fresh_for_reset [OF d(4)]) simp
  have "demo_addr 9 = demo_addr 9 \<and> views_agree srv' cli'"
    by (rule newcomer_learns_peers [OF demo_server_inv net_ok_demo _ _ _ d(1,3) _ _ _ demo_receives(1,2) _ f demo_receives(4) it])
      (simp_all add: net_addr_equal_def d(2))
  then show ?thesis using d(1) it by blast
qed

text \<open>
  C1: a packet crosses the LAN. A packet that a client reads from its TUN device, with the address of one
  registered peer as its source and of another as its destination, leaves as exactly one datagram, to
  the server; when the server's main loop takes this datagram from the sender's endpoint, it sends
  exactly one datagram, to the endpoint of the destination, and writes nothing to its own device; and
  when the main loop of the client there takes that one, it writes exactly this packet, unchanged, to its
  TUN device and sends nothing. The directory and the roster stay as they are.
\<close>

theorem packet_crosses_lan:
  assumes "server_inv srv" "client_inv receiver" "length pkt \<le> TUND_MAX_PLAINTEXT" "ipv4_ok pkt (length pkt)"
    and "lan srv (u32_of_mem (slice 12 4 pkt)) = Some (a, name_a)" "lan srv (u32_of_mem (slice 16 4 pkt)) = Some (b, name_b)"
    and "net_ok u" "tun_holds u pkt" "\<not> cli_tun_quit sender" "client_tun_iter sender u = (go, sender', u')"
  shows "\<exists>wire. datagrams u u' = [(wire, cli_server_addr sender)] \<and>
    (\<forall>w l go l' srv' w'. server_gets (g_crypto_key u) srv wire a l w \<longrightarrow> server_run_iter l srv w = (go, l', srv', w') \<longrightarrow>
      lan srv' = lan srv \<and> w_tun_out w' = w_tun_out w \<and>
      (\<exists>wire. datagrams w w' = [(wire, b)] \<and>
        (\<forall>v l go l' receiver' v'. client_gets (g_crypto_key u) receiver wire l v \<longrightarrow>
            client_run_iter l receiver v = (go, l', receiver', v') \<longrightarrow>
          w_tun_out v' = w_tun_out v @ [pkt] \<and> w_sent v' = w_sent v \<and> known_peers receiver' = known_peers receiver)))"
proof -
  have p: "length pkt \<le> 1600" using assms(3) by simp
  obtain wire where out: "datagrams u u' = [(wire, cli_server_addr sender)]"
      "sealed_msg (g_crypto_key u) (MSG_DATA, pkt, cli_server_addr sender) (wire, cli_server_addr sender)"
    using sends_single client_sends_packet [OF assms(10,7,8,9) p assms(4)] by blast
  have relay: "lan srv' = lan srv \<and> w_tun_out w' = w_tun_out w \<and> (\<exists>wire. datagrams w w' = [(wire, b)] \<and>
      sealed_msg (g_crypto_key u) (MSG_DATA, pkt, b) (wire, b))"
    if g: "server_gets (g_crypto_key u) srv wire a l w" and i: "server_run_iter l srv w = (go, l', srv', w')" for w l go l' srv' w'
  proof -
    have "lan srv' = lan srv" "sends w w' [(MSG_DATA, pkt, b)] []" "g_crypto_key w = g_crypto_key u"
      using server_hop [OF assms(1) g i out(2) p assms(4)] unicast_route [of _ pkt a name_a b name_b] assms(5,6) g
      by (auto simp: server_gets_def)
    then show ?thesis using sends_single by (fastforce simp: sends_def)
  qed
  show ?thesis
    apply (intro exI [of _ wire] conjI [OF out(1)] allI impI)
    subgoal premises h using relay [OF h] client_hop [OF assms(2) _ _ _ p assms(4)] by blast
    done
qed

theorem packet_crosses_lan_witness:
  "\<exists>cli' u' wire srv' w' wire' v'.
     (\<exists>go. client_tun_iter demo_client (demo_tun (demo_hello 3)) = (go, cli', u')) \<and>
     datagrams (demo_tun (demo_hello 3)) u' = [(wire, demo_server_addr)] \<and>
     (\<exists>go l'. server_run_iter demo_run_locals demo_relay (demo_rx_from wire (demo_addr 0)) = (go, l', srv', w')) \<and>
     datagrams (demo_rx_from wire (demo_addr 0)) w' = [(wire', demo_addr 1)] \<and>
     (\<exists>go l' c. client_run_iter demo_locals (demo_newcomer\<lparr>cli_virt_ip := htonl 0x0A090003\<rparr>) (demo_rx wire') = (go, l', c, v')) \<and>
     w_tun_out v' = w_tun_out (demo_rx wire') @ [demo_hello 3]"
proof -
  let ?p = "demo_hello 3" and ?r = "demo_newcomer\<lparr>cli_virt_ip := htonl 0x0A090003\<rparr>"
  have ne: "htonl 0x0A090002 \<noteq> htonl 0x0A090003" by code_simp
  have ok: "ipv4_ok ?p (length ?p)" "length ?p \<le> TUND_MAX_PLAINTEXT" "client_inv ?r" using demo_hello_ok by simp_all
  have lans: "lan demo_relay (u32_of_mem (slice 12 4 ?p)) = Some (demo_addr 0, lit ''peer'')"
      "lan demo_relay (u32_of_mem (slice 16 4 ?p)) = Some (demo_addr 1, lit ''peer'')"
    using ne by (simp_all add: demo_relay_facts(2) demo_lan demo_hello_ok)
  obtain go c u' where t: "client_tun_iter demo_client (demo_tun ?p) = (go, c, u')" by (metis prod_cases3)
  note X = packet_crosses_lan [OF demo_relay_facts(1) ok(3,2,1) lans demo_tun_facts(1,2,4) t, unfolded demo_tun_facts(3)]
  show ?thesis
  proof (rule exE [OF X], elim conjE, goal_cases)
    case (1 wire)
    then have w: "datagrams (demo_tun ?p) u' = [(wire, demo_server_addr)]" by simp
    have sm: "sealed_msg (g_crypto_key demo_world) (MSG_DATA, ?p, demo_server_addr) (wire, demo_server_addr)"
      using demo_hello_sent [OF t demo_hello_ok(1)] w by simp
    obtain go2 l2 srv' w' where s: "server_run_iter demo_run_locals demo_relay (demo_rx_from wire (demo_addr 0)) = (go2, l2, srv', w')"
      by (metis prod_cases4)
    obtain wire' where w2: "datagrams (demo_rx_from wire (demo_addr 0)) w' = [(wire', demo_addr 1)]"
        "\<And>v l go l' receiver' v'. client_gets (g_crypto_key demo_world) ?r wire' l v \<Longrightarrow>
           client_run_iter l ?r v = (go, l', receiver', v') \<Longrightarrow> w_tun_out v' = w_tun_out v @ [?p]"
      using 1(2) [rule_format, OF demo_relay_gets [OF sm] s] by blast
    obtain m where "sealed_msg (g_crypto_key demo_world) m (wire', demo_addr 1)"
      using demo_hello_relayed [OF s demo_hello_ok(1) sm] w2(1) by auto
    note g = demo_client_gets [OF this]
    obtain go3 l3 c3 v' where v: "client_run_iter demo_locals ?r (demo_rx wire') = (go3, l3, c3, v')" by (metis prod_cases4)
    show ?case using t w s w2(1) w2(2) [OF g v] v by blast
  qed
qed

text \<open>
  C8: a broadcast reaches everybody. A packet that a client sends to the broadcast address of the LAN
  leaves as exactly one datagram; the server writes it to its own device and sends a datagram to the
  endpoint of every other registered peer; and whichever of them a peer receives, it writes exactly
  this packet, unchanged, to its TUN device.
\<close>

theorem broadcast_crosses_lan:
  assumes "server_inv srv" "client_inv receiver" "length pkt \<le> TUND_MAX_PLAINTEXT" "ipv4_ok pkt (length pkt)"
    and "lan srv (u32_of_mem (slice 12 4 pkt)) = Some (a, name_a)" "u32_of_mem (slice 16 4 pkt) = htonl 0x0A0900FF"
    and "lan srv (cli_virt_ip receiver) = Some (b, name_b)" "cli_virt_ip receiver \<noteq> u32_of_mem (slice 12 4 pkt)"
    and "net_ok u" "tun_holds u pkt" "\<not> cli_tun_quit sender" "client_tun_iter sender u = (go, sender', u')"
  shows "\<exists>wire. datagrams u u' = [(wire, cli_server_addr sender)] \<and>
    (\<forall>w l go l' srv' w'. server_gets (g_crypto_key u) srv wire a l w \<longrightarrow> server_run_iter l srv w = (go, l', srv', w') \<longrightarrow>
      lan srv' = lan srv \<and> w_tun_out w' = w_tun_out w @ [pkt] \<and> b \<in> snd ` set (datagrams w w') \<and>
      (\<forall>wire v l go l' receiver' v'. (wire, b) \<in> set (datagrams w w') \<longrightarrow> client_gets (g_crypto_key u) receiver wire l v \<longrightarrow>
          client_run_iter l receiver v = (go, l', receiver', v') \<longrightarrow>
        w_tun_out v' = w_tun_out v @ [pkt] \<and> w_sent v' = w_sent v \<and> known_peers receiver' = known_peers receiver))"
proof -
  have p: "length pkt \<le> 1600" using assms(3) by simp
  obtain wire where out: "datagrams u u' = [(wire, cli_server_addr sender)]"
      "sealed_msg (g_crypto_key u) (MSG_DATA, pkt, cli_server_addr sender) (wire, cli_server_addr sender)"
    using sends_single client_sends_packet [OF assms(12,9,10,11) p assms(4)] by blast
  have relay: "lan srv' = lan srv \<and> w_tun_out w' = w_tun_out w @ [pkt] \<and> b \<in> snd ` set (datagrams w w') \<and>
      (\<forall>wire. (wire, b) \<in> set (datagrams w w') \<longrightarrow> sealed_msg (g_crypto_key u) (MSG_DATA, pkt, b) (wire, b))"
    if g: "server_gets (g_crypto_key u) srv wire a l w" and i: "server_run_iter l srv w = (go, l', srv', w')" for w l go l' srv' w'
  proof -
    obtain srv1 where r: "server_inv srv1" "lan srv1 = lan srv" "lan srv' = lan srv"
        "sends w w' (fst (data_route srv1 pkt a)) (snd (data_route srv1 pkt a))"
      using server_hop [OF assms(1) g i out(2) p assms(4)] by blast
    note R = broadcast_route [OF r(1) _ assms(6) _ assms(8), unfolded r(2), OF assms(5,7)]
    have k: "g_crypto_key w = g_crypto_key u" using g by (simp add: server_gets_def)
    have "sealed_msg (g_crypto_key u) (MSG_DATA, pkt, b) (wire, b)" if "(wire, b) \<in> set (datagrams w w')" for wire
      using sends_message [OF r(4) that] R(3) k by fastforce
    moreover have "b \<in> snd ` set (datagrams w w')" using sends_datagram [OF r(4) R(1)] by force
    ultimately show ?thesis using r(3,4) R(2) by (auto simp: sends_def)
  qed
  show ?thesis
    apply (intro exI [of _ wire] conjI [OF out(1)] allI impI)
    subgoal premises h using relay [OF h] client_hop [OF assms(2) _ _ _ p assms(4)] by blast
    done
qed

theorem broadcast_crosses_lan_witness:
  "\<exists>cli' u' wire srv' w' wire' v'.
     (\<exists>go. client_tun_iter demo_client (demo_tun (demo_hello 255)) = (go, cli', u')) \<and>
     datagrams (demo_tun (demo_hello 255)) u' = [(wire, demo_server_addr)] \<and>
     (\<exists>go l'. server_run_iter demo_run_locals demo_relay (demo_rx_from wire (demo_addr 0)) = (go, l', srv', w')) \<and>
     (wire', demo_addr 1) \<in> set (datagrams (demo_rx_from wire (demo_addr 0)) w') \<and>
     (\<exists>go l' c. client_run_iter demo_locals (demo_newcomer\<lparr>cli_virt_ip := htonl 0x0A090003\<rparr>) (demo_rx wire') = (go, l', c, v')) \<and>
     w_tun_out v' = w_tun_out (demo_rx wire') @ [demo_hello 255]"
proof -
  let ?p = "demo_hello 255" and ?r = "demo_newcomer\<lparr>cli_virt_ip := htonl 0x0A090003\<rparr>"
  have ne: "htonl 0x0A090002 \<noteq> htonl 0x0A090003" by code_simp
  have ok: "ipv4_ok ?p (length ?p)" "length ?p \<le> TUND_MAX_PLAINTEXT" "client_inv ?r" using demo_hello_ok by simp_all
  have lans: "lan demo_relay (u32_of_mem (slice 12 4 ?p)) = Some (demo_addr 0, lit ''peer'')"
      "lan demo_relay (cli_virt_ip ?r) = Some (demo_addr 1, lit ''peer'')" "cli_virt_ip ?r \<noteq> u32_of_mem (slice 12 4 ?p)"
    using ne by (simp_all add: demo_relay_facts(2) demo_lan demo_hello_ok)
  obtain go c u' where t: "client_tun_iter demo_client (demo_tun ?p) = (go, c, u')" by (metis prod_cases3)
  note X = broadcast_crosses_lan [OF demo_relay_facts(1) ok(3,2,1) lans(1) demo_hello_ok(6) lans(2,3) demo_tun_facts(1,2,4) t,
      unfolded demo_tun_facts(3)]
  show ?thesis
  proof (rule exE [OF X], elim conjE, goal_cases)
    case (1 wire)
    then have w: "datagrams (demo_tun ?p) u' = [(wire, demo_server_addr)]" by simp
    have sm: "sealed_msg (g_crypto_key demo_world) (MSG_DATA, ?p, demo_server_addr) (wire, demo_server_addr)"
      using demo_hello_sent [OF t demo_hello_ok(2)] w by simp
    obtain go2 l2 srv' w' where s: "server_run_iter demo_run_locals demo_relay (demo_rx_from wire (demo_addr 0)) = (go2, l2, srv', w')"
      by (metis prod_cases4)
    note R = 1(2) [rule_format, OF demo_relay_gets [OF sm] s]
    then obtain wire' where w2: "(wire', demo_addr 1) \<in> set (datagrams (demo_rx_from wire (demo_addr 0)) w')" by auto
    obtain m where "sealed_msg (g_crypto_key demo_world) m (wire', demo_addr 1)"
      using demo_hello_relayed [OF s demo_hello_ok(2) sm w2] by auto
    note g = demo_client_gets [OF this]
    obtain go3 l3 c3 v' where v: "client_run_iter demo_locals ?r (demo_rx wire') = (go3, l3, c3, v')" by (metis prod_cases4)
    have "w_tun_out v' = w_tun_out (demo_rx wire') @ [?p]" using R w2 g v by blast
    then show ?case using t w s w2 v by blast
  qed
qed

end
